(* ===== verification/Prelude.thy ===== *)
theory Prelude
  imports Main "HOL-Library.AList" "HOL-Library.Char_ord" "HOL-Library.List_Lexorder"
begin

text \<open>
  Shared vocabulary of the development: results as sums, the insertion-ordered map of
  \<^verbatim>\<open>serde_json\<close> (feature \<^verbatim>\<open>preserve_order\<close>) and the ordered map of the standard
  library as association lists, and the string operations the sources use.  A Rust string is
  a list of Unicode scalar values; here it is an Isabelle \<open>string\<close>, whose characters are the
  code points 0 to 255, so the text of the model is Latin-1 text: every character class and
  comparison below is Rust's restricted to these code points.
\<close>

named_theorems im_simps \<open>laws of insertion-ordered maps\<close>
named_theorems str_simps \<open>laws of the string helpers\<close>

section \<open>Results\<close>

text \<open>The \<^verbatim>\<open>?\<close> operator over a list: the first error wins (\<^verbatim>\<open>collect::<Result<Vec<_>, _>>\<close>).\<close>

fun collect_res :: "('e + 'a) list \<Rightarrow> 'e + 'a list" where
  "collect_res [] = Inr []"
| "collect_res (Inl e # _) = Inl e"
| "collect_res (Inr x # rs) =
     (case collect_res rs of Inl e \<Rightarrow> Inl e | Inr xs \<Rightarrow> Inr (x # xs))"

lemma collect_res_map_Inr [simp]: "collect_res (map Inr xs) = Inr xs"
  by (induction xs) auto

lemma collect_res_Inr_iff: "collect_res rs = Inr xs \<longleftrightarrow> rs = map Inr xs"
proof (induction rs arbitrary: xs)
  case (Cons r rs)
  show ?case
  proof (cases r)
    case (Inr x)
    then show ?thesis using Cons.IH by (cases xs) (auto split: sum.splits)
  qed (cases xs; simp)
qed auto

lemma collect_res_Inl:
  "collect_res rs = Inl e \<Longrightarrow> \<exists>xs rs'. rs = map Inr xs @ Inl e # rs'"
proof (induction rs)
  case (Cons r rs)
  show ?case
  proof (cases r)
    case (Inl a)
    with Cons.prems have "r # rs = map Inr [] @ Inl e # rs" by simp
    then show ?thesis by blast
  next
    case (Inr x)
    with Cons.prems have "collect_res rs = Inl e" by (auto split: sum.splits)
    from Cons.IH [OF this] obtain xs rs' where "rs = map Inr xs @ Inl e # rs'" by blast
    with Inr have "r # rs = map Inr (x # xs) @ Inl e # rs'" by simp
    then show ?thesis by blast
  qed
qed simp

text \<open>The \<^verbatim>\<open>?\<close> operator, and a \<^verbatim>\<open>for\<close> loop whose body ends with it, threading a local variable.\<close>

definition rbind :: "'e + 'a \<Rightarrow> ('a \<Rightarrow> 'e + 'b) \<Rightarrow> 'e + 'b" where
  "rbind r f = (case r of Inl e \<Rightarrow> Inl e | Inr x \<Rightarrow> f x)"

fun fold_res :: "('a \<Rightarrow> 's \<Rightarrow> 'e + 's) \<Rightarrow> 'a list \<Rightarrow> 's \<Rightarrow> 'e + 's" where
  "fold_res f [] s = Inr s"
| "fold_res f (x # xs) s = rbind (f x s) (fold_res f xs)"

definition check_all :: "('a \<Rightarrow> 'e + unit) \<Rightarrow> 'a list \<Rightarrow> 'e + unit" where
  "check_all f xs = fold_res (\<lambda>x _. f x) xs ()"

text \<open>The same where the code may also panic, which is \<open>None\<close>.\<close>

definition pn_bind :: "('e + 'a) option \<Rightarrow> ('a \<Rightarrow> ('e + 'b) option) \<Rightarrow> ('e + 'b) option" where
  "pn_bind r f = (case r of None \<Rightarrow> None | Some (Inl e) \<Rightarrow> Some (Inl e) | Some (Inr x) \<Rightarrow> f x)"

fun fold_panic :: "('a \<Rightarrow> 's \<Rightarrow> ('e + 's) option) \<Rightarrow> 'a list \<Rightarrow> 's \<Rightarrow> ('e + 's) option" where
  "fold_panic f [] s = Some (Inr s)"
| "fold_panic f (x # xs) s = pn_bind (f x s) (fold_panic f xs)"

lemma pn_bind_simps [simp]:
  "pn_bind None f = None" "pn_bind (Some (Inl e)) f = Some (Inl e)" "pn_bind (Some (Inr x)) f = f x"
  by (simp_all add: pn_bind_def)

lemma pn_bind_Inr_iff: "pn_bind r f = Some (Inr y) \<longleftrightarrow> (\<exists>x. r = Some (Inr x) \<and> f x = Some (Inr y))"
  by (auto simp: pn_bind_def split: option.splits sum.splits)

lemma pn_bind_None_iff: "pn_bind r f = None \<longleftrightarrow> r = None \<or> (\<exists>x. r = Some (Inr x) \<and> f x = None)"
  by (auto simp: pn_bind_def split: option.splits sum.splits)

lemma pn_bind_total: "r \<noteq> None \<Longrightarrow> (\<And>x. f x \<noteq> None) \<Longrightarrow> pn_bind r f \<noteq> None"
  by (simp only: pn_bind_None_iff) blast

lemma fold_panic_invariant:
  assumes "fold_panic f xs s = Some (Inr s')" "P s"
    and "\<And>x s s'. x \<in> set xs \<Longrightarrow> P s \<Longrightarrow> f x s = Some (Inr s') \<Longrightarrow> P s'"
  shows "P s'"
  using assms by (induction xs arbitrary: s) (auto simp: pn_bind_Inr_iff)

lemma fold_panic_total: "(\<And>x s. x \<in> set xs \<Longrightarrow> f x s \<noteq> None) \<Longrightarrow> fold_panic f xs s \<noteq> None"
  by (induction xs arbitrary: s) (auto simp: pn_bind_None_iff)

lemma rbind_simps [simp]: "rbind (Inl e) f = Inl e" "rbind (Inr x) f = f x"
  by (simp_all add: rbind_def)

lemma rbind_Inr_iff: "rbind r f = Inr y \<longleftrightarrow> (\<exists>x. r = Inr x \<and> f x = Inr y)"
  by (cases r) auto

lemma check_all_Inr_iff: "check_all f xs = Inr u \<longleftrightarrow> (\<forall>x \<in> set xs. f x = Inr ())"
proof -
  have "fold_res (\<lambda>x _. f x) xs () = Inr () \<longleftrightarrow> (\<forall>x \<in> set xs. f x = Inr ())"
    by (induction xs) (auto simp: rbind_Inr_iff)
  then show ?thesis by (simp add: check_all_def)
qed

lemma fold_res_invariant:
  assumes "fold_res f xs s = Inr s'" "P s"
    and "\<And>x s s'. x \<in> set xs \<Longrightarrow> P s \<Longrightarrow> f x s = Inr s' \<Longrightarrow> P s'"
  shows "P s'"
  using assms by (induction xs arbitrary: s) (auto simp: rbind_Inr_iff)

section \<open>Insertion-ordered maps\<close>

text \<open>
  \<^verbatim>\<open>serde_json::Map\<close> with \<^verbatim>\<open>preserve_order\<close>: \<^verbatim>\<open>insert\<close> overwrites in place or appends,
  \<^verbatim>\<open>remove\<close> is a swap-remove (the last entry takes the hole).
\<close>

type_synonym 'v imap = "(string \<times> 'v) list"

abbreviation im_get :: "('k \<times> 'v) list \<Rightarrow> 'k \<Rightarrow> 'v option" where
  "im_get \<equiv> map_of"

abbreviation im_insert :: "'k \<Rightarrow> 'v \<Rightarrow> ('k \<times> 'v) list \<Rightarrow> ('k \<times> 'v) list" where
  "im_insert \<equiv> AList.update"

definition im_keys :: "('k \<times> 'v) list \<Rightarrow> 'k list" where
  "im_keys m = map fst m"

definition im_contains :: "('k \<times> 'v) list \<Rightarrow> 'k \<Rightarrow> bool" where
  "im_contains m k = (im_get m k \<noteq> None)"

fun im_swap_remove :: "'k \<Rightarrow> ('k \<times> 'v) list \<Rightarrow> ('k \<times> 'v) list" where
  "im_swap_remove k [] = []"
| "im_swap_remove k ((k', v) # ps) =
     (if k' = k then (if ps = [] then [] else last ps # butlast ps)
      else (k', v) # im_swap_remove k ps)"

definition im_extend :: "('k \<times> 'v) list \<Rightarrow> ('k \<times> 'v) list \<Rightarrow> ('k \<times> 'v) list" where
  "im_extend m ps = fold (\<lambda>(k, v). im_insert k v) ps m"

definition im_wf :: "('k \<times> 'v) list \<Rightarrow> bool" where
  "im_wf m = distinct (im_keys m)"

lemma im_get_insert [im_simps, simp]: "im_get (im_insert k v m) k' = (if k' = k then Some v else im_get m k')"
  by (simp add: update_conv')

lemma im_wf_Nil [simp]: "im_wf []"
  by (simp add: im_wf_def im_keys_def)

lemma im_wf_insert [im_simps, simp]: "im_wf m \<Longrightarrow> im_wf (im_insert k v m)"
  by (simp add: im_wf_def im_keys_def distinct_update)

lemma set_im_swap_remove:
  "im_wf m \<Longrightarrow> set (im_swap_remove k m) = {p \<in> set m. fst p \<noteq> k}"
proof (induction k m rule: im_swap_remove.induct)
  case (2 k k' v ps)
  show ?case
  proof (cases "k' = k")
    case True
    with "2.prems" have "k \<notin> fst ` set ps" by (simp add: im_wf_def im_keys_def)
    moreover have "ps \<noteq> [] \<Longrightarrow> set (last ps # butlast ps) = set ps"
      by (metis append_butlast_last_id rotate1.simps(2) set_rotate1)
    ultimately show ?thesis using True by force
  qed (use "2" in \<open>auto simp: im_wf_def im_keys_def\<close>)
qed simp

lemma im_wf_swap_remove [im_simps, simp]: "im_wf m \<Longrightarrow> im_wf (im_swap_remove k m)"
proof (induction k m rule: im_swap_remove.induct)
  case (2 k k' v ps)
  show ?case
  proof (cases "k' = k")
    case True
    from "2.prems" have d: "distinct (map fst ps)" by (simp add: im_wf_def im_keys_def)
    then show ?thesis using True
      by (cases ps rule: rev_cases) (auto simp: im_wf_def im_keys_def)
  next
    case False
    with "2" have "im_wf (im_swap_remove k ps)" by (simp add: im_wf_def im_keys_def)
    moreover have "k' \<notin> fst ` set (im_swap_remove k ps)"
      using "2.prems" set_im_swap_remove [of ps k] by (auto simp: im_wf_def im_keys_def)
    ultimately show ?thesis using False by (simp add: im_wf_def im_keys_def)
  qed
qed simp

lemma im_get_swap_remove [im_simps, simp]:
  assumes "im_wf m"
  shows "im_get (im_swap_remove k m) k' = (if k' = k then None else im_get m k')"
proof -
  have d: "distinct (map fst m)" "distinct (map fst (im_swap_remove k m))"
    using assms im_wf_swap_remove [OF assms] by (auto simp: im_wf_def im_keys_def)
  have "im_get (im_swap_remove k m) k' = Some v \<longleftrightarrow>
      (if k' = k then None else im_get m k') = Some v" for v
    using d set_im_swap_remove [OF assms, of k] by auto
  then show ?thesis by (metis option.exhaust)
qed

lemma im_keys_insert: "set (im_keys (im_insert k v m)) = insert k (set (im_keys m))"
  by (simp add: im_keys_def dom_update)

lemma im_get_None_iff: "im_get m k = None \<longleftrightarrow> k \<notin> set (im_keys m)"
  by (simp add: im_keys_def map_of_eq_None_iff)

lemma im_contains_iff: "im_contains m k \<longleftrightarrow> k \<in> set (im_keys m)"
  using im_get_None_iff [of m k] by (auto simp: im_contains_def)

lemma im_get_extend [im_simps]:
  "im_get (im_extend m ps) k = (case im_get (rev ps) k of None \<Rightarrow> im_get m k | Some v \<Rightarrow> Some v)"
  unfolding im_extend_def
  by (induction ps arbitrary: m) (auto simp: map_add_def split: option.splits)

lemma im_wf_extend [im_simps, simp]: "im_wf m \<Longrightarrow> im_wf (im_extend m ps)"
  unfolding im_extend_def by (induction ps arbitrary: m) auto

lemma map_of_map_keyed:
  "map_of (map (\<lambda>(k, v). (k, f k v)) m) k = map_option (f k) (map_of m k)"
  by (induction m) auto

section \<open>Ordered maps\<close>

text \<open>\<^verbatim>\<open>BTreeMap<String, _>\<close>: an association list with strictly increasing keys.\<close>

fun bt_insert :: "'k::linorder \<Rightarrow> 'v \<Rightarrow> ('k \<times> 'v) list \<Rightarrow> ('k \<times> 'v) list" where
  "bt_insert k v [] = [(k, v)]"
| "bt_insert k v ((k', v') # m) =
     (if k < k' then (k, v) # (k', v') # m
      else if k = k' then (k, v) # m
      else (k', v') # bt_insert k v m)"

definition bt_wf :: "('k::linorder \<times> 'v) list \<Rightarrow> bool" where
  "bt_wf m = sorted_wrt (<) (map fst m)"

lemma bt_get_insert [simp]: "map_of (bt_insert k v m) k' = (if k' = k then Some v else map_of m k')"
  by (induction k v m rule: bt_insert.induct) auto

lemma set_keys_bt_insert [simp]: "fst ` set (bt_insert k v m) = insert k (fst ` set m)"
  by (induction k v m rule: bt_insert.induct) auto

lemma bt_wf_insert [simp]: "bt_wf m \<Longrightarrow> bt_wf (bt_insert k v m)"
proof (induction k v m rule: bt_insert.induct)
  case (2 k v k' v' m)
  have "set (map fst (bt_insert k v m)) = insert k (set (map fst m))" by simp
  with "2" show ?case by (auto simp: bt_wf_def) 
qed (simp add: bt_wf_def)

lemma bt_wf_Nil [simp]: "bt_wf []"
  by (simp add: bt_wf_def)

lemma bt_wf_distinct: "bt_wf m \<Longrightarrow> distinct (map fst m)"
  by (simp add: bt_wf_def strict_sorted_iff)

section \<open>Strings\<close>

text \<open>\<^verbatim>\<open>char::is_whitespace\<close> on the code points 0 to 255.\<close>

definition is_ws :: "char \<Rightarrow> bool" where
  "is_ws c = (let n = of_char c :: int in (9 \<le> n \<and> n \<le> 13) \<or> n = 32 \<or> n = 133 \<or> n = 160)"

definition is_digit :: "char \<Rightarrow> bool" where
  "is_digit c = (let n = of_char c :: int in 48 \<le> n \<and> n \<le> 57)"

definition digit_val :: "char \<Rightarrow> int" where
  "digit_val c = of_char c - 48"

definition is_alpha :: "char \<Rightarrow> bool" where
  "is_alpha c = (let n = of_char c :: int in (65 \<le> n \<and> n \<le> 90) \<or> (97 \<le> n \<and> n \<le> 122))"

definition to_lower :: "char \<Rightarrow> char" where
  "to_lower c = (let n = of_char c :: int in if 65 \<le> n \<and> n \<le> 90 then char_of (n + 32) else c)"

definition trim :: "string \<Rightarrow> string" where
  "trim s = rev (dropWhile is_ws (rev (dropWhile is_ws s)))"

text \<open>\<^verbatim>\<open>str::split(c)\<close>: always at least one part.\<close>

fun split_on :: "char \<Rightarrow> string \<Rightarrow> string list" where
  "split_on c [] = [[]]"
| "split_on c (x # xs) =
     (if x = c then [] # split_on c xs
      else (case split_on c xs of [] \<Rightarrow> [[x]] | p # ps \<Rightarrow> (x # p) # ps))"

lemma split_on_neq_Nil [simp]: "split_on c s \<noteq> []"
  by (induction s) (auto split: list.splits)

lemma split_on_no_sep: "c \<notin> set s \<Longrightarrow> split_on c s = [s]"
  by (induction s) auto

lemma split_on_append_sep:
  "c \<notin> set p \<Longrightarrow> split_on c (p @ c # s) = p # split_on c s"
  by (induction p) auto

lemma split_on_sep: "split_on c (t @ c # s) = split_on c t @ split_on c s"
  by (induction t) (auto split: list.splits)

lemma trim_id: "\<lbrakk>s \<noteq> []; \<not> is_ws (hd s); \<not> is_ws (last s)\<rbrakk> \<Longrightarrow> trim s = s"
proof -
  assume a: "s \<noteq> []" "\<not> is_ws (hd s)" "\<not> is_ws (last s)"
  have "dropWhile is_ws s = s" using a by (cases s) auto
  moreover have "dropWhile is_ws (rev s) = rev s"
    using a by (cases "rev s") (auto simp: hd_rev [symmetric])
  ultimately show "trim s = s" by (simp add: trim_def)
qed

text \<open>\<^verbatim>\<open>str::contains\<close> (substring).\<close>

fun str_contains :: "string \<Rightarrow> string \<Rightarrow> bool" where
  "str_contains [] needle = (needle = [])"
| "str_contains (c # s) needle = (take (length needle) (c # s) = needle \<or> str_contains s needle)"

lemma str_contains_iff: "str_contains s needle \<longleftrightarrow> (\<exists>a b. s = a @ needle @ b)"
proof (induction s)
  case (Cons c s)
  have "take (length needle) (c # s) = needle \<longleftrightarrow> (\<exists>b. c # s = needle @ b)"
    by (metis append_eq_conv_conj append_take_drop_id)
  then show ?case using Cons.IH
    by (auto simp: Cons_eq_append_conv)
qed auto

end
