(* ===== verification/F64.thy ===== *)
theory F64
  imports Prelude Complex_Main
begin

text \<open>
  The \<^verbatim>\<open>f64\<close> of the language: IEEE 754 binary64 with round-to-nearest-even.  A finite
  value is its exact rational; negative zero, the infinities and NaN are separate values.
  Every arithmetic result is the exact rational result rounded once (\<open>f_round\<close>), as the
  standard prescribes; the definitions compute, so closed instances evaluate in the kernel.
\<close>

section \<open>Values and rounding\<close>

datatype f64 = F_NaN | F_Inf (f_inf_neg: bool) | F_NegZero | F_Fin (f_val: rat)

datatype ordering = OLess | OEqual | OGreater

function blen :: "int \<Rightarrow> int" where
  "blen n = (if n \<le> 0 then 0 else 1 + blen (n div 2))"
  by pat_completeness auto
termination
  by (relation "measure nat") auto

declare blen.simps [simp del]

definition pow2 :: "int \<Rightarrow> rat" where
  "pow2 k = (if 0 \<le> k then of_int (2 ^ nat k) else 1 / of_int (2 ^ nat (- k)))"

text \<open>The exponent of the leading bit of a positive rational.\<close>

definition ilog2 :: "rat \<Rightarrow> int" where
  "ilog2 q = (case quotient_of q of (n, d) \<Rightarrow>
     let k = blen n - blen d in if pow2 k \<le> q then k else k - 1)"

definition round_even :: "rat \<Rightarrow> int" where
  "round_even x = (let f = \<lfloor>x\<rfloor>; r = x - of_int f in
     if r < 1 / 2 then f else if r > 1 / 2 then f + 1 else if even f then f else f + 1)"

definition f_round :: "rat \<Rightarrow> f64" where
  "f_round q =
     (if q = 0 then F_Fin 0
      else let a = \<bar>q\<bar>; e = max (ilog2 a - 52) (- 1074); m = round_even (a / pow2 e);
               v = of_int m * pow2 e
           in if 971 < e \<or> e = 971 \<and> 2 ^ 53 \<le> m then F_Inf (q < 0)
              else if m = 0 then (if q < 0 then F_NegZero else F_Fin 0)
              else F_Fin (if q < 0 then - v else v))"

definition f_of_int :: "int \<Rightarrow> f64" where
  "f_of_int n = f_round (of_int n)"

section \<open>Classification, comparison, arithmetic\<close>

fun f_is_finite :: "f64 \<Rightarrow> bool" where
  "f_is_finite F_NaN = False"
| "f_is_finite (F_Inf _) = False"
| "f_is_finite _ = True"

fun f_neg :: "f64 \<Rightarrow> bool" where
  "f_neg F_NaN = False"
| "f_neg (F_Inf s) = s"
| "f_neg F_NegZero = True"
| "f_neg (F_Fin q) = (q < 0)"

text \<open>The rational value of a finite number.\<close>

fun f_rat :: "f64 \<Rightarrow> rat" where
  "f_rat (F_Fin q) = q"
| "f_rat _ = 0"

definition f_signed_zero :: "bool \<Rightarrow> f64" where
  "f_signed_zero s = (if s then F_NegZero else F_Fin 0)"

definition ord_of :: "'a::linorder \<Rightarrow> 'a \<Rightarrow> ordering" where
  "ord_of a b = (if a < b then OLess else if a = b then OEqual else OGreater)"

text \<open>\<^verbatim>\<open>f64::partial_cmp\<close>.\<close>

fun f_cmp :: "f64 \<Rightarrow> f64 \<Rightarrow> ordering option" where
  "f_cmp F_NaN _ = None"
| "f_cmp _ F_NaN = None"
| "f_cmp (F_Inf s) (F_Inf t) = Some (if s = t then OEqual else if s then OLess else OGreater)"
| "f_cmp (F_Inf s) _ = Some (if s then OLess else OGreater)"
| "f_cmp _ (F_Inf t) = Some (if t then OGreater else OLess)"
| "f_cmp x y = Some (ord_of (f_rat x) (f_rat y))"

definition f_eq :: "f64 \<Rightarrow> f64 \<Rightarrow> bool" where
  "f_eq x y = (f_cmp x y = Some OEqual)"

fun f_negate :: "f64 \<Rightarrow> f64" where
  "f_negate F_NaN = F_NaN"
| "f_negate (F_Inf s) = F_Inf (\<not> s)"
| "f_negate F_NegZero = F_Fin 0"
| "f_negate (F_Fin q) = (if q = 0 then F_NegZero else F_Fin (- q))"

fun f_add :: "f64 \<Rightarrow> f64 \<Rightarrow> f64" where
  "f_add F_NaN _ = F_NaN"
| "f_add _ F_NaN = F_NaN"
| "f_add (F_Inf s) (F_Inf t) = (if s = t then F_Inf s else F_NaN)"
| "f_add (F_Inf s) _ = F_Inf s"
| "f_add _ (F_Inf t) = F_Inf t"
| "f_add F_NegZero F_NegZero = F_NegZero"
| "f_add x y = f_round (f_rat x + f_rat y)"

definition f_sub :: "f64 \<Rightarrow> f64 \<Rightarrow> f64" where
  "f_sub x y = f_add x (f_negate y)"

fun f_mul :: "f64 \<Rightarrow> f64 \<Rightarrow> f64" where
  "f_mul F_NaN _ = F_NaN"
| "f_mul _ F_NaN = F_NaN"
| "f_mul (F_Inf s) (F_Inf t) = F_Inf (s \<noteq> t)"
| "f_mul (F_Inf s) y = (if f_rat y = 0 then F_NaN else F_Inf (s \<noteq> f_neg y))"
| "f_mul x (F_Inf t) = (if f_rat x = 0 then F_NaN else F_Inf (f_neg x \<noteq> t))"
| "f_mul x y = (let p = f_rat x * f_rat y in
     if p = 0 then f_signed_zero (f_neg x \<noteq> f_neg y) else f_round p)"

fun f_div :: "f64 \<Rightarrow> f64 \<Rightarrow> f64" where
  "f_div F_NaN _ = F_NaN"
| "f_div _ F_NaN = F_NaN"
| "f_div (F_Inf s) (F_Inf t) = F_NaN"
| "f_div (F_Inf s) y = F_Inf (s \<noteq> f_neg y)"
| "f_div x (F_Inf t) = f_signed_zero (f_neg x \<noteq> t)"
| "f_div x y =
     (if f_rat y = 0 then (if f_rat x = 0 then F_NaN else F_Inf (f_neg x \<noteq> f_neg y))
      else if f_rat x = 0 then f_signed_zero (f_neg x \<noteq> f_neg y)
      else f_round (f_rat x / f_rat y))"

definition rat_trunc :: "rat \<Rightarrow> int" where
  "rat_trunc q = (if 0 \<le> q then \<lfloor>q\<rfloor> else - \<lfloor>- q\<rfloor>)"

text \<open>\<^verbatim>\<open>%\<close>: the truncated remainder; it is exact and carries the sign of the dividend.\<close>

fun f_rem :: "f64 \<Rightarrow> f64 \<Rightarrow> f64" where
  "f_rem F_NaN _ = F_NaN"
| "f_rem _ F_NaN = F_NaN"
| "f_rem (F_Inf s) _ = F_NaN"
| "f_rem x (F_Inf t) = x"
| "f_rem x y =
     (if f_rat y = 0 then F_NaN
      else let r = f_rat x - f_rat y * of_int (rat_trunc (f_rat x / f_rat y))
           in if r = 0 then f_signed_zero (f_neg x) else f_round r)"

section \<open>Casts\<close>

definition i64_min :: int where "i64_min = - (2 ^ 63)"
definition i64_max :: int where "i64_max = 2 ^ 63 - 1"
definition u64_max :: int where "u64_max = 2 ^ 64 - 1"

text \<open>\<^verbatim>\<open>as i64\<close> and \<^verbatim>\<open>as u64\<close> truncate and saturate; NaN becomes 0.\<close>

fun f_to_i64 :: "f64 \<Rightarrow> int" where
  "f_to_i64 F_NaN = 0"
| "f_to_i64 (F_Inf s) = (if s then i64_min else i64_max)"
| "f_to_i64 F_NegZero = 0"
| "f_to_i64 (F_Fin q) = max i64_min (min i64_max (rat_trunc q))"

fun f_to_u64 :: "f64 \<Rightarrow> int" where
  "f_to_u64 F_NaN = 0"
| "f_to_u64 (F_Inf s) = (if s then 0 else u64_max)"
| "f_to_u64 F_NegZero = 0"
| "f_to_u64 (F_Fin q) = max 0 (min u64_max (rat_trunc q))"

text \<open>\<^verbatim>\<open>f64::fract() == 0.0\<close> for a finite value, and \<^verbatim>\<open>abs() < 9.0e15\<close>.\<close>

definition f_is_integral :: "f64 \<Rightarrow> bool" where
  "f_is_integral x = (f_is_finite x \<and> f_rat x = of_int \<lfloor>f_rat x\<rfloor>)"

definition f_abs_lt :: "f64 \<Rightarrow> rat \<Rightarrow> bool" where
  "f_abs_lt x b = (f_is_finite x \<and> \<bar>f_rat x\<bar> < b)"

text \<open>\<^verbatim>\<open>f64::round\<close>: half away from zero.\<close>

fun f_round_half_away :: "f64 \<Rightarrow> f64" where
  "f_round_half_away (F_Fin q) =
     (if q < 0 then (let n = \<lfloor>- q + 1 / 2\<rfloor> in if n = 0 then F_NegZero else F_Fin (of_int (- n)))
      else F_Fin (of_int \<lfloor>q + 1 / 2\<rfloor>))"
| "f_round_half_away x = x"

section \<open>Parsing\<close>

text \<open>\<^verbatim>\<open>str::parse::<f64>\<close>: the grammar of the standard library, correctly rounded.\<close>

definition digits_val :: "string \<Rightarrow> int" where
  "digits_val ds = foldl (\<lambda>n c. 10 * n + digit_val c) 0 ds"

definition split_sign :: "string \<Rightarrow> bool \<times> string" where
  "split_sign s = (case s of
     [] \<Rightarrow> (False, [])
   | c # cs \<Rightarrow> if c = CHR ''-'' then (True, cs) else if c = CHR ''+'' then (False, cs)
              else (False, s))"

definition parse_exponent :: "string \<Rightarrow> int option" where
  "parse_exponent s = (case s of
     [] \<Rightarrow> Some 0
   | c # cs \<Rightarrow>
       if to_lower c = CHR ''e'' then
         (case split_sign cs of (neg, ds) \<Rightarrow>
            if ds \<noteq> [] \<and> list_all is_digit ds
            then Some (if neg then - digits_val ds else digits_val ds) else None)
       else None)"

definition pow10 :: "int \<Rightarrow> rat" where
  "pow10 k = (if 0 \<le> k then of_int (10 ^ nat k) else 1 / of_int (10 ^ nat (- k)))"

definition parse_decimal :: "bool \<Rightarrow> string \<Rightarrow> f64 option" where
  "parse_decimal neg s =
     (let ip = takeWhile is_digit s; r1 = dropWhile is_digit s;
          (fp, r2) = (case r1 of
             c # r \<Rightarrow> if c = CHR ''.'' then (takeWhile is_digit r, dropWhile is_digit r) else ([], r1)
           | [] \<Rightarrow> ([], []))
      in if ip = [] \<and> fp = [] then None
         else (case parse_exponent r2 of None \<Rightarrow> None
               | Some e \<Rightarrow>
                   let q = of_int (digits_val (ip @ fp)) * pow10 (e - int (length fp))
                   in Some (if q = 0 then f_signed_zero neg
                            else f_round (if neg then - q else q))))"

definition parse_f64 :: "string \<Rightarrow> f64 option" where
  "parse_f64 s = (case split_sign s of (neg, body) \<Rightarrow>
     let low = map to_lower body in
     if low = ''inf'' \<or> low = ''infinity'' then Some (F_Inf neg)
     else if low = ''nan'' then Some F_NaN
     else parse_decimal neg body)"

section \<open>Facts\<close>

lemma blen_le_iff: "blen n \<le> int k \<longleftrightarrow> n < 2 ^ k"
proof (induction n arbitrary: k rule: blen.induct)
  case (1 n)
  show ?case
  proof (cases "n \<le> 0")
    case True
    moreover have "(0::int) < 2 ^ k" by simp
    ultimately have "n < 2 ^ k" by linarith
    then show ?thesis using True by (subst blen.simps) simp
  next
    case False
    have IH: "blen (n div 2) \<le> int j \<longleftrightarrow> n div 2 < 2 ^ j" for j
      using "1.IH" False by blast
    have nonneg: "0 \<le> blen m" for m
      by (induction m rule: blen.induct) (subst blen.simps, simp)
    show ?thesis
    proof (cases k)
      case (Suc j)
      have "blen n \<le> int k \<longleftrightarrow> blen (n div 2) \<le> int j"
        using False Suc by (subst blen.simps) simp
      then show ?thesis using IH [of j] Suc by auto
    qed (use False nonneg [of "n div 2"] in \<open>subst blen.simps, simp\<close>)
  qed
qed

lemma pow2_pos [simp]: "0 < pow2 k"
  by (simp add: pow2_def)

lemma round_even_of_int [simp]: "round_even (of_int n) = n"
  by (simp add: round_even_def)

lemma ilog2_of_int_le:
  assumes "n < 2 ^ k"
  shows "ilog2 (of_int n) \<le> int k - 1"
proof -
  from assms have "blen n \<le> int k" by (simp only: blen_le_iff)
  moreover have "blen 1 = 1" by (simp add: blen.simps)
  ultimately show ?thesis by (simp add: ilog2_def quotient_of_int Let_def)
qed

text \<open>Integers below 2 to the 53 are represented exactly.\<close>

lemma f_of_int_exact:
  assumes "\<bar>n\<bar> < 2 ^ 53"
  shows "f_of_int n = F_Fin (of_int n)"
proof (cases "n = 0")
  case False
  define e where "e = max (ilog2 \<bar>of_int n\<bar> - 52) (- 1074)"
  have a: "\<bar>of_int n :: rat\<bar> = of_int \<bar>n\<bar>" by simp
  have "ilog2 (of_int \<bar>n\<bar>) \<le> 52" using ilog2_of_int_le [of "\<bar>n\<bar>" 53] assms False by simp
  then have e: "e \<le> 0" by (simp only: e_def a)
  define z where "z = \<bar>n\<bar> * 2 ^ nat (- e)"
  have dv: "\<bar>of_int n\<bar> / pow2 e = of_int z"
    using e by (auto simp: pow2_def z_def)
  have bk: "of_int z * pow2 e = \<bar>of_int n\<bar>"
    using dv pow2_pos [of e] by (metis less_irrefl nonzero_eq_divide_eq)
  have z0: "z \<noteq> 0" using False by (simp add: z_def)
  have "f_round (of_int n) =
      F_Fin (if (of_int n :: rat) < 0 then - \<bar>of_int n\<bar> else \<bar>of_int n\<bar>)"
    unfolding f_round_def Let_def e_def [symmetric] dv round_even_of_int bk
    using False e z0 by simp
  then show ?thesis by (simp add: f_of_int_def)
qed (simp add: f_of_int_def f_round_def)

lemma f_round_of_int_exact:
  "\<bar>n\<bar> < 2 ^ 53 \<Longrightarrow> f_round (of_int n) = F_Fin (of_int n)"
  using f_of_int_exact by (simp add: f_of_int_def)

lemma f_is_integral_of_int [simp]: "f_is_integral (F_Fin (of_int n))"
  by (simp add: f_is_integral_def)

lemma rat_trunc_of_int [simp]: "rat_trunc (of_int n) = n"
  by (simp add: rat_trunc_def)

lemma f_to_i64_range: "i64_min \<le> f_to_i64 x \<and> f_to_i64 x \<le> i64_max"
  by (cases x) (auto simp: i64_min_def i64_max_def)

lemma f_cmp_Fin: "f_cmp (F_Fin a) (F_Fin b) = Some (ord_of a b)"
  by simp

text \<open>Comparison is antisymmetric and, on numbers other than NaN, reflexive.\<close>

fun ord_flip :: "ordering \<Rightarrow> ordering" where
  "ord_flip OLess = OGreater" | "ord_flip OEqual = OEqual" | "ord_flip OGreater = OLess"

lemma ord_of_flip: "ord_of b a = ord_flip (ord_of a b)"
  by (auto simp: ord_of_def)

lemma f_cmp_flip: "f_cmp y x = map_option ord_flip (f_cmp x y)"
  by (cases x; cases y) (auto simp: ord_of_def)

lemma f_cmp_refl: "x \<noteq> F_NaN \<Longrightarrow> f_cmp x x = Some OEqual"
  by (cases x) (auto simp: ord_of_def)

lemma f_cmp_None_iff: "f_cmp x y = None \<longleftrightarrow> x = F_NaN \<or> y = F_NaN"
  by (cases x; cases y) auto

end
