(* ===== verification/Json.thy ===== *)
theory Json
  imports F64
begin

text \<open>
  JSON values (\<^verbatim>\<open>serde_json::Value\<close>): the data every record carries.  Objects keep insertion
  order (feature \<^verbatim>\<open>preserve_order\<close>) but compare without regard to it; the three shapes of a
  number are never equal to one another, so the integer 1 and the float 1.0 differ.
\<close>

section \<open>Values\<close>

datatype number = PosInt int | NegInt int | FloatN f64

datatype json =
    JNull
  | JBool bool
  | JNumber number
  | JString string
  | JArray "json list"
  | JObject "(string \<times> json) list"

fun num_eq :: "number \<Rightarrow> number \<Rightarrow> bool" where
  "num_eq (PosInt a) (PosInt b) = (a = b)"
| "num_eq (NegInt a) (NegInt b) = (a = b)"
| "num_eq (FloatN a) (FloatN b) = f_eq a b"
| "num_eq _ _ = False"

fun json_eq :: "json \<Rightarrow> json \<Rightarrow> bool" where
  "json_eq JNull JNull = True"
| "json_eq (JBool a) (JBool b) = (a = b)"
| "json_eq (JNumber a) (JNumber b) = num_eq a b"
| "json_eq (JString a) (JString b) = (a = b)"
| "json_eq (JArray xs) (JArray ys) = list_all2 json_eq xs ys"
| "json_eq (JObject m) (JObject m') =
     (length m = length m' \<and>
      (\<forall>(k, v) \<in> set m. case im_get m' k of None \<Rightarrow> False | Some w \<Rightarrow> json_eq v w))"
| "json_eq _ _ = False"

text \<open>\<^verbatim>\<open>Vec<Value>::contains\<close>.\<close>

definition json_contains :: "json list \<Rightarrow> json \<Rightarrow> bool" where
  "json_contains xs v = list_ex (\<lambda>x. json_eq x v) xs"

section \<open>Constructors and accessors\<close>

definition num_of_int :: "int \<Rightarrow> number" where
  "num_of_int n = (if n < 0 then NegInt n else PosInt n)"

definition value_of_int :: "int \<Rightarrow> json" where
  "value_of_int n = JNumber (num_of_int n)"

text \<open>\<^verbatim>\<open>Value::from(f64)\<close>: a non-finite number becomes null.\<close>

definition value_of_f64 :: "f64 \<Rightarrow> json" where
  "value_of_f64 x = (if f_is_finite x then JNumber (FloatN x) else JNull)"

fun num_as_f64 :: "number \<Rightarrow> f64" where
  "num_as_f64 (PosInt n) = f_of_int n"
| "num_as_f64 (NegInt n) = f_of_int n"
| "num_as_f64 (FloatN x) = x"

fun as_f64 :: "json \<Rightarrow> f64 option" where
  "as_f64 (JNumber n) = Some (num_as_f64 n)"
| "as_f64 _ = None"

fun as_str :: "json \<Rightarrow> string option" where
  "as_str (JString s) = Some s"
| "as_str _ = None"

fun as_object :: "json \<Rightarrow> (string \<times> json) list option" where
  "as_object (JObject m) = Some m"
| "as_object _ = None"

fun as_array :: "json \<Rightarrow> json list option" where
  "as_array (JArray xs) = Some xs"
| "as_array _ = None"

fun is_object :: "json \<Rightarrow> bool" where
  "is_object (JObject _) = True" | "is_object _ = False"

fun is_string :: "json \<Rightarrow> bool" where
  "is_string (JString _) = True" | "is_string _ = False"

fun is_null :: "json \<Rightarrow> bool" where
  "is_null JNull = True" | "is_null _ = False"

section \<open>Well-formedness\<close>

text \<open>
  What the library guarantees of every value: unsigned and signed integers in range, finite
  floats, distinct keys.
\<close>

fun wf_number :: "number \<Rightarrow> bool" where
  "wf_number (PosInt n) = (0 \<le> n \<and> n \<le> u64_max)"
| "wf_number (NegInt n) = (i64_min \<le> n \<and> n < 0)"
| "wf_number (FloatN x) = f_is_finite x"

fun wf_json :: "json \<Rightarrow> bool" where
  "wf_json JNull = True"
| "wf_json (JBool _) = True"
| "wf_json (JNumber n) = wf_number n"
| "wf_json (JString _) = True"
| "wf_json (JArray xs) = (\<forall>x \<in> set xs. wf_json x)"
| "wf_json (JObject m) = (distinct (map fst m) \<and> (\<forall>p \<in> set m. wf_json (snd p)))"

section \<open>Facts\<close>

lemma num_eq_refl [simp]: "wf_number n \<Longrightarrow> num_eq n n"
  by (cases n) (auto simp: f_eq_def intro: f_cmp_refl)

lemma json_eq_refl [simp]: "wf_json v \<Longrightarrow> json_eq v v"
proof (induction v rule: wf_json.induct)
  case (6 m)
  then show ?case by (auto simp: map_of_is_SomeI)
qed (auto simp: list_all2_same)

lemma wf_value_of_f64 [simp]: "wf_json (value_of_f64 x)"
  by (simp add: value_of_f64_def)

lemma wf_value_of_int [simp]: "i64_min \<le> n \<Longrightarrow> n \<le> u64_max \<Longrightarrow> wf_json (value_of_int n)"
  by (simp add: value_of_int_def num_of_int_def)

lemma wf_json_im_get: "wf_json (JObject m) \<Longrightarrow> im_get m k = Some v \<Longrightarrow> wf_json v"
  by (auto dest!: map_of_SomeD)

lemma wf_json_im_insert [simp]:
  assumes "wf_json (JObject m)" "wf_json v"
  shows "wf_json (JObject (im_insert k v m))"
proof -
  have d: "distinct (map fst (im_insert k v m))" using assms(1) by (simp add: distinct_update)
  have "wf_json (snd p)" if "p \<in> set (im_insert k v m)" for p
  proof -
    have "map_of (im_insert k v m) (fst p) = Some (snd p)"
      using d that by (simp only: map_of_eq_Some_iff prod.collapse)
    then show ?thesis using assms wf_json_im_get [OF assms(1), of "fst p" "snd p"]
      by (simp split: if_splits)
  qed
  with d show ?thesis by simp
qed

text \<open>An integer is never JSON-equal to a float, whatever their values.\<close>

lemma json_eq_int_float [simp]:
  "\<not> json_eq (value_of_int n) (JNumber (FloatN x))"
  "\<not> json_eq (JNumber (FloatN x)) (value_of_int n)"
  by (simp_all add: value_of_int_def num_of_int_def)

end
