(* ===== verification/Expr_Syntax.thy ===== *)
theory Expr_Syntax
  imports Json
begin

text \<open>
  The expression language's syntax: AST (\<^verbatim>\<open>expr/ast.rs\<close>), errors (\<^verbatim>\<open>expr/mod.rs\<close>) and
  tokenizer (\<^verbatim>\<open>expr/token.rs\<close>).  An error message is the constructor of its format string
  with the values the source interpolates.  The tokenizer's index into the character array is
  the suffix of characters still to read.
\<close>

section \<open>Abstract syntax\<close>

datatype cmp_op = CEq | CNeq | CGt | CGte | CLt | CLte

datatype expr =
    Lit json
  | Path "string list"
  | EList "expr list"
  | Not expr
  | And expr expr
  | Or expr expr
  | Cmp cmp_op expr expr
  | In expr expr
  | Add expr expr
  | Sub expr expr
  | Mul expr expr
  | Div expr expr
  | Rem expr expr
  | Call string "expr list"

section \<open>Tokens and errors\<close>

datatype sym =
    Dollar | Dot | LParen | RParen | LBracket | RBracket | Comma | Plus | Minus | Star
  | Slash | Percent | EqEq | NotEq | SGt | SGte | SLt | SLte

datatype token = Ident string | NumberT f64 | StringT string | Sym sym

datatype parse_msg =
    M_expected_eqeq
  | M_expected_noteq
  | M_unexpected_char char
  | M_bad_escape
  | M_unterminated
  | M_invalid_number string
  | M_trailing nat
  | M_expected_symbol sym "token option"
  | M_expected_ident "token option"
  | M_unexpected_token "token option"
  | M_name_call string "token option"
  | M_number_not_finite

datatype eval_msg =
    E_in_not_list json
  | E_field string
  | E_not_finite
  | E_no_arg
  | E_now_args
  | E_uuid_args
  | E_env_unset string
  | E_env_arg json
  | E_var_unset string
  | E_var_arg json
  | E_unknown_fn string
  | E_len json
  | E_compare json json
  | E_text_not_number string
  | E_not_number json

datatype expr_error = ParseErr parse_msg | EvalErr eval_msg

section \<open>Tokenizer\<close>

definition symbol :: "char \<Rightarrow> sym option" where
  "symbol c =
     (if c = CHR ''$'' then Some Dollar
      else if c = CHR ''.'' then Some Dot
      else if c = CHR ''('' then Some LParen
      else if c = CHR '')'' then Some RParen
      else if c = CHR ''['' then Some LBracket
      else if c = CHR '']'' then Some RBracket
      else if c = CHR '','' then Some Comma
      else if c = CHR ''+'' then Some Plus
      else if c = CHR ''-'' then Some Minus
      else if c = CHR ''*'' then Some Star
      else if c = CHR ''/'' then Some Slash
      else if c = CHR ''%'' then Some Percent
      else None)"

definition two_char_op :: "char \<Rightarrow> string \<Rightarrow> expr_error + token \<times> string" where
  "two_char_op c cs =
     (let two = (cs \<noteq> [] \<and> hd cs = CHR ''='');
          rest = (if two then tl cs else cs)
      in if c = CHR ''='' then
           (if two then Inr (Sym EqEq, rest) else Inl (ParseErr M_expected_eqeq))
         else if c = CHR ''!'' then
           (if two then Inr (Sym NotEq, rest) else Inl (ParseErr M_expected_noteq))
         else if c = CHR ''>'' then Inr (Sym (if two then SGte else SGt), rest)
         else Inr (Sym (if two then SLte else SLt), rest))"

fun read_string :: "char \<Rightarrow> string \<Rightarrow> string \<Rightarrow> expr_error + string \<times> string" where
  "read_string quote acc [] = Inl (ParseErr M_unterminated)"
| "read_string quote acc (c # cs) =
     (if c = CHR 0x5C then
        (case cs of [] \<Rightarrow> Inl (ParseErr M_bad_escape)
         | e # cs' \<Rightarrow> read_string quote (acc @ [e]) cs')
      else if c = quote then Inr (acc, cs)
      else read_string quote (acc @ [c]) cs)"

definition read_number :: "string \<Rightarrow> expr_error + f64 \<times> string" where
  "read_number cs =
     (let num = (\<lambda>c. is_digit c \<or> c = CHR ''.''); txt = takeWhile num cs
      in case parse_f64 txt of
           None \<Rightarrow> Inl (ParseErr (M_invalid_number txt))
         | Some x \<Rightarrow> Inr (x, dropWhile num cs))"

definition ident_char :: "char \<Rightarrow> bool" where
  "ident_char c = (is_alpha c \<or> is_digit c \<or> c = CHR ''_'')"

definition read_ident :: "string \<Rightarrow> string \<times> string" where
  "read_ident cs = (takeWhile ident_char cs, dropWhile ident_char cs)"

definition next_token :: "char \<Rightarrow> string \<Rightarrow> expr_error + token \<times> string" where
  "next_token c cs =
     (case symbol c of
        Some s \<Rightarrow> Inr (Sym s, cs)
      | None \<Rightarrow>
          if c = CHR ''='' \<or> c = CHR ''!'' \<or> c = CHR ''>'' \<or> c = CHR ''<'' then two_char_op c cs
          else if c = CHR 0x22 \<or> c = CHR 0x27 then
            (case read_string c [] cs of Inl e \<Rightarrow> Inl e | Inr (s, r) \<Rightarrow> Inr (StringT s, r))
          else if is_digit c then
            (case read_number (c # cs) of Inl e \<Rightarrow> Inl e | Inr (x, r) \<Rightarrow> Inr (NumberT x, r))
          else if is_alpha c \<or> c = CHR ''_'' then
            (case read_ident (c # cs) of (name, r) \<Rightarrow> Inr (Ident name, r))
          else Inl (ParseErr (M_unexpected_char c)))"

lemma read_string_length:
  "read_string q acc cs = Inr (s, r) \<Longrightarrow> length r < length cs"
  by (induction q acc cs rule: read_string.induct) (auto split: if_splits list.splits)

lemma two_char_op_length: "two_char_op c cs = Inr (t, r) \<Longrightarrow> length r \<le> length cs"
  by (auto simp: two_char_op_def Let_def split: if_splits)

lemma read_number_length:
  "is_digit c \<Longrightarrow> read_number (c # cs) = Inr (x, r) \<Longrightarrow> length r \<le> length cs"
  by (auto simp: read_number_def Let_def length_dropWhile_le split: option.splits)

lemma read_ident_length:
  "ident_char c \<Longrightarrow> read_ident (c # cs) = (s, r) \<Longrightarrow> length r \<le> length cs"
  by (auto simp: read_ident_def length_dropWhile_le)

lemma next_token_length:
  assumes "next_token c cs = Inr (t, r)"
  shows "length r \<le> length cs"
proof (cases "symbol c")
  case None
  then consider "two_char_op c cs = Inr (t, r)"
    | s where "read_string c [] cs = Inr (s, r)"
    | x where "is_digit c" "read_number (c # cs) = Inr (x, r)"
    | s where "ident_char c" "read_ident (c # cs) = (s, r)"
    using assms unfolding next_token_def ident_char_def
    by (simp split: if_splits sum.splits prod.splits)
  then show ?thesis
    by cases (auto dest: two_char_op_length read_string_length read_number_length read_ident_length)
qed (use assms in \<open>simp add: next_token_def\<close>)

function tokenize :: "string \<Rightarrow> expr_error + token list" where
  "tokenize [] = Inr []"
| "tokenize (c # cs) =
     (if is_ws c then tokenize cs
      else case next_token c cs of
             Inl e \<Rightarrow> Inl e
           | Inr (t, r) \<Rightarrow> (case tokenize r of Inl e \<Rightarrow> Inl e | Inr ts \<Rightarrow> Inr (t # ts)))"
  by pat_completeness auto
termination
  by (relation "measure length") (auto dest: next_token_length simp: le_imp_less_Suc)

end
