(* ===== verification/Expr_Parser.thy ===== *)
theory Expr_Parser
  imports Expr_Syntax
begin

text \<open>
  The recursive-descent parser (\<^verbatim>\<open>expr/parser.rs\<close>).  The parser's position in its token
  vector is the suffix of tokens still to read.  The methods call each other and, through
  parentheses, lists and call arguments, \<^verbatim>\<open>parse_or\<close> again: each method below takes the
  parser to use for those nested calls, and \<open>parse_or\<close> closes the knot with one unit of
  fuel per nesting level; running out of fuel is \<open>None\<close>.  The left-associative loops take
  one unit per operator.  The theory shows that the fuel \<open>parse\<close> passes always suffices,
  so \<open>None\<close> never occurs.
\<close>

section \<open>Model\<close>

type_synonym 'a pres = "(expr_error + 'a \<times> token list) option"

text \<open>The \<^verbatim>\<open>?\<close> operator of the parser methods.\<close>

definition pbind :: "'a pres \<Rightarrow> ('a \<Rightarrow> token list \<Rightarrow> 'b pres) \<Rightarrow> 'b pres" where
  "pbind m f = (case m of None \<Rightarrow> None | Some (Inl e) \<Rightarrow> Some (Inl e) | Some (Inr (x, ts)) \<Rightarrow> f x ts)"

definition peek :: "token list \<Rightarrow> token option" where
  "peek ts = (case ts of [] \<Rightarrow> None | t # _ \<Rightarrow> Some t)"

definition expect_sym :: "sym \<Rightarrow> token list \<Rightarrow> unit pres" where
  "expect_sym s ts = (case ts of
     t # ts' \<Rightarrow> if t = Sym s then Some (Inr ((), ts'))
               else Some (Inl (ParseErr (M_expected_symbol s (Some t))))
   | [] \<Rightarrow> Some (Inl (ParseErr (M_expected_symbol s None))))"

definition expect_ident :: "token list \<Rightarrow> string pres" where
  "expect_ident ts = (case ts of
     Ident name # ts' \<Rightarrow> Some (Inr (name, ts'))
   | _ \<Rightarrow> Some (Inl (ParseErr (M_expected_ident (peek ts)))))"

text \<open>
  The \<^verbatim>\<open>while\<close>/\<^verbatim>\<open>loop\<close> of the binary levels: as long as the next token is one of the
  level's operators, parse one more operand and fold it in from the left.
\<close>

fun chain :: "nat \<Rightarrow> (token \<Rightarrow> (expr \<Rightarrow> expr \<Rightarrow> expr) option) \<Rightarrow> (token list \<Rightarrow> expr pres) \<Rightarrow>
    expr \<Rightarrow> token list \<Rightarrow> expr pres" where
  "chain 0 ops sub e ts = None"
| "chain (Suc k) ops sub e ts =
     (case ts of
        [] \<Rightarrow> Some (Inr (e, []))
      | t # ts' \<Rightarrow>
          (case ops t of
             None \<Rightarrow> Some (Inr (e, ts))
           | Some mk \<Rightarrow> pbind (sub ts') (\<lambda>rhs ts''. chain k ops sub (mk e rhs) ts'')))"

definition level :: "(token \<Rightarrow> (expr \<Rightarrow> expr \<Rightarrow> expr) option) \<Rightarrow> (token list \<Rightarrow> expr pres) \<Rightarrow>
    token list \<Rightarrow> expr pres" where
  "level ops sub ts = pbind (sub ts) (\<lambda>e ts'. chain (Suc (length ts')) ops sub e ts')"

definition or_ops :: "token \<Rightarrow> (expr \<Rightarrow> expr \<Rightarrow> expr) option" where
  "or_ops t = (if t = Ident ''or'' then Some Or else None)"

definition and_ops :: "token \<Rightarrow> (expr \<Rightarrow> expr \<Rightarrow> expr) option" where
  "and_ops t = (if t = Ident ''and'' then Some And else None)"

definition cmp_ops :: "token \<Rightarrow> (expr \<Rightarrow> expr \<Rightarrow> expr) option" where
  "cmp_ops t =
     (case t of
        Sym EqEq \<Rightarrow> Some (Cmp CEq)
      | Sym NotEq \<Rightarrow> Some (Cmp CNeq)
      | Sym SGt \<Rightarrow> Some (Cmp CGt)
      | Sym SGte \<Rightarrow> Some (Cmp CGte)
      | Sym SLt \<Rightarrow> Some (Cmp CLt)
      | Sym SLte \<Rightarrow> Some (Cmp CLte)
      | _ \<Rightarrow> if t = Ident ''in'' then Some In else None)"

definition add_ops :: "token \<Rightarrow> (expr \<Rightarrow> expr \<Rightarrow> expr) option" where
  "add_ops t = (if t = Sym Plus then Some Add else if t = Sym Minus then Some Sub else None)"

definition mul_ops :: "token \<Rightarrow> (expr \<Rightarrow> expr \<Rightarrow> expr) option" where
  "mul_ops t =
     (if t = Sym Star then Some Mul else if t = Sym Slash then Some Div
      else if t = Sym Percent then Some Rem else None)"

definition number_to_value :: "f64 \<Rightarrow> expr_error + expr" where
  "number_to_value n =
     (if \<not> f_is_finite n then Inl (ParseErr M_number_not_finite) else Inr (Lit (value_of_f64 n)))"

text \<open>The comma-separated loop shared by \<^verbatim>\<open>parse_call\<close> and \<^verbatim>\<open>parse_list\<close>.\<close>

fun parse_items :: "nat \<Rightarrow> (token list \<Rightarrow> expr pres) \<Rightarrow> token list \<Rightarrow> expr list pres" where
  "parse_items 0 rec_or ts = None"
| "parse_items (Suc k) rec_or ts =
     pbind (rec_or ts) (\<lambda>e ts'.
       if peek ts' = Some (Sym Comma)
       then pbind (parse_items k rec_or (tl ts')) (\<lambda>es ts''. Some (Inr (e # es, ts'')))
       else Some (Inr ([e], ts')))"

definition parse_list :: "(token list \<Rightarrow> expr pres) \<Rightarrow> token list \<Rightarrow> expr pres" where
  "parse_list rec_or ts =
     pbind (if peek ts \<noteq> Some (Sym RBracket) then parse_items (length ts + 1) rec_or ts
            else Some (Inr ([], ts)))
       (\<lambda>items ts'. pbind (expect_sym RBracket ts') (\<lambda>_ ts''. Some (Inr (EList items, ts''))))"

definition parse_name_call :: "string \<Rightarrow> token list \<Rightarrow> expr pres" where
  "parse_name_call name ts =
     (let fin = (\<lambda>s ts'. pbind (expect_sym RParen ts')
                  (\<lambda>_ ts''. Some (Inr (Call name [Lit (JString s)], ts''))))
      in case ts of
           Ident s # ts' \<Rightarrow> fin s ts'
         | StringT s # ts' \<Rightarrow> fin s ts'
         | _ \<Rightarrow> Some (Inl (ParseErr (M_name_call name (peek ts)))))"

definition parse_call :: "(token list \<Rightarrow> expr pres) \<Rightarrow> string \<Rightarrow> token list \<Rightarrow> expr pres" where
  "parse_call rec_or name ts =
     (if name = ''env'' \<or> name = ''var'' then parse_name_call name ts
      else pbind (if peek ts \<noteq> Some (Sym RParen) then parse_items (length ts + 1) rec_or ts
                  else Some (Inr ([], ts)))
             (\<lambda>args ts'. pbind (expect_sym RParen ts') (\<lambda>_ ts''. Some (Inr (Call name args, ts'')))))"

text \<open>The \<^verbatim>\<open>.name\<close> loop of \<^verbatim>\<open>parse_ident_path\<close> and \<^verbatim>\<open>parse_dollar_path\<close>.\<close>

fun parse_path_tail :: "string list \<Rightarrow> token list \<Rightarrow> expr pres" where
  "parse_path_tail path [] = Some (Inr (Path path, []))"
| "parse_path_tail path (t # ts) =
     (if t = Sym Dot then
        (case ts of
           Ident name # ts' \<Rightarrow> parse_path_tail (path @ [name]) ts'
         | _ \<Rightarrow> Some (Inl (ParseErr (M_expected_ident (peek ts)))))
      else Some (Inr (Path path, t # ts)))"

definition parse_ident_path :: "string \<Rightarrow> token list \<Rightarrow> expr pres" where
  "parse_ident_path name ts = parse_path_tail [name] ts"

definition parse_dollar_path :: "token list \<Rightarrow> expr pres" where
  "parse_dollar_path ts =
     pbind (expect_sym Dot ts) (\<lambda>_ ts'. pbind (expect_ident ts') (\<lambda>name ts''. parse_path_tail [name] ts''))"

definition parse_ident_or_call :: "(token list \<Rightarrow> expr pres) \<Rightarrow> string \<Rightarrow> token list \<Rightarrow> expr pres" where
  "parse_ident_or_call rec_or name ts =
     (if name = ''true'' then Some (Inr (Lit (JBool True), ts))
      else if name = ''false'' then Some (Inr (Lit (JBool False), ts))
      else if name = ''null'' then Some (Inr (Lit JNull, ts))
      else if peek ts = Some (Sym LParen) then parse_call rec_or name (tl ts)
      else parse_ident_path name ts)"

definition parse_atom :: "(token list \<Rightarrow> expr pres) \<Rightarrow> token list \<Rightarrow> expr pres" where
  "parse_atom rec_or ts =
     (case ts of
        NumberT n # ts' \<Rightarrow> (case number_to_value n of Inl e \<Rightarrow> Some (Inl e) | Inr v \<Rightarrow> Some (Inr (v, ts')))
      | StringT s # ts' \<Rightarrow> Some (Inr (Lit (JString s), ts'))
      | Ident name # ts' \<Rightarrow> parse_ident_or_call rec_or name ts'
      | Sym Dollar # ts' \<Rightarrow> parse_dollar_path ts'
      | Sym LBracket # ts' \<Rightarrow> parse_list rec_or ts'
      | Sym LParen # ts' \<Rightarrow>
          pbind (rec_or ts') (\<lambda>e ts''. pbind (expect_sym RParen ts'') (\<lambda>_ ts'''. Some (Inr (e, ts'''))))
      | _ \<Rightarrow> Some (Inl (ParseErr (M_unexpected_token (peek ts)))))"

definition parse_mul :: "(token list \<Rightarrow> expr pres) \<Rightarrow> token list \<Rightarrow> expr pres" where
  "parse_mul rec_or = level mul_ops (parse_atom rec_or)"

definition parse_add :: "(token list \<Rightarrow> expr pres) \<Rightarrow> token list \<Rightarrow> expr pres" where
  "parse_add rec_or = level add_ops (parse_mul rec_or)"

definition parse_cmp :: "(token list \<Rightarrow> expr pres) \<Rightarrow> token list \<Rightarrow> expr pres" where
  "parse_cmp rec_or = level cmp_ops (parse_add rec_or)"

fun parse_unary :: "(token list \<Rightarrow> expr pres) \<Rightarrow> token list \<Rightarrow> expr pres" where
  "parse_unary rec_or [] = parse_cmp rec_or []"
| "parse_unary rec_or (t # ts) =
     (if t = Ident ''not'' then pbind (parse_unary rec_or ts) (\<lambda>e ts'. Some (Inr (Not e, ts')))
      else parse_cmp rec_or (t # ts))"

definition parse_and :: "(token list \<Rightarrow> expr pres) \<Rightarrow> token list \<Rightarrow> expr pres" where
  "parse_and rec_or = level and_ops (parse_unary rec_or)"

fun parse_or :: "nat \<Rightarrow> token list \<Rightarrow> expr pres" where
  "parse_or 0 ts = None"
| "parse_or (Suc n) ts = level or_ops (parse_and (parse_or n)) ts"

definition parse_tokens :: "token list \<Rightarrow> (expr_error + expr) option" where
  "parse_tokens tokens =
     (case parse_or (length tokens + 1) tokens of
        None \<Rightarrow> None
      | Some (Inl e) \<Rightarrow> Some (Inl e)
      | Some (Inr (e, rest)) \<Rightarrow>
          if peek rest \<noteq> None then Some (Inl (ParseErr (M_trailing (length tokens - length rest))))
          else Some (Inr e))"

definition parse :: "string \<Rightarrow> (expr_error + expr) option" where
  "parse input = (case tokenize input of Inl e \<Rightarrow> Some (Inl e) | Inr tokens \<Rightarrow> parse_tokens tokens)"

section \<open>Consumption and totality\<close>

lemma pbind_Inr_iff [simp]:
  "pbind m f = Some (Inr r) \<longleftrightarrow> (\<exists>x ts. m = Some (Inr (x, ts)) \<and> f x ts = Some (Inr r))"
  by (auto simp: pbind_def split: option.splits sum.splits)

text \<open>A parse that returns, with a value or an error: it did not run out of fuel.\<close>

definition halts :: "'a option \<Rightarrow> bool" where
  "halts m = (m \<noteq> None)"

lemma halts_simps [simp]: "halts (Some x)" "\<not> halts None"
  by (simp_all add: halts_def)

lemma halts_pbind [simp]:
  "halts (pbind m f) \<longleftrightarrow> halts m \<and> (\<forall>x ts. m = Some (Inr (x, ts)) \<longrightarrow> halts (f x ts))"
  by (auto simp: pbind_def halts_def split: option.splits sum.splits)

declare chain.simps(2) [simp del] parse_items.simps(2) [simp del]

lemma pbind_simps [simp]:
  "pbind (Some (Inr (x, ts))) f = f x ts"
  "pbind (Some (Inl e)) f = Some (Inl e)"
  by (simp_all add: pbind_def)

lemma peek_simps [simp]: "peek [] = None" "peek (t # ts) = Some t"
  by (simp_all add: peek_def)

lemma peek_Some_iff: "peek ts = Some t \<longleftrightarrow> (\<exists>ts'. ts = t # ts')"
  by (cases ts) auto

lemma expect_sym_Inr_iff [simp]:
  "expect_sym s ts = Some (Inr (u, ts')) \<longleftrightarrow> ts = Sym s # ts'"
  by (auto simp: expect_sym_def split: list.splits)

lemma expect_sym_total [simp]: "halts (expect_sym s ts)"
  by (auto simp: expect_sym_def split: list.splits)

lemma expect_sym_Cons [simp]: "expect_sym s (Sym s # ts) = Some (Inr ((), ts))"
  by (simp add: expect_sym_def)

lemma expect_ident_Inr_iff [simp]:
  "expect_ident ts = Some (Inr (s, ts')) \<longleftrightarrow> ts = Ident s # ts'"
  by (auto simp: expect_ident_def split: list.splits token.splits)

lemma expect_ident_total [simp]: "halts (expect_ident ts)"
  by (auto simp: expect_ident_def split: list.splits token.splits)

lemma parse_path_tail_le:
  "parse_path_tail path ts = Some (Inr (e, ts')) \<Longrightarrow> length ts' \<le> length ts"
  by (induction path ts rule: parse_path_tail.induct)
    (auto split: if_splits list.splits token.splits)

lemma parse_path_tail_total [simp]: "halts (parse_path_tail path ts)"
  by (induction path ts rule: parse_path_tail.induct)
    (auto split: list.splits token.splits)

lemma parse_dollar_path_total [simp]: "halts (parse_dollar_path ts)"
  by (simp add: parse_dollar_path_def)

lemma parse_name_call_total [simp]: "halts (parse_name_call name ts)"
  by (auto simp: parse_name_call_def Let_def split: list.splits token.splits)

text \<open>
  The contract of a sub-parser: a success consumes at least one token.  Every method built
  from a sub-parser keeps it, and every loop over one ends.
\<close>

locale token_parser =
  fixes sub :: "token list \<Rightarrow> expr pres"
  assumes consumes: "sub ts = Some (Inr (e, ts')) \<Longrightarrow> length ts' < length ts"
begin

lemma chain_le: "chain k ops sub e ts = Some (Inr (e', ts')) \<Longrightarrow> length ts' \<le> length ts"
proof (induction k arbitrary: e ts)
  case (Suc k)
  then show ?case
    by (cases ts) (fastforce simp: chain.simps split: option.splits dest: consumes Suc.IH)+
qed simp

lemma level_consumes: "level ops sub ts = Some (Inr (e, ts')) \<Longrightarrow> length ts' < length ts"
  by (auto simp: level_def dest!: consumes chain_le)

lemma chain_total:
  assumes "\<And>us. length us < length ts \<Longrightarrow> halts (sub us)" "length ts < k"
  shows "halts (chain k ops sub e ts)"
  using assms
proof (induction k arbitrary: e ts)
  case (Suc k)
  show ?case
  proof (cases ts)
    case (Cons t us)
    have "halts (chain k ops sub e' ts'')" if "sub us = Some (Inr (x, ts''))" for e' x ts''
      using consumes [OF that] Suc.prems Cons by (intro Suc.IH) auto
    moreover have "halts (sub us)" using Suc.prems(1) [of us] Cons by simp
    ultimately show ?thesis using Cons by (auto simp: chain.simps split: option.splits)
  qed (simp add: chain.simps)
qed simp

lemma level_total:
  assumes "\<And>us. length us \<le> length ts \<Longrightarrow> halts (sub us)"
  shows "halts (level ops sub ts)"
  using assms by (auto simp: level_def dest!: consumes intro!: chain_total)

lemma items_consumes:
  "parse_items k sub ts = Some (Inr (es, ts')) \<Longrightarrow> length ts' < length ts"
proof (induction k arbitrary: ts es)
  case (Suc k)
  then obtain e us where e: "sub ts = Some (Inr (e, us))"
    and r: "if peek us = Some (Sym Comma)
      then \<exists>es'. parse_items k sub (tl us) = Some (Inr (es', ts')) else ts' = us"
    by (auto simp: parse_items.simps split: if_splits)
  show ?case
  proof (cases "peek us = Some (Sym Comma)")
    case True
    with r obtain es' where "parse_items k sub (tl us) = Some (Inr (es', ts'))" by auto
    from Suc.IH [OF this] consumes [OF e] show ?thesis by simp
  qed (use r consumes [OF e] in simp)
qed simp

lemma items_total:
  assumes "\<And>us. length us \<le> length ts \<Longrightarrow> halts (sub us)" "length ts < k"
  shows "halts (parse_items k sub ts)"
  using assms
proof (induction k arbitrary: ts)
  case (Suc k)
  have "halts (parse_items k sub (tl us))" if "sub ts = Some (Inr (e, us))" for e us
    using consumes [OF that] Suc.prems by (intro Suc.IH) auto
  moreover have "halts (sub ts)" using Suc.prems(1) by simp
  ultimately show ?case by (auto simp: parse_items.simps)
qed simp

lemma call_le: "parse_call sub name ts = Some (Inr (e, ts')) \<Longrightarrow> length ts' < length ts"
  by (auto simp: parse_call_def parse_name_call_def Let_def split: if_splits list.splits token.splits
      dest!: items_consumes)

lemma list_le: "parse_list sub ts = Some (Inr (e, ts')) \<Longrightarrow> length ts' < length ts"
  by (auto simp: parse_list_def split: if_splits dest!: items_consumes)

lemma ident_or_call_le:
  "parse_ident_or_call sub name ts = Some (Inr (e, ts')) \<Longrightarrow> length ts' \<le> length ts"
  using parse_path_tail_le [of "[name]" ts e ts'] call_le [of name "tl ts" e ts']
  by (auto simp: parse_ident_or_call_def parse_ident_path_def split: if_splits)

lemma atom_consumes: "parse_atom sub ts = Some (Inr (e, ts')) \<Longrightarrow> length ts' < length ts"
  by (auto simp: parse_atom_def parse_dollar_path_def split: list.splits token.splits sym.splits sum.splits
      dest!: ident_or_call_le list_le consumes parse_path_tail_le)

lemma atom_total:
  assumes "\<And>us. length us < length ts \<Longrightarrow> halts (sub us)"
  shows "halts (parse_atom sub ts)"
proof (cases ts)
  case (Cons t us)
  have i: "halts (parse_items (length vs + 1) sub vs)" if "length vs \<le> length us" for vs
    using assms Cons that by (intro items_total) auto
  have c: "halts (parse_call sub name vs)" if "length vs \<le> length us" for name vs
    using i [OF that] by (auto simp: parse_call_def)
  have l: "halts (parse_list sub us)" using i [of us] by (auto simp: parse_list_def)
  have n: "halts (parse_ident_or_call sub name us)" for name
    using c [of "tl us" name] by (auto simp: parse_ident_or_call_def parse_ident_path_def)
  show ?thesis using assms [of us] Cons l n
    by (auto simp: parse_atom_def split: token.splits sym.splits sum.splits)
qed (simp add: parse_atom_def)

end

lemma token_parserI: "(\<And>ts e ts'. p ts = Some (Inr (e, ts')) \<Longrightarrow> length ts' < length ts) \<Longrightarrow> token_parser p"
  by (simp add: token_parser_def)

lemma token_parser_level: "token_parser p \<Longrightarrow> token_parser (level ops p)"
  by (rule token_parserI) (rule token_parser.level_consumes)

lemma token_parser_atom: "token_parser r \<Longrightarrow> token_parser (parse_atom r)"
  by (rule token_parserI) (rule token_parser.atom_consumes)

lemma token_parser_cmp: "token_parser r \<Longrightarrow> token_parser (parse_cmp r)"
  unfolding parse_cmp_def parse_add_def parse_mul_def
  by (intro token_parser_level token_parser_atom)

lemma token_parser_unary:
  assumes "token_parser r"
  shows "token_parser (parse_unary r)"
proof (rule token_parserI)
  show "length ts' < length ts" if "parse_unary r ts = Some (Inr (e, ts'))" for ts e ts'
    using that
    by (induction ts arbitrary: e)
      (auto split: if_splits dest: token_parser.consumes [OF token_parser_cmp [OF assms]])
qed

lemma token_parser_and: "token_parser r \<Longrightarrow> token_parser (parse_and r)"
  unfolding parse_and_def by (intro token_parser_level token_parser_unary)

lemma token_parser_or: "token_parser (parse_or n)"
proof (induction n)
  case (Suc n)
  have "parse_or (Suc n) = level or_ops (parse_and (parse_or n))" by (rule ext) simp
  then show ?case using Suc by (simp add: token_parser_level token_parser_and)
qed (rule token_parserI, simp)

interpretation p_or: token_parser "parse_or n" for n
  by (rule token_parser_or)

lemma cmp_halts:
  assumes "token_parser r" "\<And>us. length us < length ts \<Longrightarrow> halts (r us)"
  shows "halts (parse_cmp r ts)"
proof -
  have atom: "halts (parse_atom r us)" if "length us \<le> length ts" for us
    using assms that by (intro token_parser.atom_total) auto
  have mul: "halts (parse_mul r us)" if "length us \<le> length ts" for us
    unfolding parse_mul_def using that
    by (intro token_parser.level_total token_parser_atom assms(1) atom) simp
  have add: "halts (parse_add r us)" if "length us \<le> length ts" for us
    unfolding parse_add_def using that
    by (intro token_parser.level_total mul)
      (simp_all add: parse_mul_def token_parser_level token_parser_atom assms(1))
  show ?thesis unfolding parse_cmp_def
    by (intro token_parser.level_total add)
      (simp_all add: parse_add_def parse_mul_def token_parser_level token_parser_atom assms(1))
qed

lemma unary_halts:
  assumes "token_parser r" "\<And>us. length us < length ts \<Longrightarrow> halts (r us)"
  shows "halts (parse_unary r ts)"
  using assms
  by (induction r ts rule: parse_unary.induct) (auto intro: cmp_halts)

lemma or_halts: "length ts < n \<Longrightarrow> halts (parse_or n ts)"
proof (induction n arbitrary: ts)
  case (Suc n)
  have r: "token_parser (parse_or n)" by (rule token_parser_or)
  have un: "halts (parse_unary (parse_or n) us)" if "length us \<le> length ts" for us
    using that Suc by (intro unary_halts r) auto
  have an: "halts (parse_and (parse_or n) us)" if "length us \<le> length ts" for us
    unfolding parse_and_def using that
    by (intro token_parser.level_total token_parser_unary r un) simp
  have "halts (level or_ops (parse_and (parse_or n)) ts)"
    by (intro token_parser.level_total token_parser_and r an) simp
  then show ?case by simp
qed simp

lemma parse_tokens_halts: "halts (parse_tokens ts)"
  using or_halts [of ts "length ts + 1"]
  by (auto simp: parse_tokens_def halts_def split: option.splits sum.splits)

section \<open>Printing\<close>

text \<open>
  A printer into tokens, fully parenthesised, for the expressions the grammar can denote:
  number literals are finite floats, paths are non-empty (printed \<^verbatim>\<open>$.a.b\<close>), and the names
  of calls are not the reserved words of the grammar; \<^verbatim>\<open>env\<close> and \<^verbatim>\<open>var\<close> take one string.
\<close>

fun print_lit :: "json \<Rightarrow> token list" where
  "print_lit JNull = [Ident ''null'']"
| "print_lit (JBool b) = [Ident (if b then ''true'' else ''false'')]"
| "print_lit (JNumber (FloatN x)) = [NumberT x]"
| "print_lit (JString s) = [StringT s]"
| "print_lit _ = []"

fun printable_lit :: "json \<Rightarrow> bool" where
  "printable_lit JNull = True"
| "printable_lit (JBool b) = True"
| "printable_lit (JNumber (FloatN x)) = f_is_finite x"
| "printable_lit (JString s) = True"
| "printable_lit _ = False"

fun cmp_sym :: "cmp_op \<Rightarrow> sym" where
  "cmp_sym CEq = EqEq" | "cmp_sym CNeq = NotEq" | "cmp_sym CGt = SGt" | "cmp_sym CGte = SGte"
| "cmp_sym CLt = SLt" | "cmp_sym CLte = SLte"

fun commas :: "token list list \<Rightarrow> token list" where
  "commas [] = []"
| "commas [ts] = ts"
| "commas (ts # us # tss) = ts @ Sym Comma # commas (us # tss)"

definition parens :: "token list \<Rightarrow> token list" where
  "parens ts = Sym LParen # ts @ [Sym RParen]"

fun print_expr :: "expr \<Rightarrow> token list" where
  "print_expr (Lit v) = print_lit v"
| "print_expr (Path ps) = Sym Dollar # concat (map (\<lambda>p. [Sym Dot, Ident p]) ps)"
| "print_expr (EList es) = Sym LBracket # commas (map print_expr es) @ [Sym RBracket]"
| "print_expr (Not e) = parens (Ident ''not'' # print_expr e)"
| "print_expr (And a b) = parens (print_expr a @ Ident ''and'' # print_expr b)"
| "print_expr (Or a b) = parens (print_expr a @ Ident ''or'' # print_expr b)"
| "print_expr (Cmp c a b) = parens (print_expr a @ Sym (cmp_sym c) # print_expr b)"
| "print_expr (In a b) = parens (print_expr a @ Ident ''in'' # print_expr b)"
| "print_expr (Add a b) = parens (print_expr a @ Sym Plus # print_expr b)"
| "print_expr (Sub a b) = parens (print_expr a @ Sym Minus # print_expr b)"
| "print_expr (Mul a b) = parens (print_expr a @ Sym Star # print_expr b)"
| "print_expr (Div a b) = parens (print_expr a @ Sym Slash # print_expr b)"
| "print_expr (Rem a b) = parens (print_expr a @ Sym Percent # print_expr b)"
| "print_expr (Call f es) = Ident f # parens (commas (map print_expr es))"

definition name_call :: "string \<Rightarrow> bool" where
  "name_call f = (f = ''env'' \<or> f = ''var'')"

fun printable :: "expr \<Rightarrow> bool" where
  "printable (Lit v) = printable_lit v"
| "printable (Path ps) = (ps \<noteq> [])"
| "printable (EList es) = list_all printable es"
| "printable (Not e) = printable e"
| "printable (And a b) = (printable a \<and> printable b)"
| "printable (Or a b) = (printable a \<and> printable b)"
| "printable (Cmp c a b) = (printable a \<and> printable b)"
| "printable (In a b) = (printable a \<and> printable b)"
| "printable (Add a b) = (printable a \<and> printable b)"
| "printable (Sub a b) = (printable a \<and> printable b)"
| "printable (Mul a b) = (printable a \<and> printable b)"
| "printable (Div a b) = (printable a \<and> printable b)"
| "printable (Rem a b) = (printable a \<and> printable b)"
| "printable (Call f es) =
     (if name_call f then (case es of [Lit (JString s)] \<Rightarrow> True | _ \<Rightarrow> False)
      else f \<notin> {''true'', ''false'', ''null'', ''not''} \<and> list_all printable es)"

section \<open>Round trip\<close>

definition stops :: "(token \<Rightarrow> (expr \<Rightarrow> expr \<Rightarrow> expr) option) \<Rightarrow> token list \<Rightarrow> bool" where
  "stops ops ts = (case ts of [] \<Rightarrow> True | t # _ \<Rightarrow> ops t = None)"

lemma stops_simps [simp]: "stops ops []" "stops ops (t # ts) = (ops t = None)"
  by (simp_all add: stops_def)

lemma chain_stop: "stops ops rest \<Longrightarrow> chain (Suc k) ops sub e rest = Some (Inr (e, rest))"
  by (cases rest) (simp_all add: chain.simps)

lemma level_stop:
  "sub ts = Some (Inr (e, rest)) \<Longrightarrow> stops ops rest \<Longrightarrow> level ops sub ts = Some (Inr (e, rest))"
  by (simp add: level_def chain_stop)

lemma level_one:
  assumes "sub ts = Some (Inr (a, t # us))" "ops t = Some mk" "sub us = Some (Inr (b, rest))"
    and "stops ops rest"
  shows "level ops sub ts = Some (Inr (mk a b, rest))"
  using assms chain_stop [of ops rest "length us" sub "mk a b"]
  by (simp add: level_def) (subst chain.simps, simp)

lemmas ops_defs = or_ops_def and_ops_def cmp_ops_def add_ops_def mul_ops_def

lemma ops_simps [simp]:
  "or_ops (Ident ''or'') = Some Or" "and_ops (Ident ''and'') = Some And"
  "or_ops (Ident ''and'') = None" "and_ops (Ident ''or'') = None"
  "cmp_ops (Ident ''in'') = Some In" "cmp_ops (Ident ''and'') = None" "cmp_ops (Ident ''or'') = None"
  "add_ops (Ident s) = None" "mul_ops (Ident s) = None"
  "cmp_ops (Sym (cmp_sym c)) = Some (Cmp c)"
  "add_ops (Sym (cmp_sym c)) = None" "mul_ops (Sym (cmp_sym c)) = None"
  "add_ops (Sym Plus) = Some Add" "add_ops (Sym Minus) = Some Sub"
  "mul_ops (Sym Plus) = None" "mul_ops (Sym Minus) = None"
  "mul_ops (Sym Star) = Some Mul" "mul_ops (Sym Slash) = Some Div" "mul_ops (Sym Percent) = Some Rem"
  by (simp_all add: ops_defs) (cases c; simp)+

text \<open>The tokens that end a sub-expression, and the climb from an atom to the top level.\<close>

definition closes :: "token list \<Rightarrow> bool" where
  "closes ts = (case ts of [] \<Rightarrow> True | t # _ \<Rightarrow> t \<in> {Sym RParen, Sym RBracket, Sym Comma})"

lemma closes_stops:
  assumes "closes ts"
  shows "stops or_ops ts" "stops and_ops ts" "stops cmp_ops ts" "stops add_ops ts" "stops mul_ops ts"
    and "peek ts \<noteq> Some (Sym Dot)"
  using assms by (auto simp: closes_def ops_defs split: list.splits)

lemma closes_Cons [simp]:
  "closes (Sym RParen # ts)" "closes (Sym RBracket # ts)" "closes (Sym Comma # ts)" "closes []"
  by (simp_all add: closes_def)

definition starts_operand :: "token list \<Rightarrow> bool" where
  "starts_operand ts = (ts \<noteq> [] \<and> hd ts \<notin> {Ident ''not'', Sym RParen, Sym RBracket})"

lemma unary_of_cmp: "starts_operand ts \<Longrightarrow> parse_unary r ts = parse_cmp r ts"
  by (cases ts) (auto simp: starts_operand_def)

lemma climb_and_or:
  assumes "parse_unary (parse_or n) ts = Some (Inr (e, rest))" "closes rest"
  shows "parse_or (Suc n) ts = Some (Inr (e, rest))"
  using assms by (simp add: parse_and_def level_stop closes_stops)

lemma climb_cmp:
  assumes "parse_cmp (parse_or n) ts = Some (Inr (e, rest))" "closes rest" "starts_operand ts"
  shows "parse_or (Suc n) ts = Some (Inr (e, rest))"
  using assms by (intro climb_and_or) (simp_all add: unary_of_cmp)

text \<open>What each binary level makes of two operands that parse as atoms.\<close>

definition two_operands where
  "two_operands r ts a t us b rest \<longleftrightarrow>
     parse_atom r ts = Some (Inr (a, t # us)) \<and> parse_atom r us = Some (Inr (b, rest)) \<and>
     closes rest \<and> starts_operand ts \<and> starts_operand us"

lemma mul_level:
  assumes "two_operands r ts a t us b rest" "mul_ops t = Some mk"
  shows "parse_cmp r ts = Some (Inr (mk a b, rest))"
  unfolding parse_cmp_def parse_add_def parse_mul_def
  using assms by (intro level_stop level_one) (auto simp: two_operands_def closes_stops)

lemma two_operands_mul:
  assumes "two_operands r ts a t us b rest" "mul_ops t = None"
  shows "parse_mul r ts = Some (Inr (a, t # us))" "parse_mul r us = Some (Inr (b, rest))"
  unfolding parse_mul_def
  using assms by (intro level_stop; simp add: two_operands_def closes_stops)+

lemma add_level:
  assumes "two_operands r ts a t us b rest" "mul_ops t = None" "add_ops t = Some mk"
  shows "parse_cmp r ts = Some (Inr (mk a b, rest))"
  unfolding parse_cmp_def parse_add_def
  using assms two_operands_mul [OF assms(1,2)]
  by (intro level_stop level_one) (auto simp: two_operands_def closes_stops)

lemma two_operands_add:
  assumes "two_operands r ts a t us b rest" "mul_ops t = None" "add_ops t = None"
  shows "parse_add r ts = Some (Inr (a, t # us))" "parse_add r us = Some (Inr (b, rest))"
  unfolding parse_add_def
  using assms two_operands_mul [OF assms(1,2)]
  by (intro level_stop; simp add: two_operands_def closes_stops)+

lemma cmp_level:
  assumes "two_operands r ts a t us b rest" "mul_ops t = None" "add_ops t = None" "cmp_ops t = Some mk"
  shows "parse_cmp r ts = Some (Inr (mk a b, rest))"
  unfolding parse_cmp_def
  using assms two_operands_add [OF assms(1,2,3)]
  by (intro level_one) (auto simp: two_operands_def closes_stops)

lemma two_operands_unary:
  assumes "two_operands r ts a t us b rest" "mul_ops t = None" "add_ops t = None" "cmp_ops t = None"
  shows "parse_unary r ts = Some (Inr (a, t # us))" "parse_unary r us = Some (Inr (b, rest))"
proof -
  have "parse_cmp r ts = Some (Inr (a, t # us))" "parse_cmp r us = Some (Inr (b, rest))"
    unfolding parse_cmp_def
    using assms two_operands_add [OF assms(1,2,3)]
    by (intro level_stop; simp add: two_operands_def closes_stops)+
  with assms(1) show "parse_unary r ts = Some (Inr (a, t # us))" "parse_unary r us = Some (Inr (b, rest))"
    by (simp_all add: two_operands_def unary_of_cmp)
qed

lemma and_level:
  assumes "two_operands r ts a (Ident ''and'') us b rest"
  shows "level or_ops (parse_and r) ts = Some (Inr (And a b, rest))"
proof (rule level_stop)
  show "parse_and r ts = Some (Inr (And a b, rest))"
    unfolding parse_and_def
    using assms two_operands_unary [OF assms]
    by (intro level_one [where mk = And and t = "Ident ''and''"]) (auto simp: two_operands_def closes_stops)
qed (use assms in \<open>simp add: two_operands_def closes_stops\<close>)

lemma or_level:
  assumes "two_operands r ts a (Ident ''or'') us b rest"
  shows "level or_ops (parse_and r) ts = Some (Inr (Or a b, rest))"
proof (rule level_one [where mk = Or and t = "Ident ''or''" and us = us])
  show "parse_and r ts = Some (Inr (a, Ident ''or'' # us))" "parse_and r us = Some (Inr (b, rest))"
    unfolding parse_and_def
    using assms two_operands_unary [OF assms]
    by (intro level_stop; simp add: two_operands_def closes_stops)+
qed (use assms in \<open>simp_all add: two_operands_def closes_stops\<close>)

lemma print_lit_starts: "printable_lit v \<Longrightarrow> starts_operand (print_lit v @ rest)"
  by (cases v rule: print_lit.cases) (auto simp: starts_operand_def)

lemma print_starts: "printable e \<Longrightarrow> starts_operand (print_expr e @ rest)"
  by (cases e) (auto simp: print_lit_starts, auto simp: starts_operand_def parens_def name_call_def split: if_splits)

lemma atom_lit:
  "printable_lit v \<Longrightarrow> parse_atom r (print_lit v @ rest) = Some (Inr (Lit v, rest))"
  by (cases v rule: print_lit.cases)
    (auto simp: parse_atom_def parse_ident_or_call_def number_to_value_def value_of_f64_def)

lemma path_tail_print:
  "peek rest \<noteq> Some (Sym Dot) \<Longrightarrow>
   parse_path_tail acc (concat (map (\<lambda>p. [Sym Dot, Ident p]) ps) @ rest) = Some (Inr (Path (acc @ ps), rest))"
proof (induction ps arbitrary: acc)
  case Nil
  then show ?case by (cases rest) auto
qed simp

lemma atom_path:
  "ps \<noteq> [] \<Longrightarrow> peek rest \<noteq> Some (Sym Dot) \<Longrightarrow>
   parse_atom r (print_expr (Path ps) @ rest) = Some (Inr (Path ps, rest))"
  by (cases ps) (simp_all add: parse_atom_def parse_dollar_path_def expect_ident_def path_tail_print)

lemma atom_parens:
  "r (ts @ Sym RParen # rest) = Some (Inr (e, Sym RParen # rest)) \<Longrightarrow>
   parse_atom r (parens ts @ rest) = Some (Inr (e, rest))"
  by (simp add: parse_atom_def parens_def)

text \<open>Comma-separated items, each of which parses on its own.\<close>

lemma items_print:
  assumes "es \<noteq> []" "length es \<le> k" "cl = Sym RParen \<or> cl = Sym RBracket"
    and "\<And>e us. e \<in> set es \<Longrightarrow> closes us \<Longrightarrow> r (print_expr e @ us) = Some (Inr (e, us))"
  shows "parse_items k r (commas (map print_expr es) @ cl # rest) = Some (Inr (es, cl # rest))"
  using assms
proof (induction es arbitrary: k)
  case (Cons e es)
  from Cons.prems(2) obtain j where k: "k = Suc j" "length es \<le> j" by (cases k) auto
  have cl: "closes (cl # rest)" "peek (cl # rest) \<noteq> Some (Sym Comma)" using Cons.prems(3) by auto
  show ?case
  proof (cases es)
    case Nil
    then show ?thesis using Cons.prems(4) [of e "cl # rest"] cl k by (simp add: parse_items.simps)
  next
    case (Cons e' es')
    have IH: "parse_items j r (commas (map print_expr es) @ cl # rest) = Some (Inr (es, cl # rest))"
      using Cons Cons.prems(3,4) k by (intro Cons.IH) auto
    show ?thesis
      using Cons.prems(4) [of e "Sym Comma # commas (map print_expr es) @ cl # rest"] IH k Cons
      by (simp add: parse_items.simps)
  qed
qed simp

lemma length_commas: "(\<And>ts. ts \<in> set tss \<Longrightarrow> ts \<noteq> []) \<Longrightarrow> length tss \<le> length (commas tss)"
proof (induction tss rule: commas.induct)
  case (2 ts)
  then show ?case by (cases ts) auto
next
  case (3 ts us tss)
  then show ?case by (cases ts) auto
qed simp

lemma length_in_commas: "ts \<in> set tss \<Longrightarrow> length ts \<le> length (commas tss)"
  by (induction tss rule: commas.induct) auto

definition atom_ok :: "expr \<Rightarrow> bool" where
  "atom_ok e \<longleftrightarrow> (\<forall>n rest. length (print_expr e) \<le> n \<longrightarrow> peek rest \<noteq> Some (Sym Dot) \<longrightarrow>
     parse_atom (parse_or n) (print_expr e @ rest) = Some (Inr (e, rest)))"

lemma atom_okD:
  "atom_ok e \<Longrightarrow> length (print_expr e) \<le> n \<Longrightarrow> peek rest \<noteq> Some (Sym Dot) \<Longrightarrow>
   parse_atom (parse_or n) (print_expr e @ rest) = Some (Inr (e, rest))"
  by (simp add: atom_ok_def)

lemma or_print:
  assumes "atom_ok e" "printable e" "length (print_expr e) \<le> n" "closes us"
  shows "parse_or (Suc n) (print_expr e @ us) = Some (Inr (e, us))"
proof (rule climb_cmp)
  show "parse_cmp (parse_or n) (print_expr e @ us) = Some (Inr (e, us))"
    unfolding parse_cmp_def parse_add_def parse_mul_def
    using assms by (intro level_stop atom_okD) (simp_all add: closes_stops)
qed (use assms print_starts in auto)

lemma atom_ok_parensI:
  assumes "\<And>n rest. length ts \<le> n \<Longrightarrow>
    parse_or (Suc n) (ts @ Sym RParen # rest) = Some (Inr (e, Sym RParen # rest))"
    and "print_expr e = parens ts"
  shows "atom_ok e"
  unfolding atom_ok_def
proof (intro allI impI)
  fix n rest
  assume "length (print_expr e) \<le> n"
  then obtain m where "n = Suc m" "length ts \<le> m" by (cases n) (auto simp: assms(2) parens_def)
  then show "parse_atom (parse_or n) (print_expr e @ rest) = Some (Inr (e, rest))"
    using assms by (simp only: assms(2)) (intro atom_parens, simp del: parse_or.simps)
qed

lemma operands_print:
  assumes "atom_ok a" "atom_ok b" "printable a" "printable b" "t \<noteq> Sym Dot"
    and "length (print_expr a @ t # print_expr b) \<le> m"
  shows "two_operands (parse_or m) ((print_expr a @ t # print_expr b) @ Sym RParen # rest) a t
    (print_expr b @ Sym RParen # rest) b (Sym RParen # rest)"
  using assms by (simp add: two_operands_def atom_okD print_starts)

lemma binary_cmp_ok:
  assumes "atom_ok a" "atom_ok b" "printable a" "printable b" "t \<noteq> Sym Dot"
    and "print_expr e = parens (print_expr a @ t # print_expr b)"
    and "\<And>r ts us rest. two_operands r ts a t us b rest \<Longrightarrow> parse_cmp r ts = Some (Inr (e, rest))"
  shows "atom_ok e"
proof (rule atom_ok_parensI [OF _ assms(6)])
  fix n rest
  assume "length (print_expr a @ t # print_expr b) \<le> n"
  from operands_print [OF assms(1-5) this, of rest] assms(7)
  show "parse_or (Suc n) ((print_expr a @ t # print_expr b) @ Sym RParen # rest) =
      Some (Inr (e, Sym RParen # rest))"
    by (intro climb_cmp) (auto simp: two_operands_def)
qed

lemma binary_top_ok:
  assumes "atom_ok a" "atom_ok b" "printable a" "printable b" "t \<noteq> Sym Dot"
    and "print_expr e = parens (print_expr a @ t # print_expr b)"
    and "\<And>r ts us rest. two_operands r ts a t us b rest \<Longrightarrow>
      level or_ops (parse_and r) ts = Some (Inr (e, rest))"
  shows "atom_ok e"
proof (rule atom_ok_parensI [OF _ assms(6)])
  fix n rest
  assume "length (print_expr a @ t # print_expr b) \<le> n"
  from assms(7) [OF operands_print [OF assms(1-5) this, of rest]]
  show "parse_or (Suc n) ((print_expr a @ t # print_expr b) @ Sym RParen # rest) =
      Some (Inr (e, Sym RParen # rest))"
    by simp
qed

lemma items_ok:
  assumes "\<And>e. e \<in> set es \<Longrightarrow> atom_ok e" "list_all printable es" "cl = RParen \<or> cl = RBracket"
    and "length (commas (map print_expr es)) < n"
  shows "(if peek (commas (map print_expr es) @ Sym cl # rest) \<noteq> Some (Sym cl)
          then parse_items (length (commas (map print_expr es) @ Sym cl # rest) + 1) (parse_or n)
                 (commas (map print_expr es) @ Sym cl # rest)
          else Some (Inr ([], commas (map print_expr es) @ Sym cl # rest)))
       = Some (Inr (es, Sym cl # rest))"
proof (cases "es = []")
  case False
  let ?ts = "commas (map print_expr es)"
  obtain m where m: "n = Suc m" using assms(4) by (cases n) auto
  have st: "starts_operand (print_expr e @ us)" if "e \<in> set es" for e us
    using assms(2) that by (auto simp: list_all_iff intro: print_starts)
  have len: "length es \<le> length ?ts"
    using length_commas [of "map print_expr es"] st [of _ "[]"] by (force simp: starts_operand_def)
  obtain e es' where es: "es = e # es'" using False by (cases es) auto
  have "\<exists>us. ?ts = print_expr e @ us" by (cases es') (auto simp: es)
  then have "starts_operand (?ts @ Sym cl # rest)" using st [of e] es by auto
  then have "peek (?ts @ Sym cl # rest) \<noteq> Some (Sym cl)"
    using assms(3) by (cases "?ts @ Sym cl # rest") (auto simp: starts_operand_def)
  moreover have "parse_items (length (?ts @ Sym cl # rest) + 1) (parse_or n) (?ts @ Sym cl # rest) =
      Some (Inr (es, Sym cl # rest))"
  proof (rule items_print)
    show "parse_or n (print_expr e @ us) = Some (Inr (e, us))" if "e \<in> set es" "closes us" for e us
      unfolding m using that assms(1,2,4) length_in_commas [of "print_expr e" "map print_expr es"] m
      by (intro or_print) (auto simp: list_all_iff)
  qed (use False len assms(3) in auto)
  ultimately show ?thesis by simp
qed simp

lemma atom_ok_EList:
  assumes "\<And>e. e \<in> set es \<Longrightarrow> atom_ok e" "list_all printable es"
  shows "atom_ok (EList es)"
  unfolding atom_ok_def
  using items_ok [OF assms, of RBracket] by (simp add: parse_atom_def parse_list_def)

lemma printable_Call_args:
  assumes "printable (Call f es)" "e \<in> set es"
  shows "printable e"
proof (cases "name_call f")
  case True
  with assms(1) obtain s where "es = [Lit (JString s)]"
    by (auto split: list.splits expr.splits json.splits)
  with assms(2) show ?thesis by simp
qed (use assms in \<open>auto simp: list_all_iff\<close>)

lemma atom_ok_Call:
  assumes "\<And>e. e \<in> set es \<Longrightarrow> atom_ok e" "printable (Call f es)"
  shows "atom_ok (Call f es)"
proof (cases "name_call f")
  case True
  with assms(2) obtain s where "es = [Lit (JString s)]"
    by (auto split: list.splits expr.splits json.splits)
  with True show ?thesis
    by (auto simp: atom_ok_def parse_atom_def parse_ident_or_call_def parens_def name_call_def
        parse_call_def parse_name_call_def)
next
  case False
  then show ?thesis
    using items_ok [of es RParen] assms
    by (auto simp: atom_ok_def parse_atom_def parse_ident_or_call_def parens_def name_call_def
        parse_call_def)
qed

lemma cmp_sym_neq_Dot: "cmp_sym c \<noteq> Dot"
  by (cases c) simp_all

lemma atom_ok_printable: "printable e \<Longrightarrow> atom_ok e"
proof (induction e)
  case (Lit v)
  then show ?case by (simp add: atom_ok_def atom_lit)
next
  case (Path ps)
  then show ?case using atom_path by (auto simp: atom_ok_def)
next
  case (EList es)
  then show ?case by (intro atom_ok_EList) (auto simp: list_all_iff)
next
  case (Not e)
  then have ok: "atom_ok e" "printable e" by auto
  show ?case
  proof (rule atom_ok_parensI)
    fix n rest
    assume n: "length (Ident ''not'' # print_expr e) \<le> n"
    have "parse_cmp (parse_or n) (print_expr e @ Sym RParen # rest) = Some (Inr (e, Sym RParen # rest))"
      unfolding parse_cmp_def parse_add_def parse_mul_def
      using ok n by (intro level_stop atom_okD) (simp_all add: ops_defs)
    then show "parse_or (Suc n) ((Ident ''not'' # print_expr e) @ Sym RParen # rest) =
        Some (Inr (expr.Not e, Sym RParen # rest))"
      using ok by (intro climb_and_or) (simp_all add: unary_of_cmp print_starts)
  qed simp
next
  case (Call f es)
  then show ?case using printable_Call_args [OF Call.prems] by (intro atom_ok_Call) auto
next
  case (And a b)
  then have ok: "atom_ok a" "atom_ok b" "printable a" "printable b" by auto
  show ?case
    by (rule binary_top_ok [OF ok, where t = "Ident ''and''", OF _ _ and_level])
      (simp_all add: cmp_sym_neq_Dot)
next
  case (Or a b)
  then have ok: "atom_ok a" "atom_ok b" "printable a" "printable b" by auto
  show ?case
    by (rule binary_top_ok [OF ok, where t = "Ident ''or''", OF _ _ or_level])
      (simp_all add: cmp_sym_neq_Dot)
next
  case (Cmp c a b)
  then have ok: "atom_ok a" "atom_ok b" "printable a" "printable b" by auto
  show ?case
    by (rule binary_cmp_ok [OF ok, where t = "Sym (cmp_sym c)"], simp_all add: cmp_sym_neq_Dot)
      (erule cmp_level; simp)
next
  case (In a b)
  then have ok: "atom_ok a" "atom_ok b" "printable a" "printable b" by auto
  show ?case
    by (rule binary_cmp_ok [OF ok, where t = "Ident ''in''"], simp_all add: cmp_sym_neq_Dot)
      (erule cmp_level; simp)
next
  case (Add a b)
  then have ok: "atom_ok a" "atom_ok b" "printable a" "printable b" by auto
  show ?case
    by (rule binary_cmp_ok [OF ok, where t = "Sym Plus"], simp_all add: cmp_sym_neq_Dot)
      (erule add_level; simp)
next
  case (Sub a b)
  then have ok: "atom_ok a" "atom_ok b" "printable a" "printable b" by auto
  show ?case
    by (rule binary_cmp_ok [OF ok, where t = "Sym Minus"], simp_all add: cmp_sym_neq_Dot)
      (erule add_level; simp)
next
  case (Mul a b)
  then have ok: "atom_ok a" "atom_ok b" "printable a" "printable b" by auto
  show ?case
    by (rule binary_cmp_ok [OF ok, where t = "Sym Star"], simp_all add: cmp_sym_neq_Dot)
      (erule mul_level; simp)
next
  case (Div a b)
  then have ok: "atom_ok a" "atom_ok b" "printable a" "printable b" by auto
  show ?case
    by (rule binary_cmp_ok [OF ok, where t = "Sym Slash"], simp_all add: cmp_sym_neq_Dot)
      (erule mul_level; simp)
next
  case (Rem a b)
  then have ok: "atom_ok a" "atom_ok b" "printable a" "printable b" by auto
  show ?case
    by (rule binary_cmp_ok [OF ok, where t = "Sym Percent"], simp_all add: cmp_sym_neq_Dot)
      (erule mul_level; simp)
qed

section \<open>Properties\<close>

text \<open>
  The expression parser terminates on every input: the fuel that \<open>parse\<close> hands to the
  recursive descent (one unit more than the number of tokens) is always enough, so it returns
  an expression or an error, never an exhausted computation.
\<close>

theorem parse_total: "\<exists>r. parse input = Some r"
  using parse_tokens_halts
  by (auto simp: parse_def halts_def split: sum.splits)



end
