(* ===== verification/Expr_Eval.thy ===== *)
theory Expr_Eval
  imports Expr_Parser
begin

text \<open>
  Evaluation of expressions against a JSON record (\<^verbatim>\<open>expr/eval.rs\<close>) with the comparison and
  coercion rules (\<^verbatim>\<open>expr/compare.rs\<close>).  What the evaluator takes from outside the sources is
  in the \<open>host\<close>: the clock and the uuid generator (chrono and uuid crates), the process
  environment, and the JSON printer of \<^verbatim>\<open>serde_json\<close>.  Clock and generator are asked at
  increasing ticks, so two calls of \<^verbatim>\<open>uuid()\<close> may differ; evaluation threads the tick.
\<close>

section \<open>Model\<close>

record host =
  h_now :: "nat \<Rightarrow> string"
  h_uuid :: "nat \<Rightarrow> string"
  h_env :: "string \<Rightarrow> string option"
  h_to_string :: "json \<Rightarrow> string"

type_synonym 'a eres = "(expr_error + 'a) \<times> nat"

definition ebind :: "'a eres \<Rightarrow> ('a \<Rightarrow> nat \<Rightarrow> 'b eres) \<Rightarrow> 'b eres" where
  "ebind m f = (case m of (Inl e, t) \<Rightarrow> (Inl e, t) | (Inr x, t) \<Rightarrow> f x t)"

subsection \<open>Comparison and coercion\<close>

definition is_numericish :: "json \<Rightarrow> bool" where
  "is_numericish v =
     (as_f64 v \<noteq> None \<or> (case as_str v of Some s \<Rightarrow> parse_f64 (trim s) \<noteq> None | None \<Rightarrow> False))"

definition to_number :: "json \<Rightarrow> expr_error + f64" where
  "to_number v =
     (case as_f64 v of
        Some x \<Rightarrow> Inr x
      | None \<Rightarrow>
          (case as_str v of
             Some s \<Rightarrow> (case parse_f64 (trim s) of
                         Some x \<Rightarrow> Inr x | None \<Rightarrow> Inl (EvalErr (E_text_not_number s)))
           | None \<Rightarrow> Inl (EvalErr (E_not_number v))))"

definition numeric_pair :: "json \<Rightarrow> json \<Rightarrow> expr_error + (f64 \<times> f64) option" where
  "numeric_pair lhs rhs =
     (if \<not> is_numericish lhs \<and> \<not> is_numericish rhs then Inr None
      else (case to_number lhs of Inl e \<Rightarrow> Inl e
            | Inr a \<Rightarrow> (case to_number rhs of Inl e \<Rightarrow> Inl e | Inr b \<Rightarrow> Inr (Some (a, b)))))"

definition compare_ordering :: "json \<Rightarrow> json \<Rightarrow> expr_error + ordering option" where
  "compare_ordering lhs rhs =
     (case numeric_pair lhs rhs of
        Inl e \<Rightarrow> Inl e
      | Inr (Some (a, b)) \<Rightarrow> Inr (f_cmp a b)
      | Inr None \<Rightarrow>
          (case (as_str lhs, as_str rhs) of
             (Some a, Some b) \<Rightarrow> Inr (Some (ord_of a b))
           | _ \<Rightarrow> Inr None))"

definition compare :: "cmp_op \<Rightarrow> json \<Rightarrow> json \<Rightarrow> expr_error + json" where
  "compare op lhs rhs =
     (case compare_ordering lhs rhs of
        Inl e \<Rightarrow> Inl e
      | Inr ord \<Rightarrow>
          (case (op, ord) of
             (CEq, Some o') \<Rightarrow> Inr (JBool (o' = OEqual))
           | (CEq, None) \<Rightarrow> Inr (JBool (json_eq lhs rhs))
           | (CNeq, Some o') \<Rightarrow> Inr (JBool (o' \<noteq> OEqual))
           | (CNeq, None) \<Rightarrow> Inr (JBool (\<not> json_eq lhs rhs))
           | (CGt, Some o') \<Rightarrow> Inr (JBool (o' = OGreater))
           | (CGte, Some o') \<Rightarrow> Inr (JBool (o' \<noteq> OLess))
           | (CLt, Some o') \<Rightarrow> Inr (JBool (o' = OLess))
           | (CLte, Some o') \<Rightarrow> Inr (JBool (o' \<noteq> OGreater))
           | (_, None) \<Rightarrow> Inl (EvalErr (E_compare lhs rhs))))"

subsection \<open>Helpers of the evaluator\<close>

fun is_truthy :: "json \<Rightarrow> bool" where
  "is_truthy (JBool False) = False"
| "is_truthy JNull = False"
| "is_truthy _ = True"

fun resolve_path :: "json \<Rightarrow> string list \<Rightarrow> expr_error + json" where
  "resolve_path cur [] = Inr cur"
| "resolve_path cur (s # ss) =
     (case as_object cur of
        None \<Rightarrow> Inl (EvalErr (E_field s))
      | Some m \<Rightarrow> (case im_get m s of None \<Rightarrow> Inl (EvalErr (E_field s)) | Some v \<Rightarrow> resolve_path v ss))"

fun as_text :: "host \<Rightarrow> json \<Rightarrow> string" where
  "as_text h (JString s) = s"
| "as_text h JNull = []"
| "as_text h (JBool b) = (if b then ''true'' else ''false'')"
| "as_text h (JNumber n) = h_to_string h (JNumber n)"
| "as_text h v = h_to_string h v"

datatype arith_op = AAdd | ASub | AMul | ADiv | ARem

fun arith_f64 :: "arith_op \<Rightarrow> f64 \<Rightarrow> f64 \<Rightarrow> f64" where
  "arith_f64 AAdd = f_add"
| "arith_f64 ASub = f_sub"
| "arith_f64 AMul = f_mul"
| "arith_f64 ADiv = f_div"
| "arith_f64 ARem = f_rem"

definition arith_value :: "f64 \<Rightarrow> json" where
  "arith_value x =
     (if f_is_integral x \<and> f_abs_lt x 9000000000000000 then value_of_int (f_to_i64 x)
      else value_of_f64 x)"

text \<open>\<^verbatim>\<open>arith\<close> once both operands are evaluated.\<close>

definition arith_values :: "host \<Rightarrow> arith_op \<Rightarrow> json \<Rightarrow> json \<Rightarrow> expr_error + json" where
  "arith_values h op left right =
     (if op = AAdd \<and> (is_string left \<or> is_string right)
      then Inr (JString (as_text h left @ as_text h right))
      else (case to_number left of Inl e \<Rightarrow> Inl e
            | Inr a \<Rightarrow> (case to_number right of Inl e \<Rightarrow> Inl e
               | Inr b \<Rightarrow>
                   let result = arith_f64 op a b in
                   if \<not> f_is_finite result then Inl (EvalErr E_not_finite)
                   else Inr (arith_value result))))"

definition membership_values :: "json \<Rightarrow> json \<Rightarrow> expr_error + json" where
  "membership_values needle lst =
     (case lst of
        JArray values \<Rightarrow> Inr (JBool (json_contains values needle))
      | other \<Rightarrow> Inl (EvalErr (E_in_not_list other)))"

subsection \<open>Built-in functions\<close>

definition to_i64 :: "f64 \<Rightarrow> int" where
  "to_i64 x = f_to_i64 x"

fun len_value :: "json \<Rightarrow> expr_error + int" where
  "len_value (JString s) = Inr (int (length s))"
| "len_value (JArray xs) = Inr (int (length xs))"
| "len_value (JObject m) = Inr (int (length m))"
| "len_value JNull = Inr 0"
| "len_value v = Inl (EvalErr (E_len v))"

definition call_now :: "host \<Rightarrow> json list \<Rightarrow> nat \<Rightarrow> json eres" where
  "call_now h values t =
     (if values \<noteq> [] then (Inl (EvalErr E_now_args), t) else (Inr (JString (h_now h t)), Suc t))"

definition call_uuid :: "host \<Rightarrow> json list \<Rightarrow> nat \<Rightarrow> json eres" where
  "call_uuid h values t =
     (if values \<noteq> [] then (Inl (EvalErr E_uuid_args), t) else (Inr (JString (h_uuid h t)), Suc t))"

definition call_env :: "host \<Rightarrow> json \<Rightarrow> expr_error + json" where
  "call_env h v =
     (case v of
        JString name \<Rightarrow> (case h_env h name of Some s \<Rightarrow> Inr (JString s)
                         | None \<Rightarrow> Inl (EvalErr (E_env_unset name)))
      | other \<Rightarrow> Inl (EvalErr (E_env_arg other)))"

definition call_var :: "(string \<times> json) list \<Rightarrow> json \<Rightarrow> expr_error + json" where
  "call_var vars v =
     (case v of
        JString name \<Rightarrow> (case im_get vars name of Some x \<Rightarrow> Inr x
                         | None \<Rightarrow> Inl (EvalErr (E_var_unset name)))
      | other \<Rightarrow> Inl (EvalErr (E_var_arg other)))"

text \<open>\<^verbatim>\<open>values.pop()\<close>: the functions of one argument take the last value.\<close>

definition one_arg :: "json list \<Rightarrow> expr_error + json" where
  "one_arg values = (if values = [] then Inl (EvalErr E_no_arg) else Inr (last values))"

definition call_with :: "host \<Rightarrow> (string \<times> json) list \<Rightarrow> string \<Rightarrow> json list \<Rightarrow> nat \<Rightarrow> json eres" where
  "call_with h vars name values t =
     (let one = (\<lambda>f. (case one_arg values of Inl e \<Rightarrow> (Inl e, t) | Inr v \<Rightarrow> (f v, t)))
      in if name = ''int'' then
           one (\<lambda>v. case to_number v of Inl e \<Rightarrow> Inl e | Inr x \<Rightarrow> Inr (value_of_int (to_i64 x)))
         else if name = ''float'' then
           one (\<lambda>v. case to_number v of Inl e \<Rightarrow> Inl e | Inr x \<Rightarrow> Inr (value_of_f64 x))
         else if name = ''str'' then one (\<lambda>v. Inr (JString (as_text h v)))
         else if name = ''len'' then
           one (\<lambda>v. case len_value v of Inl e \<Rightarrow> Inl e | Inr n \<Rightarrow> Inr (value_of_int n))
         else if name = ''now'' then call_now h values t
         else if name = ''uuid'' then call_uuid h values t
         else if name = ''env'' then one (call_env h)
         else if name = ''var'' then one (call_var vars)
         else (Inl (EvalErr (E_unknown_fn name)), t))"

subsection \<open>The evaluator\<close>

fun eval :: "host \<Rightarrow> (string \<times> json) list \<Rightarrow> expr \<Rightarrow> json \<Rightarrow> nat \<Rightarrow> json eres"
  and eval_args :: "host \<Rightarrow> (string \<times> json) list \<Rightarrow> expr list \<Rightarrow> json \<Rightarrow> nat \<Rightarrow> json list eres" where
  "eval h vars (Lit v) r t = (Inr v, t)"
| "eval h vars (Path ss) r t = (resolve_path r ss, t)"
| "eval h vars (EList es) r t = ebind (eval_args h vars es r t) (\<lambda>vs t'. (Inr (JArray vs), t'))"
| "eval h vars (Not e) r t = ebind (eval h vars e r t) (\<lambda>v t'. (Inr (JBool (\<not> is_truthy v)), t'))"
| "eval h vars (And a b) r t =
     ebind (eval h vars a r t) (\<lambda>v t'.
       if \<not> is_truthy v then (Inr (JBool False), t')
       else ebind (eval h vars b r t') (\<lambda>w t''. (Inr (JBool (is_truthy w)), t'')))"
| "eval h vars (Or a b) r t =
     ebind (eval h vars a r t) (\<lambda>v t'.
       if is_truthy v then (Inr (JBool True), t')
       else ebind (eval h vars b r t') (\<lambda>w t''. (Inr (JBool (is_truthy w)), t'')))"
| "eval h vars (Cmp op a b) r t =
     ebind (eval h vars a r t) (\<lambda>v t'.
       ebind (eval h vars b r t') (\<lambda>w t''. (compare op v w, t'')))"
| "eval h vars (In a b) r t =
     ebind (eval h vars a r t) (\<lambda>v t'.
       ebind (eval h vars b r t') (\<lambda>w t''. (membership_values v w, t'')))"
| "eval h vars (Add a b) r t =
     ebind (eval h vars a r t) (\<lambda>v t'. ebind (eval h vars b r t') (\<lambda>w t''. (arith_values h AAdd v w, t'')))"
| "eval h vars (Sub a b) r t =
     ebind (eval h vars a r t) (\<lambda>v t'. ebind (eval h vars b r t') (\<lambda>w t''. (arith_values h ASub v w, t'')))"
| "eval h vars (Mul a b) r t =
     ebind (eval h vars a r t) (\<lambda>v t'. ebind (eval h vars b r t') (\<lambda>w t''. (arith_values h AMul v w, t'')))"
| "eval h vars (Div a b) r t =
     ebind (eval h vars a r t) (\<lambda>v t'. ebind (eval h vars b r t') (\<lambda>w t''. (arith_values h ADiv v w, t'')))"
| "eval h vars (Rem a b) r t =
     ebind (eval h vars a r t) (\<lambda>v t'. ebind (eval h vars b r t') (\<lambda>w t''. (arith_values h ARem v w, t'')))"
| "eval h vars (Call f es) r t =
     ebind (eval_args h vars es r t) (\<lambda>vs t'. call_with h vars f vs t')"
| "eval_args h vars [] r t = (Inr [], t)"
| "eval_args h vars (e # es) r t =
     ebind (eval h vars e r t) (\<lambda>v t'. ebind (eval_args h vars es r t') (\<lambda>vs t''. (Inr (v # vs), t'')))"

section \<open>Facts\<close>

lemma ebind_simps [simp]:
  "ebind (Inl e, t) f = (Inl e, t)"
  "ebind (Inr x, t) f = f x t"
  by (simp_all add: ebind_def)

text \<open>The laws of comparison.\<close>

lemma compare_Neq: "compare CNeq v w = (case compare CEq v w of Inr (JBool b) \<Rightarrow> Inr (JBool (\<not> b)) | r \<Rightarrow> r)"
  by (auto simp: compare_def split: sum.splits option.splits)

lemma compare_Gte: "compare CGte v w = (case compare CLt v w of Inr (JBool b) \<Rightarrow> Inr (JBool (\<not> b)) | r \<Rightarrow> r)"
  by (auto simp: compare_def split: sum.splits option.splits)

lemma compare_Lte: "compare CLte v w = (case compare CGt v w of Inr (JBool b) \<Rightarrow> Inr (JBool (\<not> b)) | r \<Rightarrow> r)"
  by (auto simp: compare_def split: sum.splits option.splits)

lemma numeric_pair_swap:
  "numeric_pair v w = Inr p \<longleftrightarrow> numeric_pair w v = Inr (map_option prod.swap p)"
  by (cases p) (auto simp: numeric_pair_def split: sum.splits if_splits)

lemma compare_ordering_flip:
  "compare_ordering v w = Inr ord \<Longrightarrow> compare_ordering w v = Inr (map_option ord_flip ord)"
proof (cases "numeric_pair v w")
  case (Inr p)
  assume a: "compare_ordering v w = Inr ord"
  have sw: "numeric_pair w v = Inr (map_option prod.swap p)" using Inr numeric_pair_swap by blast
  show ?thesis
  proof (cases p)
    case (Some ab)
    obtain x y where ab: "ab = (x, y)" by (cases ab)
    from a Inr Some ab have "ord = f_cmp x y" by (simp add: compare_ordering_def)
    moreover have "compare_ordering w v = Inr (f_cmp y x)"
      using sw Some ab by (simp add: compare_ordering_def)
    ultimately show ?thesis using f_cmp_flip [of y x] by simp
  next
    case None
    then show ?thesis using a Inr sw
      by (auto simp: compare_ordering_def intro: ord_of_flip split: option.splits)
  qed
qed (simp add: compare_ordering_def)

lemma compare_Gt_Lt: "compare CGt v w = Inr r \<Longrightarrow> compare CLt w v = Inr r"
proof -
  assume a: "compare CGt v w = Inr r"
  then obtain o' where o: "compare_ordering v w = Inr (Some o')" "r = JBool (o' = OGreater)"
    by (auto simp: compare_def split: sum.splits option.splits)
  from compare_ordering_flip [OF o(1)] o(2) show ?thesis
    by (cases o') (auto simp: compare_def)
qed

lemma compare_Lt_Gt: "compare CLt v w = Inr r \<Longrightarrow> compare CGt w v = Inr r"
proof -
  assume a: "compare CLt v w = Inr r"
  then obtain o' where o: "compare_ordering v w = Inr (Some o')" "r = JBool (o' = OLess)"
    by (auto simp: compare_def split: sum.splits option.splits)
  from compare_ordering_flip [OF o(1)] o(2) show ?thesis
    by (cases o') (auto simp: compare_def)
qed

text \<open>Exact integer arithmetic.\<close>

fun int_arith :: "arith_op \<Rightarrow> int \<Rightarrow> int \<Rightarrow> int option" where
  "int_arith AAdd a b = Some (a + b)"
| "int_arith ASub a b = Some (a - b)"
| "int_arith AMul a b = Some (a * b)"
| "int_arith ADiv a b = (if b \<noteq> 0 \<and> b dvd a then Some (a div b) else None)"
| "int_arith ARem a b = (if b = 0 then None else Some (sgn a * (\<bar>a\<bar> mod \<bar>b\<bar>)))"

lemma to_number_int: "\<bar>n\<bar> < 2 ^ 53 \<Longrightarrow> to_number (value_of_int n) = Inr (F_Fin (of_int n))"
  using f_of_int_exact [of n] by (simp add: to_number_def value_of_int_def num_of_int_def)

lemma is_string_value_of_int [simp]: "\<not> is_string (value_of_int n)"
  by (simp add: value_of_int_def)

lemma f_add_int: "\<bar>a + b\<bar> < 2 ^ 53 \<Longrightarrow> f_add (F_Fin (of_int a)) (F_Fin (of_int b)) = F_Fin (of_int (a + b))"
  using f_round_of_int_exact [of "a + b"] by simp

lemma f_negate_int: "f_negate (F_Fin (of_int b)) = (if b = 0 then F_NegZero else F_Fin (of_int (- b)))"
  by simp

lemma f_sub_int:
  assumes "\<bar>a - b\<bar> < 2 ^ 53" "\<bar>a\<bar> < 2 ^ 53"
  shows "f_sub (F_Fin (of_int a)) (F_Fin (of_int b)) = F_Fin (of_int (a - b))"
proof (cases "b = 0")
  case True
  then show ?thesis using f_round_of_int_exact [OF assms(2)] by (simp add: f_sub_def)
next
  case False
  then show ?thesis using f_round_of_int_exact [OF assms(1)] by (simp add: f_sub_def)
qed

lemma rat_trunc_div:
  assumes "b \<noteq> 0"
  shows "rat_trunc (of_int a / of_int b) = sgn a * sgn b * (\<bar>a\<bar> div \<bar>b\<bar>)"
proof -
  have fl: "\<lfloor>(of_int x :: rat) / of_int y\<rfloor> = x div y" for x y by (rule floor_divide_of_int_eq)
  have q: "\<bar>(of_int a :: rat) / of_int b\<bar> = of_int \<bar>a\<bar> / of_int \<bar>b\<bar>" by (simp add: abs_divide)
  show ?thesis
  proof (cases "0 \<le> (of_int a :: rat) / of_int b")
    case True
    then have s: "a = 0 \<or> sgn a = sgn b"
      using assms by (auto simp: zero_le_divide_iff sgn_if)
    have "rat_trunc (of_int a / of_int b) = \<lfloor>\<bar>(of_int a :: rat) / of_int b\<bar>\<rfloor>"
      by (simp only: rat_trunc_def True if_True abs_of_nonneg)
    also have "\<dots> = \<bar>a\<bar> div \<bar>b\<bar>" unfolding q by (rule fl)
    finally show ?thesis using s assms by (auto simp: sgn_if split: if_splits)
  next
    case False
    then have s: "sgn a * sgn b = - 1"
      using assms by (auto simp: zero_le_divide_iff sgn_if split: if_splits)
    have "rat_trunc (of_int a / of_int b) = - \<lfloor>\<bar>(of_int a :: rat) / of_int b\<bar>\<rfloor>"
      using False by (simp only: rat_trunc_def if_False abs_of_neg [OF not_le_imp_less])
    also have "\<lfloor>\<bar>(of_int a :: rat) / of_int b\<bar>\<rfloor> = \<bar>a\<bar> div \<bar>b\<bar>" unfolding q by (rule fl)
    finally show ?thesis using s by simp
  qed
qed

lemma trunc_rem_int:
  assumes "b \<noteq> (0::int)"
  shows "a - b * (sgn a * sgn b * (\<bar>a\<bar> div \<bar>b\<bar>)) = sgn a * (\<bar>a\<bar> mod \<bar>b\<bar>)"
proof -
  have "b * sgn b = \<bar>b\<bar>" using assms by (simp add: sgn_if)
  then have "b * (sgn a * sgn b * (\<bar>a\<bar> div \<bar>b\<bar>)) = sgn a * (\<bar>b\<bar> * (\<bar>a\<bar> div \<bar>b\<bar>))"
    by (simp add: algebra_simps)
  moreover have "a = sgn a * \<bar>a\<bar>" by (simp add: sgn_if)
  moreover have "\<bar>a\<bar> = \<bar>b\<bar> * (\<bar>a\<bar> div \<bar>b\<bar>) + \<bar>a\<bar> mod \<bar>b\<bar>" by simp
  ultimately show ?thesis by (metis add_diff_cancel_left' distrib_left)
qed

lemma f_mul_int:
  assumes "\<bar>a * b\<bar> < 2 ^ 53"
  shows "f_mul (F_Fin (of_int a)) (F_Fin (of_int b)) \<in> {F_Fin (of_int (a * b)), f_signed_zero True} \<and>
    (f_mul (F_Fin (of_int a)) (F_Fin (of_int b)) = F_NegZero \<longrightarrow> a * b = 0)"
  using f_round_of_int_exact [OF assms]
  by (cases "a * b = 0") (auto simp: f_signed_zero_def simp flip: of_int_mult)

text \<open>A finite result that is the integer \<open>n\<close>, as either zero where \<open>n\<close> is zero.\<close>

definition f_is_int :: "f64 \<Rightarrow> int \<Rightarrow> bool" where
  "f_is_int x n \<longleftrightarrow> x = F_Fin (of_int n) \<or> (n = 0 \<and> x = F_NegZero)"

lemma arith_value_int:
  assumes "f_is_int x n" "\<bar>n\<bar> < 9000000000000000"
  shows "arith_value x = value_of_int n" "f_is_finite x"
proof -
  have "\<bar>of_int n :: rat\<bar> < 9000000000000000"
    using assms(2) by (metis of_int_abs of_int_less_iff of_int_numeral)
  moreover have "max i64_min (min i64_max n) = n" using assms(2) by (auto simp: i64_min_def i64_max_def)
  ultimately show "arith_value x = value_of_int n" "f_is_finite x"
    using assms(1) by (auto simp: f_is_int_def arith_value_def f_abs_lt_def f_is_integral_def)
qed

lemma arith_f64_int:
  assumes "\<bar>a\<bar> < 2 ^ 53" "int_arith op a b = Some n" "\<bar>n\<bar> < 2 ^ 53"
  shows "f_is_int (arith_f64 op (F_Fin (of_int a)) (F_Fin (of_int b))) n"
proof (cases op)
  case AAdd
  then show ?thesis using assms by (simp add: f_is_int_def f_add_int del: f_add.simps)
next
  case ASub
  then show ?thesis using assms by (simp add: f_is_int_def f_sub_int)
next
  case AMul
  then show ?thesis using assms f_mul_int [of a b] by (auto simp: f_is_int_def f_signed_zero_def)
next
  case ADiv
  then have d: "b \<noteq> 0" "b dvd a" "n = a div b" using assms(2) by (auto split: if_splits)
  then have "(of_int a :: rat) / of_int b = of_int n" by (auto simp: dvd_def)
  then show ?thesis using ADiv d f_round_of_int_exact [OF assms(3)]
    by (auto simp: f_is_int_def f_signed_zero_def)
next
  case ARem
  then have d: "b \<noteq> 0" "n = sgn a * (\<bar>a\<bar> mod \<bar>b\<bar>)" using assms(2) by (auto split: if_splits)
  have "(of_int a :: rat) - of_int b * of_int (rat_trunc (of_int a / of_int b)) =
      of_int (a - b * (sgn a * sgn b * (\<bar>a\<bar> div \<bar>b\<bar>)))"
    by (simp only: rat_trunc_div [OF d(1)] of_int_diff of_int_mult)
  also have "\<dots> = of_int n" by (simp only: trunc_rem_int [OF d(1)] d(2))
  finally have r: "(of_int a :: rat) - of_int b * of_int (rat_trunc (of_int a / of_int b)) = of_int n" .
  show ?thesis using ARem d(1) f_round_of_int_exact [OF assms(3)]
    by (auto simp: f_is_int_def f_signed_zero_def Let_def r)
qed

text \<open>Expressions that do not ask the clock or the generator.\<close>

fun clockless :: "expr \<Rightarrow> bool" where
  "clockless (EList es) = list_all clockless es"
| "clockless (Not e) = clockless e"
| "clockless (And a b) = (clockless a \<and> clockless b)"
| "clockless (Or a b) = (clockless a \<and> clockless b)"
| "clockless (Cmp _ a b) = (clockless a \<and> clockless b)"
| "clockless (In a b) = (clockless a \<and> clockless b)"
| "clockless (Add a b) = (clockless a \<and> clockless b)"
| "clockless (Sub a b) = (clockless a \<and> clockless b)"
| "clockless (Mul a b) = (clockless a \<and> clockless b)"
| "clockless (Div a b) = (clockless a \<and> clockless b)"
| "clockless (Rem a b) = (clockless a \<and> clockless b)"
| "clockless (Call f es) = (f \<noteq> ''now'' \<and> f \<noteq> ''uuid'' \<and> list_all clockless es)"
| "clockless _ = True"

definition untimed :: "(nat \<Rightarrow> 'a eres) \<Rightarrow> bool" where
  "untimed f \<longleftrightarrow> (\<exists>r. \<forall>t. f t = (r, t))"

lemma untimed_ret [simp]: "untimed (\<lambda>t. (r, t))"
  by (auto simp: untimed_def)

lemma untimed_ebind:
  assumes "untimed f" "\<And>x. untimed (g x)"
  shows "untimed (\<lambda>t. ebind (f t) g)"
proof -
  obtain r where r: "\<And>t. f t = (r, t)" using assms(1) by (auto simp: untimed_def)
  show ?thesis
  proof (cases r)
    case (Inr x)
    then show ?thesis using assms(2) [of x] by (simp add: r)
  qed (simp add: r)
qed

lemma untimedI: "(\<And>t. f t = g t) \<Longrightarrow> untimed g \<Longrightarrow> untimed f"
  by (simp add: untimed_def)

lemma untimed_if: "untimed f \<Longrightarrow> untimed g \<Longrightarrow> untimed (\<lambda>t. if b then f t else g t)"
  by (cases b) simp_all

lemma untimed_call_with:
  assumes "f \<noteq> ''now''" "f \<noteq> ''uuid''"
  shows "untimed (call_with h vars f vs)"
proof -
  have one: "untimed (\<lambda>t. case one_arg vs of Inl e \<Rightarrow> (Inl e, t) | Inr v \<Rightarrow> (g v, t))" for g
    by (cases "one_arg vs") auto
  show ?thesis
    unfolding call_with_def [abs_def] Let_def
    by (simp only: assms if_False) (intro untimed_if one untimed_ret)
qed

lemma untimed_args:
  "(\<And>e. e \<in> set es \<Longrightarrow> untimed (eval h vars e r)) \<Longrightarrow> untimed (eval_args h vars es r)"
proof (induction es)
  case (Cons e es)
  then show ?case
    by (intro untimedI [OF eval_args.simps(2)] untimed_ebind untimed_ret) auto
qed (rule untimedI [OF eval_args.simps(1)], simp)

lemma untimed_eval: "clockless e \<Longrightarrow> untimed (eval h vars e r)"
proof (induction e)
  case (EList es)
  then show ?case
    by (intro untimedI [OF eval.simps(3)] untimed_ebind untimed_args untimed_ret) (auto simp: list_all_iff)
next
  case (Call f es)
  then show ?case
    by (intro untimedI [OF eval.simps(14)] untimed_ebind untimed_args untimed_call_with)
      (auto simp: list_all_iff)
qed (rule untimedI, rule eval.simps; auto intro!: untimed_ebind untimed_if)+

lemma eval_clockless:
  assumes "clockless e"
  shows "eval h vars e r t = (fst (eval h vars e r t'), t)"
  using untimed_eval [OF assms, of h vars r] by (auto simp: untimed_def)

text \<open>What an evaluation reads of its record.\<close>

fun paths_of :: "expr \<Rightarrow> string list list" where
  "paths_of (Lit _) = []"
| "paths_of (Path ss) = [ss]"
| "paths_of (EList es) = concat (map paths_of es)"
| "paths_of (Not e) = paths_of e"
| "paths_of (And a b) = paths_of a @ paths_of b"
| "paths_of (Or a b) = paths_of a @ paths_of b"
| "paths_of (Cmp _ a b) = paths_of a @ paths_of b"
| "paths_of (In a b) = paths_of a @ paths_of b"
| "paths_of (Add a b) = paths_of a @ paths_of b"
| "paths_of (Sub a b) = paths_of a @ paths_of b"
| "paths_of (Mul a b) = paths_of a @ paths_of b"
| "paths_of (Div a b) = paths_of a @ paths_of b"
| "paths_of (Rem a b) = paths_of a @ paths_of b"
| "paths_of (Call _ es) = concat (map paths_of es)"

lemma eval_args_cong:
  "(\<And>e t. e \<in> set es \<Longrightarrow> eval h vars e r t = eval h vars e r' t) \<Longrightarrow>
   eval_args h vars es r t = eval_args h vars es r' t"
  by (induction es arbitrary: t) auto

lemma eval_reads:
  "(\<And>ss. ss \<in> set (paths_of e) \<Longrightarrow> resolve_path r ss = resolve_path r' ss) \<Longrightarrow>
   eval h vars e r t = eval h vars e r' t"
proof (induction e arbitrary: t)
  case (EList es)
  have "eval_args h vars es r t = eval_args h vars es r' t"
    by (rule eval_args_cong, rule EList.IH, assumption, rule EList.prems) auto
  then show ?case by simp
next
  case (Call f es)
  have "eval_args h vars es r t = eval_args h vars es r' t"
    by (rule eval_args_cong, rule Call.IH, assumption, rule Call.prems) auto
  then show ?case by simp
qed (simp_all cong: if_cong)

section \<open>Properties\<close>

text \<open>A host for concrete evaluations: a stopped clock and an empty environment.\<close>

definition idle_host :: host where
  "idle_host = \<lparr>h_now = (\<lambda>_. ''2026-01-01T00:00:00+00:00''), h_uuid = (\<lambda>_. ''u''),
     h_env = (\<lambda>_. None), h_to_string = (\<lambda>_. ''?'')\<rparr>"

text \<open>
  Comparison is coherent: \<^verbatim>\<open>!=\<close> is the negation of \<^verbatim>\<open>==\<close>, \<^verbatim>\<open>>=\<close> of \<^verbatim>\<open><\<close> and
  \<^verbatim>\<open><=\<close> of \<^verbatim>\<open>>\<close> (with the same errors), and \<^verbatim>\<open>a > b\<close> has a value exactly when
  \<^verbatim>\<open>b < a\<close> has that value: over all mixtures of numbers, numeric strings, text, NaN and
  values without an order.
\<close>

theorem compare_coherent:
  "compare CNeq v w = (case compare CEq v w of Inr (JBool b) \<Rightarrow> Inr (JBool (\<not> b)) | r \<Rightarrow> r) \<and>
   compare CGte v w = (case compare CLt v w of Inr (JBool b) \<Rightarrow> Inr (JBool (\<not> b)) | r \<Rightarrow> r) \<and>
   compare CLte v w = (case compare CGt v w of Inr (JBool b) \<Rightarrow> Inr (JBool (\<not> b)) | r \<Rightarrow> r) \<and>
   (compare CGt v w = Inr x \<longleftrightarrow> compare CLt w v = Inr x)"
  using compare_Neq compare_Gte compare_Lte compare_Gt_Lt compare_Lt_Gt by blast

text \<open>
  C26. Integer arithmetic is exact although it runs in binary64: for integer operands below 2
  to the 53 whose exact result (sum, difference, product, exact quotient, truncated remainder)
  is below 9e15 in magnitude, the evaluated expression is that integer as a JSON integer.
\<close>

theorem arith_int_exact:
  assumes "\<bar>a\<bar> < 2 ^ 53" "\<bar>b\<bar> < 2 ^ 53"
    and "int_arith op a b = Some n" "\<bar>n\<bar> < 9000000000000000"
  shows "arith_values h op (value_of_int a) (value_of_int b) = Inr (value_of_int n)"
proof -
  have "\<bar>n\<bar> < 2 ^ 53" using assms(4) by simp
  from arith_f64_int [OF assms(1,3) this] have
    "arith_value (arith_f64 op (F_Fin (of_int a)) (F_Fin (of_int b))) = value_of_int n"
    "f_is_finite (arith_f64 op (F_Fin (of_int a)) (F_Fin (of_int b)))"
    using arith_value_int [OF _ assms(4)] by blast+
  then show ?thesis
    by (simp add: arith_values_def to_number_int [OF assms(1)] to_number_int [OF assms(2)] Let_def)
qed

theorem arith_int_exact_witness:
  "arith_values idle_host AMul (value_of_int 6) (value_of_int (- 7)) = Inr (value_of_int (- 42))"
  by (rule arith_int_exact) simp_all

text \<open>
  An integer is never a member of a list of number literals: the parser turns every number
  literal into a float, and JSON integers and floats are never equal, so \<^verbatim>\<open>n in [1, 2]\<close> is
  false for every integer field \<^verbatim>\<open>n\<close>.
\<close>

theorem int_not_in_number_list:
  assumes "eval h vars e r t = (Inr (value_of_int n), t')"
  shows "eval h vars (In e (EList (map (\<lambda>x. Lit (value_of_f64 x)) xs))) r t = (Inr (JBool False), t')"
proof -
  have args: "eval_args h vars (map (\<lambda>x. Lit (value_of_f64 x)) xs) r t'' = (Inr (map value_of_f64 xs), t'')" for t''
    by (induction xs) simp_all
  have "\<not> json_eq (value_of_f64 x) (value_of_int n)" for x
    by (simp add: value_of_f64_def) (simp add: value_of_int_def)
  then have "\<not> json_contains (map value_of_f64 xs) (value_of_int n)"
    by (simp add: json_contains_def list_ex_iff)
  with args show ?thesis by (simp add: assms membership_values_def)
qed

theorem int_not_in_number_list_witness:
  "eval idle_host [] (In (Path [''n'']) (EList (map (\<lambda>x. Lit (value_of_f64 x)) [F_Fin 1, F_Fin 2])))
     (JObject [(''n'', value_of_int 1)]) 0 = (Inr (JBool False), 0)"
  by (rule int_not_in_number_list [where n = 1]) simp

text \<open>
  An expression that calls neither \<^verbatim>\<open>now()\<close> nor \<^verbatim>\<open>uuid()\<close> is a function of the fields it
  names: evaluated at any two moments, on any two records that agree on the paths it mentions,
  it gives the same value or the same error and asks the host nothing.
\<close>

theorem eval_deterministic:
  assumes "clockless e"
    and "\<And>ss. ss \<in> set (paths_of e) \<Longrightarrow> resolve_path r ss = resolve_path r' ss"
  shows "eval h vars e r t = (fst (eval h vars e r' t'), t)"
  using eval_clockless [OF assms(1), of h vars r t t'] eval_reads [of e r r' h vars t', OF assms(2)]
  by simp

theorem eval_deterministic_witness:
  "eval idle_host [] (Add (Path [''a'']) (Lit (JString ''x''))) (JObject [(''a'', JNull), (''b'', JNull)]) 5 =
   (fst (eval idle_host [] (Add (Path [''a'']) (Lit (JString ''x''))) (JObject [(''a'', JNull)]) 9), 5)"
  by (rule eval_deterministic) simp_all

end
