(* ===== verification/Core_Error.thy ===== *)
theory Core_Error
  imports Expr_Eval
begin

text \<open>
  The error types of the core crate (\<^verbatim>\<open>sohara-core/src/error.rs\<close>), of the config crate
  (\<^verbatim>\<open>sohara-config/src/error.rs\<close>) and of the duration parser.  As in the expression
  language, a message built with \<^verbatim>\<open>format!\<close> is the constructor of its format string applied to
  the values it interpolates; texts that come from other crates (I/O, YAML, HTTP) are strings.
\<close>

datatype duration_error =
    D_no_unit string
  | D_invalid string
  | D_bad_unit string

text \<open>The field checks of an assertion (\<^verbatim>\<open>Check\<close> in \<^verbatim>\<open>transform.rs\<close>), printed in its default message.\<close>

datatype check =
    ChkEq json | ChkNeq json | ChkGt f64 | ChkGte f64 | ChkLt f64 | ChkLte f64
  | ChkExists | ChkNotNull | ChkNull | ChkIn "json list" | ChkContains json

datatype assert_msg = A_message string | A_failed string check

datatype step_kind = KSource | KTransform | KSink | KControl

text \<open>The texts of \<^verbatim>\<open>ConfigError::Invalid\<close>.\<close>

datatype invalid_msg =
    I_version string
  | I_trigger_id_empty
  | I_duplicate_id string
  | I_no_steps
  | I_step_id_empty
  | I_duplicate_step string
  | I_missing_kind string
  | I_step_when string expr_error
  | I_no_source
  | I_no_sink
  | I_edge_from string
  | I_edge_to string
  | I_self_loop string
  | I_edge_when string string expr_error
  | I_cycle
  | I_unknown_template string string
  | I_kind_conflict string

text \<open>How \<^verbatim>\<open>serde_json::from_value\<close> can reject a value for a typed config.\<close>

datatype serde_error =
    Sd_Type json
  | Sd_Unknown_Field string
  | Sd_Missing string
  | Sd_Length nat
  | Sd_Text string

text \<open>What is wrong with an extension manifest (\<^verbatim>\<open>stdio_extensions.rs\<close>).\<close>

datatype manifest_msg =
    M_untrusted_builtin
  | M_protocol string string
  | M_empty
  | M_duplicate_step step_kind string
  | M_existing_step step_kind string
  | M_duplicate_named string string
  | M_existing_named string string
  | M_control_step string

datatype config_error =
    CE_Read string string
  | CE_Parse string string
  | CE_Invalid invalid_msg
  | CE_UnknownField string string
  | CE_Unsupported string string
  | CE_ConfigNotMap string

datatype error =
    Err_Io string
  | Err_Serialization string
  | Err_Pipeline string
  | Err_Source string
  | Err_Sink string
  | Err_Transform string
  | Err_Assertion assert_msg
  | Err_Expression expr_error
  | Err_Runtime string
  | Err_Config config_msg
  | Err_Timeout
  | Err_ChannelClosed
  | Err_Unknown string
and config_msg =
    C_unknown_target string string
  | C_self_loop string
  | C_cycle
  | C_sink_outgoing string
  | C_step_when string expr_error
  | C_edge_when string string expr_error
  | C_retry_block string
  | C_retry_backoff string duration_error
  | C_config config_error
  | C_in_step string error
  | C_unknown_step step_kind string "string list"
  | C_control_step string
  | C_no_source
  | C_bad_config string serde_error
  | C_filter_where expr_error
  | C_map_expr string expr_error
  | C_assert_needs_value string string
  | C_assert_number string json
  | C_assert_array string string json
  | C_switch_empty
  | C_switch_case string expr_error
  | C_switch_default
  | C_foreach_over expr_error
  | C_loop_while expr_error
  | C_parallel_empty
  | C_join_n
  | C_delay duration_error
  | C_batch_group_by
  | C_batch_size
  | C_batch_within duration_error
  | C_state_empty
  | C_state_expr string expr_error
  | C_log_level string
  | C_queue_no_bus
  | C_delimiter string
  | C_append_json
  | C_csv_columns
  | C_csv_objects
  | C_text string
  | C_http_poll duration_error
  | C_extension string manifest_msg
  | C_reserved_registration string
  | C_manifest_read string string
  | C_manifest_parse string serde_error
  | C_manifest_suffix string
  | C_extension_dir string string
  | C_extension_missing string
  | C_stdio_step_metadata string
  | C_stdio_trigger_step string

text \<open>\<^verbatim>\<open>parse_duration\<close> (\<^verbatim>\<open>sohara-core/src/util.rs\<close>); a \<^verbatim>\<open>Duration\<close> is its number of milliseconds.\<close>

definition split_at_unit :: "string \<Rightarrow> duration_error + (string \<times> string)" where
  "split_at_unit text =
     (let digits = takeWhile (\<lambda>c. is_digit c \<or> c = CHR ''.'') text in
      if digits = text then Inl (D_no_unit text)
      else if digits = [] then Inl (D_invalid text)
      else Inr (digits, drop (length digits) text))"

definition unit_millis :: "string \<Rightarrow> f64 \<Rightarrow> f64 option" where
  "unit_millis u amount =
     (if u = ''ms'' then Some amount
      else if u = ''s'' then Some (f_mul amount (F_Fin 1000))
      else if u = ''m'' then Some (f_mul amount (F_Fin 60000))
      else if u = ''h'' then Some (f_mul amount (F_Fin 3600000))
      else None)"

definition parse_duration :: "string \<Rightarrow> duration_error + int" where
  "parse_duration raw =
     (let text = trim raw in
      case split_at_unit text of
        Inl e \<Rightarrow> Inl e
      | Inr (digits, u) \<Rightarrow>
          (case parse_f64 digits of
             None \<Rightarrow> Inl (D_invalid text)
           | Some amount \<Rightarrow>
               (case unit_millis u amount of
                  None \<Rightarrow> Inl (D_bad_unit u)
                | Some millis \<Rightarrow>
                    if \<not> f_is_finite millis \<or> f_cmp millis (F_Fin 0) = Some OLess
                    then Inl (D_invalid text)
                    else Inr (f_to_u64 (f_round_half_away millis)))))"

lemma parse_duration_range:
  "parse_duration s = Inr d \<Longrightarrow> 0 \<le> d \<and> d \<le> u64_max"
proof -
  have "0 \<le> f_to_u64 x \<and> f_to_u64 x \<le> u64_max" for x
    by (cases x) (auto simp: u64_max_def)
  then show "parse_duration s = Inr d \<Longrightarrow> 0 \<le> d \<and> d \<le> u64_max"
    by (auto simp: parse_duration_def Let_def split: sum.splits option.splits if_splits prod.splits)
qed

lemma parse_duration_2s: "parse_duration ''2s'' = Inr 2000"
  by code_simp

end
