(* ===== verification/Routes.thy ===== *)
theory Routes
  imports Core_Error "HOL-Library.Multiset"
begin

text \<open>
  The shape checks on a flow graph: the route tables of the runtime
  (\<^verbatim>\<open>sohara-runtime/src/routes.rs\<close>), the adjacency check of the config loader
  (\<^verbatim>\<open>check_acyclic\<close> in \<^verbatim>\<open>sohara-config/src/validate.rs\<close>) and the reachability search
  behind the structural warnings (\<^verbatim>\<open>reach\<close> in \<^verbatim>\<open>sohara-runtime/src/warnings.rs\<close>).
  A stack (\<^verbatim>\<open>Vec\<close> with \<^verbatim>\<open>push\<close>/\<^verbatim>\<open>pop\<close>) is a list with its top first.  Where a loop visits a
  \<^verbatim>\<open>HashMap\<close>, the visiting order is a function \<open>ord\<close> from the keys to a permutation of them, and
  the theorems hold for every such function.  A panic (\<^verbatim>\<open>expect\<close>, arithmetic underflow) is
  \<open>None\<close>.
\<close>

section \<open>Route tables\<close>

record route =
  r_to :: string
  r_when :: "expr option"

type_synonym route_table = "(string \<times> route list) list"

definition targets_of :: "route_table \<Rightarrow> string \<Rightarrow> string list" where
  "targets_of routes i = (case map_of routes i of None \<Rightarrow> [] | Some rs \<Rightarrow> map r_to rs)"

text \<open>All targets in the order \<^verbatim>\<open>routes.values()\<close> yields them.\<close>

definition all_targets :: "route_table \<Rightarrow> string list" where
  "all_targets routes = concat (map (\<lambda>(_, rs). map r_to rs) routes)"

definition count_incoming :: "route_table \<Rightarrow> (string \<times> nat) list" where
  "count_incoming routes =
     fold (\<lambda>t m. bt_insert t (Suc (case map_of m t of None \<Rightarrow> 0 | Some n \<Rightarrow> n)) m)
       (all_targets routes) []"

fun check_targets :: "string \<Rightarrow> route list \<Rightarrow> string list \<Rightarrow> error + unit" where
  "check_targets from [] ids = Inr ()"
| "check_targets from (r # rs) ids =
     (if r_to r \<notin> set ids then Inl (Err_Config (C_unknown_target from (r_to r)))
      else if from = r_to r then Inl (Err_Config (C_self_loop from))
      else check_targets from rs ids)"

fun validate_targets :: "route_table \<Rightarrow> string list \<Rightarrow> error + unit" where
  "validate_targets [] ids = Inr ()"
| "validate_targets ((from, rs) # routes) ids =
     (case check_targets from rs ids of
        Inl e \<Rightarrow> Inl e
      | Inr _ \<Rightarrow> validate_targets routes ids)"

section \<open>Kahn's algorithm\<close>

type_synonym degrees = "(string \<times> nat) list"

text \<open>The body of the inner \<^verbatim>\<open>for\<close>: decrement each target, push it when it reaches zero.\<close>

fun relax :: "string list \<Rightarrow> degrees \<Rightarrow> string list \<Rightarrow> (degrees \<times> string list) option" where
  "relax [] deg ready = Some (deg, ready)"
| "relax (t # ts) deg ready =
     (case map_of deg t of
        None \<Rightarrow> None
      | Some 0 \<Rightarrow> None
      | Some (Suc d) \<Rightarrow>
          relax ts (AList.update t d deg) (if d = 0 then t # ready else ready))"

lemma sum_degrees_update:
  "map_of deg t = Some (Suc d) \<Longrightarrow>
   Suc (sum_list (map snd (AList.update t d deg))) = sum_list (map snd deg)"
  by (induction deg) auto

lemma relax_measure:
  "relax ts deg ready = Some (deg', ready') \<Longrightarrow>
   sum_list (map snd deg') + length ready' \<le> sum_list (map snd deg) + length ready"
proof (induction ts deg ready rule: relax.induct)
  case (2 t ts deg ready)
  then obtain d where d: "map_of deg t = Some (Suc d)"
    by (auto split: option.splits nat.splits)
  with 2 have "sum_list (map snd deg') + length ready'
      \<le> sum_list (map snd (AList.update t d deg)) + length (if d = 0 then t # ready else ready)"
    by simp
  also have "\<dots> \<le> sum_list (map snd deg) + length ready"
    using sum_degrees_update [OF d] by (cases "d = 0") auto
  finally show ?case .
qed simp

text \<open>The outer \<^verbatim>\<open>while let Some(id) = ready.pop()\<close>, counting the visited nodes.\<close>

function (sequential) kahn :: "(string \<Rightarrow> string list) \<Rightarrow> degrees \<Rightarrow> string list \<Rightarrow> nat \<Rightarrow> nat option" where
  "kahn succ deg [] n = Some n"
| "kahn succ deg (i # ready) n =
     (case relax (succ i) deg ready of
        None \<Rightarrow> None
      | Some (deg', ready') \<Rightarrow> kahn succ deg' ready' (Suc n))"
  by pat_completeness auto
termination
  by (relation "measure (\<lambda>(succ, deg, ready, n). sum_list (map snd deg) + length ready)")
    (auto dest!: relax_measure)

definition bump :: "string \<Rightarrow> degrees \<Rightarrow> degrees" where
  "bump t deg = (case map_of deg t of None \<Rightarrow> deg | Some d \<Rightarrow> AList.update t (Suc d) deg)"

definition indegree_map :: "route_table \<Rightarrow> string list \<Rightarrow> degrees" where
  "indegree_map routes ids = fold bump (all_targets routes) (map (\<lambda>i. (i, 0)) ids)"

definition zero_ids :: "degrees \<Rightarrow> string list \<Rightarrow> string list" where
  "zero_ids deg ks = rev (filter (\<lambda>i. map_of deg i = Some 0) ks)"

definition check_acyclic ::
    "(string list \<Rightarrow> string list) \<Rightarrow> route_table \<Rightarrow> string list \<Rightarrow> (error + unit) option" where
  "check_acyclic ord routes ids =
     (let deg = indegree_map routes ids in
      case kahn (targets_of routes) deg (zero_ids deg (ord (map fst deg))) 0 of
        None \<Rightarrow> None
      | Some visited \<Rightarrow>
          Some (if visited \<noteq> length ids then Inl (Err_Config C_cycle) else Inr ()))"

text \<open>The config loader runs the same loop over the \<^verbatim>\<open>HashMap\<close> of the declared edges.\<close>

type_synonym adjacency = "(string \<times> string list) list"

definition adj_targets :: "adjacency \<Rightarrow> string \<Rightarrow> string list" where
  "adj_targets adj i = (case map_of adj i of None \<Rightarrow> [] | Some ts \<Rightarrow> ts)"

definition initial_indegree :: "adjacency \<Rightarrow> degrees" where
  "initial_indegree adj =
     fold (\<lambda>t deg. AList.update t (Suc (case map_of deg t of None \<Rightarrow> 0 | Some d \<Rightarrow> d)) deg)
       (concat (map snd adj))
       (fold (\<lambda>t deg. AList.update t 0 deg) (map fst adj @ concat (map snd adj)) [])"

definition check_edges_acyclic ::
    "(string list \<Rightarrow> string list) \<Rightarrow> adjacency \<Rightarrow> (config_error + unit) option" where
  "check_edges_acyclic ord adj =
     (let deg = initial_indegree adj in
      case kahn (adj_targets adj) deg (zero_ids deg (ord (map fst deg))) 0 of
        None \<Rightarrow> None
      | Some visited \<Rightarrow>
          Some (if visited \<noteq> length deg then Inl (CE_Invalid I_cycle) else Inr ()))"

section \<open>Reachability search\<close>

text \<open>\<^verbatim>\<open>reach\<close>: depth-first with a stack; \<open>seen\<close> lists the visited nodes.\<close>

function (sequential) reach_loop :: "adjacency \<Rightarrow> string list \<Rightarrow> string list \<Rightarrow> string list" where
  "reach_loop adj [] seen = seen"
| "reach_loop adj (i # stack) seen =
     (if i \<in> set seen then reach_loop adj stack seen
      else reach_loop adj (rev (adj_targets adj i) @ stack) (i # seen))"
  by pat_completeness auto

definition unseen_keys :: "adjacency \<Rightarrow> string list \<Rightarrow> nat" where
  "unseen_keys adj seen = card (fst ` set adj - set seen)"

termination reach_loop
proof (relation "measures [\<lambda>(adj, stack, seen). unseen_keys adj seen, \<lambda>(adj, stack, seen). length stack]",
    goal_cases)
  case 1
  show ?case by simp
next
  case (2 adj i stack seen)
  then show ?case by simp
next
  case (3 adj i stack seen)
  show ?case
  proof (cases "i \<in> fst ` set adj")
    case True
    then have "unseen_keys adj (i # seen) < unseen_keys adj seen"
      unfolding unseen_keys_def using 3 by (intro psubset_card_mono) auto
    then show ?thesis by simp
  next
    case False
    then have "adj_targets adj i = []"
      by (simp add: adj_targets_def map_of_eq_None_iff [THEN iffD2])
    moreover have "fst ` set adj - set (i # seen) = fst ` set adj - set seen"
      using False by auto
    ultimately show ?thesis by (simp add: unseen_keys_def)
  qed
qed

definition reach :: "adjacency \<Rightarrow> string list \<Rightarrow> string list" where
  "reach adj starts = reach_loop adj (rev starts) []"

section \<open>Correctness of the loops\<close>

text \<open>The edge relation of a successor function.\<close>

definition edges :: "(string \<Rightarrow> string list) \<Rightarrow> (string \<times> string) set" where
  "edges succ = {(s, t). t \<in> set (succ s)}"

lemma in_edges [simp]: "(s, t) \<in> edges succ \<longleftrightarrow> t \<in> set (succ s)"
  by (simp add: edges_def)

lemma relax_spec:
  assumes "\<And>t. t \<in> set ts \<Longrightarrow> \<exists>d. map_of deg t = Some d \<and> count_list ts t \<le> d"
  shows "\<exists>deg' ready'. relax ts deg ready = Some (deg', ready') \<and>
     (\<forall>t. map_of deg' t = map_option (\<lambda>d. d - count_list ts t) (map_of deg t)) \<and>
     set ready' = set ready \<union> {t \<in> set ts. map_of deg' t = Some 0} \<and>
     (distinct ready \<longrightarrow> set ts \<inter> set ready = {} \<longrightarrow> distinct ready')"
  using assms
proof (induction ts arbitrary: deg ready)
  case Nil
  show ?case by (simp add: option.map_ident)
next
  case (Cons t ts)
  from Cons.prems [of t] obtain e where "map_of deg t = Some e" "Suc (count_list ts t) \<le> e"
    by auto
  then obtain d where d: "map_of deg t = Some (Suc d)" "count_list ts t \<le> d"
    by (cases e) auto
  let ?deg = "AList.update t d deg" and ?ready = "if d = 0 then t # ready else ready"
  have "\<exists>e. map_of ?deg u = Some e \<and> count_list ts u \<le> e" if "u \<in> set ts" for u
    using Cons.prems [of u] that d by (auto split: if_splits)
  from Cons.IH [OF this] obtain deg' ready' where r: "relax ts ?deg ?ready = Some (deg', ready')"
    and m: "\<And>u. map_of deg' u = map_option (\<lambda>e. e - count_list ts u) (map_of ?deg u)"
    and s: "set ready' = set ?ready \<union> {u \<in> set ts. map_of deg' u = Some 0}"
    and dist: "distinct ?ready \<Longrightarrow> set ts \<inter> set ?ready = {} \<Longrightarrow> distinct ready'"
    by blast
  have zero: "d = 0 \<Longrightarrow> t \<notin> set ts"
    using d(2) by (simp add: count_list_0_iff)
  have "relax (t # ts) deg ready = Some (deg', ready')" using d r by simp
  moreover have "map_of deg' u = map_option (\<lambda>e. e - count_list (t # ts) u) (map_of deg u)" for u
    using m [of u] d by (simp add: option.map_comp)
  moreover have "map_of deg' t = Some 0 \<longleftrightarrow> d = 0 \<or> (t \<in> set ts \<and> map_of deg' t = Some 0)"
    using m [of t] d by (cases "t \<in> set ts") (auto simp: count_notin)
  then have "set ready' = set ready \<union> {u \<in> set (t # ts). map_of deg' u = Some 0}"
    using s by (auto split: if_splits)
  moreover have "distinct ready'" if "distinct ready" "set (t # ts) \<inter> set ready = {}"
    using dist that zero by (auto split: if_splits)
  ultimately show ?case by blast
qed

text \<open>Edges into \<open>t\<close> from sources not yet visited.\<close>

definition pending :: "(string \<Rightarrow> string list) \<Rightarrow> string set \<Rightarrow> string list \<Rightarrow> string \<Rightarrow> nat" where
  "pending succ K V t = (\<Sum>s \<in> K - set V. count_list (succ s) t)"

text \<open>A visiting order, newest first, in which every node comes after all its predecessors.\<close>

fun topo :: "(string \<Rightarrow> string list) \<Rightarrow> string list \<Rightarrow> bool" where
  "topo succ [] \<longleftrightarrow> True"
| "topo succ (v # V) \<longleftrightarrow> (\<forall>s. v \<in> set (succ s) \<longrightarrow> s \<in> set V) \<and> topo succ V"

fun rank :: "string list \<Rightarrow> string \<Rightarrow> nat" where
  "rank [] x = 0"
| "rank (v # V) x = (if x = v then Suc (length V) else rank V x)"

lemma rank_le: "rank V x \<le> length V"
  by (induction V) auto

lemma topo_pred: "topo succ V \<Longrightarrow> t \<in> set V \<Longrightarrow> t \<in> set (succ s) \<Longrightarrow> s \<in> set V"
  by (induction V) auto

lemma topo_rank:
  "\<lbrakk>topo succ V; distinct V; t \<in> set V; t \<in> set (succ s)\<rbrakk> \<Longrightarrow> rank V s < rank V t"
proof (induction V)
  case (Cons v V)
  show ?case
  proof (cases "t = v")
    case True
    with Cons.prems have "s \<in> set V" "s \<noteq> v" by auto
    with True rank_le [of V s] show ?thesis by simp
  next
    case False
    with Cons.prems have "t \<in> set V" by simp
    with Cons.prems topo_pred [of succ V t s] have "s \<in> set V" by simp
    with Cons False show ?thesis by auto
  qed
qed simp

lemma topo_acyclic:
  assumes "topo succ V" "distinct V" "\<And>s. set (succ s) \<subseteq> set V"
  shows "acyclic (edges succ)"
proof -
  have "edges succ \<subseteq> measure (rank V)"
    using topo_rank [OF assms(1,2)] subsetD [OF assms(3)] by (auto simp: edges_def)
  then have "wf (edges succ)" by (rule wf_subset [OF wf_measure])
  then show ?thesis by (rule wf_acyclic)
qed

definition kahn_inv ::
    "(string \<Rightarrow> string list) \<Rightarrow> string set \<Rightarrow> string set \<Rightarrow> string list \<Rightarrow> degrees \<Rightarrow> string list \<Rightarrow> bool" where
  "kahn_inv succ K I V deg ready \<longleftrightarrow>
     distinct (V @ ready) \<and> set (V @ ready) \<subseteq> I \<and> topo succ V \<and>
     (\<forall>t. map_of deg t = (if t \<in> I then Some (pending succ K V t) else None)) \<and>
     (\<forall>t \<in> I. pending succ K V t = 0 \<longleftrightarrow> t \<in> set (V @ ready))"

lemma pending_Cons:
  assumes "finite K" "i \<notin> set V" "i \<notin> K \<Longrightarrow> succ i = []"
  shows "pending succ K V t = count_list (succ i) t + pending succ K (i # V) t"
proof (cases "i \<in> K")
  case True
  then have "i \<in> K - set V" using assms(2) by simp
  moreover have "K - set V - {i} = K - set (i # V)" by auto
  ultimately show ?thesis using assms(1)
    unfolding pending_def by (metis finite_Diff sum.remove)
next
  case False
  then have "K - set V = K - set (i # V)" by auto
  with False assms(3) show ?thesis by (simp add: pending_def)
qed

lemma pending_0_iff:
  assumes "finite K" "\<And>s. s \<notin> K \<Longrightarrow> succ s = []"
  shows "pending succ K V t = 0 \<longleftrightarrow> (\<forall>s. t \<in> set (succ s) \<longrightarrow> s \<in> set V)"
proof -
  have "pending succ K V t = 0 \<longleftrightarrow> (\<forall>s \<in> K - set V. t \<notin> set (succ s))"
    using assms(1) by (simp add: pending_def count_list_0_iff)
  also have "\<dots> \<longleftrightarrow> (\<forall>s. t \<in> set (succ s) \<longrightarrow> s \<in> set V)"
    using assms(2) by force
  finally show ?thesis .
qed

lemma kahn_inv_step:
  assumes inv: "kahn_inv succ K I V deg (i # ready)" and K: "finite K" "\<And>s. s \<notin> K \<Longrightarrow> succ s = []"
    and tgt: "set (succ i) \<subseteq> I"
  shows "\<exists>deg' ready'. relax (succ i) deg ready = Some (deg', ready') \<and>
     kahn_inv succ K I (i # V) deg' ready'"
proof -
  from inv have i: "i \<in> I" "i \<notin> set V" "i \<notin> set ready" and d: "distinct (V @ ready)"
    and sub: "set (V @ ready) \<subseteq> I" and top: "topo succ V"
    and m: "\<And>t. map_of deg t = (if t \<in> I then Some (pending succ K V t) else None)"
    and z: "\<And>t. t \<in> I \<Longrightarrow> pending succ K V t = 0 \<longleftrightarrow> t \<in> set (V @ i # ready)"
    unfolding kahn_inv_def by auto
  have split: "pending succ K V t = count_list (succ i) t + pending succ K (i # V) t" for t
    using pending_Cons [OF K(1) i(2)] K(2) by blast
  have fresh: "t \<notin> set (V @ i # ready)" if "t \<in> set (succ i)" for t
  proof -
    have "count_list (succ i) t \<noteq> 0" using that by (simp add: count_list_0_iff)
    then have "pending succ K V t \<noteq> 0" using split [of t] by simp
    with z [of t] that tgt show ?thesis by blast
  qed
  have pre: "\<exists>d. map_of deg t = Some d \<and> count_list (succ i) t \<le> d" if "t \<in> set (succ i)" for t
    using m [of t] that tgt split [of t] by auto
  from relax_spec [OF this, where ready = ready] obtain deg' ready'
    where r: "relax (succ i) deg ready = Some (deg', ready')"
    and m': "\<And>t. map_of deg' t = map_option (\<lambda>d. d - count_list (succ i) t) (map_of deg t)"
    and s': "set ready' = set ready \<union> {t \<in> set (succ i). map_of deg' t = Some 0}"
    and d': "distinct ready \<Longrightarrow> set (succ i) \<inter> set ready = {} \<Longrightarrow> distinct ready'"
    by blast
  have m2: "map_of deg' t = (if t \<in> I then Some (pending succ K (i # V) t) else None)" for t
    using m' [of t] m [of t] split [of t] by auto
  have "distinct ((i # V) @ ready')"
    using d' d i fresh s' by auto
  moreover have "set ((i # V) @ ready') \<subseteq> I" using sub i s' tgt by auto
  moreover have "topo succ (i # V)"
    using z [OF i(1)] top pending_0_iff [OF K, where V = V and t = i] by simp
  moreover have "pending succ K (i # V) t = 0 \<longleftrightarrow> t \<in> set ((i # V) @ ready')" if "t \<in> I" for t
  proof (cases "t \<in> set (succ i)")
    case True
    then show ?thesis using s' m2 [of t] that fresh by auto
  next
    case False
    then have "pending succ K (i # V) t = pending succ K V t"
      using split [of t] by (simp add: count_notin)
    then show ?thesis using z [OF that] s' False by auto
  qed
  ultimately show ?thesis using r m2 unfolding kahn_inv_def by blast
qed

lemma kahn_runs:
  assumes "kahn_inv succ K I V deg ready" "finite K" "\<And>s. s \<notin> K \<Longrightarrow> succ s = []"
    "\<And>s. set (succ s) \<subseteq> I" "n = length V"
  shows "\<exists>V' deg'. kahn succ deg ready n = Some (length V') \<and> kahn_inv succ K I V' deg' []"
  using assms
proof (induction succ deg ready n arbitrary: V rule: kahn.induct)
  case (1 succ deg n)
  then show ?case by auto
next
  case (2 succ deg i ready n)
  from kahn_inv_step [OF "2.prems"(1,2,3,4)] obtain deg' ready'
    where r: "relax (succ i) deg ready = Some (deg', ready')"
      and inv: "kahn_inv succ K I (i # V) deg' ready'" by blast
  from "2.IH" [OF r refl inv "2.prems"(2,3,4)] r "2.prems"(5) show ?case by simp
qed

lemma kahn_inv_final:
  assumes inv: "kahn_inv succ K I V deg []" and K: "finite K" "\<And>s. s \<notin> K \<Longrightarrow> succ s = []"
    and tgt: "\<And>s. set (succ s) \<subseteq> I" and I: "finite I"
  shows "length V = card I \<longleftrightarrow> acyclic (edges succ) \<and> Domain (edges succ) \<subseteq> I"
proof -
  from inv have V: "distinct V" "set V \<subseteq> I" "topo succ V"
    and z: "\<And>t. t \<in> I \<Longrightarrow> (\<forall>s. t \<in> set (succ s) \<longrightarrow> s \<in> set V) \<longleftrightarrow> t \<in> set V"
    unfolding kahn_inv_def using pending_0_iff [OF K] by auto
  have len: "length V = card I \<longleftrightarrow> set V = I"
    using V I by (metis card_subset_eq distinct_card)
  have "acyclic (edges succ)" "Domain (edges succ) \<subseteq> I" if "set V = I"
    using topo_acyclic [OF V(3,1)] topo_pred [OF V(3)] tgt that by (auto simp: edges_def)
  moreover have "set V = I" if a: "acyclic (edges succ)" and dom: "Domain (edges succ) \<subseteq> I"
  proof (rule ccontr)
    assume "set V \<noteq> I"
    then obtain w where w: "w \<in> I - set V" using V(2) by blast
    have "edges succ \<subseteq> I \<times> I" using dom subsetD [OF tgt] by (auto simp: Domain_iff)
    then have "wf (edges succ)" using finite_acyclic_wf a I finite_subset finite_cartesian_product by metis
    from wfE_min [OF this w] obtain x where x: "x \<in> I - set V"
      and min: "\<And>y. (y, x) \<in> edges succ \<Longrightarrow> y \<notin> I - set V" by blast
    have "s \<in> set V" if "x \<in> set (succ s)" for s
      using min [of s] dom DomainI [of s x "edges succ"] that by auto
    with z [of x] x show False by blast
  qed
  ultimately show ?thesis using len by blast
qed

section \<open>Graph tables\<close>

text \<open>The visiting order of a \<^verbatim>\<open>HashMap\<close>: some permutation of its keys.\<close>

definition hash_order :: "(string list \<Rightarrow> string list) \<Rightarrow> bool" where
  "hash_order ord \<longleftrightarrow> (\<forall>xs. mset (ord xs) = mset xs)"

lemma hash_order_set: "hash_order ord \<Longrightarrow> set (ord xs) = set xs"
  unfolding hash_order_def by (metis set_mset_mset)

lemma hash_order_distinct: "hash_order ord \<Longrightarrow> distinct (ord xs) = distinct xs"
  unfolding hash_order_def by (metis mset_eq_imp_distinct_iff)

lemma hash_order_rev [simp]: "hash_order rev"
  by (simp add: hash_order_def)

text \<open>
  What the loops need of a table of outgoing edges: only its keys have successors.  The
  runtime's route tables and the loader's adjacency lists both provide it.
\<close>

locale graph_table =
  fixes keys :: "'g \<Rightarrow> string list" and succs :: "'g \<Rightarrow> string \<Rightarrow> string list"
  assumes succs_outside: "s \<notin> set (keys g) \<Longrightarrow> succs g s = []"
begin

lemma kahn_decides:
  assumes ord: "hash_order ord" and ids: "distinct ids" "map fst deg = ids"
    and tgt: "\<And>s. set (succs g s) \<subseteq> set ids"
    and deg: "\<And>t. t \<in> set ids \<Longrightarrow>
      map_of deg t = Some (\<Sum>s \<in> set (keys g). count_list (succs g s) t)"
  shows "\<exists>n. kahn (succs g) deg (zero_ids deg (ord (map fst deg))) 0 = Some n \<and>
     (n = length ids \<longleftrightarrow> acyclic (edges (succs g)) \<and> Domain (edges (succs g)) \<subseteq> set ids)"
proof -
  let ?K = "set (keys g)" and ?I = "set ids" and ?ready = "zero_ids deg (ord (map fst deg))"
  have pend: "pending (succs g) ?K [] t = (\<Sum>s \<in> ?K. count_list (succs g s) t)" for t
    by (simp add: pending_def)
  have none: "map_of deg t = None" if "t \<notin> ?I" for t
    using that unfolding ids(2) [symmetric] by (simp add: map_of_eq_None_iff)
  have ready: "set ?ready = {t \<in> ?I. map_of deg t = Some 0}"
    using hash_order_set [OF ord] ids(2) by (auto simp: zero_ids_def)
  have "distinct ?ready"
    using hash_order_distinct [OF ord] ids by (simp add: zero_ids_def)
  then have inv: "kahn_inv (succs g) ?K ?I [] deg ?ready"
    using ready deg none by (auto simp: kahn_inv_def pend)
  have fin: "finite ?K" by simp
  from kahn_runs [OF inv fin succs_outside tgt] obtain V deg'
    where run: "kahn (succs g) deg ?ready 0 = Some (length V)"
      and fin_inv: "kahn_inv (succs g) ?K ?I V deg' []" by auto
  from kahn_inv_final [OF fin_inv fin succs_outside tgt] have
    "length V = card ?I \<longleftrightarrow> acyclic (edges (succs g)) \<and> Domain (edges (succs g)) \<subseteq> ?I" by simp
  with run show ?thesis using distinct_card [OF ids(1)] by simp
qed

end

interpretation route_graph: graph_table "map fst" targets_of
  by unfold_locales (simp add: targets_of_def map_of_eq_None_iff [THEN iffD2])

interpretation adj_graph: graph_table "map fst" adj_targets
  by unfold_locales (simp add: adj_targets_def map_of_eq_None_iff [THEN iffD2])

lemma count_list_concat_table:
  assumes "distinct (map fst m)"
  shows "count_list (concat (map (\<lambda>(_, v). f v) m)) t =
    (\<Sum>s \<in> set (map fst m). count_list (case map_of m s of None \<Rightarrow> [] | Some v \<Rightarrow> f v) t)"
  using assms
proof (induction m)
  case (Cons p m)
  obtain k v where p: "p = (k, v)" by fastforce
  have "(\<Sum>s \<in> fst ` set m. count_list (case map_of (p # m) s of None \<Rightarrow> [] | Some v \<Rightarrow> f v) t) =
        (\<Sum>s \<in> fst ` set m. count_list (case map_of m s of None \<Rightarrow> [] | Some v \<Rightarrow> f v) t)"
    using Cons.prems p by (intro sum.cong) auto
  with Cons p show ?case by simp
qed simp

lemma map_of_bump_fold:
  "map_of (fold bump ts deg) t = map_option (\<lambda>d. d + count_list ts t) (map_of deg t)"
  by (induction ts arbitrary: deg)
    (auto simp: bump_def option.map_ident option.map_comp comp_def split: option.splits)

lemma keys_bump: "map fst (bump t deg) = map fst deg"
  by (auto simp: bump_def update_keys map_of_eq_None_iff split: option.splits dest: map_of_SomeD)

lemma keys_indegree_map: "map fst (indegree_map routes ids) = ids"
proof -
  have "map fst (fold bump ts deg) = map fst deg" for ts and deg :: degrees
    by (induction ts arbitrary: deg) (auto simp: keys_bump)
  then show ?thesis by (simp add: indegree_map_def comp_def)
qed

lemma indegree_map_eq:
  assumes "distinct (map fst routes)" "t \<in> set ids"
  shows "map_of (indegree_map routes ids) t =
    Some (\<Sum>s \<in> set (map fst routes). count_list (targets_of routes s) t)"
proof -
  have "map_of (map (\<lambda>i. (i, 0 :: nat)) ids) t = Some 0"
    using assms(2) by (simp add: map_of_map_restrict restrict_map_def)
  with count_list_concat_table [OF assms(1), of "map r_to" t] show ?thesis
    by (simp add: indegree_map_def map_of_bump_fold all_targets_def targets_of_def)
qed

lemma check_targets_Inr:
  "check_targets from rs ids = Inr u \<longleftrightarrow> (\<forall>r \<in> set rs. r_to r \<in> set ids \<and> r_to r \<noteq> from)"
  by (induction rs) auto

lemma validate_targets_Inr:
  "validate_targets routes ids = Inr u \<longleftrightarrow>
   (\<forall>(from, rs) \<in> set routes. \<forall>r \<in> set rs. r_to r \<in> set ids \<and> r_to r \<noteq> from)"
proof (induction routes ids rule: validate_targets.induct)
  case (2 i rs routes ids)
  then show ?case
    using check_targets_Inr [of i rs ids "()"] by (cases "check_targets i rs ids") auto
qed simp

lemma validate_targets_of:
  "validate_targets routes ids = Inr u \<Longrightarrow> set (targets_of routes s) \<subseteq> set ids"
  by (cases "map_of routes s") (fastforce simp: validate_targets_Inr targets_of_def dest: map_of_SomeD)+

lemma count_incoming_eq:
  "map_of (count_incoming routes) t =
   (let n = count_list (all_targets routes) t in if n = 0 then None else Some n)"
proof -
  have "map_of (fold (\<lambda>t m. bt_insert t (Suc (case map_of m t of None \<Rightarrow> 0 | Some n \<Rightarrow> n)) m) ts m) t =
    (if count_list ts t = 0 then map_of m t
     else Some (count_list ts t + (case map_of m t of None \<Rightarrow> 0 | Some n \<Rightarrow> n)))" for ts and m :: degrees
    by (induction ts arbitrary: m) auto
  then show ?thesis by (simp add: count_incoming_def Let_def)
qed

lemma adj_zeros:
  "map_of (fold (\<lambda>t deg. AList.update t (0 :: nat) deg) ts deg) t =
   (if t \<in> set ts then Some 0 else map_of deg t)"
  by (induction ts arbitrary: deg) auto

lemma adj_counts:
  "map_of (fold (\<lambda>t deg. AList.update t (Suc (case map_of deg t of None \<Rightarrow> 0 | Some d \<Rightarrow> d)) deg) ts deg) t =
   (if t \<in> set ts then Some (count_list ts t + (case map_of deg t of None \<Rightarrow> 0 | Some d \<Rightarrow> d))
    else map_of deg t)"
  by (induction ts arbitrary: deg) (auto simp: count_notin)

lemma distinct_keys_fold_update:
  "distinct (map fst deg) \<Longrightarrow> distinct (map fst (fold (\<lambda>t deg. AList.update t (f t deg) deg) ts deg))"
  by (induction ts arbitrary: deg) (auto simp: distinct_update)

lemma initial_indegree_get:
  "map_of (initial_indegree adj) t =
   (if t \<in> fst ` set adj \<union> set (concat (map snd adj))
    then Some (count_list (concat (map snd adj)) t) else None)"
proof -
  define ks where "ks = map fst adj"
  define ts where "ts = concat (map snd adj)"
  have "map_of (fold (\<lambda>t deg. AList.update t (0 :: nat) deg) (ks @ ts) []) t =
      (if t \<in> set ks \<union> set ts then Some 0 else None)"
    using adj_zeros [of "ks @ ts" "[]" t] by simp
  then have "map_of (initial_indegree adj) t =
      (if t \<in> set ks \<union> set ts then Some (count_list ts t) else None)"
    unfolding initial_indegree_def ks_def [symmetric] ts_def [symmetric] adj_counts
    by (auto simp: count_notin)
  then show ?thesis by (simp add: ks_def ts_def)
qed

lemma initial_indegree_keys:
  "distinct (map fst (initial_indegree adj))"
  "set (map fst (initial_indegree adj)) = fst ` set adj \<union> set (concat (map snd adj))"
proof -
  show "distinct (map fst (initial_indegree adj))"
    unfolding initial_indegree_def by (intro distinct_keys_fold_update) simp
  have "t \<in> set (map fst (initial_indegree adj)) \<longleftrightarrow> map_of (initial_indegree adj) t \<noteq> None" for t
    by (simp add: map_of_eq_None_iff)
  then show "set (map fst (initial_indegree adj)) = fst ` set adj \<union> set (concat (map snd adj))"
    by (simp add: set_eq_iff initial_indegree_get)
qed

lemma initial_indegree_eq:
  assumes "distinct (map fst adj)" "t \<in> set (map fst (initial_indegree adj))"
  shows "map_of (initial_indegree adj) t =
    Some (\<Sum>s \<in> set (map fst adj). count_list (adj_targets adj s) t)"
proof -
  have "concat (map snd adj) = concat (map (\<lambda>(_, v). id v) adj)"
    by (simp add: case_prod_unfold)
  then have "count_list (concat (map snd adj)) t = (\<Sum>s \<in> set (map fst adj). count_list (adj_targets adj s) t)"
    using count_list_concat_table [OF assms(1), of id t] by (simp add: adj_targets_def cong: option.case_cong)
  moreover have "map_of (initial_indegree adj) t = Some (count_list (concat (map snd adj)) t)"
    using assms(2) unfolding initial_indegree_keys(2) by (simp add: initial_indegree_get)
  ultimately show ?thesis by simp
qed

lemma adj_targets_keys: "set (adj_targets adj s) \<subseteq> set (map fst (initial_indegree adj))"
  unfolding initial_indegree_keys(2)
  by (cases "map_of adj s") (force simp: adj_targets_def dest: map_of_SomeD)+

lemma adj_domain_keys: "Domain (edges (adj_targets adj)) \<subseteq> set (map fst (initial_indegree adj))"
proof -
  have "s \<in> fst ` set adj" if "adj_targets adj s \<noteq> []" for s
    using that adj_graph.succs_outside [of s adj] by auto
  then show ?thesis unfolding initial_indegree_keys(2) by (force simp: edges_def)
qed

subsection \<open>The search\<close>

lemma reach_loop_sound:
  assumes "set stack \<union> set seen \<subseteq> R" "\<And>s. s \<in> R \<Longrightarrow> set (adj_targets adj s) \<subseteq> R"
  shows "set (reach_loop adj stack seen) \<subseteq> R"
  using assms by (induction adj stack seen rule: reach_loop.induct) auto

lemma reach_loop_closed:
  assumes "\<And>s. s \<in> set seen \<Longrightarrow> set (adj_targets adj s) \<subseteq> set stack \<union> set seen"
  shows "set stack \<union> set seen \<subseteq> set (reach_loop adj stack seen) \<and>
    (\<forall>s \<in> set (reach_loop adj stack seen). set (adj_targets adj s) \<subseteq> set (reach_loop adj stack seen))"
  using assms
proof (induction adj stack seen rule: reach_loop.induct)
  case (2 adj i stack seen)
  show ?case
  proof (cases "i \<in> set seen")
    case True
    then have "set (adj_targets adj s) \<subseteq> set stack \<union> set seen" if "s \<in> set seen" for s
      using "2.prems" [OF that] by auto
    from "2.IH"(1) [OF True this] True show ?thesis by auto
  next
    case False
    have "set (adj_targets adj s) \<subseteq> set (rev (adj_targets adj i) @ stack) \<union> set (i # seen)"
      if "s \<in> set (i # seen)" for s using "2.prems" [of s] that by auto
    from "2.IH"(2) [OF False this] False show ?thesis by auto
  qed
qed simp

section \<open>Properties\<close>

text \<open>
  C3. The runtime's cycle check decides: for a route table whose targets are all known, whatever
  the order in which the hash map hands out the roots, it never panics and it accepts exactly
  when the route graph has no cycle and every step that has an outgoing route is a node of the
  graph.  (The last conjunct is why a flow whose edges start at a trigger is reported as
  cyclic when the graph is built without its triggers.)
\<close>

theorem check_acyclic_iff:
  assumes "hash_order ord" "distinct (map fst routes)" "distinct ids"
    and "validate_targets routes ids = Inr ()"
  shows "check_acyclic ord routes ids =
    Some (if acyclic (edges (targets_of routes)) \<and> Domain (edges (targets_of routes)) \<subseteq> set ids
          then Inr () else Inl (Err_Config C_cycle))"
proof -
  from route_graph.kahn_decides [OF assms(1,3) keys_indegree_map validate_targets_of [OF assms(4)]
      indegree_map_eq [OF assms(2)]]
  show ?thesis by (auto simp: check_acyclic_def Let_def)
qed

theorem check_acyclic_iff_witness:
  "let r = (\<lambda>t. \<lparr>r_to = t, r_when = None\<rparr>);
       routes = [(''a'', [r ''b'', r ''c'']), (''b'', [r ''c''])] in
   check_acyclic rev routes [''a'', ''b'', ''c''] = Some (Inr ()) \<and>
   acyclic (edges (targets_of routes))"
proof -
  let ?r = "\<lambda>t. \<lparr>r_to = t, r_when = None\<rparr>"
  let ?routes = "[(''a'', [?r ''b'', ?r ''c'']), (''b'', [?r ''c''])]"
  have "check_acyclic rev ?routes [''a'', ''b'', ''c''] = Some (Inr ())" by code_simp
  moreover have "acyclic (edges (targets_of ?routes))"
    using check_acyclic_iff [of rev ?routes "[''a'', ''b'', ''c'']"] calculation
    by (auto split: if_splits)
  ultimately show ?thesis by (simp add: Let_def)
qed

text \<open>
  A step with routes that is not a node of the graph makes the runtime report a cycle, even
  when the graph has none: the flow of one trigger feeding one sink, built without its trigger.
\<close>

theorem trigger_edge_reported_as_cycle:
  assumes "hash_order ord" "distinct (map fst routes)" "distinct ids"
    and "validate_targets routes ids = Inr ()"
    and "trigger \<notin> set ids" "targets_of routes trigger \<noteq> []"
  shows "check_acyclic ord routes ids = Some (Inl (Err_Config C_cycle))"
proof -
  obtain t where "t \<in> set (targets_of routes trigger)" using assms(6) by (cases "targets_of routes trigger") auto
  then have "trigger \<in> Domain (edges (targets_of routes))" by (intro DomainI [of _ t]) simp
  then show ?thesis using assms(5)
      route_graph.kahn_decides [OF assms(1,3) keys_indegree_map validate_targets_of [OF assms(4)]
      indegree_map_eq [OF assms(2)]]
    by (auto simp: check_acyclic_def Let_def)
qed

theorem trigger_edge_reported_as_cycle_witness:
  "check_acyclic rev [(''cron'', [\<lparr>r_to = ''out'', r_when = None\<rparr>])] [''out''] =
   Some (Inl (Err_Config C_cycle))"
  by (rule trigger_edge_reported_as_cycle [where trigger = "''cron''"])
    (auto simp: targets_of_def)

text \<open>
  The loader's cycle check decides acyclicity of the declared edges, in every visiting
  order, without panicking.
\<close>

theorem check_edges_acyclic_iff:
  assumes "hash_order ord" "distinct (map fst adj)"
  shows "check_edges_acyclic ord adj =
    Some (if acyclic (edges (adj_targets adj)) then Inr () else Inl (CE_Invalid I_cycle))"
proof -
  from adj_graph.kahn_decides [OF assms(1) initial_indegree_keys(1) refl adj_targets_keys
      initial_indegree_eq [OF assms(2)]] adj_domain_keys [of adj]
  show ?thesis by (auto simp: check_edges_acyclic_def Let_def)
qed

theorem check_edges_acyclic_iff_witness:
  "\<not> acyclic (edges (adj_targets [(''a'', [''b'']), (''b'', [''c'']), (''c'', [''b''])]))"
proof -
  have "check_edges_acyclic rev [(''a'', [''b'']), (''b'', [''c'']), (''c'', [''b''])] =
      Some (Inl (CE_Invalid I_cycle))" by code_simp
  with check_edges_acyclic_iff [of rev "[(''a'', [''b'']), (''b'', [''c'']), (''c'', [''b''])]"]
  show ?thesis by (auto split: if_splits)
qed

text \<open>
  The search behind the structural warnings returns exactly the nodes reachable from its
  starting points along the adjacency relation.
\<close>

theorem reach_correct:
  "set (reach adj starts) = (edges (adj_targets adj))\<^sup>* `` set starts"
proof
  show "set (reach adj starts) \<subseteq> (edges (adj_targets adj))\<^sup>* `` set starts"
    unfolding reach_def
    by (rule reach_loop_sound) (auto, meson ImageI in_edges rtrancl.rtrancl_into_rtrancl)
  let ?S = "set (reach_loop adj (rev starts) [])"
  have c: "set starts \<subseteq> ?S" "\<And>s. s \<in> ?S \<Longrightarrow> set (adj_targets adj s) \<subseteq> ?S"
    using reach_loop_closed [of "[]" adj "rev starts"] by auto
  have "v \<in> ?S" if "(s, v) \<in> (edges (adj_targets adj))\<^sup>*" "s \<in> ?S" for s v
    using that by (induction rule: rtrancl_induct) (use c(2) in auto)
  with c(1) show "(edges (adj_targets adj))\<^sup>* `` set starts \<subseteq> set (reach adj starts)"
    unfolding reach_def by blast
qed

end
