(* ===== verification/Flow_Config.thy ===== *)
theory Flow_Config
  imports Routes Expr_Parser
begin

text \<open>
  The declarative flow configuration (\<^verbatim>\<open>sohara-config\<close>): the schema as records, the split of a
  declaration's extra fields into its type config (\<^verbatim>\<open>lib.rs\<close>, \<^verbatim>\<open>trigger.rs\<close>), template merging
  (\<^verbatim>\<open>templates.rs\<close>), relative paths (\<^verbatim>\<open>paths.rs\<close>) and the structural validation
  (\<^verbatim>\<open>validate.rs\<close>).  Reading files and YAML is the parameter \<open>read_yaml\<close> of the loader.
  Paths are Unix paths as strings.
\<close>

section \<open>Schema\<close>

datatype on_error = OnFail | OnContinue | OnRetry

record retry_config =
  retry_max :: nat
  retry_backoff :: string

record step_config =
  s_id :: string
  s_kind :: "step_kind option"
  s_type :: "string option"
  s_use :: "string option"
  s_name :: "string option"
  s_description :: "string option"
  s_when :: "string option"
  s_on_error :: "on_error option"
  s_retry :: "retry_config option"
  s_state :: "json option"
  s_extra :: "json imap"

datatype edge_config =
    EPair string string
  | EObject string string "string option"

fun edge_from :: "edge_config \<Rightarrow> string" where
  "edge_from (EPair f t) = f"
| "edge_from (EObject f t w) = f"

fun edge_to :: "edge_config \<Rightarrow> string" where
  "edge_to (EPair f t) = t"
| "edge_to (EObject f t w) = t"

fun edge_when :: "edge_config \<Rightarrow> string option" where
  "edge_when (EPair f t) = None"
| "edge_when (EObject f t w) = w"

record trigger_config =
  t_id :: string
  t_type :: string
  t_extra :: "json imap"

record component_config =
  component_type :: string
  c_extra :: "json imap"

datatype store_config = SPath string | SComponent component_config

record checkpoint_config =
  cp_every :: "nat option"
  cp_store :: "store_config option"

record flow_config =
  f_name :: string
  f_version :: string
  f_vars :: "json imap"
  f_triggers :: "trigger_config list"
  f_steps :: "step_config list"
  f_edges :: "edge_config list"
  f_checkpoint :: "checkpoint_config option"
  f_event_bus :: "component_config option"
  f_imports :: "string list"
  f_templates :: "(string \<times> step_config) list"

section \<open>Type config of a declaration\<close>

definition reserved :: "string list" where
  "reserved = [''timeout'', ''inputs'']"

definition reject_key :: "string \<Rightarrow> string \<Rightarrow> config_error" where
  "reject_key i key = (if key \<in> set reserved then CE_Unsupported i key else CE_UnknownField i key)"

definition as_config_map :: "string \<Rightarrow> json \<Rightarrow> config_error + json imap" where
  "as_config_map i v = (case v of JObject m \<Rightarrow> Inr m | _ \<Rightarrow> Inl (CE_ConfigNotMap i))"

definition step_type_config :: "step_config \<Rightarrow> config_error + json imap" where
  "step_type_config step =
     (case im_get (s_extra step) ''config'' of
        Some v \<Rightarrow>
          (case im_keys (im_swap_remove ''config'' (s_extra step)) of
             key # _ \<Rightarrow> Inl (reject_key (s_id step) key)
           | [] \<Rightarrow> as_config_map (s_id step) v)
      | None \<Rightarrow>
          (case filter (\<lambda>k. k \<in> set reserved) (im_keys (s_extra step)) of
             key # _ \<Rightarrow> Inl (CE_Unsupported (s_id step) key)
           | [] \<Rightarrow> Inr (s_extra step)))"

definition nested_config :: "string \<Rightarrow> json imap \<Rightarrow> config_error + json imap" where
  "nested_config i extra =
     (case im_get extra ''config'' of
        Some v \<Rightarrow>
          (case im_keys (im_swap_remove ''config'' extra) of
             key # _ \<Rightarrow> Inl (CE_UnknownField i key)
           | [] \<Rightarrow> as_config_map i v)
      | None \<Rightarrow> Inr extra)"

definition trigger_type_config :: "trigger_config \<Rightarrow> config_error + json imap" where
  "trigger_type_config t = nested_config (t_id t) (t_extra t)"

definition component_type_config :: "component_config \<Rightarrow> config_error + json imap" where
  "component_type_config c = nested_config (component_type c) (c_extra c)"

section \<open>Templates\<close>

fun merge_field :: "json option \<Rightarrow> json \<Rightarrow> json" where
  "merge_field (Some (JObject existing)) (JObject overrides) = JObject (im_extend existing overrides)"
| "merge_field _ v = v"

fun merge_extra :: "string \<times> json \<Rightarrow> json imap \<Rightarrow> json imap" where
  "merge_extra (key, v) merged = im_insert key (merge_field (im_get merged key) v) merged"

definition merge_extras :: "json imap \<Rightarrow> json imap \<Rightarrow> json imap" where
  "merge_extras step_extra template_extra = fold merge_extra step_extra template_extra"

definition or_else :: "'a option \<Rightarrow> 'a option \<Rightarrow> 'a option" where
  "or_else a b = (case a of None \<Rightarrow> b | Some x \<Rightarrow> Some x)"

definition kinds_conflict :: "step_kind option \<Rightarrow> step_kind option \<Rightarrow> bool" where
  "kinds_conflict a b = (case (a, b) of (Some x, Some y) \<Rightarrow> x \<noteq> y | _ \<Rightarrow> False)"

definition merge_template :: "step_config \<Rightarrow> step_config \<Rightarrow> config_error + step_config" where
  "merge_template step template =
     (if kinds_conflict (s_kind step) (s_kind template)
      then Inl (CE_Invalid (I_kind_conflict (s_id step)))
      else Inr (step\<lparr>s_kind := or_else (s_kind step) (s_kind template),
            s_type := or_else (s_type step) (s_type template),
            s_when := or_else (s_when step) (s_when template),
            s_on_error := or_else (s_on_error step) (s_on_error template),
            s_retry := or_else (s_retry step) (s_retry template),
            s_state := or_else (s_state step) (s_state template),
            s_extra := merge_extras (s_extra step) (s_extra template)\<rparr>))"

definition apply_template :: "(string \<times> step_config) list \<Rightarrow> step_config \<Rightarrow> config_error + step_config" where
  "apply_template templates step =
     (case s_use step of
        None \<Rightarrow> Inr step
      | Some name \<Rightarrow>
          (case map_of templates name of
             None \<Rightarrow> Inl (CE_Invalid (I_unknown_template (s_id step) name))
           | Some template \<Rightarrow>
               rbind (merge_template step template) (\<lambda>s. Inr (s\<lparr>s_use := None\<rparr>))))"

definition apply_templates :: "flow_config \<Rightarrow> config_error + flow_config" where
  "apply_templates flow =
     rbind (collect_res (map (apply_template (f_templates flow)) (f_steps flow)))
       (\<lambda>steps. Inr (flow\<lparr>f_steps := steps\<rparr>))"

section \<open>Paths\<close>

definition is_absolute :: "string \<Rightarrow> bool" where
  "is_absolute p = (p \<noteq> [] \<and> hd p = CHR ''/'')"

definition path_join :: "string \<Rightarrow> string \<Rightarrow> string" where
  "path_join base p =
     (if is_absolute p then p
      else if base = [] \<or> last base = CHR ''/'' then base @ p
      else base @ ''/'' @ p)"

text \<open>\<^verbatim>\<open>resolve_in\<close> recurses into a nested \<^verbatim>\<open>config\<close> object.\<close>

fun resolve_in :: "string \<Rightarrow> json imap \<Rightarrow> json imap"
  and resolve_value :: "string \<Rightarrow> string \<Rightarrow> json \<Rightarrow> json" where
  "resolve_in base [] = []"
| "resolve_in base ((k, v) # m) = (k, resolve_value base k v) # resolve_in base m"
| "resolve_value base k (JString text) =
     (if k = ''path'' \<or> k = ''script'' then
        (if is_absolute text then JString text else JString (path_join base text))
      else JString text)"
| "resolve_value base k (JObject inner) =
     (if k = ''config'' then JObject (resolve_in base inner) else JObject inner)"
| "resolve_value base k v = v"

definition resolve_store :: "string \<Rightarrow> store_config \<Rightarrow> store_config" where
  "resolve_store base s =
     (case s of
        SPath p \<Rightarrow> SPath (if is_absolute p then p else path_join base p)
      | SComponent c \<Rightarrow> SComponent (c\<lparr>c_extra := resolve_in base (c_extra c)\<rparr>))"

definition resolve_paths :: "string \<Rightarrow> flow_config \<Rightarrow> flow_config" where
  "resolve_paths base flow =
     flow\<lparr>f_steps := map (\<lambda>s. s\<lparr>s_extra := resolve_in base (s_extra s)\<rparr>) (f_steps flow),
          f_checkpoint := map_option (\<lambda>c. c\<lparr>cp_store := map_option (resolve_store base) (cp_store c)\<rparr>)
            (f_checkpoint flow),
          f_event_bus := map_option (\<lambda>c. c\<lparr>c_extra := resolve_in base (c_extra c)\<rparr>)
            (f_event_bus flow)\<rparr>"

definition import_templates ::
    "(string \<Rightarrow> config_error + (string \<times> step_config) list) \<Rightarrow> string \<Rightarrow> string \<Rightarrow>
     (string \<times> step_config) list \<Rightarrow> config_error + (string \<times> step_config) list" where
  "import_templates read_import base file templates =
     rbind (read_import (path_join base file))
       (\<lambda>imported. Inr (fold (\<lambda>(k, v). bt_insert k v) imported templates))"

definition resolve_imports ::
    "(string \<Rightarrow> config_error + (string \<times> step_config) list) \<Rightarrow> string \<Rightarrow> flow_config \<Rightarrow>
     config_error + flow_config" where
  "resolve_imports read_import base flow =
     rbind (fold_res (import_templates read_import base) (f_imports flow) (f_templates flow))
       (\<lambda>templates. Inr (flow\<lparr>f_templates := templates\<rparr>))"

section \<open>Validation\<close>

definition parse_expr :: "string \<Rightarrow> expr_error + expr" where
  "parse_expr s = the (parse s)"

definition invalid :: "invalid_msg \<Rightarrow> config_error + 'a" where
  "invalid m = Inl (CE_Invalid m)"

definition validate_version :: "flow_config \<Rightarrow> config_error + unit" where
  "validate_version flow =
     (if f_version flow \<noteq> ''1'' then invalid (I_version (f_version flow)) else Inr ())"

definition validate_trigger :: "trigger_config \<Rightarrow> string list \<Rightarrow> config_error + string list" where
  "validate_trigger t ids =
     (if trim (t_id t) = [] then invalid I_trigger_id_empty
      else if t_id t \<in> set ids then invalid (I_duplicate_id (t_id t))
      else rbind (trigger_type_config t) (\<lambda>_. Inr (t_id t # ids)))"

definition validate_triggers :: "flow_config \<Rightarrow> config_error + unit" where
  "validate_triggers flow =
     rbind (fold_res validate_trigger (f_triggers flow) (map s_id (f_steps flow))) (\<lambda>_. Inr ())"

definition check_when :: "(expr_error \<Rightarrow> invalid_msg) \<Rightarrow> string option \<Rightarrow> config_error + unit" where
  "check_when msg w =
     (case w of
        None \<Rightarrow> Inr ()
      | Some text \<Rightarrow> (case parse_expr text of Inl e \<Rightarrow> invalid (msg e) | Inr _ \<Rightarrow> Inr ()))"

definition validate_step :: "step_config \<Rightarrow> string list \<Rightarrow> config_error + string list" where
  "validate_step step ids =
     (if trim (s_id step) = [] then invalid I_step_id_empty
      else if s_id step \<in> set ids then invalid (I_duplicate_step (s_id step))
      else if s_kind step = None \<or> s_type step = None then invalid (I_missing_kind (s_id step))
      else rbind (check_when (I_step_when (s_id step)) (s_when step))
             (\<lambda>_. Inr (s_id step # ids)))"

definition count_kind :: "flow_config \<Rightarrow> step_kind \<Rightarrow> nat" where
  "count_kind flow kind = length (filter (\<lambda>s. s_kind s = Some kind) (f_steps flow))"

definition validate_counts :: "flow_config \<Rightarrow> config_error + unit" where
  "validate_counts flow =
     (if count_kind flow KSource + length (f_triggers flow) = 0 then invalid I_no_source
      else if count_kind flow KSink = 0 then invalid I_no_sink
      else Inr ())"

definition validate_steps :: "flow_config \<Rightarrow> config_error + unit" where
  "validate_steps flow =
     (if f_steps flow = [] then invalid I_no_steps
      else rbind (fold_res validate_step (f_steps flow) []) (\<lambda>_. validate_counts flow))"

definition adj_push :: "string \<Rightarrow> string \<Rightarrow> adjacency \<Rightarrow> adjacency" where
  "adj_push i t adj = im_insert i (adj_targets adj i @ [t]) adj"

definition validate_edge :: "string list \<Rightarrow> edge_config \<Rightarrow> adjacency \<Rightarrow> config_error + adjacency" where
  "validate_edge ids e adj =
     (if edge_from e \<notin> set ids then invalid (I_edge_from (edge_from e))
      else if edge_to e \<notin> set ids then invalid (I_edge_to (edge_to e))
      else if edge_from e = edge_to e then invalid (I_self_loop (edge_from e))
      else rbind (check_when (I_edge_when (edge_from e) (edge_to e)) (edge_when e))
             (\<lambda>_. Inr (adj_push (edge_from e) (edge_to e) adj)))"

definition flow_ids :: "flow_config \<Rightarrow> string list" where
  "flow_ids flow = map s_id (f_steps flow) @ map t_id (f_triggers flow)"

definition validate_edges ::
    "(string list \<Rightarrow> string list) \<Rightarrow> flow_config \<Rightarrow> (config_error + unit) option" where
  "validate_edges ord flow =
     (case fold_res (validate_edge (flow_ids flow)) (f_edges flow) [] of
        Inl e \<Rightarrow> Some (Inl e)
      | Inr adj \<Rightarrow> check_edges_acyclic ord adj)"

definition validate ::
    "(string list \<Rightarrow> string list) \<Rightarrow> flow_config \<Rightarrow> (config_error + unit) option" where
  "validate ord flow =
     (case rbind (validate_version flow) (\<lambda>_. rbind (validate_triggers flow) (\<lambda>_. validate_steps flow)) of
        Inl e \<Rightarrow> Some (Inl e)
      | Inr _ \<Rightarrow>
          (case validate_edges ord flow of
             None \<Rightarrow> None
           | Some (Inl e) \<Rightarrow> Some (Inl e)
           | Some (Inr _) \<Rightarrow>
               Some (check_all (\<lambda>s. rbind (step_type_config s) (\<lambda>_. Inr ())) (f_steps flow))))"

text \<open>
  \<^verbatim>\<open>FlowConfig::load\<close> and \<^verbatim>\<open>from_yaml_str\<close>.  \<open>read_flow\<close> is reading and parsing the flow file,
  \<open>read_import\<close> the same for a fragment, \<open>parent\<close> is \<^verbatim>\<open>Path::parent\<close>.
\<close>

definition load_flow ::
    "(string \<Rightarrow> config_error + flow_config) \<Rightarrow> (string \<Rightarrow> config_error + (string \<times> step_config) list) \<Rightarrow>
     (string \<Rightarrow> string option) \<Rightarrow> (string list \<Rightarrow> string list) \<Rightarrow> string \<Rightarrow>
     (config_error + flow_config) option" where
  "load_flow read_flow read_import parent ord path =
     (case rbind (read_flow path)
        (\<lambda>flow. case parent path of
             None \<Rightarrow> Inr flow
           | Some base \<Rightarrow>
               rbind (resolve_imports read_import base flow)
                 (\<lambda>flow. rbind (apply_templates flow) (\<lambda>flow. Inr (resolve_paths base flow)))) of
        Inl e \<Rightarrow> Some (Inl e)
      | Inr flow \<Rightarrow>
          (case validate ord flow of
             None \<Rightarrow> None
           | Some (Inl e) \<Rightarrow> Some (Inl e)
           | Some (Inr _) \<Rightarrow> Some (Inr flow)))"

definition from_yaml_str ::
    "(string \<Rightarrow> config_error + flow_config) \<Rightarrow> (string list \<Rightarrow> string list) \<Rightarrow> string \<Rightarrow>
     (config_error + flow_config) option" where
  "from_yaml_str parse_yaml ord yaml =
     (case rbind (parse_yaml yaml) apply_templates of
        Inl e \<Rightarrow> Some (Inl e)
      | Inr flow \<Rightarrow>
          (case validate ord flow of
             None \<Rightarrow> None
           | Some (Inl e) \<Rightarrow> Some (Inl e)
           | Some (Inr _) \<Rightarrow> Some (Inr flow)))"

section \<open>Lemmas\<close>

text \<open>Both id registers (steps, triggers) have this shape.\<close>

lemma fold_res_register:
  assumes "\<And>x ids ids'. f x ids = Inr ids' \<longleftrightarrow> ok x \<and> key x \<notin> set ids \<and> ids' = key x # ids"
  shows "(\<exists>ids'. fold_res f xs ids = Inr ids') \<longleftrightarrow>
    (\<forall>x \<in> set xs. ok x) \<and> distinct (map key xs) \<and> set (map key xs) \<inter> set ids = {}"
proof (induction xs arbitrary: ids)
  case (Cons x xs)
  have "(\<exists>ids'. fold_res f (x # xs) ids = Inr ids') \<longleftrightarrow>
      ok x \<and> key x \<notin> set ids \<and> (\<exists>ids'. fold_res f xs (key x # ids) = Inr ids')"
    by (auto simp: rbind_Inr_iff assms)
  then show ?case by (auto simp: Cons.IH)
qed simp

definition parses :: "string option \<Rightarrow> bool" where
  "parses w = (case w of None \<Rightarrow> True | Some text \<Rightarrow> \<not> isl (parse_expr text))"

lemma check_when_Inr: "check_when msg w = Inr u \<longleftrightarrow> parses w"
  by (auto simp: check_when_def parses_def invalid_def split: option.splits sum.splits)

definition step_ok :: "step_config \<Rightarrow> bool" where
  "step_ok s \<longleftrightarrow> trim (s_id s) \<noteq> [] \<and> s_kind s \<noteq> None \<and> s_type s \<noteq> None \<and> parses (s_when s)"

definition trigger_ok :: "trigger_config \<Rightarrow> bool" where
  "trigger_ok t \<longleftrightarrow> trim (t_id t) \<noteq> [] \<and> \<not> isl (trigger_type_config t)"

lemma validate_step_Inr:
  "validate_step s ids = Inr ids' \<longleftrightarrow> step_ok s \<and> s_id s \<notin> set ids \<and> ids' = s_id s # ids"
  by (auto simp: validate_step_def step_ok_def invalid_def rbind_Inr_iff check_when_Inr)

lemma validate_trigger_Inr:
  "validate_trigger t ids = Inr ids' \<longleftrightarrow> trigger_ok t \<and> t_id t \<notin> set ids \<and> ids' = t_id t # ids"
  by (cases "trigger_type_config t") (auto simp: validate_trigger_def trigger_ok_def invalid_def)

definition edge_ok :: "string list \<Rightarrow> edge_config \<Rightarrow> bool" where
  "edge_ok ids e \<longleftrightarrow> edge_from e \<in> set ids \<and> edge_to e \<in> set ids \<and> edge_from e \<noteq> edge_to e \<and>
     parses (edge_when e)"

lemma validate_edge_Inr:
  "validate_edge ids e adj = Inr adj' \<longleftrightarrow>
   edge_ok ids e \<and> adj' = adj_push (edge_from e) (edge_to e) adj"
  by (auto simp: validate_edge_def edge_ok_def invalid_def rbind_Inr_iff check_when_Inr)

lemma adj_targets_push:
  "adj_targets (adj_push i t adj) j = (if j = i then adj_targets adj i @ [t] else adj_targets adj j)"
  by (simp add: adj_push_def adj_targets_def)

definition push_edge :: "edge_config \<Rightarrow> adjacency \<Rightarrow> adjacency" where
  "push_edge e = adj_push (edge_from e) (edge_to e)"

lemma fold_validate_edge:
  "fold_res (validate_edge ids) es adj = Inr adj' \<longleftrightarrow>
   (\<forall>e \<in> set es. edge_ok ids e) \<and> adj' = fold push_edge es adj"
  by (induction es arbitrary: adj) (auto simp: rbind_Inr_iff validate_edge_Inr push_edge_def)

lemma edges_push_edges:
  "edges (adj_targets (fold push_edge es adj)) =
   edges (adj_targets adj) \<union> {(edge_from e, edge_to e) |e. e \<in> set es}"
proof (induction es arbitrary: adj)
  case (Cons e es)
  have "edges (adj_targets (push_edge e adj)) = insert (edge_from e, edge_to e) (edges (adj_targets adj))"
    by (auto simp: edges_def push_edge_def adj_targets_push split: if_splits)
  with Cons.IH show ?case by auto
qed simp

lemma distinct_push_edges: "distinct (map fst adj) \<Longrightarrow> distinct (map fst (fold push_edge es adj))"
  by (induction es arbitrary: adj) (simp_all add: push_edge_def adj_push_def distinct_update)

definition edge_rel :: "flow_config \<Rightarrow> (string \<times> string) set" where
  "edge_rel flow = {(edge_from e, edge_to e) |e. e \<in> set (f_edges flow)}"

lemma validate_edges_eq:
  assumes "hash_order ord" "\<And>e. e \<in> set (f_edges flow) \<Longrightarrow> edge_ok (flow_ids flow) e"
  shows "validate_edges ord flow =
    Some (if acyclic (edge_rel flow) then Inr () else Inl (CE_Invalid I_cycle))"
proof -
  let ?adj = "fold push_edge (f_edges flow) []"
  have e: "edges (adj_targets ?adj) = edge_rel flow"
    using edges_push_edges [of "f_edges flow" "[]"] by (simp add: edge_rel_def edges_def adj_targets_def)
  have d: "distinct (map fst ?adj)" by (rule distinct_push_edges) simp
  have "fold_res (validate_edge (flow_ids flow)) (f_edges flow) [] = Inr ?adj"
    using assms(2) by (simp add: fold_validate_edge)
  moreover have "check_edges_acyclic ord ?adj =
      Some (if acyclic (edge_rel flow) then Inr () else Inl (CE_Invalid I_cycle))"
    using adj_graph.kahn_decides [OF assms(1) initial_indegree_keys(1) refl adj_targets_keys
      initial_indegree_eq [OF d]] adj_domain_keys [of ?adj]
    by (auto simp: check_edges_acyclic_def Let_def e)
  ultimately show ?thesis by (simp add: validate_edges_def)
qed

lemma validate_edges_Inr:
  assumes "hash_order ord"
  shows "validate_edges ord flow = Some (Inr u) \<longleftrightarrow>
    (\<forall>e \<in> set (f_edges flow). edge_ok (flow_ids flow) e) \<and> acyclic (edge_rel flow)"
proof (cases "\<forall>e \<in> set (f_edges flow). edge_ok (flow_ids flow) e")
  case True
  then show ?thesis using validate_edges_eq [OF assms] by auto
next
  case False
  then have "fold_res (validate_edge (flow_ids flow)) (f_edges flow) [] \<noteq> Inr adj" for adj
    by (simp add: fold_validate_edge)
  with False show ?thesis
    by (cases "fold_res (validate_edge (flow_ids flow)) (f_edges flow) []") (auto simp: validate_edges_def)
qed

lemma validate_edges_no_panic:
  assumes "hash_order ord"
  shows "validate_edges ord flow \<noteq> None"
proof (cases "\<forall>e \<in> set (f_edges flow). edge_ok (flow_ids flow) e")
  case True
  then show ?thesis using validate_edges_eq [OF assms] by auto
next
  case False
  then show ?thesis
    by (cases "fold_res (validate_edge (flow_ids flow)) (f_edges flow) []")
      (auto simp: validate_edges_def fold_validate_edge)
qed

lemma validate_triggers_Inr:
  "validate_triggers flow = Inr u \<longleftrightarrow>
   (\<forall>t \<in> set (f_triggers flow). trigger_ok t) \<and>
   distinct (map t_id (f_triggers flow)) \<and>
   set (map t_id (f_triggers flow)) \<inter> set (map s_id (f_steps flow)) = {}"
  using fold_res_register [of validate_trigger trigger_ok t_id "f_triggers flow" "map s_id (f_steps flow)"]
    validate_trigger_Inr
  by (simp add: validate_triggers_def rbind_Inr_iff)

lemma validate_steps_Inr:
  "validate_steps flow = Inr u \<longleftrightarrow>
   (\<forall>s \<in> set (f_steps flow). step_ok s) \<and>
   distinct (map s_id (f_steps flow)) \<and>
   (f_triggers flow \<noteq> [] \<or> (\<exists>s \<in> set (f_steps flow). s_kind s = Some KSource)) \<and>
   (\<exists>s \<in> set (f_steps flow). s_kind s = Some KSink)"
proof -
  have "validate_counts flow = Inr u \<longleftrightarrow>
     (f_triggers flow \<noteq> [] \<or> (\<exists>s \<in> set (f_steps flow). s_kind s = Some KSource)) \<and>
     (\<exists>s \<in> set (f_steps flow). s_kind s = Some KSink)"
    by (auto simp: validate_counts_def invalid_def count_kind_def filter_empty_conv)
  then show ?thesis
    using fold_res_register [of validate_step step_ok s_id "f_steps flow" "[]"] validate_step_Inr
    by (auto simp: validate_steps_def rbind_Inr_iff invalid_def)
qed

lemma merge_extras_get:
  assumes "im_wf extra"
  shows "im_get (merge_extras extra base) k =
    (case im_get extra k of None \<Rightarrow> im_get base k | Some v \<Rightarrow> Some (merge_field (im_get base k) v))"
  using assms unfolding merge_extras_def
proof (induction extra arbitrary: base)
  case (Cons p extra)
  obtain k' v where p: "p = (k', v)" by fastforce
  have "im_wf extra" and fresh: "im_get extra k' = None"
    using Cons.prems p by (auto simp: im_wf_def im_keys_def map_of_eq_None_iff)
  with Cons.IH [OF this(1), of "merge_extra p base"] show ?case
    by (cases "im_get extra k") (auto simp: p)
qed simp

text \<open>What a valid flow is, without the order of the checks.\<close>

definition valid_flow :: "flow_config \<Rightarrow> bool" where
  "valid_flow flow \<longleftrightarrow>
     f_version flow = ''1'' \<and>
     distinct (flow_ids flow) \<and>
     (\<forall>s \<in> set (f_steps flow). step_ok s \<and> \<not> isl (step_type_config s)) \<and>
     (\<forall>t \<in> set (f_triggers flow). trigger_ok t) \<and>
     (f_triggers flow \<noteq> [] \<or> (\<exists>s \<in> set (f_steps flow). s_kind s = Some KSource)) \<and>
     (\<exists>s \<in> set (f_steps flow). s_kind s = Some KSink) \<and>
     (\<forall>e \<in> set (f_edges flow). edge_ok (flow_ids flow) e) \<and>
     acyclic (edge_rel flow)"

section \<open>Properties\<close>

lemma validate_accepts:
  assumes "hash_order ord"
  shows "validate ord flow = Some (Inr ()) \<longleftrightarrow> valid_flow flow"
proof -
  have cfg: "check_all (\<lambda>s. rbind (step_type_config s) (\<lambda>_. Inr ())) (f_steps flow) = Inr () \<longleftrightarrow>
      (\<forall>s \<in> set (f_steps flow). \<not> isl (step_type_config s))"
    by (auto simp: check_all_Inr_iff rbind_def isl_def split: sum.splits)
  have ids: "distinct (flow_ids flow) \<longleftrightarrow> distinct (map s_id (f_steps flow)) \<and>
      distinct (map t_id (f_triggers flow)) \<and>
      set (map t_id (f_triggers flow)) \<inter> set (map s_id (f_steps flow)) = {}"
    by (auto simp: flow_ids_def)
  have "validate ord flow = Some (Inr ()) \<longleftrightarrow>
      f_version flow = ''1'' \<and> validate_triggers flow = Inr () \<and> validate_steps flow = Inr () \<and>
      validate_edges ord flow = Some (Inr ()) \<and>
      check_all (\<lambda>s. rbind (step_type_config s) (\<lambda>_. Inr ())) (f_steps flow) = Inr ()"
    by (auto simp: validate_def validate_version_def invalid_def rbind_def split: sum.splits option.splits)
  then show ?thesis
    unfolding valid_flow_def cfg ids validate_triggers_Inr validate_steps_Inr
      validate_edges_Inr [OF assms] by blast
qed

text \<open>
  C7. Loading accepts exactly the well-formed flows: with any visiting order of the hash map of
  edges, validation never panics, and it succeeds if and only if the version is 1, all step and
  trigger ids are non-blank and pairwise distinct, every step has a kind and a type, every guard
  parses, there is a source or trigger and a sink, every edge joins two distinct known ids, no
  declaration has an unknown or reserved field, and the edges have no cycle.  These are the
  conditions of the code.  docs/design/yaml-workflow-schema.md (sections 1, 2 and 10) asks for more:
  patterns for the flow's name and for ids, and exactly one source or trigger where no edges are
  given.  Flows that break these rules are accepted (\<open>schema_rules_unchecked\<close>).
\<close>

theorem validate_iff:
  assumes "hash_order ord"
  shows "validate ord flow \<noteq> None \<and> (validate ord flow = Some (Inr ()) \<longleftrightarrow> valid_flow flow)"
  using validate_accepts [OF assms] validate_edges_no_panic [OF assms, of flow]
  by (auto simp: validate_def split: sum.splits option.splits)

definition demo_step :: "string \<Rightarrow> step_kind \<Rightarrow> string \<Rightarrow> step_config" where
  "demo_step i k ty = \<lparr>s_id = i, s_kind = Some k, s_type = Some ty, s_use = None, s_name = None,
     s_description = None, s_when = None, s_on_error = None, s_retry = None, s_state = None,
     s_extra = []\<rparr>"

definition demo_flow :: "step_config list \<Rightarrow> edge_config list \<Rightarrow> flow_config" where
  "demo_flow steps es = \<lparr>f_name = ''demo'', f_version = ''1'', f_vars = [], f_triggers = [],
     f_steps = steps, f_edges = es, f_checkpoint = None, f_event_bus = None, f_imports = [],
     f_templates = []\<rparr>"

theorem validate_iff_witness:
  "valid_flow (demo_flow [demo_step ''in'' KSource ''vec'', demo_step ''out'' KSink ''log'']
     [EPair ''in'' ''out''])"
proof -
  have "validate rev (demo_flow [demo_step ''in'' KSource ''vec'', demo_step ''out'' KSink ''log'']
     [EPair ''in'' ''out'']) = Some (Inr ())" by code_simp
  with validate_iff [of rev] show ?thesis by simp
qed

text \<open>Accepted although the schema's document forbids the name, an id, and two sources without edges.\<close>

lemma schema_rules_unchecked:
  "validate rev ((demo_flow [demo_step ''2 steps!'' KSource ''vec'', demo_step ''in'' KSource ''vec'', demo_step ''out'' KSink ''log''] [])
     \<lparr>f_name := ''Any Name''\<rparr>) = Some (Inr ())"
  by code_simp

text \<open>
  Applying a template never overrides what the step itself declares: the merged step keeps the
  step's id and each of its own settings, takes the template's where it has none, and its extra
  fields are the step's over the template's, objects being merged field by field.
\<close>

theorem template_precedence:
  assumes "merge_template step template = Inr merged" "im_wf (s_extra step)"
  shows "s_id merged = s_id step \<and>
    s_kind merged = or_else (s_kind step) (s_kind template) \<and>
    s_type merged = or_else (s_type step) (s_type template) \<and>
    s_when merged = or_else (s_when step) (s_when template) \<and>
    s_on_error merged = or_else (s_on_error step) (s_on_error template) \<and>
    s_retry merged = or_else (s_retry step) (s_retry template) \<and>
    s_state merged = or_else (s_state step) (s_state template) \<and>
    (\<forall>k. im_get (s_extra merged) k =
      (case im_get (s_extra step) k of
         None \<Rightarrow> im_get (s_extra template) k
       | Some v \<Rightarrow> Some (merge_field (im_get (s_extra template) k) v)))"
  using assms(1) merge_extras_get [OF assms(2)]
  by (auto simp: merge_template_def split: if_splits)

theorem template_precedence_witness:
  "let step = (demo_step ''a'' KSink ''log'')\<lparr>s_type := None, s_extra := [(''k'', JBool True)]\<rparr>;
       template = demo_step ''t'' KSink ''file'' in
   \<exists>merged. merge_template step template = Inr merged \<and> s_type merged = Some ''file'' \<and>
     im_get (s_extra merged) ''k'' = Some (JBool True)"
proof -
  let ?step = "(demo_step ''a'' KSink ''log'')\<lparr>s_type := None, s_extra := [(''k'', JBool True)]\<rparr>"
  let ?template = "demo_step ''t'' KSink ''file''"
  obtain merged where m: "merge_template ?step ?template = Inr merged"
    by (simp add: merge_template_def kinds_conflict_def demo_step_def)
  have "im_wf (s_extra ?step)" by (simp add: im_wf_def im_keys_def)
  from template_precedence [OF m this] m show ?thesis
    by (auto simp: demo_step_def or_else_def)
qed

end
