(* ===== verification/Flow_Record.thy ===== *)
theory Flow_Record
  imports Json
begin

text \<open>
  The record that flows through a graph (\<^verbatim>\<open>sohara-core/src/record.rs\<close>): dot-path access into
  its JSON payload, and the builder.  Identifiers and timestamps come from the uuid and chrono
  crates; the functions that create records take them as arguments.
\<close>

section \<open>Model\<close>

record rec =
  rid :: string
  timestamp :: string
  payload :: json
  metadata :: "(string \<times> string) list"

definition record_new :: "string \<Rightarrow> string \<Rightarrow> json \<Rightarrow> rec" where
  "record_new uid now data = \<lparr>rid = uid, timestamp = now, payload = data, metadata = []\<rparr>"

text \<open>\<^verbatim>\<open>get_path\<close>: the loop over the parts of the path.\<close>

fun get_parts :: "json \<Rightarrow> string list \<Rightarrow> json option" where
  "get_parts cur [] = Some cur"
| "get_parts cur (p # ps) =
     (case as_object cur of None \<Rightarrow> None
      | Some m \<Rightarrow> (case im_get m p of None \<Rightarrow> None | Some v \<Rightarrow> get_parts v ps))"

definition get_path :: "json \<Rightarrow> string \<Rightarrow> json option" where
  "get_path doc path = get_parts doc (split_on (CHR ''.'') path)"

text \<open>
  \<^verbatim>\<open>set_path\<close>: the loop walks down the leading parts, creating objects where a key is
  missing and giving up where it meets something that is not an object.
\<close>

fun set_parts :: "json \<Rightarrow> string list \<Rightarrow> string \<Rightarrow> json \<Rightarrow> json" where
  "set_parts cur [] lst v =
     (case cur of JObject m \<Rightarrow> JObject (im_insert lst v m) | _ \<Rightarrow> cur)"
| "set_parts cur (p # ps) lst v =
     (case cur of
        JObject m \<Rightarrow>
          JObject (im_insert p
            (set_parts (case im_get m p of Some w \<Rightarrow> w | None \<Rightarrow> JObject []) ps lst v) m)
      | _ \<Rightarrow> cur)"

definition set_path :: "json \<Rightarrow> string \<Rightarrow> json \<Rightarrow> json" where
  "set_path doc path v =
     (let parts = split_on (CHR ''.'') path;
          doc' = (if is_object doc then doc else JObject [])
      in set_parts doc' (butlast parts) (last parts) v)"

definition record_get :: "rec \<Rightarrow> string \<Rightarrow> json option" where
  "record_get r path = get_path (payload r) path"

definition record_set :: "rec \<Rightarrow> string \<Rightarrow> json \<Rightarrow> rec" where
  "record_set r path v = r\<lparr>payload := set_path (payload r) path v\<rparr>"

definition record_has :: "rec \<Rightarrow> string \<Rightarrow> bool" where
  "record_has r path = (record_get r path \<noteq> None)"

definition with_metadata :: "rec \<Rightarrow> string \<Rightarrow> string \<Rightarrow> rec" where
  "with_metadata r k v = r\<lparr>metadata := im_insert k v (metadata r)\<rparr>"

definition to_json :: "rec \<Rightarrow> json" where
  "to_json r = payload r"

record record_builder =
  rb_id :: "string option"
  rb_data :: "json option"
  rb_metadata :: "(string \<times> string) list"

definition builder_new :: record_builder where
  "builder_new = \<lparr>rb_id = None, rb_data = None, rb_metadata = []\<rparr>"

definition builder_id :: "record_builder \<Rightarrow> string \<Rightarrow> record_builder" where
  "builder_id b i = b\<lparr>rb_id := Some i\<rparr>"

definition builder_data :: "record_builder \<Rightarrow> json \<Rightarrow> record_builder" where
  "builder_data b d = b\<lparr>rb_data := Some d\<rparr>"

definition builder_metadata :: "record_builder \<Rightarrow> string \<Rightarrow> string \<Rightarrow> record_builder" where
  "builder_metadata b k v = b\<lparr>rb_metadata := im_insert k v (rb_metadata b)\<rparr>"

definition builder_build :: "string \<Rightarrow> string \<Rightarrow> record_builder \<Rightarrow> rec" where
  "builder_build uid now b =
     \<lparr>rid = (case rb_id b of Some i \<Rightarrow> i | None \<Rightarrow> uid),
      timestamp = now,
      payload = (case rb_data b of Some d \<Rightarrow> d | None \<Rightarrow> JObject []),
      metadata = rb_metadata b\<rparr>"

section \<open>Path laws\<close>

text \<open>
  A path is open in a value when no proper prefix of it reaches a value that is not an
  object: exactly then \<^verbatim>\<open>set\<close> has an effect.
\<close>

fun path_open :: "json \<Rightarrow> string list \<Rightarrow> bool" where
  "path_open cur [] = is_object cur"
| "path_open cur (p # ps) =
     (case cur of
        JObject m \<Rightarrow> (case im_get m p of None \<Rightarrow> True | Some w \<Rightarrow> path_open w ps)
      | _ \<Rightarrow> False)"

lemma get_parts_append:
  "get_parts v (ps @ qs) = Option.bind (get_parts v ps) (\<lambda>w. get_parts w qs)"
  by (induction v ps rule: get_parts.induct) (auto split: option.splits)

lemma path_open_empty [simp]: "path_open (JObject []) ps"
  by (cases ps) auto

lemma get_set_parts_open:
  "path_open cur ps \<Longrightarrow> get_parts (set_parts cur ps lst v) (ps @ [lst]) = Some v"
proof (induction cur ps lst v rule: set_parts.induct)
  case (1 cur lst v)
  then show ?case by (cases cur) auto
next
  case (2 cur p ps lst v)
  then show ?case
  proof (cases cur)
    case (JObject m)
    have "path_open (case im_get m p of None \<Rightarrow> JObject [] | Some w \<Rightarrow> w) ps"
      using "2.prems" JObject by (auto split: option.splits)
    from "2.IH" [OF JObject this] show ?thesis using JObject by simp
  qed auto
qed

lemma set_parts_blocked: "\<not> path_open cur ps \<Longrightarrow> set_parts cur ps lst v = cur"
proof (induction cur ps lst v rule: set_parts.induct)
  case (1 cur lst v)
  then show ?case by (cases cur) auto
next
  case (2 cur p ps lst v)
  show ?case
  proof (cases cur)
    case (JObject m)
    with "2.prems" obtain w where w: "im_get m p = Some w" "\<not> path_open w ps"
      by (auto split: option.splits)
    with "2.IH" [OF JObject] have "set_parts w ps lst v = w" by simp
    moreover have "im_insert p w m = m"
      using w(1) by (induction m) (auto split: if_splits)
    ultimately show ?thesis using JObject w(1) by simp
  qed auto
qed

lemma get_set_parts_other:
  assumes "a \<noteq> b" "path_open cur xs"
    and "ps @ [lst] = xs @ a # zs"
  shows "get_parts (set_parts cur ps lst v) (xs @ b # ys) = get_parts cur (xs @ b # ys)"
  using assms(2,3)
proof (induction cur ps lst v arbitrary: xs rule: set_parts.induct)
  case (1 cur lst v)
  then have "xs = []" "lst = a" by (auto simp: Cons_eq_append_conv)
  then show ?case using assms(1) by (cases cur) auto
next
  case (2 cur p ps lst v)
  show ?case
  proof (cases cur)
    case (JObject m)
    note cur = JObject
    show ?thesis
    proof (cases xs)
      case Nil
      with "2.prems" have "p = a" by simp
      with Nil JObject assms(1) show ?thesis by auto
    next
      case (Cons x xs')
      with "2.prems" have x: "x = p" "ps @ [lst] = xs' @ a # zs" by auto
      let ?w = "case im_get m p of None \<Rightarrow> JObject [] | Some w \<Rightarrow> w"
      have "path_open ?w xs'" using "2.prems"(1) JObject Cons x(1) by (auto split: option.splits)
      from "2.IH" [OF JObject this x(2)]
      have IH: "get_parts (set_parts ?w ps lst v) (xs' @ b # ys) = get_parts ?w (xs' @ b # ys)" .
      have none: "get_parts (JObject []) (xs' @ b # ys) = None" by (cases xs') auto
      show ?thesis using IH none JObject Cons x(1) by (auto split: option.splits)
    qed
  qed auto
qed

lemma wf_set_parts: "wf_json cur \<Longrightarrow> wf_json v \<Longrightarrow> wf_json (set_parts cur ps lst v)"
proof (induction cur ps lst v rule: set_parts.induct)
  case (1 cur lst v)
  then show ?case by (cases cur) (auto simp del: wf_json.simps(6))
next
  case (2 cur p ps lst v)
  show ?case
  proof (cases cur)
    case (JObject m)
    have "wf_json (case im_get m p of None \<Rightarrow> JObject [] | Some w \<Rightarrow> w)"
      using "2.prems"(1) JObject wf_json_im_get [of m p] by (auto split: option.splits)
    from "2.IH" [OF JObject this "2.prems"(2)] show ?thesis
      using "2.prems"(1) JObject by (simp del: wf_json.simps(6))
  qed (use "2.prems" in auto)
qed

lemma wf_set_path: "wf_json doc \<Longrightarrow> wf_json v \<Longrightarrow> wf_json (set_path doc path v)"
  by (simp add: set_path_def Let_def wf_set_parts)

lemma is_object_set_parts [simp]: "is_object (set_parts cur ps lst v) = is_object cur"
  by (cases ps; cases cur) auto

text \<open>The openness of a path in a whole payload: a non-object payload is replaced first.\<close>

definition settable :: "json \<Rightarrow> string \<Rightarrow> bool" where
  "settable doc path =
     (\<not> is_object doc \<or> path_open doc (butlast (split_on (CHR ''.'') path)))"

lemma get_set_path:
  assumes "settable doc path"
  shows "get_path (set_path doc path v) path = Some v"
proof -
  let ?parts = "split_on (CHR ''.'') path"
  have "path_open (if is_object doc then doc else JObject []) (butlast ?parts)"
    using assms by (auto simp: settable_def)
  from get_set_parts_open [OF this, of "last ?parts" v] show ?thesis
    by (simp add: get_path_def set_path_def Let_def)
qed

lemma set_path_blocked:
  "\<not> settable doc path \<Longrightarrow> set_path doc path v = doc"
  by (auto simp: settable_def set_path_def Let_def set_parts_blocked)

section \<open>Properties\<close>

text \<open>
  \<^verbatim>\<open>Record::set\<close> then \<^verbatim>\<open>Record::get\<close> on the same dot path: if no proper prefix of
  the path reaches a value that is not an object, the value just written is read back;
  otherwise the record is left as it was.
\<close>

theorem record_get_set:
  "(settable (payload r) path \<longrightarrow> record_get (record_set r path v) path = Some v) \<and>
   (\<not> settable (payload r) path \<longrightarrow> record_set r path v = r)"
  by (simp add: record_get_def record_set_def get_set_path set_path_blocked)

theorem record_get_set_witness:
  "record_get (record_set (record_new ''u'' ''t'' (JObject [(''a'', JNull)])) ''b.c'' (JBool True)) ''b.c''
     = Some (JBool True) \<and>
   record_set (record_new ''u'' ''t'' (JObject [(''a'', JNull)])) ''a.c'' (JBool True)
     = record_new ''u'' ''t'' (JObject [(''a'', JNull)])"
proof -
  let ?r = "record_new ''u'' ''t'' (JObject [(''a'', JNull)])"
  have "settable (payload ?r) ''b.c''" "\<not> settable (payload ?r) ''a.c''"
    by (simp_all add: record_new_def settable_def)
  then show ?thesis
    using record_get_set [of ?r "''b.c''" "JBool True"] record_get_set [of ?r "''a.c''" "JBool True"]
    by blast
qed

text \<open>
  Writing one path leaves every path that forks off it as it was: for two dot paths that
  share the leading parts \<open>xs\<close> and continue with different parts \<open>a\<close> and \<open>b\<close>, a
  write along the first does not change what a read along the second returns.
\<close>

theorem record_set_frame:
  assumes "is_object (payload r)"
    and "split_on (CHR ''.'') path = xs @ a # zs"
    and "split_on (CHR ''.'') path' = xs @ b # ys"
    and "a \<noteq> b"
  shows "record_get (record_set r path v) path' = record_get r path'"
proof (cases "settable (payload r) path")
  case True
  let ?parts = "split_on (CHR ''.'') path"
  have parts: "butlast ?parts @ [last ?parts] = xs @ a # zs"
    using assms(2) by (metis append_butlast_last_id split_on_neq_Nil)
  have "path_open (payload r) (butlast ?parts)" using True assms(1) by (simp add: settable_def)
  moreover have "\<exists>qs. butlast ?parts = xs @ qs"
    using assms(2) by (cases zs rule: rev_cases) (auto simp: butlast_append)
  moreover have "path_open w (us @ qs) \<Longrightarrow> path_open w us" for w us qs
    by (induction w us rule: path_open.induct) (cases qs; auto split: json.splits option.splits)+
  ultimately have "path_open (payload r) xs" by metis
  from get_set_parts_other [OF assms(4) this parts, of v ys] show ?thesis
    using assms(1,3) by (simp add: record_get_def record_set_def get_path_def set_path_def Let_def)
qed (simp add: record_get_def record_set_def set_path_blocked)

theorem record_set_frame_witness:
  "record_get (record_set (record_new ''u'' ''t'' (JObject [(''a'', JObject [(''y'', JNull)])])) ''a.x'' (JBool True))
     ''a.y'' = Some JNull"
proof -
  let ?r = "record_new ''u'' ''t'' (JObject [(''a'', JObject [(''y'', JNull)])])"
  have "record_get (record_set ?r ''a.x'' (JBool True)) ''a.y'' = record_get ?r ''a.y''"
    by (rule record_set_frame [of _ _ "[''a'']" "''x''" "[]" _ "''y''" "[]"])
      (simp_all add: record_new_def)
  also have "\<dots> = Some JNull" by (simp add: record_get_def record_new_def get_path_def)
  finally show ?thesis .
qed

end
