(* ===== verification/Transform.thy ===== *)
theory Transform
  imports Core_Error Flow_Record
begin

text \<open>
  The component interfaces of the core crate and its own components: transforms
  (\<^verbatim>\<open>transform.rs\<close>), sources and sinks (\<^verbatim>\<open>source.rs\<close>, \<^verbatim>\<open>sink.rs\<close>) and the linear pipeline
  (\<^verbatim>\<open>pipeline.rs\<close>).  A component object is a function on an outside world \<open>'w\<close> that holds
  everything it may read or change (files, sockets, its own buffers).  A stream is the finite
  list of items it yields.
\<close>

section \<open>Interfaces\<close>

datatype outcome = Pass rec | Filtered | Expand "rec list" | Fail error

type_synonym 'w transform = "rec \<Rightarrow> 'w \<Rightarrow> (error + outcome) \<times> 'w"

record 'w sink =
  k_send :: "rec \<Rightarrow> 'w \<Rightarrow> (error + unit) \<times> 'w"
  k_flush :: "'w \<Rightarrow> (error + unit) \<times> 'w"

type_synonym 'w source = "'w \<Rightarrow> (error + (error + rec) list) \<times> 'w"

section \<open>Transforms\<close>

definition filter_transform :: "(rec \<Rightarrow> bool) \<Rightarrow> 'w transform" where
  "filter_transform p r w = (Inr (if p r then Pass r else Filtered), w)"

definition map_transform :: "(rec \<Rightarrow> rec) \<Rightarrow> 'w transform" where
  "map_transform f r w = (Inr (Pass (f r)), w)"

definition add_field_transform :: "string \<Rightarrow> json \<Rightarrow> 'w transform" where
  "add_field_transform field v r w = (Inr (Pass (record_set r field v)), w)"

record assertion =
  a_field :: string
  a_check :: check
  a_message :: "string option"

datatype assert_on_fail = AFail | AFilter

definition to_f64 :: "json \<Rightarrow> f64 option" where
  "to_f64 v =
     (case as_f64 v of
        Some n \<Rightarrow> Some n
      | None \<Rightarrow> (case as_str v of None \<Rightarrow> None | Some s \<Rightarrow> parse_f64 (trim s)))"

definition num_check :: "(ordering option \<Rightarrow> bool) \<Rightarrow> json option \<Rightarrow> f64 \<Rightarrow> bool" where
  "num_check p v limit =
     (case v of
        None \<Rightarrow> False
      | Some x \<Rightarrow> (case to_f64 x of None \<Rightarrow> False | Some n \<Rightarrow> p (f_cmp n limit)))"

definition holds :: "(json \<Rightarrow> bool) \<Rightarrow> json option \<Rightarrow> bool" where
  "holds p v = (case v of None \<Rightarrow> False | Some x \<Rightarrow> p x)"

fun check_value :: "check \<Rightarrow> json option \<Rightarrow> bool" where
  "check_value ChkExists v = (v \<noteq> None)"
| "check_value ChkNotNull v = holds (\<lambda>x. \<not> is_null x) v"
| "check_value (ChkEq e) v = holds (\<lambda>x. json_eq x e) v"
| "check_value (ChkNeq e) v = holds (\<lambda>x. \<not> json_eq x e) v"
| "check_value (ChkGt n) v = num_check (\<lambda>c. c = Some OGreater) v n"
| "check_value (ChkGte n) v = num_check (\<lambda>c. c = Some OGreater \<or> c = Some OEqual) v n"
| "check_value (ChkLt n) v = num_check (\<lambda>c. c = Some OLess) v n"
| "check_value (ChkLte n) v = num_check (\<lambda>c. c = Some OLess \<or> c = Some OEqual) v n"
| "check_value ChkNull v = holds is_null v"
| "check_value (ChkIn es) v = holds (json_contains es) v"
| "check_value (ChkContains needle) v =
     (case (v, as_str needle) of
        (Some (JString text), Some s) \<Rightarrow> str_contains text s
      | (Some (JArray items), _) \<Rightarrow> json_contains items needle
      | _ \<Rightarrow> False)"

definition failed_outcome :: "assert_on_fail \<Rightarrow> assertion \<Rightarrow> outcome" where
  "failed_outcome on_fail a =
     (case on_fail of
        AFail \<Rightarrow> Fail (Err_Assertion
          (case a_message a of Some m \<Rightarrow> A_message m | None \<Rightarrow> A_failed (a_field a) (a_check a)))
      | AFilter \<Rightarrow> Filtered)"

fun assert_outcome :: "assertion list \<Rightarrow> assert_on_fail \<Rightarrow> rec \<Rightarrow> outcome" where
  "assert_outcome [] on_fail r = Pass r"
| "assert_outcome (a # as) on_fail r =
     (if \<not> check_value (a_check a) (record_get r (a_field a)) then failed_outcome on_fail a
      else assert_outcome as on_fail r)"

definition assert_transform :: "assertion list \<Rightarrow> assert_on_fail \<Rightarrow> 'w transform" where
  "assert_transform as on_fail r w = (Inr (assert_outcome as on_fail r), w)"

section \<open>Sources and sinks\<close>

definition vec_source :: "rec list \<Rightarrow> 'w source" where
  "vec_source rs w = (Inr (map Inr rs), w)"

definition vec_sink :: "rec list sink" where
  "vec_sink = \<lparr>k_send = (\<lambda>r w. (Inr (), w @ [r])), k_flush = (\<lambda>w. (Inr (), w))\<rparr>"

definition log_sink :: "'w sink" where
  "log_sink = \<lparr>k_send = (\<lambda>r w. (Inr (), w)), k_flush = (\<lambda>w. (Inr (), w))\<rparr>"

section \<open>Pipeline\<close>

record pipeline_stats =
  pl_processed :: nat
  pl_filtered :: nat
  pl_errors :: nat

definition stats_new :: pipeline_stats where
  "stats_new = \<lparr>pl_processed = 0, pl_filtered = 0, pl_errors = 0\<rparr>"

definition apply_one :: "'w transform \<Rightarrow> rec \<Rightarrow> pipeline_stats \<times> 'w \<Rightarrow> rec list \<times> pipeline_stats \<times> 'w" where
  "apply_one f r = (\<lambda>(st, w).
     (case f r w of
        (Inr (Pass r'), w') \<Rightarrow> ([r'], st, w')
      | (Inr Filtered, w') \<Rightarrow> ([], st\<lparr>pl_filtered := pl_filtered st + 1\<rparr>, w')
      | (Inr (Expand rs), w') \<Rightarrow> (rs, st, w')
      | (Inr (Fail e), w') \<Rightarrow> ([], st\<lparr>pl_errors := pl_errors st + 1\<rparr>, w')
      | (Inl e, w') \<Rightarrow> ([], st\<lparr>pl_errors := pl_errors st + 1\<rparr>, w')))"

fun apply_each :: "'w transform \<Rightarrow> rec list \<Rightarrow> pipeline_stats \<times> 'w \<Rightarrow> rec list \<times> pipeline_stats \<times> 'w" where
  "apply_each f [] s = ([], s)"
| "apply_each f (r # rs) s =
     (let (out, s1) = apply_one f r s; (rest, s2) = apply_each f rs s1 in (out @ rest, s2))"

fun apply_stages :: "'w transform list \<Rightarrow> rec list \<Rightarrow> pipeline_stats \<times> 'w \<Rightarrow> rec list \<times> pipeline_stats \<times> 'w" where
  "apply_stages [] pending s = (pending, s)"
| "apply_stages (f # fs) pending s =
     (let (next, s') = apply_each f pending s in
      if next = [] then (next, s') else apply_stages fs next s')"

definition apply_transforms ::
    "'w transform list \<Rightarrow> rec \<Rightarrow> pipeline_stats \<times> 'w \<Rightarrow> rec list \<times> pipeline_stats \<times> 'w" where
  "apply_transforms fs r s = apply_stages fs [r] s"

fun send_all :: "'w sink \<Rightarrow> rec list \<Rightarrow> pipeline_stats \<times> 'w \<Rightarrow> pipeline_stats \<times> 'w" where
  "send_all k [] s = s"
| "send_all k (r # rs) (st, w) =
     (case k_send k r w of
        (Inr _, w') \<Rightarrow> send_all k rs (st\<lparr>pl_processed := pl_processed st + 1\<rparr>, w')
      | (Inl e, w') \<Rightarrow> send_all k rs (st\<lparr>pl_errors := pl_errors st + 1\<rparr>, w'))"

definition process_record ::
    "'w transform list \<Rightarrow> 'w sink \<Rightarrow> rec \<Rightarrow> pipeline_stats \<times> 'w \<Rightarrow> pipeline_stats \<times> 'w" where
  "process_record fs k r s = (let (out, s') = apply_transforms fs r s in send_all k out s')"

fun pump_items ::
    "'w transform list \<Rightarrow> 'w sink \<Rightarrow> (error + rec) list \<Rightarrow> pipeline_stats \<times> 'w \<Rightarrow> pipeline_stats \<times> 'w" where
  "pump_items fs k [] s = s"
| "pump_items fs k (Inr r # items) s = pump_items fs k items (process_record fs k r s)"
| "pump_items fs k (Inl e # items) (st, w) =
     pump_items fs k items (st\<lparr>pl_errors := pl_errors st + 1\<rparr>, w)"

definition pipeline_run ::
    "'w source \<Rightarrow> 'w transform list \<Rightarrow> 'w sink \<Rightarrow> 'w \<Rightarrow> (error + pipeline_stats) \<times> 'w" where
  "pipeline_run src fs k w =
     (case src w of
        (Inl e, w') \<Rightarrow> (Inl e, w')
      | (Inr items, w') \<Rightarrow>
          (let (st, w'') = pump_items fs k items (stats_new, w') in
           case k_flush k w'' of
             (Inl e, w3) \<Rightarrow> (Inl e, w3)
           | (Inr _, w3) \<Rightarrow> (Inr st, w3)))"

fun collect_items ::
    "'w transform list \<Rightarrow> (error + rec) list \<Rightarrow> pipeline_stats \<times> 'w \<Rightarrow> rec list \<times> pipeline_stats \<times> 'w" where
  "collect_items fs [] s = ([], s)"
| "collect_items fs (Inr r # items) s =
     (let (out, s1) = apply_transforms fs r s; (rest, s2) = collect_items fs items s1
      in (out @ rest, s2))"
| "collect_items fs (Inl e # items) (st, w) =
     collect_items fs items (st\<lparr>pl_errors := pl_errors st + 1\<rparr>, w)"

definition run_collect :: "'w source \<Rightarrow> 'w transform list \<Rightarrow> 'w \<Rightarrow> (error + rec list) \<times> 'w" where
  "run_collect src fs w =
     (case src w of
        (Inl e, w') \<Rightarrow> (Inl e, w')
      | (Inr items, w') \<Rightarrow>
          (let (out, st, w'') = collect_items fs items (stats_new, w') in (Inr out, w'')))"

section \<open>Lemmas\<close>

definition pl_total :: "pipeline_stats \<Rightarrow> nat" where
  "pl_total st = pl_processed st + pl_filtered st + pl_errors st"

lemma pl_total_simps [simp]:
  "pl_total stats_new = 0"
  "pl_total (st\<lparr>pl_processed := pl_processed st + 1\<rparr>) = pl_total st + 1"
  "pl_total (st\<lparr>pl_filtered := pl_filtered st + 1\<rparr>) = pl_total st + 1"
  "pl_total (st\<lparr>pl_errors := pl_errors st + 1\<rparr>) = pl_total st + 1"
  "pl_total (st\<lparr>pl_processed := Suc (pl_processed st)\<rparr>) = Suc (pl_total st)"
  "pl_total (st\<lparr>pl_filtered := Suc (pl_filtered st)\<rparr>) = Suc (pl_total st)"
  "pl_total (st\<lparr>pl_errors := Suc (pl_errors st)\<rparr>) = Suc (pl_total st)"
  by (simp_all add: pl_total_def stats_new_def)

definition one_to_one :: "'w transform \<Rightarrow> bool" where
  "one_to_one f \<longleftrightarrow> (\<forall>r w rs. fst (f r w) \<noteq> Inr (Expand rs))"

lemma apply_one_total:
  assumes "one_to_one f" "apply_one f r s = (out, s')"
  shows "length out + pl_total (fst s') = 1 + pl_total (fst s)"
proof -
  obtain st w where s: "s = (st, w)" by (cases "s")
  have "fst (f r w) \<noteq> Inr (Expand rs)" for rs using assms(1) by (simp add: one_to_one_def)
  with assms(2) show ?thesis
    by (auto simp: apply_one_def s split: prod.splits sum.splits outcome.splits)
qed

lemma apply_each_total:
  "one_to_one f \<Longrightarrow> apply_each f rs s = (out, s') \<Longrightarrow>
   length out + pl_total (fst s') = length rs + pl_total (fst s)"
proof (induction f rs s arbitrary: out s' rule: apply_each.induct)
  case (2 f r rs s)
  obtain out1 s1 where a: "apply_one f r s = (out1, s1)" by (cases "apply_one f r s")
  obtain rest s2 where b: "apply_each f rs s1 = (rest, s2)" by (cases "apply_each f rs s1")
  show ?case using "2.IH" [OF a [symmetric] refl "2.prems"(1) b] apply_one_total [OF "2.prems"(1) a]
      "2.prems"(2) a b by auto
qed auto

lemma apply_stages_total:
  "\<forall>f \<in> set fs. one_to_one f \<Longrightarrow> apply_stages fs rs s = (out, s') \<Longrightarrow>
   length out + pl_total (fst s') = length rs + pl_total (fst s)"
proof (induction fs rs s arbitrary: out s' rule: apply_stages.induct)
  case (2 f fs pending s)
  obtain nxt s1 where a: "apply_each f pending s = (nxt, s1)" by (cases "apply_each f pending s")
  have "length nxt + pl_total (fst s1) = length pending + pl_total (fst s)"
    using apply_each_total a "2.prems"(1) by fastforce
  then show ?case using "2.IH" [OF a [symmetric] refl] "2.prems" a
    by (cases "nxt = []") auto
qed simp

lemma send_all_total: "pl_total (fst (send_all k rs s)) = length rs + pl_total (fst s)"
  by (induction k rs s rule: send_all.induct) (auto split: prod.splits sum.splits)

lemma process_record_total:
  "\<forall>f \<in> set fs. one_to_one f \<Longrightarrow> pl_total (fst (process_record fs k r s)) = 1 + pl_total (fst s)"
proof -
  assume a: "\<forall>f \<in> set fs. one_to_one f"
  obtain out s' where o: "apply_stages fs [r] s = (out, s')"
    by (cases "apply_stages fs [r] s")
  from apply_stages_total [OF a o] show ?thesis
    by (simp add: process_record_def apply_transforms_def o send_all_total)
qed

lemma pump_items_total:
  "\<forall>f \<in> set fs. one_to_one f \<Longrightarrow> pl_total (fst (pump_items fs k items s)) = length items + pl_total (fst s)"
  by (induction fs k items s rule: pump_items.induct) (simp_all add: process_record_total)

text \<open>Transforms that do not touch the world.\<close>

definition worldless :: "'w transform \<Rightarrow> bool" where
  "worldless f \<longleftrightarrow> (\<exists>g. \<forall>r w. f r w = (g r, w))"

lemma worldlessI: "(\<And>r w. f r w = (g r, w)) \<Longrightarrow> worldless f"
  by (auto simp: worldless_def)

lemma worldless_own [simp]:
  "worldless (filter_transform p)" "worldless (map_transform f)"
  "worldless (add_field_transform field v)" "worldless (assert_transform as on_fail)"
  by (rule worldlessI, rule filter_transform_def map_transform_def add_field_transform_def
      assert_transform_def)+

lemma one_to_one_own [simp]:
  "one_to_one (filter_transform p)" "one_to_one (map_transform f)"
  "one_to_one (add_field_transform field v)" "one_to_one (assert_transform as on_fail)"
proof -
  have "assert_outcome as on_fail r \<noteq> Expand rs" for r rs
    by (induction as on_fail r rule: assert_outcome.induct)
      (auto simp: failed_outcome_def split: assert_on_fail.splits)
  then show "one_to_one (assert_transform as on_fail)"
    by (simp add: one_to_one_def assert_transform_def)
qed (simp_all add: one_to_one_def filter_transform_def map_transform_def add_field_transform_def)

lemma apply_one_worldless:
  assumes "worldless f"
  shows "\<exists>out upd. \<forall>st w. apply_one f r (st, w) = (out, upd st, w)"
proof -
  obtain g where g: "\<And>r w. f r w = (g r, w)" using assms by (auto simp: worldless_def)
  have "apply_one f r (st, w) =
      (fst (apply_one f r (stats_new, w0)), fst (snd (apply_one f r (st, w0))), w)" for st w w0
    unfolding apply_one_def g by (auto split: sum.splits outcome.splits)
  then show ?thesis
    by (intro exI [of _ "fst (apply_one f r (stats_new, undefined))"]
        exI [of _ "\<lambda>st. fst (snd (apply_one f r (st, undefined)))"]) blast
qed

lemma apply_each_worldless:
  assumes "worldless f"
  shows "\<exists>out upd. \<forall>st w. apply_each f rs (st, w) = (out, upd st, w)"
proof (induction rs)
  case Nil
  show ?case by (intro exI [of _ "[]"] exI [of _ id]) simp
next
  case (Cons r rs)
  obtain o1 u1 where 1: "\<And>st w. apply_one f r (st, w) = (o1, u1 st, w)"
    using apply_one_worldless [OF assms] by blast
  obtain o2 u2 where "\<And>st w. apply_each f rs (st, w) = (o2, u2 st, w)" using Cons.IH by blast
  with 1 show ?case by (intro exI [of _ "o1 @ o2"] exI [of _ "u2 \<circ> u1"]) simp
qed

lemma apply_stages_worldless:
  "\<forall>f \<in> set fs. worldless f \<Longrightarrow> \<exists>out upd. \<forall>st w. apply_stages fs rs (st, w) = (out, upd st, w)"
proof (induction fs arbitrary: rs)
  case Nil
  show ?case by (intro exI [of _ rs] exI [of _ id]) simp
next
  case (Cons f fs)
  obtain o1 u1 where 1: "\<And>st w. apply_each f rs (st, w) = (o1, u1 st, w)"
    using apply_each_worldless [of f rs] Cons.prems by auto
  obtain o2 u2 where 2: "\<And>st w. apply_stages fs o1 (st, w) = (o2, u2 st, w)"
    using Cons.IH [of o1] Cons.prems by auto
  show ?case
  proof (cases "o1 = []")
    case True
    with 1 show ?thesis by (intro exI [of _ "[]"] exI [of _ u1]) simp
  next
    case False
    with 1 2 show ?thesis by (intro exI [of _ o2] exI [of _ "u2 \<circ> u1"]) simp
  qed
qed

lemma send_all_vec:
  "send_all vec_sink rs (st, w) = (st\<lparr>pl_processed := pl_processed st + length rs\<rparr>, w @ rs)"
  by (induction rs arbitrary: st w) (simp_all add: vec_sink_def)

lemma pump_collect:
  "\<forall>f \<in> set fs. worldless f \<Longrightarrow>
   snd (pump_items fs vec_sink items (st, w)) = w @ fst (collect_items fs items (st', w'))"
proof (induction items arbitrary: st w st' w')
  case (Cons item items)
  show ?case
  proof (cases item)
    case (Inl e)
    then show ?thesis using Cons by simp
  next
    case (Inr r)
    from apply_stages_worldless [OF Cons.prems, of "[r]"]
    obtain out upd where "\<And>st w. apply_transforms fs r (st, w) = (out, upd st, w)"
      unfolding apply_transforms_def by blast
    then show ?thesis
      using Inr Cons.IH [OF Cons.prems, of "(upd st)\<lparr>pl_processed := pl_processed (upd st) + length out\<rparr>"
          "w @ out" "upd st'" w']
      by (simp add: process_record_def send_all_vec split: prod.splits)
  qed
qed simp

section \<open>Properties\<close>

text \<open>
  No record is lost or counted twice: when no transform is one-to-many, the processed,
  filtered and error counters of a pipeline run add up to the number of items the source
  yielded, however the transforms, the sink and the source fail.
\<close>

theorem pipeline_conservation:
  assumes "\<forall>f \<in> set fs. one_to_one f" "src w = (Inr items, w')"
    and "fst (pipeline_run src fs k w) = Inr st"
  shows "pl_processed st + pl_filtered st + pl_errors st = length items"
proof -
  obtain st' w'' where p: "pump_items fs k items (stats_new, w') = (st', w'')" by fastforce
  with assms(2,3) have "st = st'"
    by (auto simp: pipeline_run_def split: prod.splits sum.splits)
  with pump_items_total [OF assms(1), of k items "(stats_new, w')"] p show ?thesis
    by (simp add: pl_total_def stats_new_def)
qed

theorem pipeline_conservation_witness:
  "let r = record_new ''1'' ''t'' JNull in
   \<exists>st. fst (pipeline_run (vec_source [r, r]) [filter_transform (\<lambda>_. False)] log_sink ()) = Inr st \<and>
     pl_processed st + pl_filtered st + pl_errors st = 2"
proof -
  let ?r = "record_new ''1'' ''t'' JNull" and ?f = "filter_transform (\<lambda>_. False) :: unit transform"
  have "\<forall>f \<in> set [?f]. one_to_one f" by simp
  moreover have "vec_source [?r, ?r] () = (Inr [Inr ?r, Inr ?r], ())" by (simp add: vec_source_def)
  moreover have "\<exists>st. fst (pipeline_run (vec_source [?r, ?r]) [?f] log_sink ()) = Inr st"
    by (simp add: pipeline_run_def vec_source_def log_sink_def split: prod.splits)
  then obtain st where "fst (pipeline_run (vec_source [?r, ?r]) [?f] log_sink ()) = Inr st" by blast
  ultimately have "pl_processed st + pl_filtered st + pl_errors st = length [Inr ?r, Inr ?r :: error + rec]"
    by (rule pipeline_conservation [where fs = "[?f]" and k = log_sink])
  with \<open>fst _ = Inr st\<close> show ?thesis by (simp add: Let_def)
qed

text \<open>
  Running a pipeline into the collecting sink delivers exactly the records, in order, that
  collecting the same pipeline returns, for transforms that do not depend on the outside world.
\<close>

theorem run_delivers_collect:
  assumes "\<forall>f \<in> set fs. worldless f" "src w = (Inr items, w)"
  shows "snd (pipeline_run src fs vec_sink w) = w @ projr (fst (run_collect src fs w))"
proof -
  obtain st w'' where p: "pump_items fs vec_sink items (stats_new, w) = (st, w'')" by fastforce
  obtain out st' w3 where c: "collect_items fs items (stats_new, w) = (out, st', w3)"
    using prod_cases3 by blast
  have "w'' = w @ out"
    using pump_collect [OF assms(1), of items stats_new w stats_new w] p c by simp
  with p c assms(2) show ?thesis
    by (simp add: pipeline_run_def run_collect_def) (simp add: vec_sink_def)
qed

theorem run_delivers_collect_witness:
  "let r = record_new ''1'' ''t'' JNull in
   snd (pipeline_run (vec_source [r]) [map_transform (\<lambda>r. r\<lparr>rid := ''2''\<rparr>)] vec_sink []) =
   projr (fst (run_collect (vec_source [r]) [map_transform (\<lambda>r. r\<lparr>rid := ''2''\<rparr>)] ([] :: rec list)))"
  using run_delivers_collect [of "[map_transform (\<lambda>r. r\<lparr>rid := ''2''\<rparr>)]"
      "vec_source [record_new ''1'' ''t'' JNull]" "[]" "[Inr (record_new ''1'' ''t'' JNull)]"]
  by (simp add: Let_def vec_source_def)

end
