(* ===== verification/Flow_Graph.thy ===== *)
theory Flow_Graph
  imports Flow_Config Transform
begin

text \<open>
  The component registry (\<^verbatim>\<open>sohara-core/src/registry.rs\<close>), the control steps
  (\<^verbatim>\<open>sohara-core/src/control.rs\<close>) and the flow graph with its construction
  (\<^verbatim>\<open>sohara-runtime/src/node.rs\<close>, \<^verbatim>\<open>graph.rs\<close>, \<^verbatim>\<open>warnings.rs\<close>).  Factories are parameters: the
  registry is an association list from kind and type to a function.  The shared event bus handed
  to factories is an opaque handle.  Durations are milliseconds.
\<close>

section \<open>Control steps\<close>

record switch_case =
  case_when :: expr
  case_to :: string

datatype join_mode = JAll | JAny | JN

datatype control_node =
    Switch "switch_case list" string
  | Foreach expr "string option" nat
  | Loop expr nat "string option"
  | Parallel "string list"
  | Join join_mode nat
  | Delay int
  | Batch "nat option" "int option"
  | State "(string \<times> expr) list"
  | Approve string

section \<open>Registry\<close>

fun kind_str :: "step_kind \<Rightarrow> string" where
  "kind_str KSource = ''source''"
| "kind_str KTransform = ''transform''"
| "kind_str KSink = ''sink''"
| "kind_str KControl = ''control''"

datatype 'w built_step =
    BSource "'w source"
  | BTransform "'w transform"
  | BSink "'w sink"
  | BControl control_node

record step_meta =
  sm_id :: string
  sm_name :: string
  sm_kind :: string
  sm_type :: string

record build_context =
  b_vars :: "json imap"
  b_bus :: "nat option"
  b_flow :: string
  b_step :: "step_meta option"

type_synonym 'w factory = "json \<Rightarrow> build_context \<Rightarrow> error + 'w built_step"
type_synonym 'w registry = "((step_kind \<times> string) \<times> 'w factory) list"

definition register :: "step_kind \<Rightarrow> string \<Rightarrow> 'w factory \<Rightarrow> 'w registry \<Rightarrow> 'w registry" where
  "register kind ty f reg = im_insert (kind, ty) f reg"

definition registry_contains :: "'w registry \<Rightarrow> step_kind \<Rightarrow> string \<Rightarrow> bool" where
  "registry_contains reg kind ty = im_contains reg (kind, ty)"

definition registry_names :: "'w registry \<Rightarrow> step_kind \<Rightarrow> string list" where
  "registry_names reg kind = sort (map snd (filter (\<lambda>(k, _). k = kind) (im_keys reg)))"

definition registry_build ::
    "'w registry \<Rightarrow> step_kind \<Rightarrow> string \<Rightarrow> json \<Rightarrow> build_context \<Rightarrow> error + 'w built_step" where
  "registry_build reg kind ty config ctx =
     (case im_get reg (kind, ty) of
        None \<Rightarrow> Inl (Err_Config (C_unknown_step kind ty (registry_names reg kind)))
      | Some f \<Rightarrow> f config ctx)"

text \<open>
  \<^verbatim>\<open>StepConfig::kind\<close> and \<^verbatim>\<open>step_type\<close> panic for a step without a kind or type (validation refuses
  such steps); a panic is \<open>None\<close> here and in all that calls them.
\<close>

definition step_context :: "build_context \<Rightarrow> step_config \<Rightarrow> build_context option" where
  "step_context base step =
     (case s_kind step of
        None \<Rightarrow> None
      | Some kind \<Rightarrow>
          (case s_type step of
             None \<Rightarrow> None
           | Some ty \<Rightarrow>
               Some (base\<lparr>b_step := Some \<lparr>sm_id = s_id step,
                  sm_name = (case s_name step of None \<Rightarrow> s_id step | Some n \<Rightarrow> n),
                  sm_kind = kind_str kind, sm_type = ty\<rparr>\<rparr>)))"

definition build_step ::
    "step_config \<Rightarrow> 'w registry \<Rightarrow> build_context \<Rightarrow> (error + 'w built_step) option" where
  "build_step step reg ctx =
     (case step_type_config step of
        Inl e \<Rightarrow> Some (Inl (Err_Config (C_config e)))
      | Inr config \<Rightarrow>
          (case s_kind step of
             None \<Rightarrow> None
           | Some kind \<Rightarrow>
               (case s_type step of
                  None \<Rightarrow> None
                | Some ty \<Rightarrow>
                    (case registry_build reg kind ty (JObject config) ctx of
                       Inl e \<Rightarrow> Some (Inl (Err_Config (C_in_step (s_id step) e)))
                     | Inr b \<Rightarrow> Some (Inr b)))))"

text \<open>\<^verbatim>\<open>build_flow\<close>: the linear pipeline of \<^verbatim>\<open>sohara-config/src/build.rs\<close>.\<close>

record 'w built_flow =
  bf_source :: "'w source option"
  bf_transforms :: "'w transform list"
  bf_sinks :: "'w sink list"

definition add_built ::
    "'w registry \<Rightarrow> build_context \<Rightarrow> step_config \<Rightarrow> 'w built_flow \<Rightarrow> (error + 'w built_flow) option" where
  "add_built reg base step bf =
     Option.bind (step_context base step) (\<lambda>ctx. pn_bind (build_step step reg ctx)
       (\<lambda>b. case b of
          BSource s \<Rightarrow> Some (Inr (bf\<lparr>bf_source := Some s\<rparr>))
        | BTransform t \<Rightarrow> Some (Inr (bf\<lparr>bf_transforms := bf_transforms bf @ [t]\<rparr>))
        | BSink k \<Rightarrow> Some (Inr (bf\<lparr>bf_sinks := bf_sinks bf @ [k]\<rparr>))
        | BControl _ \<Rightarrow> Some (Inl (Err_Config (C_control_step (s_id step))))))"

definition flow_context :: "flow_config \<Rightarrow> nat option \<Rightarrow> build_context" where
  "flow_context flow bus =
     \<lparr>b_vars = f_vars flow, b_bus = bus, b_flow = f_name flow, b_step = None\<rparr>"

definition build_flow :: "flow_config \<Rightarrow> 'w registry \<Rightarrow> (error + 'w built_flow) option" where
  "build_flow flow reg =
     pn_bind (fold_panic (add_built reg (flow_context flow None)) (f_steps flow)
             \<lparr>bf_source = None, bf_transforms = [], bf_sinks = []\<rparr>)
       (\<lambda>bf. Some (if bf_source bf = None then Inl (Err_Config C_no_source) else Inr bf))"

section \<open>Graph\<close>

datatype error_policy = PFail | PContinue | PRetry nat int

datatype 'w node_step =
    NSource "'w source"
  | NTransform "'w transform"
  | NSink "'w sink"
  | NControl control_node

record 'w node =
  n_id :: string
  n_when :: "expr option"
  n_policy :: error_policy
  n_step :: "'w node_step"
  n_routes :: "route list"
  n_incoming :: nat
  n_state :: "json option"

record 'w flow_graph =
  g_name :: string
  g_nodes :: "(string \<times> 'w node) list"
  g_roots :: "string list"

definition graph_node :: "'w flow_graph \<Rightarrow> string \<Rightarrow> 'w node option" where
  "graph_node g i = map_of (g_nodes g) i"

record 'w partial_node =
  p_step :: "'w node_step"
  p_when :: "expr option"
  p_policy :: error_policy
  p_state :: "json option"

type_synonym 'w partials = "(string \<times> 'w partial_node) list"

definition resolve_policy :: "step_config \<Rightarrow> error + error_policy" where
  "resolve_policy step =
     (case (case s_on_error step of None \<Rightarrow> OnFail | Some p \<Rightarrow> p) of
        OnFail \<Rightarrow> Inr PFail
      | OnContinue \<Rightarrow> Inr PContinue
      | OnRetry \<Rightarrow>
          (case s_retry step of
             None \<Rightarrow> Inl (Err_Config (C_retry_block (s_id step)))
           | Some retry \<Rightarrow>
               (case parse_duration (retry_backoff retry) of
                  Inl e \<Rightarrow> Inl (Err_Config (C_retry_backoff (s_id step) e))
                | Inr backoff \<Rightarrow> Inr (PRetry (retry_max retry) backoff))))"

fun node_of_built :: "'w built_step \<Rightarrow> 'w node_step \<times> bool" where
  "node_of_built (BSource s) = (NSource s, True)"
| "node_of_built (BTransform t) = (NTransform t, False)"
| "node_of_built (BSink k) = (NSink k, False)"
| "node_of_built (BControl c) = (NControl c, False)"

definition build_step_node ::
    "step_config \<Rightarrow> 'w registry \<Rightarrow> build_context \<Rightarrow> (error + ('w node_step \<times> bool)) option" where
  "build_step_node step reg ctx = pn_bind (build_step step reg ctx) (\<lambda>b. Some (Inr (node_of_built b)))"

definition parse_when :: "(expr_error \<Rightarrow> config_msg) \<Rightarrow> string option \<Rightarrow> error + expr option" where
  "parse_when msg w =
     (case w of
        None \<Rightarrow> Inr None
      | Some text \<Rightarrow>
          (case parse_expr text of
             Inl e \<Rightarrow> Inl (Err_Config (msg e))
           | Inr e \<Rightarrow> Inr (Some e)))"

definition build_partial ::
    "'w registry \<Rightarrow> build_context \<Rightarrow> step_config \<Rightarrow> 'w partials \<times> string list \<Rightarrow>
     (error + ('w partials \<times> string list)) option" where
  "build_partial reg ctx step = (\<lambda>(partials, roots).
     Option.bind (step_context ctx step) (\<lambda>step_ctx.
     pn_bind (build_step_node step reg step_ctx) (\<lambda>(step_node, is_source). Some (
     rbind (parse_when (C_step_when (s_id step)) (s_when step)) (\<lambda>w.
     rbind (resolve_policy step) (\<lambda>policy.
     Inr (bt_insert (s_id step)
            \<lparr>p_step = step_node, p_when = w, p_policy = policy, p_state = s_state step\<rparr> partials,
          if is_source then roots @ [s_id step] else roots)))))))"

definition build_partials ::
    "flow_config \<Rightarrow> 'w registry \<Rightarrow> build_context \<Rightarrow> (error + ('w partials \<times> string list)) option" where
  "build_partials flow reg ctx = fold_panic (build_partial reg ctx) (f_steps flow) ([], [])"

definition has_explicit_routes :: "'w partial_node option \<Rightarrow> bool" where
  "has_explicit_routes p =
     (case map_option p_step p of
        Some (NControl (Switch _ _)) \<Rightarrow> True
      | Some (NControl (Parallel _)) \<Rightarrow> True
      | Some (NControl (Loop _ _ (Some _))) \<Rightarrow> True
      | _ \<Rightarrow> False)"

definition entry_extend :: "string \<Rightarrow> route list \<Rightarrow> route_table \<Rightarrow> route_table" where
  "entry_extend i rs m = bt_insert i ((case map_of m i of None \<Rightarrow> [] | Some old \<Rightarrow> old) @ rs) m"

definition plain_route :: "string \<Rightarrow> route" where
  "plain_route t = \<lparr>r_to = t, r_when = None\<rparr>"

fun chain_routes :: "'w partials \<Rightarrow> step_config list \<Rightarrow> route_table \<Rightarrow> route_table" where
  "chain_routes partials (prev # next # steps) m =
     chain_routes partials (next # steps)
       (if has_explicit_routes (map_of partials (s_id prev)) then m
        else entry_extend (s_id prev) [plain_route (s_id next)] m)"
| "chain_routes partials _ m = m"

definition edge_route :: "edge_config \<Rightarrow> route_table \<Rightarrow> error + route_table" where
  "edge_route e m =
     rbind (parse_when (C_edge_when (edge_from e) (edge_to e)) (edge_when e))
       (\<lambda>w. Inr (entry_extend (edge_from e) [\<lparr>r_to = edge_to e, r_when = w\<rparr>] m))"

fun control_routes :: "control_node \<Rightarrow> route list" where
  "control_routes (Switch cases dflt) = map (\<lambda>c. plain_route (case_to c)) cases @ [plain_route dflt]"
| "control_routes (Parallel branches) = map plain_route branches"
| "control_routes (Loop _ _ (Some t)) = [plain_route t]"
| "control_routes _ = []"

fun add_control_routes :: "string \<times> 'w partial_node \<Rightarrow> route_table \<Rightarrow> route_table" where
  "add_control_routes (i, p) m =
     (case p_step p of
        NControl c \<Rightarrow> entry_extend i (control_routes c) m
      | _ \<Rightarrow> m)"

definition wire_routes :: "flow_config \<Rightarrow> 'w partials \<Rightarrow> error + route_table" where
  "wire_routes flow partials =
     rbind (if f_edges flow = [] then Inr (chain_routes partials (f_steps flow) [])
            else fold_res edge_route (f_edges flow) [])
       (\<lambda>m. Inr (fold add_control_routes partials m))"

fun is_sink_step :: "'w node_step \<Rightarrow> bool" where
  "is_sink_step (NSink _) = True"
| "is_sink_step _ = False"

definition routes_of :: "route_table \<Rightarrow> string \<Rightarrow> route list" where
  "routes_of routes i = (case map_of routes i of None \<Rightarrow> [] | Some rs \<Rightarrow> rs)"

definition mk_node :: "route_table \<Rightarrow> (string \<times> nat) list \<Rightarrow> string \<Rightarrow> 'w partial_node \<Rightarrow> 'w node" where
  "mk_node routes incoming i p =
     \<lparr>n_id = i, n_when = p_when p, n_policy = p_policy p, n_step = p_step p,
      n_routes = routes_of routes i,
      n_incoming = (case map_of incoming i of None \<Rightarrow> 0 | Some n \<Rightarrow> n),
      n_state = p_state p\<rparr>"

fun assemble_nodes ::
    "'w partials \<Rightarrow> route_table \<Rightarrow> (string \<times> nat) list \<Rightarrow> error + (string \<times> 'w node) list" where
  "assemble_nodes [] routes incoming = Inr []"
| "assemble_nodes ((i, p) # partials) routes incoming =
     (if is_sink_step (p_step p) \<and> routes_of routes i \<noteq> []
      then Inl (Err_Config (C_sink_outgoing i))
      else rbind (assemble_nodes partials routes incoming) (\<lambda>nodes.
        Inr (bt_insert i (mk_node routes incoming i p) nodes)))"

definition assemble ::
    "(string list \<Rightarrow> string list) \<Rightarrow> flow_config \<Rightarrow> 'w partials \<Rightarrow> string list \<Rightarrow>
     (error + 'w flow_graph) option" where
  "assemble ord flow partials roots =
     (case wire_routes flow partials of
        Inl e \<Rightarrow> Some (Inl e)
      | Inr routes \<Rightarrow>
          (let ids = map fst partials in
           case validate_targets routes ids of
             Inl e \<Rightarrow> Some (Inl e)
           | Inr _ \<Rightarrow>
               (case check_acyclic ord routes ids of
                  None \<Rightarrow> None
                | Some (Inl e) \<Rightarrow> Some (Inl e)
                | Some (Inr _) \<Rightarrow>
                    Some (rbind (assemble_nodes partials routes (count_incoming routes))
                      (\<lambda>nodes. Inr \<lparr>g_name = f_name flow, g_nodes = nodes, g_roots = roots\<rparr>)))))"

definition graph_build ::
    "(string list \<Rightarrow> string list) \<Rightarrow> flow_config \<Rightarrow> 'w registry \<Rightarrow> build_context \<Rightarrow>
     (error + 'w flow_graph) option" where
  "graph_build ord flow reg ctx =
     pn_bind (build_partials flow reg ctx) (\<lambda>(partials, roots). assemble ord flow partials roots)"

definition add_trigger ::
    "trigger_config \<times> 'w source \<Rightarrow> 'w partials \<times> string list \<Rightarrow> 'w partials \<times> string list" where
  "add_trigger = (\<lambda>(config, trigger) (partials, roots).
     (bt_insert (t_id config)
        \<lparr>p_step = NSource trigger, p_when = None, p_policy = PFail, p_state = None\<rparr> partials,
      roots @ [t_id config]))"

definition graph_build_with_triggers ::
    "(string list \<Rightarrow> string list) \<Rightarrow> flow_config \<Rightarrow> 'w registry \<Rightarrow> build_context \<Rightarrow> 'w source list \<Rightarrow>
     (error + 'w flow_graph) option" where
  "graph_build_with_triggers ord flow reg ctx triggers =
     pn_bind (build_partials flow reg ctx) (\<lambda>pr.
       let (partials, roots) = fold add_trigger (zip (f_triggers flow) triggers) pr in
       assemble ord flow partials roots)"

section \<open>Structural warnings\<close>

definition adjacencies :: "'w flow_graph \<Rightarrow> adjacency \<times> adjacency" where
  "adjacencies g =
     (let es = concat (map (\<lambda>(_, n). map (\<lambda>r. (n_id n, r_to r)) (n_routes n)) (g_nodes g)) in
      (fold (\<lambda>(i, t). adj_push i t) es [], fold (\<lambda>(i, t). adj_push t i) es []))"

text \<open>The ids \<^verbatim>\<open>warn_unreachable\<close> warns about: unreachable from a source, unable to reach a sink.\<close>

definition warn_unreachable :: "'w flow_graph \<Rightarrow> string list \<times> string list" where
  "warn_unreachable g =
     (let (forward, backward) = adjacencies g;
          from_source = reach forward (g_roots g);
          sinks = map (n_id \<circ> snd) (filter (\<lambda>(_, n). is_sink_step (n_step n)) (g_nodes g));
          to_sink = reach backward sinks
      in (filter (\<lambda>i. i \<notin> set from_source) (map fst (g_nodes g)),
          map fst (filter (\<lambda>(i, n). i \<notin> set to_sink \<and> \<not> is_sink_step (n_step n)) (g_nodes g))))"

section \<open>Well-formed graphs\<close>

definition node_targets :: "'w node \<Rightarrow> string list" where
  "node_targets n = map r_to (n_routes n)"

definition graph_succ :: "'w flow_graph \<Rightarrow> string \<Rightarrow> string list" where
  "graph_succ g i = (case graph_node g i of None \<Rightarrow> [] | Some n \<Rightarrow> node_targets n)"

definition control_targets :: "'w node \<Rightarrow> string set" where
  "control_targets n = (case n_step n of NControl c \<Rightarrow> r_to ` set (control_routes c) | _ \<Rightarrow> {})"

definition incoming_count :: "'w flow_graph \<Rightarrow> string \<Rightarrow> nat" where
  "incoming_count g i = sum_list (map (\<lambda>(_, n). count_list (node_targets n) i) (g_nodes g))"

definition node_wf :: "'w flow_graph \<Rightarrow> string \<Rightarrow> 'w node \<Rightarrow> bool" where
  "node_wf g i n \<longleftrightarrow> n_id n = i \<and>
     set (node_targets n) \<subseteq> fst ` set (g_nodes g) \<and>
     control_targets n \<subseteq> set (node_targets n) \<and>
     (is_sink_step (n_step n) \<longrightarrow> n_routes n = []) \<and>
     n_incoming n = incoming_count g i"

definition graph_wf :: "'w flow_graph \<Rightarrow> bool" where
  "graph_wf g \<longleftrightarrow> bt_wf (g_nodes g) \<and> (\<forall>(i, n) \<in> set (g_nodes g). node_wf g i n) \<and>
     acyclic (edges (graph_succ g))"

lemma graph_wf_node: "graph_wf g \<Longrightarrow> graph_node g i = Some n \<Longrightarrow> node_wf g i n"
  by (auto simp: graph_wf_def graph_node_def dest!: map_of_SomeD)

lemma bt_wf_entry_extend [simp]: "bt_wf m \<Longrightarrow> bt_wf (entry_extend i rs m)"
  by (simp add: entry_extend_def)

lemma routes_of_entry_extend [simp]:
  "routes_of (entry_extend i rs m) j = (if j = i then routes_of m i @ rs else routes_of m j)"
  by (simp add: routes_of_def entry_extend_def)

lemma bt_wf_chain_routes: "bt_wf m \<Longrightarrow> bt_wf (chain_routes partials steps m)"
  by (induction partials steps m rule: chain_routes.induct) auto

lemma bt_wf_edge_routes: "fold_res edge_route es m = Inr m' \<Longrightarrow> bt_wf m \<Longrightarrow> bt_wf m'"
  by (erule fold_res_invariant [where P = bt_wf]) (auto simp: edge_route_def rbind_Inr_iff)

lemma add_control_routes_props:
  "bt_wf m \<Longrightarrow> bt_wf (add_control_routes ip m)"
  "set (routes_of m j) \<subseteq> set (routes_of (add_control_routes ip m) j)"
  by (cases ip; auto split: node_step.splits)+

lemma fold_add_control_routes:
  "bt_wf m \<Longrightarrow> bt_wf (fold add_control_routes ps m)"
  "set (routes_of m j) \<subseteq> set (routes_of (fold add_control_routes ps m) j)"
  "(i, p) \<in> set ps \<Longrightarrow> p_step p = NControl c \<Longrightarrow>
   set (control_routes c) \<subseteq> set (routes_of (fold add_control_routes ps m) i)"
proof -
  show "bt_wf m \<Longrightarrow> bt_wf (fold add_control_routes ps m)"
    by (induction ps arbitrary: m) (auto simp: add_control_routes_props simp del: add_control_routes.simps)
  show mono: "set (routes_of m j) \<subseteq> set (routes_of (fold add_control_routes ps m) j)" for m j ps
    by (induction ps arbitrary: m)
      (auto dest: subsetD [OF add_control_routes_props(2)] simp del: add_control_routes.simps)
  show "(i, p) \<in> set ps \<Longrightarrow> p_step p = NControl c \<Longrightarrow>
    set (control_routes c) \<subseteq> set (routes_of (fold add_control_routes ps m) i)"
  proof (induction ps arbitrary: m)
    case (Cons q ps)
    show ?case
    proof (cases "q = (i, p)")
      case True
      then have "set (control_routes c) \<subseteq> set (routes_of (add_control_routes q m) i)"
        using Cons.prems(2) by simp
      with mono [of "add_control_routes q m" i ps] show ?thesis by auto
    next
      case False
      with Cons show ?thesis by simp
    qed
  qed simp
qed

lemma bt_wf_wire_routes: "wire_routes flow partials = Inr routes \<Longrightarrow> bt_wf routes"
  by (auto simp: wire_routes_def rbind_Inr_iff split: if_splits
      intro!: fold_add_control_routes(1) bt_wf_chain_routes intro: bt_wf_edge_routes)

lemma wire_routes_control:
  "wire_routes flow partials = Inr routes \<Longrightarrow> (i, p) \<in> set partials \<Longrightarrow> p_step p = NControl c \<Longrightarrow>
   set (control_routes c) \<subseteq> set (routes_of routes i)"
  unfolding wire_routes_def rbind_Inr_iff using fold_add_control_routes(3) by fastforce

lemma bt_insert_least: "\<forall>k' \<in> fst ` set m. k < k' \<Longrightarrow> bt_insert k v m = (k, v) # m"
  by (cases m) auto

lemma assemble_nodes_Inr:
  assumes "bt_wf partials" "assemble_nodes partials routes incoming = Inr nodes"
  shows "nodes = map (\<lambda>(i, p). (i, mk_node routes incoming i p)) partials \<and>
    (\<forall>(i, p) \<in> set partials. is_sink_step (p_step p) \<longrightarrow> routes_of routes i = [])"
  using assms
proof (induction partials routes incoming arbitrary: nodes rule: assemble_nodes.induct)
  case (2 i p partials routes incoming)
  from "2.prems"(2) obtain rest where rest: "assemble_nodes partials routes incoming = Inr rest"
    and nodes: "nodes = bt_insert i (mk_node routes incoming i p) rest"
    and ok: "is_sink_step (p_step p) \<longrightarrow> routes_of routes i = []"
    by (auto simp: rbind_Inr_iff split: if_splits)
  have wf: "bt_wf partials" and less: "\<forall>k \<in> fst ` set partials. i < k"
    using "2.prems"(1) by (auto simp: bt_wf_def)
  have IH: "rest = map (\<lambda>(i, p). (i, mk_node routes incoming i p)) partials \<and>
    (\<forall>(i, p) \<in> set partials. is_sink_step (p_step p) \<longrightarrow> routes_of routes i = [])"
    using "2.IH" [OF _ wf rest] ok by auto
  then have "fst ` set rest = fst ` set partials" by force
  with less nodes have "nodes = (i, mk_node routes incoming i p) # rest"
    by (simp add: bt_insert_least)
  with IH ok show ?case by auto
qed simp

lemma targets_of_routes_of: "targets_of routes i = map r_to (routes_of routes i)"
  by (simp add: targets_of_def routes_of_def split: option.splits)

lemma check_acyclic_Inr:
  assumes "hash_order ord" "distinct (map fst routes)" "distinct ids" "validate_targets routes ids = Inr ()"
  shows "check_acyclic ord routes ids \<noteq> None"
    and "check_acyclic ord routes ids = Some (Inr u) \<longleftrightarrow>
      acyclic (edges (targets_of routes)) \<and> Domain (edges (targets_of routes)) \<subseteq> set ids"
proof -
  from route_graph.kahn_decides [OF assms(1,3) keys_indegree_map validate_targets_of [OF assms(4)]
      indegree_map_eq [OF assms(2)]]
  show "check_acyclic ord routes ids \<noteq> None"
    and "check_acyclic ord routes ids = Some (Inr u) \<longleftrightarrow>
      acyclic (edges (targets_of routes)) \<and> Domain (edges (targets_of routes)) \<subseteq> set ids"
    by (auto simp: check_acyclic_def Let_def)
qed

lemma incoming_sum:
  assumes "distinct (map fst routes)" "distinct ids" "\<And>s. s \<notin> set ids \<Longrightarrow> targets_of routes s = []"
  shows "(case map_of (count_incoming routes) i of None \<Rightarrow> 0 | Some n \<Rightarrow> n) =
    sum_list (map (\<lambda>s. count_list (targets_of routes s) i) ids)"
proof -
  let ?f = "\<lambda>s. count_list (targets_of routes s) i"
  have "(case map_of (count_incoming routes) i of None \<Rightarrow> 0 | Some n \<Rightarrow> n) =
      count_list (all_targets routes) i"
    by (simp add: count_incoming_eq Let_def)
  also have "\<dots> = sum ?f (set (map fst routes))"
    using count_list_concat_table [OF assms(1), of "map r_to" i]
    by (simp add: all_targets_def targets_of_def cong: option.case_cong)
  also have "\<dots> = sum ?f (set (map fst routes) \<inter> set ids)"
    using assms(3) by (intro sum.mono_neutral_right) auto
  also have "\<dots> = sum ?f (set ids)"
  proof (intro sum.mono_neutral_left ballI)
    fix s assume "s \<in> set ids - set (map fst routes) \<inter> set ids"
    then have "s \<notin> set (map fst routes)" by blast
    from route_graph.succs_outside [OF this] show "?f s = 0" by simp
  qed simp_all
  also have "\<dots> = sum_list (map ?f ids)"
    by (simp add: sum_list_distinct_conv_sum_set [OF assms(2)])
  finally show ?thesis .
qed

text \<open>What the assembled graph is, once every check has passed.\<close>

lemma assemble_Inr:
  assumes "hash_order ord" "bt_wf partials" "assemble ord flow partials roots = Some (Inr g)"
  obtains routes where "wire_routes flow partials = Inr routes" "bt_wf routes"
    "validate_targets routes (map fst partials) = Inr ()"
    "acyclic (edges (targets_of routes))"
    "\<And>s. s \<notin> fst ` set partials \<Longrightarrow> targets_of routes s = []"
    "g_nodes g = map (\<lambda>(i, p). (i, mk_node routes (count_incoming routes) i p)) partials"
    "\<forall>(i, p) \<in> set partials. is_sink_step (p_step p) \<longrightarrow> routes_of routes i = []"
    "g_roots g = roots" "g_name g = f_name flow"
proof -
  from assms(3) obtain routes nodes where r: "wire_routes flow partials = Inr routes"
    and v: "validate_targets routes (map fst partials) = Inr ()"
    and c: "check_acyclic ord routes (map fst partials) = Some (Inr ())"
    and n: "assemble_nodes partials routes (count_incoming routes) = Inr nodes"
    and g: "g = \<lparr>g_name = f_name flow, g_nodes = nodes, g_roots = roots\<rparr>"
    by (auto simp: assemble_def Let_def rbind_Inr_iff split: sum.splits option.splits)
  have wf: "bt_wf routes" using r by (rule bt_wf_wire_routes)
  have a: "acyclic (edges (targets_of routes))"
    and d: "Domain (edges (targets_of routes)) \<subseteq> set (map fst partials)"
    using check_acyclic_Inr(2) [OF assms(1) bt_wf_distinct [OF wf] bt_wf_distinct [OF assms(2)] v] c
    by auto
  have "targets_of routes s = []" if "s \<notin> fst ` set partials" for s
  proof (rule ccontr)
    assume "targets_of routes s \<noteq> []"
    then obtain u where "u \<in> set (targets_of routes s)" by (meson last_in_set)
    then have "s \<in> Domain (edges (targets_of routes))" by (auto intro: DomainI [of s u])
    with d that show False by auto
  qed
  then show ?thesis
    using that [OF r wf v a] assemble_nodes_Inr [OF assms(2) n] g by simp
qed

lemma assemble_wf:
  assumes "hash_order ord" "bt_wf partials" "assemble ord flow partials roots = Some (Inr g)"
  shows "graph_wf g"
proof -
  obtain routes where r: "wire_routes flow partials = Inr routes" and wf: "bt_wf routes"
    and v: "validate_targets routes (map fst partials) = Inr ()"
    and a: "acyclic (edges (targets_of routes))"
    and out: "\<And>s. s \<notin> fst ` set partials \<Longrightarrow> targets_of routes s = []"
    and nodes: "g_nodes g = map (\<lambda>(i, p). (i, mk_node routes (count_incoming routes) i p)) partials"
    and sinks: "\<forall>(i, p) \<in> set partials. is_sink_step (p_step p) \<longrightarrow> routes_of routes i = []"
    by (rule assemble_Inr [OF assms]) (rule that, assumption+)
  have keys: "map fst (g_nodes g) = map fst partials" by (simp add: nodes case_prod_unfold comp_def)
  have tgt: "node_targets (mk_node routes inc i p) = targets_of routes i" for inc i p
    by (simp add: node_targets_def mk_node_def targets_of_routes_of)
  have succ: "graph_succ g i = targets_of routes i" for i
  proof (cases "map_of partials i")
    case None
    then have "i \<notin> fst ` set partials" by (simp add: map_of_eq_None_iff)
    moreover have "graph_node g i = None"
      using keys calculation by (metis graph_node_def map_of_eq_None_iff set_map)
    ultimately show ?thesis using out by (simp add: graph_succ_def)
  next
    case (Some p)
    then have "graph_node g i = Some (mk_node routes (count_incoming routes) i p)"
      by (simp add: graph_node_def nodes map_of_map_keyed)
    then show ?thesis by (simp add: graph_succ_def tgt)
  qed
  have inc: "incoming_count g i = sum_list (map (\<lambda>s. count_list (targets_of routes s) i) (map fst partials))" for i
    by (simp add: incoming_count_def nodes tgt case_prod_unfold comp_def)
  have "node_wf g i (mk_node routes (count_incoming routes) i p)" if ip: "(i, p) \<in> set partials" for i p
    unfolding node_wf_def tgt
  proof (intro conjI impI)
    show "set (targets_of routes i) \<subseteq> fst ` set (g_nodes g)"
      using validate_targets_of [OF v] keys by (metis set_map)
    show "control_targets (mk_node routes (count_incoming routes) i p) \<subseteq> set (targets_of routes i)"
      using wire_routes_control [OF r ip]
      by (auto simp: control_targets_def mk_node_def targets_of_routes_of split: node_step.splits)
    show "n_routes (mk_node routes (count_incoming routes) i p) = []"
      if "is_sink_step (n_step (mk_node routes (count_incoming routes) i p))"
      using sinks ip that by (auto simp: mk_node_def)
    show "n_incoming (mk_node routes (count_incoming routes) i p) = incoming_count g i"
      using incoming_sum [OF bt_wf_distinct [OF wf] bt_wf_distinct [OF assms(2)] out, of i]
      by (simp add: inc) (simp add: mk_node_def)
  qed (simp add: mk_node_def)
  moreover have "bt_wf (g_nodes g)" using assms(2) keys by (simp add: bt_wf_def)
  moreover have "graph_succ g = targets_of routes" using succ by blast
  ultimately show ?thesis using a unfolding graph_wf_def nodes by auto
qed

lemma build_partials_wf:
  assumes "build_partials flow reg ctx = Some (Inr pr)"
  shows "bt_wf (fst pr)"
proof -
  have "bt_wf (fst s')" if "bt_wf (fst s)" "build_partial reg ctx x s = Some (Inr s')" for x s s'
    using that by (auto simp: build_partial_def rbind_Inr_iff pn_bind_Inr_iff split: prod.splits bind_splits)
  then show ?thesis
    using fold_panic_invariant [OF assms [unfolded build_partials_def], of "\<lambda>pr. bt_wf (fst pr)"] by simp
qed

text \<open>A flow whose steps have their kind and type, as validation and template merging leave it.\<close>

definition typed_flow :: "flow_config \<Rightarrow> bool" where
  "typed_flow flow \<longleftrightarrow> (\<forall>s \<in> set (f_steps flow). s_kind s \<noteq> None \<and> s_type s \<noteq> None)"

lemma valid_typed: "valid_flow flow \<Longrightarrow> typed_flow flow"
  by (simp add: valid_flow_def typed_flow_def step_ok_def)

lemma validated_typed: "validate ord flow = Some (Inr ()) \<Longrightarrow> hash_order ord \<Longrightarrow> typed_flow flow"
  by (simp add: validate_accepts valid_typed)

lemma build_partials_total:
  assumes "typed_flow flow"
  shows "build_partials flow reg ctx \<noteq> None"
  unfolding build_partials_def
proof (rule fold_panic_total)
  fix step and pr :: "'a partials \<times> string list" assume "step \<in> set (f_steps flow)"
  then obtain kind ty where t: "s_kind step = Some kind" "s_type step = Some ty"
    using assms unfolding typed_flow_def by blast
  then have "build_step_node step reg c \<noteq> None" for c
    by (auto simp: build_step_node_def build_step_def split: sum.split)
  with t show "build_partial reg ctx step pr \<noteq> None"
    by (cases pr) (simp add: build_partial_def step_context_def, rule pn_bind_total [unfolded not_None_eq], auto)
qed

lemma add_triggers_wf: "bt_wf (fst pr) \<Longrightarrow> bt_wf (fst (fold add_trigger ts pr))"
  by (induction ts arbitrary: pr) (auto simp: add_trigger_def split: prod.splits)

lemma assemble_no_panic:
  assumes "hash_order ord" "bt_wf partials"
  shows "assemble ord flow partials roots \<noteq> None"
proof (cases "wire_routes flow partials")
  case (Inr routes)
  have d: "distinct (map fst routes)" using bt_wf_wire_routes [OF Inr] by (rule bt_wf_distinct)
  show ?thesis
  proof (cases "validate_targets routes (map fst partials)")
    case v: (Inr u)
    then have "validate_targets routes (map fst partials) = Inr ()" by simp
    from check_acyclic_Inr(1) [OF assms(1) d bt_wf_distinct [OF assms(2)] this] show ?thesis
      using Inr v by (auto simp: assemble_def Let_def split: option.splits sum.splits)
  qed (simp add: assemble_def Inr Let_def)
qed (simp add: assemble_def)

lemma graph_build_wf:
  assumes "hash_order ord" "graph_build ord flow reg ctx = Some (Inr g)"
  shows "graph_wf g"
proof -
  obtain pr where "build_partials flow reg ctx = Some (Inr pr)" "assemble ord flow (fst pr) (snd pr) = Some (Inr g)"
    using assms(2) by (auto simp: graph_build_def pn_bind_Inr_iff)
  then show ?thesis using assemble_wf [OF assms(1) build_partials_wf] by blast
qed

lemma graph_build_triggers_wf:
  assumes "hash_order ord" "graph_build_with_triggers ord flow reg ctx triggers = Some (Inr g)"
  shows "graph_wf g"
proof -
  let ?add = "fold add_trigger (zip (f_triggers flow) triggers)"
  obtain pr where pr: "build_partials flow reg ctx = Some (Inr pr)"
    and g: "assemble ord flow (fst (?add pr)) (snd (?add pr)) = Some (Inr g)"
    using assms(2) by (auto simp: graph_build_with_triggers_def pn_bind_Inr_iff Let_def case_prod_unfold)
  show ?thesis by (rule assemble_wf [OF assms(1) add_triggers_wf [OF build_partials_wf [OF pr]] g])
qed

lemma graph_build_total:
  assumes "hash_order ord" "typed_flow flow"
  shows "graph_build ord flow reg ctx \<noteq> None" "graph_build_with_triggers ord flow reg ctx triggers \<noteq> None"
  using build_partials_total [OF assms(2), of reg ctx]
    assemble_no_panic [OF assms(1) build_partials_wf, of flow reg ctx]
    assemble_no_panic [OF assms(1) add_triggers_wf [OF build_partials_wf], of flow reg ctx]
  by (auto simp: graph_build_def graph_build_with_triggers_def pn_bind_None_iff Let_def case_prod_unfold)

section \<open>Properties\<close>

text \<open>
  C14. Building a graph, with or without triggers, never panics for a flow that validation has
  accepted, nor for any other flow whose steps have their kind and type (for a step without them
  the code panics, and so does the model); and every graph it returns is well formed: each node
  sits under its own id, every route and every control target leads to a node of the graph, control
  targets are among the node's routes, sinks have no routes, the incoming count of a node is the
  number of routes that lead to it (what \<^verbatim>\<open>join.all\<close> waits for), and the graph has no cycle.
\<close>

theorem graph_build_sound:
  assumes "hash_order ord"
  shows "(validate ord' flow = Some (Inr ()) \<and> hash_order ord' \<or> typed_flow flow \<longrightarrow>
      graph_build ord flow reg ctx \<noteq> None \<and> graph_build_with_triggers ord flow reg ctx triggers \<noteq> None) \<and>
    (graph_build ord flow reg ctx = Some (Inr g) \<longrightarrow> graph_wf g) \<and>
    (graph_build_with_triggers ord flow reg ctx triggers = Some (Inr g) \<longrightarrow> graph_wf g)"
  using graph_build_total [OF assms] graph_build_wf [OF assms] graph_build_triggers_wf [OF assms]
    validated_typed [of ord' flow] by blast

definition demo_registry :: "rec list registry" where
  "demo_registry =
     register KSource ''vec'' (\<lambda>_ _. Inr (BSource (vec_source [record_new ''1'' ''t'' JNull])))
    (register KSink ''vec'' (\<lambda>_ _. Inr (BSink vec_sink)) [])"

theorem graph_build_sound_witness:
  "\<exists>g. graph_build rev (demo_flow [demo_step ''in'' KSource ''vec'', demo_step ''out'' KSink ''vec''] [])
     demo_registry (flow_context (demo_flow [] []) None) = Some (Inr g) \<and> graph_wf g \<and>
     map fst (g_nodes g) = [''in'', ''out'']"
proof -
  let ?flow = "demo_flow [demo_step ''in'' KSource ''vec'', demo_step ''out'' KSink ''vec''] []"
  let ?build = "graph_build rev ?flow demo_registry (flow_context (demo_flow [] []) None)"
  have "map_option (map_sum id (\<lambda>g. map fst (g_nodes g))) ?build = Some (Inr [''in'', ''out''])"
    by code_simp
  then obtain g where "?build = Some (Inr g)" "map fst (g_nodes g) = [''in'', ''out'']"
    by (cases ?build; cases "the ?build") auto
  with graph_build_sound [of rev rev ?flow demo_registry "flow_context (demo_flow [] []) None" "[]" g]
  show ?thesis by (simp add: hash_order_rev)
qed

end
