(* ===== verification/State_Store.thy ===== *)
theory State_Store
  imports Core_Error
begin

text \<open>
  The key-value store interface (\<^verbatim>\<open>sohara-core/src/store.rs\<close>) as a record of operations and a
  locale of laws, and its two implementations (\<^verbatim>\<open>sohara-persistence/src/lib.rs\<close>): in memory and
  in a JSON file.  The file store's disk is an association list from paths to contents; every
  file operation has a number and may fail there, as the parameter \<open>io_fault\<close> says, and a failing
  write leaves the text \<open>io_torn\<close> in the file it was writing.  The JSON printer and reader of
  \<^verbatim>\<open>serde_json\<close> are the parameters \<open>io_print\<close> and \<open>io_read\<close>.
\<close>

section \<open>Interface\<close>

record 's store_ops =
  s_load :: "string \<Rightarrow> 's \<Rightarrow> error + json option"
  s_save :: "string \<Rightarrow> json \<Rightarrow> 's \<Rightarrow> (error + unit) \<times> 's"
  s_delete :: "string \<Rightarrow> 's \<Rightarrow> (error + unit) \<times> 's"

text \<open>
  The laws clients rely on: a lookup sees the last write to its key, also when that write
  reported an error (both implementations update their memory first), and nothing else.
\<close>

locale state_store =
  fixes ops :: "'s store_ops"
  assumes load_save: "s_load ops k (snd (s_save ops k' v s)) = (if k = k' then Inr (Some v) else s_load ops k s)"
    and load_delete: "s_load ops k (snd (s_delete ops k' s)) = (if k = k' then Inr None else s_load ops k s)"
    and load_ok: "\<not> isl (s_load ops k s)"
begin

lemma load_after_saves:
  "s_load ops k (fold (\<lambda>(k, v) s. snd (s_save ops k v s)) kvs s) =
   (case map_of (rev kvs) k of None \<Rightarrow> s_load ops k s | Some v \<Rightarrow> Inr (Some v))"
  by (induction kvs arbitrary: s) (auto simp: load_save map_add_def split: option.splits)

end

section \<open>In memory\<close>

type_synonym entries = "json imap"

definition memory_store :: "entries store_ops" where
  "memory_store =
     \<lparr>s_load = (\<lambda>k s. Inr (im_get s k)),
      s_save = (\<lambda>k v s. (Inr (), im_insert k v s)),
      s_delete = (\<lambda>k s. (Inr (), AList.delete k s))\<rparr>"

interpretation memory: state_store memory_store
  by unfold_locales (auto simp: memory_store_def delete_conv')

section \<open>In a JSON file\<close>

record file_env =
  io_fault :: "nat \<Rightarrow> string option"
  io_torn :: "nat \<Rightarrow> string"
  io_print :: "entries \<Rightarrow> string"
  io_read :: "string \<Rightarrow> entries option"

record file_store =
  fs_path :: string
  fs_entries :: entries
  fs_disk :: "(string \<times> string) list"
  fs_ops :: nat

text \<open>\<^verbatim>\<open>path.with_extension("json.tmp")\<close> for a path that names a file.\<close>

definition tmp_path :: "string \<Rightarrow> string" where
  "tmp_path p =
     (let r = rev p;
          fname = takeWhile (\<lambda>c. c \<noteq> CHR ''/'') r;
          dir = dropWhile (\<lambda>c. c \<noteq> CHR ''/'') r;
          stem = tl (dropWhile (\<lambda>c. c \<noteq> CHR ''.'') fname)
      in rev dir @ rev (if stem = [] then fname else stem) @ ''.json.tmp'')"

definition json_store_open :: "file_env \<Rightarrow> string \<Rightarrow> (string \<times> string) list \<Rightarrow> nat \<Rightarrow> file_store" where
  "json_store_open e path disk n =
     \<lparr>fs_path = path,
      fs_entries = (case map_of disk path of
          None \<Rightarrow> []
        | Some text \<Rightarrow> (case io_read e text of None \<Rightarrow> [] | Some m \<Rightarrow> m)),
      fs_disk = disk, fs_ops = n\<rparr>"

definition has_parent :: "string \<Rightarrow> bool" where
  "has_parent p = (p \<noteq> [] \<and> p \<noteq> ''/'')"

definition persist :: "file_env \<Rightarrow> file_store \<Rightarrow> (error + unit) \<times> file_store" where
  "persist e st =
     (let data = io_print e (fs_entries st); tmp = tmp_path (fs_path st); n = fs_ops st in
      case (if has_parent (fs_path st) then io_fault e n else None) of
        Some m \<Rightarrow> (Inl (Err_Io m), st\<lparr>fs_ops := n + 1\<rparr>)
      | None \<Rightarrow>
          (case io_fault e (n + 1) of
             Some m \<Rightarrow> (Inl (Err_Io m),
               st\<lparr>fs_disk := AList.update tmp (io_torn e (n + 1)) (fs_disk st), fs_ops := n + 2\<rparr>)
           | None \<Rightarrow>
               (let disk = AList.update tmp data (fs_disk st) in
                case io_fault e (n + 2) of
                  Some m \<Rightarrow> (Inl (Err_Io m), st\<lparr>fs_disk := disk, fs_ops := n + 3\<rparr>)
                | None \<Rightarrow> (Inr (),
                    st\<lparr>fs_disk := AList.update (fs_path st) data (AList.delete tmp disk), fs_ops := n + 3\<rparr>))))"

definition file_save :: "file_env \<Rightarrow> string \<Rightarrow> json \<Rightarrow> file_store \<Rightarrow> (error + unit) \<times> file_store" where
  "file_save e k v st = persist e (st\<lparr>fs_entries := im_insert k v (fs_entries st)\<rparr>)"

definition file_delete :: "file_env \<Rightarrow> string \<Rightarrow> file_store \<Rightarrow> (error + unit) \<times> file_store" where
  "file_delete e k st = persist e (st\<lparr>fs_entries := AList.delete k (fs_entries st)\<rparr>)"

definition json_file_store :: "file_env \<Rightarrow> file_store store_ops" where
  "json_file_store e =
     \<lparr>s_load = (\<lambda>k st. Inr (im_get (fs_entries st) k)),
      s_save = file_save e,
      s_delete = file_delete e\<rparr>"

lemma persist_keeps [simp]:
  "fs_entries (snd (persist e st)) = fs_entries st"
  "fs_path (snd (persist e st)) = fs_path st"
  by (auto simp: persist_def Let_def split: option.splits)

interpretation json_file: state_store "json_file_store e" for e
  by unfold_locales (auto simp: json_file_store_def file_save_def file_delete_def delete_conv')

lemma tmp_path_neq [simp]: "tmp_path p \<noteq> p"
proof
  assume eq: "tmp_path p = p"
  define r where "r = rev p"
  define fname where "fname = takeWhile (\<lambda>c. c \<noteq> CHR ''/'') r"
  define dir where "dir = dropWhile (\<lambda>c. c \<noteq> CHR ''/'') r"
  define ext where "ext = takeWhile (\<lambda>c. c \<noteq> CHR ''.'') fname"
  define dots where "dots = dropWhile (\<lambda>c. c \<noteq> CHR ''.'') fname"
  have r: "r = fname @ dir" by (simp add: fname_def dir_def)
  have f: "fname = ext @ dots" by (simp add: ext_def dots_def)
  have "rev (tmp_path p) = ''pmt.nosj.'' @ (if tl dots = [] then fname else tl dots) @ dir"
    by (simp add: tmp_path_def Let_def r_def fname_def dir_def dots_def)
  with eq r have e: "''pmt.nosj.'' @ (if tl dots = [] then fname else tl dots) = fname"
    by (metis append_assoc append_same_eq r_def)
  show False
  proof (cases "tl dots = []")
    case True
    then show ?thesis using arg_cong [OF e, of length] by simp
  next
    case False
    then obtain d where "dots = d # tl dots" by (cases dots) auto
    moreover from this have "d = CHR ''.''"
      unfolding dots_def by (metis (mono_tags, lifting) dropWhile_eq_Cons_conv)
    ultimately have f2: "fname = ext @ CHR ''.'' # tl dots" using f by metis
    have "''pmt.nosj'' @ (CHR ''.'' # tl dots) = ext @ (CHR ''.'' # tl dots)"
      using e False f2 by simp
    then have "''pmt.nosj'' = ext" by (simp only: append_same_eq)
    moreover have "CHR ''.'' \<notin> set ext"
      unfolding ext_def by (auto dest: set_takeWhileD)
    ultimately show ?thesis by auto
  qed
qed

lemmas tmp_path_neq' [simp] = tmp_path_neq [symmetric]

section \<open>Properties\<close>

text \<open>What a reader of the store's file finds there.\<close>

definition on_disk :: "file_store \<Rightarrow> string option" where
  "on_disk st = map_of (fs_disk st) (fs_path st)"

text \<open>
  C6. The file is replaced atomically: after a save, wherever its file operations fail, the store's
  file holds either exactly what it held before or the complete new contents, never the torn
  text of an interrupted write; and a save that reports success has put the new contents there.
\<close>

theorem json_store_atomic:
  "on_disk (snd (file_save e k v st)) \<in>
     {on_disk st, Some (io_print e (im_insert k v (fs_entries st)))} \<and>
   (fst (file_save e k v st) = Inr () \<longrightarrow>
      on_disk (snd (file_save e k v st)) = Some (io_print e (im_insert k v (fs_entries st))))"
  by (auto simp: on_disk_def file_save_def persist_def Let_def delete_conv' split: option.splits)

theorem json_store_atomic_witness:
  "let e = \<lparr>io_fault = (\<lambda>n. if n = 1 then Some ''disk full'' else None), io_torn = (\<lambda>_. ''torn''),
            io_print = (\<lambda>m. concat (map fst m)), io_read = (\<lambda>_. None)\<rparr>;
       st = \<lparr>fs_path = ''s.json'', fs_entries = [], fs_disk = [(''s.json'', ''old'')], fs_ops = 0\<rparr> in
   on_disk (snd (file_save e ''k'' JNull st)) = Some ''old'' \<and>
   on_disk (snd (file_save (e\<lparr>io_fault := \<lambda>_. None\<rparr>) ''k'' JNull st)) = Some ''k''"
proof -
  let ?e = "\<lparr>io_fault = (\<lambda>n. if n = 1 then Some ''disk full'' else None), io_torn = (\<lambda>_. ''torn''),
            io_print = (\<lambda>m. concat (map fst m)), io_read = (\<lambda>_. None)\<rparr>"
  let ?st = "\<lparr>fs_path = ''s.json'', fs_entries = [], fs_disk = [(''s.json'', ''old'')], fs_ops = 0\<rparr>"
  have "fst (file_save (?e\<lparr>io_fault := \<lambda>_. None\<rparr>) ''k'' JNull ?st) = Inr ()" by code_simp
  with json_store_atomic [of "?e\<lparr>io_fault := \<lambda>_. None\<rparr>" "''k''" JNull ?st]
  have "on_disk (snd (file_save (?e\<lparr>io_fault := \<lambda>_. None\<rparr>) ''k'' JNull ?st)) = Some ''k''" by simp
  moreover have "on_disk (snd (file_save ?e ''k'' JNull ?st)) = Some ''old''" by code_simp
  ultimately show ?thesis by (simp add: Let_def)
qed

text \<open>
  A successful save survives a restart: reopening the file gives back every entry, provided
  the JSON reader reads back what the JSON printer printed for them.
\<close>

theorem json_store_durable:
  assumes "io_read e (io_print e (im_insert k v (fs_entries st))) = Some (im_insert k v (fs_entries st))"
    and "s_save (json_file_store e) k v st = (Inr (), st')"
  shows "s_load (json_file_store e) k' (json_store_open e (fs_path st') (fs_disk st') n) =
    (if k' = k then Inr (Some v) else s_load (json_file_store e) k' st)"
proof -
  have "on_disk st' = Some (io_print e (im_insert k v (fs_entries st)))"
    using assms(2)
    by (auto simp: json_file_store_def on_disk_def file_save_def persist_def Let_def delete_conv'
        split: option.splits if_splits)
  then show ?thesis
    by (simp add: json_store_open_def on_disk_def assms(1)) (simp add: json_file_store_def)
qed

theorem json_store_durable_witness:
  "let e = \<lparr>io_fault = (\<lambda>_. None), io_torn = (\<lambda>_. []),
            io_print = (\<lambda>m. ''{k}''), io_read = (\<lambda>_. Some [(''k'', JBool True)])\<rparr>;
       st = json_store_open e ''s.json'' [] 0;
       st' = snd (s_save (json_file_store e) ''k'' (JBool True) st) in
   s_load (json_file_store e) ''k'' (json_store_open e (fs_path st') (fs_disk st') 0) =
     Inr (Some (JBool True))"
proof -
  let ?e = "\<lparr>io_fault = (\<lambda>_. None), io_torn = (\<lambda>_. []),
            io_print = (\<lambda>m. ''{k}''), io_read = (\<lambda>_. Some [(''k'', JBool True)])\<rparr> :: file_env"
  let ?st = "json_store_open ?e ''s.json'' [] 0"
  let ?st' = "snd (s_save (json_file_store ?e) ''k'' (JBool True) ?st)"
  have 1: "io_read ?e (io_print ?e (im_insert ''k'' (JBool True) (fs_entries ?st))) =
      Some (im_insert ''k'' (JBool True) (fs_entries ?st))"
    by (simp add: json_store_open_def)
  have "fst (s_save (json_file_store ?e) ''k'' (JBool True) ?st) = Inr ()"
    by (simp add: json_file_store_def file_save_def persist_def Let_def)
  then have 2: "s_save (json_file_store ?e) ''k'' (JBool True) ?st = (Inr (), ?st')"
    by (metis prod.collapse)
  from json_store_durable [OF 1 2, of "''k''" 0] show ?thesis by (simp add: Let_def)
qed

end
