(* ===== verification/Exec_State.thy ===== *)
theory Exec_State
  imports Flow_Graph State_Store
begin

text \<open>
  The executor's data: statistics and reports (\<^verbatim>\<open>stats.rs\<close>), the error ring (\<^verbatim>\<open>observe.rs\<close>), the
  join and batch buffers (\<^verbatim>\<open>buffers.rs\<close>), the executor record itself (\<^verbatim>\<open>executor.rs\<close>) and the
  persistence operations on it (\<^verbatim>\<open>persist.rs\<close>).  What never changes during a run is in the
  environment \<open>xenv\<close>, what does is in \<open>xstate\<close>; locks and atomics disappear because the model runs
  one record at a time.  The counters are natural numbers: the source's 64-bit counters agree
  with them as long as they do not wrap.  \<open>x_tick\<close> numbers the readings of the clock, of the UUID
  generator and of the wall clock, which are streams of the environment.  The text of an error
  in the ring is represented by the error itself.
\<close>

section \<open>Statistics and the error ring\<close>

record step_stat =
  ss_processed :: nat
  ss_filtered :: nat
  ss_errors :: nat
  ss_nanos :: nat

definition stat_zero :: step_stat where
  "stat_zero = \<lparr>ss_processed = 0, ss_filtered = 0, ss_errors = 0, ss_nanos = 0\<rparr>"

record stats_snapshot =
  st_processed :: nat
  st_filtered :: nat
  st_errors :: nat
  st_waiting :: nat
  st_duplicates :: nat

record run_report =
  rr_run_id :: string
  rr_flow :: string
  rr_started_at :: string
  rr_stats :: stats_snapshot
  rr_steps :: "(string \<times> step_stat) list"

datatype ring_msg = Text_of error | Expr_text expr_error

record error_event =
  ev_time :: string
  ev_step :: string
  ev_kind :: string
  ev_message :: ring_msg

definition error_ring_cap :: nat where
  "error_ring_cap = 100"

definition ring_record :: "error_event \<Rightarrow> error_event list \<Rightarrow> error_event list" where
  "ring_record ev events =
     (if length events \<ge> error_ring_cap then tl events else events) @ [ev]"

definition ring_events :: "error_event list \<Rightarrow> error_event list" where
  "ring_events events = rev events"

section \<open>Buffers\<close>

record join_buffer =
  jb_mode :: join_mode
  jb_n :: nat
  jb_expected :: nat
  jb_groups :: "(string \<times> rec list) list"

record batch_buffer =
  bb_records :: "rec list"
  bb_since :: "nat option"

definition join_buffer_new :: "join_mode \<Rightarrow> nat \<Rightarrow> nat \<Rightarrow> join_buffer" where
  "join_buffer_new mode n expected =
     \<lparr>jb_mode = mode, jb_n = n, jb_expected = expected, jb_groups = []\<rparr>"

definition batch_buffer_new :: batch_buffer where
  "batch_buffer_new = \<lparr>bb_records = [], bb_since = None\<rparr>"

definition scan_joins :: "'w flow_graph \<Rightarrow> (string \<times> join_buffer) list" where
  "scan_joins g = List.map_filter
     (\<lambda>(i, n). case n_step n of
        NControl (Join mode m) \<Rightarrow> Some (i, join_buffer_new mode m (n_incoming n)) | _ \<Rightarrow> None)
     (g_nodes g)"

definition scan_batches :: "'w flow_graph \<Rightarrow> (string \<times> batch_buffer) list" where
  "scan_batches g = List.map_filter
     (\<lambda>(i, n). case n_step n of NControl (Batch _ _) \<Rightarrow> Some (i, batch_buffer_new) | _ \<Rightarrow> None)
     (g_nodes g)"

definition scan_sinks :: "'w flow_graph \<Rightarrow> string list" where
  "scan_sinks g = map fst (filter (\<lambda>(_, n). is_sink_step (n_step n)) (g_nodes g))"

section \<open>The executor\<close>

record ('w, 's) xenv =
  e_graph :: "'w flow_graph"
  e_vars :: "json imap"
  e_host :: host
  e_clock :: "nat \<Rightarrow> nat"
  e_hash :: "json \<Rightarrow> string"
  e_order :: "string list \<Rightarrow> string list"
  e_store :: "'s store_ops option"
  e_run_id :: string
  e_flow_name :: string
  e_every :: "nat option"
  e_started_at :: string

record ('w, 's) xstate =
  x_processed :: nat
  x_filtered :: nat
  x_errors :: nat
  x_waiting :: nat
  x_duplicates :: nat
  x_steps :: "(string \<times> step_stat) list"
  x_ring :: "error_event list"
  x_joins :: "(string \<times> join_buffer) list"
  x_batches :: "(string \<times> batch_buffer) list"
  x_since :: nat
  x_states :: "(string \<times> json) list"
  x_store :: 's
  x_world :: 'w
  x_tick :: nat

definition snapshot :: "('w, 's) xstate \<Rightarrow> stats_snapshot" where
  "snapshot st = \<lparr>st_processed = x_processed st, st_filtered = x_filtered st,
     st_errors = x_errors st, st_waiting = x_waiting st, st_duplicates = x_duplicates st\<rparr>"

definition report :: "('w, 's) xenv \<Rightarrow> ('w, 's) xstate \<Rightarrow> run_report" where
  "report env st = \<lparr>rr_run_id = e_run_id env, rr_flow = e_flow_name env,
     rr_started_at = e_started_at env, rr_stats = snapshot st, rr_steps = x_steps st\<rparr>"

subsection \<open>Elementary steps\<close>

definition set_tick :: "nat \<Rightarrow> ('w, 's) xstate \<Rightarrow> ('w, 's) xstate" where
  "set_tick t st = st\<lparr>x_tick := t\<rparr>"

definition set_world :: "'w \<Rightarrow> ('w, 's) xstate \<Rightarrow> ('w, 's) xstate" where
  "set_world w st = st\<lparr>x_world := w\<rparr>"

definition set_join :: "string \<Rightarrow> join_buffer \<Rightarrow> ('w, 's) xstate \<Rightarrow> ('w, 's) xstate" where
  "set_join i b st = st\<lparr>x_joins := im_insert i b (x_joins st)\<rparr>"

definition set_batch :: "string \<Rightarrow> batch_buffer \<Rightarrow> ('w, 's) xstate \<Rightarrow> ('w, 's) xstate" where
  "set_batch i b st = st\<lparr>x_batches := im_insert i b (x_batches st)\<rparr>"

definition set_state :: "string \<Rightarrow> json \<Rightarrow> ('w, 's) xstate \<Rightarrow> ('w, 's) xstate" where
  "set_state i v st = st\<lparr>x_states := im_insert i v (x_states st)\<rparr>"

definition set_since :: "nat \<Rightarrow> ('w, 's) xstate \<Rightarrow> ('w, 's) xstate" where
  "set_since n st = st\<lparr>x_since := n\<rparr>"

definition count_error :: "('w, 's) xstate \<Rightarrow> ('w, 's) xstate" where
  "count_error st = st\<lparr>x_errors := x_errors st + 1\<rparr>"

definition count_waiting :: "('w, 's) xstate \<Rightarrow> ('w, 's) xstate" where
  "count_waiting st = st\<lparr>x_waiting := x_waiting st + 1\<rparr>"

definition count_duplicate :: "('w, 's) xstate \<Rightarrow> ('w, 's) xstate" where
  "count_duplicate st = st\<lparr>x_duplicates := x_duplicates st + 1\<rparr>"

definition tick_step ::
    "string \<Rightarrow> (step_stat \<Rightarrow> step_stat) \<Rightarrow> ('w, 's) xstate \<Rightarrow> ('w, 's) xstate" where
  "tick_step i f st =
     st\<lparr>x_steps := bt_insert i (f (case map_of (x_steps st) i of None \<Rightarrow> stat_zero | Some s \<Rightarrow> s))
          (x_steps st)\<rparr>"

definition note_passed :: "string \<Rightarrow> nat \<Rightarrow> ('w, 's) xstate \<Rightarrow> ('w, 's) xstate" where
  "note_passed i ns =
     tick_step i (\<lambda>s. s\<lparr>ss_processed := ss_processed s + 1, ss_nanos := ss_nanos s + ns\<rparr>)"

definition note_filtered :: "string \<Rightarrow> nat \<Rightarrow> ('w, 's) xstate \<Rightarrow> ('w, 's) xstate" where
  "note_filtered i ns st =
     tick_step i (\<lambda>s. s\<lparr>ss_filtered := ss_filtered s + 1, ss_nanos := ss_nanos s + ns\<rparr>)
       (st\<lparr>x_filtered := x_filtered st + 1\<rparr>)"

definition note_delivered :: "string \<Rightarrow> nat \<Rightarrow> ('w, 's) xstate \<Rightarrow> ('w, 's) xstate" where
  "note_delivered i ns st =
     tick_step i (\<lambda>s. s\<lparr>ss_processed := ss_processed s + 1, ss_nanos := ss_nanos s + ns\<rparr>)
       (st\<lparr>x_processed := x_processed st + 1\<rparr>)"

definition note_failed :: "string \<Rightarrow> nat \<Rightarrow> ('w, 's) xstate \<Rightarrow> ('w, 's) xstate" where
  "note_failed i ns st =
     tick_step i (\<lambda>s. s\<lparr>ss_errors := ss_errors s + 1, ss_nanos := ss_nanos s + ns\<rparr>) (count_error st)"

definition record_error ::
    "('w, 's) xenv \<Rightarrow> string \<Rightarrow> string \<Rightarrow> ring_msg \<Rightarrow> ('w, 's) xstate \<Rightarrow> ('w, 's) xstate" where
  "record_error env step kind msg st =
     st\<lparr>x_ring := ring_record \<lparr>ev_time = h_now (e_host env) (x_tick st), ev_step = step,
          ev_kind = kind, ev_message = msg\<rparr> (x_ring st),
        x_tick := x_tick st + 1\<rparr>"

definition store_save ::
    "'s store_ops \<Rightarrow> string \<Rightarrow> json \<Rightarrow> ('w, 's) xstate \<Rightarrow> (error + unit) \<times> ('w, 's) xstate" where
  "store_save ops k v st =
     (let (res, s) = s_save ops k v (x_store st) in (res, st\<lparr>x_store := s\<rparr>))"

definition store_delete ::
    "'s store_ops \<Rightarrow> string \<Rightarrow> ('w, 's) xstate \<Rightarrow> (error + unit) \<times> ('w, 's) xstate" where
  "store_delete ops k st =
     (let (res, s) = s_delete ops k (x_store st) in (res, st\<lparr>x_store := s\<rparr>))"

section \<open>Persistence\<close>

definition state_key :: "string \<Rightarrow> string \<Rightarrow> string" where
  "state_key run_id node_id = run_id @ '':state:'' @ node_id"

definition approve_key :: "string \<Rightarrow> string \<Rightarrow> string" where
  "approve_key flow node_id = flow @ '':approve:'' @ node_id"

definition run_id_key :: "string \<Rightarrow> string" where
  "run_id_key flow = flow @ '':run_id''"

definition delivered_key :: "('w, 's) xenv \<Rightarrow> rec \<Rightarrow> string" where
  "delivered_key env r =
     e_run_id env @ '':delivered:'' @
       (case im_get (metadata r) ''idempotency_key'' of
          Some key \<Rightarrow> key
        | None \<Rightarrow> ''hash-'' @ e_hash env (payload r))"

definition eval_value :: "'w node \<Rightarrow> rec \<Rightarrow> ('w, 's) xstate \<Rightarrow> json" where
  "eval_value nd r st =
     (case im_get (x_states st) (n_id nd) of
        Some state \<Rightarrow> JObject [(''record'', payload r), (''state'', state)]
      | None \<Rightarrow> payload r)"

definition state_value :: "string \<Rightarrow> ('w, 's) xstate \<Rightarrow> json" where
  "state_value i st = (case im_get (x_states st) i of Some v \<Rightarrow> v | None \<Rightarrow> JObject [])"

definition update_state :: "('w, 's) xenv \<Rightarrow> string \<Rightarrow> json \<Rightarrow> ('w, 's) xstate \<Rightarrow> ('w, 's) xstate" where
  "update_state env i v st =
     (let st1 = set_state i v st in
      case e_store env of
        None \<Rightarrow> st1
      | Some ops \<Rightarrow> snd (store_save ops (state_key (e_run_id env) i) v st1))"

definition save_states ::
    "'s store_ops \<Rightarrow> string \<Rightarrow> (string \<times> json) list \<Rightarrow> ('w, 's) xstate \<Rightarrow> ('w, 's) xstate" where
  "save_states ops run_id = fold (\<lambda>(i, v) st. snd (store_save ops (state_key run_id i) v st))"

definition checkpoint :: "('w, 's) xenv \<Rightarrow> ('w, 's) xstate \<Rightarrow> ('w, 's) xstate" where
  "checkpoint env st =
     (case e_store env of
        None \<Rightarrow> st
      | Some ops \<Rightarrow> set_since 0 (save_states ops (e_run_id env) (x_states st) st))"

definition maybe_checkpoint :: "('w, 's) xenv \<Rightarrow> ('w, 's) xstate \<Rightarrow> ('w, 's) xstate" where
  "maybe_checkpoint env st =
     (case e_every env of
        None \<Rightarrow> st
      | Some every \<Rightarrow>
          (let st1 = set_since (x_since st + 1) st in
           if x_since st1 \<ge> every then checkpoint env st1 else st1))"

definition is_delivered :: "('w, 's) xenv \<Rightarrow> rec \<Rightarrow> ('w, 's) xstate \<Rightarrow> bool" where
  "is_delivered env r st =
     (case e_store env of
        None \<Rightarrow> False
      | Some ops \<Rightarrow>
          (case s_load ops (delivered_key env r) (x_store st) of Inr (Some _) \<Rightarrow> True | _ \<Rightarrow> False))"

definition mark_delivered :: "('w, 's) xenv \<Rightarrow> rec \<Rightarrow> ('w, 's) xstate \<Rightarrow> ('w, 's) xstate" where
  "mark_delivered env r st =
     (case e_store env of
        None \<Rightarrow> st
      | Some ops \<Rightarrow> snd (store_save ops (delivered_key env r) (JBool True) st))"

definition parked_queue :: "'s store_ops \<Rightarrow> string \<Rightarrow> 's \<Rightarrow> error + json list" where
  "parked_queue ops key s =
     rbind (s_load ops key s)
       (\<lambda>v. Inr (case v of
          Some (JArray vs) \<Rightarrow> vs
        | _ \<Rightarrow> []))"

definition park_approve ::
    "('w, 's) xenv \<Rightarrow> 'w node \<Rightarrow> rec \<Rightarrow> ('w, 's) xstate \<Rightarrow> (error + unit) \<times> ('w, 's) xstate" where
  "park_approve env nd r st =
     (case e_store env of
        None \<Rightarrow> (Inr (), st)
      | Some ops \<Rightarrow>
          (let key = approve_key (e_flow_name env) (n_id nd) in
           case parked_queue ops key (x_store st) of
             Inl e \<Rightarrow> (Inl e, st)
           | Inr parked \<Rightarrow> store_save ops key (JArray (parked @ [to_json r])) st))"

fun fresh_records :: "host \<Rightarrow> nat \<Rightarrow> json list \<Rightarrow> rec list" where
  "fresh_records h t [] = []"
| "fresh_records h t (v # vs) = record_new (h_uuid h t) (h_now h t) v # fresh_records h (Suc t) vs"

definition take_approve_queue ::
    "('w, 's) xenv \<Rightarrow> string \<Rightarrow> ('w, 's) xstate \<Rightarrow> (error + rec list) \<times> ('w, 's) xstate" where
  "take_approve_queue env i st =
     (case e_store env of
        None \<Rightarrow> (Inr [], st)
      | Some ops \<Rightarrow>
          (let key = approve_key (e_flow_name env) i in
           case parked_queue ops key (x_store st) of
             Inl e \<Rightarrow> (Inl e, st)
           | Inr parked \<Rightarrow>
               (case store_delete ops key st of
                  (Inl e, st') \<Rightarrow> (Inl e, st')
                | (Inr _, st') \<Rightarrow>
                    (Inr (fresh_records (e_host env) (x_tick st') parked),
                     set_tick (x_tick st' + length parked) st'))))"

record approve_queue_info =
  aq_step :: string
  aq_count :: nat
  aq_sample :: json

fun is_approve :: "'w node_step \<Rightarrow> bool" where
  "is_approve (NControl (Approve _)) = True"
| "is_approve _ = False"

definition queue_info :: "'s store_ops \<Rightarrow> string \<Rightarrow> 's \<Rightarrow> string \<Rightarrow> error + approve_queue_info" where
  "queue_info ops flow s i =
     rbind (parked_queue ops (approve_key flow i) s)
       (\<lambda>parked. Inr \<lparr>aq_step = i, aq_count = length parked,
          aq_sample = (if parked = [] then JNull else last parked)\<rparr>)"

definition list_approve_queues ::
    "('w, 's) xenv \<Rightarrow> ('w, 's) xstate \<Rightarrow> error + approve_queue_info list" where
  "list_approve_queues env st =
     (case e_store env of
        None \<Rightarrow> Inr []
      | Some ops \<Rightarrow>
          collect_res (map (\<lambda>(i, _). queue_info ops (e_flow_name env) (x_store st) i)
            (filter (\<lambda>(_, n). is_approve (n_step n)) (g_nodes (e_graph env)))))"

subsection \<open>Creating an executor\<close>

definition resolve_run_id ::
    "string \<Rightarrow> 's store_ops option \<Rightarrow> bool \<Rightarrow> string \<Rightarrow> 's \<Rightarrow> string \<times> 's" where
  "resolve_run_id flow store resume fresh s =
     (let key = run_id_key flow in
      case store of
        None \<Rightarrow> (fresh, s)
      | Some ops \<Rightarrow>
          (case (if resume then s_load ops key s else Inr None) of
             Inr (Some (JString i)) \<Rightarrow> (i, s)
           | _ \<Rightarrow> (fresh, snd (s_save ops key (JString fresh) s))))"

definition initial_state ::
    "'s store_ops option \<Rightarrow> bool \<Rightarrow> string \<Rightarrow> 's \<Rightarrow> string \<Rightarrow> json option \<Rightarrow> json" where
  "initial_state store resume run_id s i declared =
     (case (if resume then store else None) of
        None \<Rightarrow> (case declared of None \<Rightarrow> JObject [] | Some v \<Rightarrow> v)
      | Some ops \<Rightarrow>
          (case s_load ops (state_key run_id i) s of
             Inr (Some saved) \<Rightarrow> saved
           | _ \<Rightarrow> (case declared of None \<Rightarrow> JObject [] | Some v \<Rightarrow> v)))"

definition initial_states ::
    "'w flow_graph \<Rightarrow> string \<Rightarrow> 's store_ops option \<Rightarrow> bool \<Rightarrow> 's \<Rightarrow> (string \<times> json) list" where
  "initial_states g run_id store resume s =
     List.map_filter
       (\<lambda>(i, n). if n_state n \<noteq> None then Some (i, initial_state store resume run_id s i (n_state n)) else None)
       (g_nodes g)"

record ('w, 's) run_config =
  rc_store :: "'s store_ops option"
  rc_resume :: bool
  rc_every :: "nat option"
  rc_host :: host
  rc_clock :: "nat \<Rightarrow> nat"
  rc_hash :: "json \<Rightarrow> string"
  rc_order :: "string list \<Rightarrow> string list"

definition executor_new ::
    "'w flow_graph \<Rightarrow> json imap \<Rightarrow> ('w, 's) run_config \<Rightarrow> 's \<Rightarrow> 'w \<Rightarrow> ('w, 's) xenv \<times> ('w, 's) xstate" where
  "executor_new g vars cfg s w =
     (let (run_id, s1) = resolve_run_id (g_name g) (rc_store cfg) (rc_resume cfg) (h_uuid (rc_host cfg) 0) s;
          states = initial_states g run_id (rc_store cfg) (rc_resume cfg) s1 in
      (\<lparr>e_graph = g, e_vars = vars, e_host = rc_host cfg, e_clock = rc_clock cfg, e_hash = rc_hash cfg,
        e_order = rc_order cfg, e_store = rc_store cfg, e_run_id = run_id, e_flow_name = g_name g,
        e_every = rc_every cfg, e_started_at = h_now (rc_host cfg) 1\<rparr>,
       \<lparr>x_processed = 0, x_filtered = 0, x_errors = 0, x_waiting = 0, x_duplicates = 0,
        x_steps = [], x_ring = [], x_joins = scan_joins g, x_batches = scan_batches g,
        x_since = 0, x_states = states, x_store = s1, x_world = w, x_tick = 2\<rparr>))"

end
