(* ===== verification/Executor.thy ===== *)
theory Executor
  imports Exec_State
begin

text \<open>
  The graph executor: record walking (\<^verbatim>\<open>walker.rs\<close>), transforms with their error policies
  (\<^verbatim>\<open>executor.rs\<close>), control steps (\<^verbatim>\<open>control.rs\<close>) and source pumping with the flush lifecycle
  (\<^verbatim>\<open>runner.rs\<close>).  An action takes a state to a result and a state.  The mutually recursive
  functions of the source call each other through \<^verbatim>\<open>walk\<close> only, so each is written with the
  recursive \<open>walk\<close> as its argument \<open>k\<close>, and \<open>walk\<close> itself recurses on a bound of the depth; \<open>None\<close>
  means that the bound was too small.  The branches of a \<^verbatim>\<open>parallel\<close> step run in order and the
  first error stops the rest, which is what \<^verbatim>\<open>try_join_all\<close> does with branches that do not suspend;
  the tasks of \<^verbatim>\<open>run\<close> run in the order of the roots.  Sleeping takes no step of the model.
\<close>

section \<open>Actions\<close>

type_synonym ('w, 's) act = "('w, 's) xstate \<Rightarrow> ((error + unit) \<times> ('w, 's) xstate) option"
type_synonym ('w, 's) walker = "rec \<Rightarrow> string \<Rightarrow> ('w, 's) act"

definition ret :: "('w, 's) act" where
  "ret st = Some (Inr (), st)"

definition xthen :: "('w, 's) act \<Rightarrow> ('w, 's) act \<Rightarrow> ('w, 's) act" where
  "xthen a b st =
     (case a st of
        None \<Rightarrow> None
      | Some (Inl e, st') \<Rightarrow> Some (Inl e, st')
      | Some (Inr _, st') \<Rightarrow> b st')"

fun xseq :: "('w, 's) act list \<Rightarrow> ('w, 's) act" where
  "xseq [] = ret"
| "xseq (a # as) = xthen a (xseq as)"

definition x_eval ::
    "('w, 's) xenv \<Rightarrow> expr \<Rightarrow> json \<Rightarrow> ('w, 's) xstate \<Rightarrow> (expr_error + json) \<times> ('w, 's) xstate" where
  "x_eval env e v st =
     (let (res, t) = eval (e_host env) (e_vars env) e v (x_tick st) in (res, set_tick t st))"

text \<open>\<^verbatim>\<open>started.elapsed()\<close> across a call into a component.\<close>

definition elapsed :: "('w, 's) xenv \<Rightarrow> ('w, 's) xstate \<Rightarrow> nat" where
  "elapsed env st = e_clock env (Suc (x_tick st)) - e_clock env (x_tick st)"

definition call_component ::
    "('w \<Rightarrow> 'a \<times> 'w) \<Rightarrow> ('w, 's) xstate \<Rightarrow> 'a \<times> ('w, 's) xstate" where
  "call_component f st =
     (let (res, w) = f (x_world st) in (res, set_tick (x_tick st + 2) (set_world w st)))"

section \<open>Routing\<close>

definition route_one :: "('w, 's) xenv \<Rightarrow> ('w, 's) walker \<Rightarrow> rec \<Rightarrow> string \<Rightarrow> route \<Rightarrow> ('w, 's) act" where
  "route_one env k r nid rt st =
     (case r_when rt of
        None \<Rightarrow> k r (r_to rt) st
      | Some w \<Rightarrow>
          (case x_eval env w (payload r) st of
             (Inr v, st') \<Rightarrow> if is_truthy v then k r (r_to rt) st' else ret st'
           | (Inl e, st') \<Rightarrow> ret (record_error env nid ''edge'' (Expr_text e) (count_error st'))))"

definition route_to :: "('w, 's) xenv \<Rightarrow> ('w, 's) walker \<Rightarrow> rec \<Rightarrow> 'w node \<Rightarrow> ('w, 's) act" where
  "route_to env k r nd = xseq (map (route_one env k r (n_id nd)) (n_routes nd))"

section \<open>Transforms\<close>

definition note_failure ::
    "('w, 's) xenv \<Rightarrow> 'w node \<Rightarrow> nat \<Rightarrow> string \<Rightarrow> error \<Rightarrow> ('w, 's) xstate \<Rightarrow> ('w, 's) xstate" where
  "note_failure env nd ns kind e st =
     record_error env (n_id nd) kind (Text_of e) (note_failed (n_id nd) ns st)"

text \<open>The end of one attempt; \<open>retry\<close> is the next attempt, if the policy grants one.\<close>

definition on_failure ::
    "('w, 's) xenv \<Rightarrow> 'w node \<Rightarrow> nat \<Rightarrow> error \<Rightarrow> ('w, 's) act option \<Rightarrow> ('w, 's) act" where
  "on_failure env nd ns e retry st =
     (case retry of
        Some again \<Rightarrow> again st
      | None \<Rightarrow>
          Some (case n_policy nd of PContinue \<Rightarrow> Inr () | _ \<Rightarrow> Inl e,
                note_failure env nd ns ''transform'' e st))"

definition settle ::
    "('w, 's) xenv \<Rightarrow> ('w, 's) walker \<Rightarrow> 'w node \<Rightarrow> nat \<Rightarrow> error + outcome \<Rightarrow> ('w, 's) act option \<Rightarrow>
     ('w, 's) act" where
  "settle env k nd ns res retry st =
     (case res of
        Inr (Pass r) \<Rightarrow> route_to env k r nd (note_passed (n_id nd) ns st)
      | Inr Filtered \<Rightarrow> ret (note_filtered (n_id nd) ns st)
      | Inr (Expand rs) \<Rightarrow> xseq (map (\<lambda>r. route_to env k r nd) rs) (note_passed (n_id nd) ns st)
      | Inr (Fail e) \<Rightarrow> on_failure env nd ns e retry st
      | Inl e \<Rightarrow> on_failure env nd ns e retry st)"

text \<open>
  The attempts of one record; the number is \<^verbatim>\<open>max - attempt\<close>, the retries left (0 under the
  other policies).
\<close>

fun try_transform ::
    "('w, 's) xenv \<Rightarrow> ('w, 's) walker \<Rightarrow> 'w node \<Rightarrow> 'w transform \<Rightarrow> rec \<Rightarrow> nat \<Rightarrow> ('w, 's) act" where
  "try_transform env k nd f r 0 st =
     (let ns = elapsed env st; (res, st1) = call_component (f r) st in
      settle env k nd ns res None st1)"
| "try_transform env k nd f r (Suc m) st =
     (let ns = elapsed env st; (res, st1) = call_component (f r) st in
      settle env k nd ns res (Some (try_transform env k nd f r m)) st1)"

fun retries :: "error_policy \<Rightarrow> nat" where
  "retries (PRetry mx _) = mx"
| "retries _ = 0"

definition apply_transform ::
    "('w, 's) xenv \<Rightarrow> ('w, 's) walker \<Rightarrow> 'w node \<Rightarrow> 'w transform \<Rightarrow> rec \<Rightarrow> ('w, 's) act" where
  "apply_transform env k nd f r = try_transform env k nd f r (retries (n_policy nd))"

section \<open>Control steps\<close>

definition eval_bool ::
    "('w, 's) xenv \<Rightarrow> expr \<Rightarrow> json \<Rightarrow> ('w, 's) xstate \<Rightarrow> bool \<times> ('w, 's) xstate" where
  "eval_bool env e v st =
     (case x_eval env e v st of
        (Inr x, st') \<Rightarrow> (is_truthy x, st')
      | (Inl _, st') \<Rightarrow> (False, count_error st'))"

definition eval_items ::
    "('w, 's) xenv \<Rightarrow> expr \<Rightarrow> rec \<Rightarrow> ('w, 's) xstate \<Rightarrow> json list option \<times> ('w, 's) xstate" where
  "eval_items env e r st =
     (case x_eval env e (payload r) st of
        (Inr (JArray items), st') \<Rightarrow> (Some items, st')
      | (_, st') \<Rightarrow> (None, count_error st'))"

fun apply_switch ::
    "('w, 's) xenv \<Rightarrow> ('w, 's) walker \<Rightarrow> switch_case list \<Rightarrow> string \<Rightarrow> rec \<Rightarrow> ('w, 's) act" where
  "apply_switch env k [] dflt r st = k r dflt st"
| "apply_switch env k (c # cases) dflt r st =
     (case eval_bool env (case_when c) (payload r) st of
        (True, st') \<Rightarrow> k r (case_to c) st'
      | (False, st') \<Rightarrow> apply_switch env k cases dflt r st')"

definition apply_foreach ::
    "('w, 's) xenv \<Rightarrow> ('w, 's) walker \<Rightarrow> 'w node \<Rightarrow> expr \<Rightarrow> string option \<Rightarrow> nat \<Rightarrow> rec \<Rightarrow> ('w, 's) act" where
  "apply_foreach env k nd over as_field mx r st =
     (case eval_items env over r st of
        (None, st') \<Rightarrow> ret st'
      | (Some items, st') \<Rightarrow>
          (let field = (case as_field of None \<Rightarrow> ''item'' | Some f \<Rightarrow> f) in
           xseq (map (\<lambda>item. route_to env k (record_set r field item) nd) (take mx items)) st'))"

fun apply_loop ::
    "('w, 's) xenv \<Rightarrow> ('w, 's) walker \<Rightarrow> 'w node \<Rightarrow> expr \<Rightarrow> string option \<Rightarrow> rec \<Rightarrow> nat \<Rightarrow> ('w, 's) act" where
  "apply_loop env k nd w body r 0 st = ret st"
| "apply_loop env k nd w body r (Suc n) st =
     (case eval_bool env w (eval_value nd r st) st of
        (False, st') \<Rightarrow> ret st'
      | (True, st') \<Rightarrow>
          xthen (case body of Some t \<Rightarrow> k r t | None \<Rightarrow> route_to env k r nd)
            (apply_loop env k nd w body r n) st')"

definition correlate :: "('w, 's) xenv \<Rightarrow> rec \<Rightarrow> ('w, 's) xstate \<Rightarrow> rec \<times> ('w, 's) xstate" where
  "correlate env r st =
     (if im_contains (metadata r) ''correlation'' then (r, st)
      else (with_metadata r ''correlation'' (h_uuid (e_host env) (x_tick st)),
            set_tick (x_tick st + 1) st))"

definition apply_parallel ::
    "('w, 's) xenv \<Rightarrow> ('w, 's) walker \<Rightarrow> string list \<Rightarrow> rec \<Rightarrow> ('w, 's) act" where
  "apply_parallel env k branches r st =
     (let (r', st') = correlate env r st in xseq (map (k r') branches) st')"

definition fresh_record :: "('w, 's) xenv \<Rightarrow> json \<Rightarrow> ('w, 's) xstate \<Rightarrow> rec \<times> ('w, 's) xstate" where
  "fresh_record env v st =
     (record_new (h_uuid (e_host env) (x_tick st)) (h_now (e_host env) (x_tick st)) v,
      set_tick (x_tick st + 1) st)"

definition merge_into :: "rec \<Rightarrow> rec \<Rightarrow> rec" where
  "merge_into other merged =
     (case (payload merged, payload other) of
        (JObject target, JObject source) \<Rightarrow> merged\<lparr>payload := JObject (im_extend target source)\<rparr>
      | _ \<Rightarrow> merged)"

definition merge_records ::
    "('w, 's) xenv \<Rightarrow> rec list \<Rightarrow> ('w, 's) xstate \<Rightarrow> rec \<times> ('w, 's) xstate" where
  "merge_records env rs st =
     (case rs of
        [] \<Rightarrow> fresh_record env (JObject []) st
      | r # others \<Rightarrow> (fold merge_into others r, st))"

definition join_ready :: "join_buffer \<Rightarrow> nat \<Rightarrow> bool" where
  "join_ready b sz =
     (case jb_mode b of
        JAny \<Rightarrow> True
      | JAll \<Rightarrow> sz \<ge> max (jb_expected b) 1
      | JN \<Rightarrow> sz \<ge> max (jb_n b) 1)"

definition join_group :: "join_buffer \<Rightarrow> string \<Rightarrow> rec list" where
  "join_group b c = (case im_get (jb_groups b) c of None \<Rightarrow> [] | Some rs \<Rightarrow> rs)"

text \<open>Adding one record to a join buffer: the released group, if any, and the new buffer.\<close>

definition join_push :: "string \<Rightarrow> rec \<Rightarrow> join_buffer \<Rightarrow> rec list option \<times> join_buffer" where
  "join_push c r b =
     (let group = join_group b c @ [r] in
      if join_ready b (length group)
      then (Some group, b\<lparr>jb_groups := im_insert c [] (jb_groups b)\<rparr>)
      else (None, b\<lparr>jb_groups := im_insert c group (jb_groups b)\<rparr>))"

definition correlation_of :: "('w, 's) xenv \<Rightarrow> rec \<Rightarrow> ('w, 's) xstate \<Rightarrow> string \<times> ('w, 's) xstate" where
  "correlation_of env r st =
     (case im_get (metadata r) ''correlation'' of
        Some c \<Rightarrow> (c, st)
      | None \<Rightarrow> (h_uuid (e_host env) (x_tick st), set_tick (x_tick st + 1) st))"

definition apply_join ::
    "('w, 's) xenv \<Rightarrow> ('w, 's) walker \<Rightarrow> 'w node \<Rightarrow> rec \<Rightarrow> ('w, 's) act" where
  "apply_join env k nd r st =
     (let (c, st1) = correlation_of env r st in
      case im_get (x_joins st1) (n_id nd) of
        None \<Rightarrow> ret st1
      | Some b \<Rightarrow>
          (let (group, b') = join_push c r b; st2 = set_join (n_id nd) b' st1 in
           case group of
             None \<Rightarrow> ret st2
           | Some rs \<Rightarrow> (let (merged, st3) = merge_records env rs st2 in route_to env k merged nd st3)))"

definition emit_batch ::
    "('w, 's) xenv \<Rightarrow> ('w, 's) walker \<Rightarrow> 'w node \<Rightarrow> rec list \<Rightarrow> ('w, 's) act" where
  "emit_batch env k nd rs st =
     (let (r, st') = fresh_record env (JObject [(''items'', JArray (map to_json rs))]) st in
      route_to env k r nd st')"

text \<open>Adding one record to a batch buffer at the time \<open>now\<close> (nanoseconds).\<close>

definition batch_push ::
    "nat option \<Rightarrow> int option \<Rightarrow> nat \<Rightarrow> rec \<Rightarrow> batch_buffer \<Rightarrow> rec list option \<times> batch_buffer" where
  "batch_push sz win now r b =
     (let rs = bb_records b @ [r];
          size_hit = (case sz of None \<Rightarrow> False | Some limit \<Rightarrow> length rs \<ge> limit);
          window_hit = (case (win, bb_since b) of
              (Some window, Some start) \<Rightarrow> int (now - start) \<ge> window * 1000000
            | _ \<Rightarrow> False) in
      if size_hit \<or> window_hit then (Some rs, \<lparr>bb_records = [], bb_since = None\<rparr>)
      else (None, \<lparr>bb_records = rs,
              bb_since = (case bb_since b of None \<Rightarrow> Some now | Some s \<Rightarrow> Some s)\<rparr>))"

definition apply_batch ::
    "('w, 's) xenv \<Rightarrow> ('w, 's) walker \<Rightarrow> 'w node \<Rightarrow> nat option \<Rightarrow> int option \<Rightarrow> rec \<Rightarrow> ('w, 's) act" where
  "apply_batch env k nd sz win r st =
     (case im_get (x_batches st) (n_id nd) of
        None \<Rightarrow> ret st
      | Some b \<Rightarrow>
          (let (flush, b') = batch_push sz win (e_clock env (x_tick st)) r b;
               st1 = set_tick (x_tick st + 1) (set_batch (n_id nd) b' st) in
           case flush of
             None \<Rightarrow> ret st1
           | Some rs \<Rightarrow> emit_batch env k nd rs st1))"

fun eval_state ::
    "('w, 's) xenv \<Rightarrow> json \<Rightarrow> (string \<times> expr) list \<Rightarrow> json \<Rightarrow> ('w, 's) xstate \<Rightarrow>
     json option \<times> ('w, 's) xstate" where
  "eval_state env v [] state st = (Some state, st)"
| "eval_state env v ((field, e) # exprs) state st =
     (case x_eval env e v st of
        (Inr x, st') \<Rightarrow>
          eval_state env v exprs
            (case state of JObject m \<Rightarrow> JObject (im_insert field x m) | _ \<Rightarrow> state) st'
      | (Inl _, st') \<Rightarrow> (None, count_error st'))"

definition apply_state ::
    "('w, 's) xenv \<Rightarrow> ('w, 's) walker \<Rightarrow> 'w node \<Rightarrow> (string \<times> expr) list \<Rightarrow> rec \<Rightarrow> ('w, 's) act" where
  "apply_state env k nd exprs r st =
     (case eval_state env (eval_value nd r st) exprs (state_value (n_id nd) st) st of
        (None, st') \<Rightarrow> ret st'
      | (Some v, st') \<Rightarrow> route_to env k r nd (update_state env (n_id nd) v st'))"

definition apply_approve ::
    "('w, 's) xenv \<Rightarrow> ('w, 's) walker \<Rightarrow> 'w node \<Rightarrow> rec \<Rightarrow> ('w, 's) act" where
  "apply_approve env k nd r st =
     (if e_store env \<noteq> None then
        (case park_approve env nd r st of
           (Inl _, st') \<Rightarrow> ret (count_error st')
         | (Inr _, st') \<Rightarrow> ret (count_waiting st'))
      else route_to env k r nd st)"

fun apply_control ::
    "('w, 's) xenv \<Rightarrow> ('w, 's) walker \<Rightarrow> 'w node \<Rightarrow> control_node \<Rightarrow> rec \<Rightarrow> ('w, 's) act" where
  "apply_control env k nd (Switch cases dflt) r = apply_switch env k cases dflt r"
| "apply_control env k nd (Foreach over as_field mx) r = apply_foreach env k nd over as_field mx r"
| "apply_control env k nd (Loop w mx body) r = apply_loop env k nd w body r mx"
| "apply_control env k nd (Parallel branches) r = apply_parallel env k branches r"
| "apply_control env k nd (Join _ _) r = apply_join env k nd r"
| "apply_control env k nd (Delay _) r = route_to env k r nd"
| "apply_control env k nd (Batch sz win) r = apply_batch env k nd sz win r"
| "apply_control env k nd (State exprs) r = apply_state env k nd exprs r"
| "apply_control env k nd (Approve _) r = apply_approve env k nd r"

section \<open>Walking\<close>

definition deliver :: "('w, 's) xenv \<Rightarrow> 'w node \<Rightarrow> 'w sink \<Rightarrow> rec \<Rightarrow> ('w, 's) xstate \<Rightarrow> ('w, 's) xstate" where
  "deliver env nd sk r st =
     (if is_delivered env r st then count_duplicate st
      else
        (let ns = elapsed env st in
         case call_component (k_send sk r) st of
           (Inr _, st1) \<Rightarrow>
             maybe_checkpoint env (note_delivered (n_id nd) ns (mark_delivered env r st1))
         | (Inl e, st1) \<Rightarrow> note_failure env nd ns ''sink'' e st1))"

definition passes_when ::
    "('w, 's) xenv \<Rightarrow> 'w node \<Rightarrow> rec \<Rightarrow> ('w, 's) xstate \<Rightarrow> bool \<times> ('w, 's) xstate" where
  "passes_when env nd r st =
     (case n_when nd of
        None \<Rightarrow> (True, st)
      | Some w \<Rightarrow>
          (case x_eval env w (payload r) st of
             (Inr v, st') \<Rightarrow> (is_truthy v, st')
           | (Inl e, st') \<Rightarrow>
               (False, record_error env (n_id nd) ''when'' (Expr_text e) (note_failed (n_id nd) 0 st'))))"

definition run_step :: "('w, 's) xenv \<Rightarrow> ('w, 's) walker \<Rightarrow> 'w node \<Rightarrow> rec \<Rightarrow> ('w, 's) act" where
  "run_step env k nd r =
     (case n_step nd of
        NSink sk \<Rightarrow> (\<lambda>st. ret (deliver env nd sk r st))
      | NTransform f \<Rightarrow> apply_transform env k nd f r
      | NControl c \<Rightarrow> apply_control env k nd c r
      | NSource _ \<Rightarrow> route_to env k r nd)"

definition walk_node :: "('w, 's) xenv \<Rightarrow> ('w, 's) walker \<Rightarrow> ('w, 's) walker" where
  "walk_node env k r i st =
     (case graph_node (e_graph env) i of
        None \<Rightarrow> ret st
      | Some nd \<Rightarrow>
          (case passes_when env nd r st of
             (False, st') \<Rightarrow> ret st'
           | (True, st') \<Rightarrow> run_step env k nd r st'))"

fun walk :: "('w, 's) xenv \<Rightarrow> nat \<Rightarrow> ('w, 's) walker" where
  "walk env 0 r i st = None"
| "walk env (Suc n) r i st = walk_node env (walk env n) r i st"

section \<open>Running\<close>

definition take_item :: "('w, 's) xenv \<Rightarrow> nat \<Rightarrow> string \<Rightarrow> error + rec \<Rightarrow> ('w, 's) act" where
  "take_item env n i item =
     (case item of
        Inr r \<Rightarrow> walk env n r i
      | Inl e \<Rightarrow> (\<lambda>st. ret (record_error env i ''source'' (Text_of e) (count_error st))))"

definition run_source :: "('w, 's) xenv \<Rightarrow> nat \<Rightarrow> string \<Rightarrow> ('w, 's) act" where
  "run_source env n i st =
     (case graph_node (e_graph env) i of
        None \<Rightarrow> ret st
      | Some nd \<Rightarrow>
          (case n_step nd of
             NSource src \<Rightarrow>
               (case src (x_world st) of
                  (Inl e, w) \<Rightarrow> Some (Inl e, set_world w st)
                | (Inr items, w) \<Rightarrow> xseq (map (take_item env n i) items) (set_world w st))
           | _ \<Rightarrow> ret st))"

fun run_sources :: "('w, 's) xenv \<Rightarrow> nat \<Rightarrow> string list \<Rightarrow> ('w, 's) act" where
  "run_sources env n [] st = ret st"
| "run_sources env n (i # roots) st =
     (case run_source env n i st of
        None \<Rightarrow> None
      | Some (res, st1) \<Rightarrow>
          (case run_sources env n roots st1 of
             None \<Rightarrow> None
           | Some (res2, st2) \<Rightarrow> Some (case res of Inl e \<Rightarrow> Inl e | Inr _ \<Rightarrow> res2, st2)))"

definition flush_batch :: "('w, 's) xenv \<Rightarrow> nat \<Rightarrow> string \<Rightarrow> ('w, 's) act" where
  "flush_batch env n i st =
     (case im_get (x_batches st) i of
        None \<Rightarrow> ret st
      | Some b \<Rightarrow>
          (let st1 = set_batch i (b\<lparr>bb_records := []\<rparr>) st in
           if bb_records b = [] then ret st1
           else
             (case graph_node (e_graph env) i of
                None \<Rightarrow> ret st1
              | Some nd \<Rightarrow> emit_batch env (walk env n) nd (bb_records b) st1)))"

definition flush_batches :: "('w, 's) xenv \<Rightarrow> nat \<Rightarrow> ('w, 's) act" where
  "flush_batches env n st =
     xseq (map (flush_batch env n) (e_order env (im_keys (x_batches st)))) st"

definition flush_sink :: "('w, 's) xenv \<Rightarrow> string \<Rightarrow> ('w, 's) act" where
  "flush_sink env i st =
     (case graph_node (e_graph env) i of
        None \<Rightarrow> ret st
      | Some nd \<Rightarrow>
          (case n_step nd of
             NSink sk \<Rightarrow> (let (res, w) = k_flush sk (x_world st) in Some (res, set_world w st))
           | _ \<Rightarrow> ret st))"

definition flush_sinks :: "('w, 's) xenv \<Rightarrow> ('w, 's) act" where
  "flush_sinks env = xseq (map (flush_sink env) (scan_sinks (e_graph env)))"

definition flush_all :: "('w, 's) xenv \<Rightarrow> nat \<Rightarrow> ('w, 's) act" where
  "flush_all env n =
     xthen (flush_batches env n) (xthen (flush_sinks env) (\<lambda>st. ret (checkpoint env st)))"

definition run :: "('w, 's) xenv \<Rightarrow> nat \<Rightarrow> ('w, 's) xstate \<Rightarrow> ((error + stats_snapshot) \<times> ('w, 's) xstate) option" where
  "run env n st =
     (case xthen (run_sources env n (g_roots (e_graph env))) (flush_all env n) st of
        None \<Rightarrow> None
      | Some (Inl e, st') \<Rightarrow> Some (Inl e, st')
      | Some (Inr _, st') \<Rightarrow> Some (Inr (snapshot st'), st'))"

definition inject_and_flush :: "('w, 's) xenv \<Rightarrow> nat \<Rightarrow> rec \<Rightarrow> 'w node \<Rightarrow> ('w, 's) act" where
  "inject_and_flush env n r nd = xthen (route_to env (walk env n) r nd) (flush_all env n)"

text \<open>The loop of \<^verbatim>\<open>approve_pending\<close> (\<^verbatim>\<open>serve.rs\<close>) over the approve steps of a graph.\<close>

fun approve_nodes ::
    "('w, 's) xenv \<Rightarrow> nat \<Rightarrow> string option \<Rightarrow> (string \<times> 'w node) list \<Rightarrow> nat \<Rightarrow> ('w, 's) xstate \<Rightarrow>
     ((error + nat) \<times> ('w, 's) xstate) option" where
  "approve_nodes env n step [] approved st = Some (Inr approved, st)"
| "approve_nodes env n step ((i, nd) # nodes) approved st =
     (if \<not> is_approve (n_step nd) \<or> (step \<noteq> None \<and> step \<noteq> Some i)
      then approve_nodes env n step nodes approved st
      else
        (case take_approve_queue env i st of
           (Inl e, st') \<Rightarrow> Some (Inl e, st')
         | (Inr parked, st') \<Rightarrow>
             (case xseq (map (\<lambda>r. inject_and_flush env n r nd) parked) st' of
                None \<Rightarrow> None
              | Some (Inl e, st'') \<Rightarrow> Some (Inl e, st'')
              | Some (Inr _, st'') \<Rightarrow> approve_nodes env n step nodes (approved + length parked) st'')))"

definition approve_pending ::
    "'w flow_graph \<Rightarrow> json imap \<Rightarrow> ('w, 's) run_config \<Rightarrow> 's \<Rightarrow> 'w \<Rightarrow> nat \<Rightarrow> string option \<Rightarrow>
     ((error + nat) \<times> ('w, 's) xstate) option" where
  "approve_pending g vars cfg s w n step =
     (let (env, st) = executor_new g vars (cfg\<lparr>rc_resume := True, rc_every := None\<rparr>) s w in
      approve_nodes env n step (g_nodes g) 0 st)"

end
