(* ===== verification/Executor_Laws.thy ===== *)
theory Executor_Laws
  imports Executor
begin

text \<open>
  Laws of the executor, in two families.  The first: an action that only calls the recursive
  walk at nodes where it is defined is defined, and depends on the walk at these nodes only.
  With the topological order of an accepted graph it gives termination.  The second: a relation
  between states that every elementary step respects is respected by every walk, whatever the
  graph; it is a locale, interpreted below for each invariant.
\<close>

section \<open>Definedness\<close>

definition same :: "('w, 's) act \<Rightarrow> ('w, 's) act \<Rightarrow> bool" where
  "same a b \<longleftrightarrow> (\<forall>st. a st = b st) \<and> (\<forall>st. b st \<noteq> None)"

definition same_on :: "string set \<Rightarrow> ('w, 's) walker \<Rightarrow> ('w, 's) walker \<Rightarrow> bool" where
  "same_on T k k' \<longleftrightarrow> (\<forall>i \<in> T. \<forall>r. same (k r i) (k' r i))"

named_theorems same_intros \<open>defined actions\<close>

lemma sameI: "(\<And>st. a st = b st \<and> b st \<noteq> None) \<Longrightarrow> same a b"
  by (simp add: same_def del: not_None_eq)

lemma sameD: "same a b \<Longrightarrow> a st = b st" "same a b \<Longrightarrow> b st \<noteq> None"
  by (simp_all add: same_def del: not_None_eq)

lemma same_onD: "same_on T k k' \<Longrightarrow> i \<in> T \<Longrightarrow> same (k r i) (k' r i)"
  by (simp add: same_on_def)

lemma same_on_mono: "same_on T k k' \<Longrightarrow> S \<subseteq> T \<Longrightarrow> same_on S k k'"
  by (auto simp: same_on_def)

lemma same_ret [same_intros]: "same ret ret" "same (\<lambda>st. ret (f st)) (\<lambda>st. ret (f st))"
  by (simp_all add: same_def ret_def)

lemma same_xthen [same_intros]: "same a a' \<Longrightarrow> same b b' \<Longrightarrow> same (xthen a b) (xthen a' b')"
  by (auto simp: same_def xthen_def split: option.splits sum.splits)

lemma same_xseq [same_intros]:
  "(\<And>x. x \<in> set xs \<Longrightarrow> same (f x) (g x)) \<Longrightarrow> same (xseq (map f xs)) (xseq (map g xs))"
  by (induction xs) (auto intro: same_intros)

lemma same_route_one:
  "same_on T k k' \<Longrightarrow> r_to rt \<in> T \<Longrightarrow> same (route_one env k r i rt) (route_one env k' r i rt)"
  by (rule sameI) (auto simp: route_one_def ret_def same_on_def same_def
      split: option.splits prod.splits sum.splits)

lemma same_route_to [same_intros]:
  "same_on T k k' \<Longrightarrow> set (node_targets nd) \<subseteq> T \<Longrightarrow> same (route_to env k r nd) (route_to env k' r nd)"
  unfolding route_to_def node_targets_def by (intro same_xseq same_route_one) auto

text \<open>An action applied in a state computed before.\<close>

lemma same_after: "same a b \<Longrightarrow> a st = b st \<and> b st \<noteq> None"
  by (simp add: same_def del: not_None_eq)

lemma same_settle:
  assumes "same_on T k k'" "set (node_targets nd) \<subseteq> T"
    and "rel_option same retry retry'"
  shows "same (settle env k nd ns res retry) (settle env k' nd ns res retry')"
proof (rule sameI)
  fix st
  note rt = same_route_to [OF assms(1,2), THEN same_after]
  have f: "on_failure env nd ns e retry st = on_failure env nd ns e retry' st \<and>
      on_failure env nd ns e retry' st \<noteq> None" for e
    using assms(3) by (auto simp: on_failure_def option.rel_sel same_def split: option.splits)
  show "settle env k nd ns res retry st = settle env k' nd ns res retry' st \<and>
      settle env k' nd ns res retry' st \<noteq> None"
  proof (cases res)
    case (Inl e)
    then show ?thesis using f by (simp add: settle_def)
  next
    case (Inr out)
    then show ?thesis
      using f rt same_xseq [where f = "\<lambda>r. route_to env k r nd" and g = "\<lambda>r. route_to env k' r nd",
          OF same_route_to [OF assms(1,2)], THEN same_after]
      by (cases out) (simp_all add: settle_def ret_def)
  qed
qed

lemma same_try_transform:
  assumes "same_on T k k'" "set (node_targets nd) \<subseteq> T"
  shows "same (try_transform env k nd f r n) (try_transform env k' nd f r n)"
proof (induction n)
  case 0
  show ?case
    by (rule sameI) (use same_settle [OF assms, of None None, THEN same_after] in
      \<open>auto simp: Let_def split: prod.splits\<close>)
next
  case (Suc n)
  show ?case
    by (rule sameI) (use same_settle [OF assms, of "Some (try_transform env k nd f r n)"
        "Some (try_transform env k' nd f r n)", THEN same_after] Suc in
      \<open>auto simp: Let_def split: prod.splits\<close>)
qed

lemma same_switch:
  assumes "same_on T k k'" "dflt \<in> T" "case_to ` set cases \<subseteq> T"
  shows "same (apply_switch env k cases dflt r) (apply_switch env k' cases dflt r)"
  using assms(3)
proof (induction cases)
  case Nil
  show ?case using same_onD [OF assms(1,2)] by (simp add: same_def)
next
  case (Cons c cases)
  then show ?case using same_onD [OF assms(1), of "case_to c" r]
    by (intro sameI) (auto simp: same_def split: prod.splits bool.splits)
qed

lemma same_loop:
  assumes "same_on T k k'" "set (node_targets nd) \<subseteq> T" "set_option body \<subseteq> T"
  shows "same (apply_loop env k nd w body r n) (apply_loop env k' nd w body r n)"
proof (induction n)
  case (Suc n)
  have "same (case body of Some t \<Rightarrow> k r t | None \<Rightarrow> route_to env k r nd)
      (case body of Some t \<Rightarrow> k' r t | None \<Rightarrow> route_to env k' r nd)"
    using same_onD [OF assms(1)] same_route_to [OF assms(1,2)] assms(3) by (auto split: option.splits)
  from same_xthen [OF this Suc.IH] show ?case
    by (intro sameI) (auto simp: same_def ret_def split: prod.splits bool.splits)
qed (simp add: same_def ret_def)

lemma same_control:
  assumes k: "same_on T k k'" and t: "set (node_targets nd) \<subseteq> T" "r_to ` set (control_routes c) \<subseteq> T"
  shows "same (apply_control env k nd c r) (apply_control env k' nd c r)"
proof -
  note rt = same_route_to [OF k t(1), THEN same_after]
  show ?thesis
  proof (cases c)
    case (Switch cases dflt)
    then have "dflt \<in> T" "case_to ` set cases \<subseteq> T"
      using t(2) by (simp_all add: plain_route_def image_image)
    then show ?thesis using same_switch [OF k] Switch by simp
  next
    case (Foreach over as_field mx)
    have "same (xseq (map (\<lambda>item. route_to env k (record_set r field item) nd) xs))
        (xseq (map (\<lambda>item. route_to env k' (record_set r field item) nd) xs))" for field xs
      by (intro same_xseq same_route_to [OF k t(1)])
    then show ?thesis using Foreach
      by (intro sameI) (auto simp: apply_foreach_def Let_def ret_def same_def split: prod.splits option.splits)
  next
    case (Loop w mx body)
    have "set_option body \<subseteq> T" using Loop t(2) by (cases body) (auto simp: plain_route_def)
    then show ?thesis using Loop same_loop [OF k t(1)] by simp
  next
    case (Parallel branches)
    have "same (xseq (map (k r') branches)) (xseq (map (k' r') branches))" for r'
      using same_onD [OF k] t(2) Parallel
      by (intro same_xseq) (auto simp: plain_route_def image_image)
    then show ?thesis using Parallel
      by (intro sameI) (auto simp: apply_parallel_def Let_def same_def split: prod.splits)
  next
    case (Join mode n)
    then show ?thesis using rt
      by (intro sameI) (auto simp: apply_join_def Let_def ret_def split: prod.splits option.splits)
  next
    case (Batch sz win)
    then show ?thesis using rt
      by (intro sameI)
        (auto simp: apply_batch_def emit_batch_def Let_def ret_def split: prod.splits option.splits)
  next
    case (State exprs)
    then show ?thesis using rt
      by (intro sameI) (auto simp: apply_state_def ret_def split: prod.splits option.splits)
  next
    case (Approve title)
    then show ?thesis using rt
      by (intro sameI) (auto simp: apply_approve_def ret_def split: prod.splits sum.splits)
  qed (use rt in \<open>auto simp: same_def\<close>)
qed

lemma same_walk_node:
  assumes "\<And>nd. graph_node (e_graph env) i = Some nd \<Longrightarrow>
    set (node_targets nd) \<union> control_targets nd \<subseteq> T" and k: "same_on T k k'"
  shows "same (walk_node env k r i) (walk_node env k' r i)"
proof (cases "graph_node (e_graph env) i")
  case None
  then show ?thesis by (simp add: same_def walk_node_def ret_def)
next
  case (Some nd)
  have t: "set (node_targets nd) \<subseteq> T" "control_targets nd \<subseteq> T" using assms(1) [OF Some] by auto
  have "same (run_step env k nd r) (run_step env k' nd r)"
  proof (cases "n_step nd")
    case (NControl c)
    then show ?thesis using same_control [OF k t(1), of c] t(2)
      by (simp add: run_step_def control_targets_def)
  qed (use same_try_transform [OF k t(1)] same_route_to [OF k t(1)] in
      \<open>auto simp: run_step_def apply_transform_def intro: same_intros\<close>)
  then show ?thesis using Some
    by (intro sameI) (auto simp: walk_node_def ret_def same_def split: prod.splits bool.splits)
qed

section \<open>Termination on accepted graphs\<close>

text \<open>
  A rank that decreases along the routes: how many nodes can still follow.  It exists because the
  graph is acyclic, and it is below the number of nodes.
\<close>

definition ranked :: "'w flow_graph \<Rightarrow> (string \<Rightarrow> nat) \<Rightarrow> bool" where
  "ranked g h \<longleftrightarrow> (\<forall>i t. t \<in> set (graph_succ g i) \<longrightarrow> h t < h i) \<and>
     (\<forall>i. h i \<le> length (g_nodes g))"

lemma chain_length:
  assumes "finite A" "acyclic R" "R \<subseteq> A \<times> A"
  shows "\<exists>h. (\<forall>(a, b) \<in> R. h b < h a) \<and> (\<forall>a. h a \<le> card A)"
proof -
  have wf: "wf (R\<inverse>)" using assms by (metis finite_acyclic_wf_converse finite_cartesian_product finite_subset)
  let ?h = "\<lambda>a. card {b. (a, b) \<in> R\<^sup>+}"
  have sub: "{b. (a, b) \<in> R\<^sup>+} \<subseteq> A" for a
    using assms(3) trancl_subset_Sigma [of R A] by auto
  have "?h b < ?h a" if ab: "(a, b) \<in> R" for a b
  proof (rule psubset_card_mono)
    show "finite {b. (a, b) \<in> R\<^sup>+}" using sub assms(1) by (rule finite_subset)
    have "(b, b) \<notin> R\<^sup>+" using assms(2) by (simp add: acyclic_def)
    then show "{c. (b, c) \<in> R\<^sup>+} \<subset> {c. (a, c) \<in> R\<^sup>+}"
      using ab by (auto intro: trancl_into_trancl2)
  qed
  moreover have "?h a \<le> card A" for a using sub assms(1) by (rule card_mono [rotated])
  ultimately show ?thesis by (intro exI [of _ ?h]) auto
qed

lemma graph_wf_ranked:
  assumes "graph_wf g"
  shows "\<exists>h. ranked g h"
proof -
  let ?A = "fst ` set (g_nodes g)"
  have "edges (graph_succ g) \<subseteq> ?A \<times> ?A"
  proof (intro subrelI SigmaI)
    fix i t assume "(i, t) \<in> edges (graph_succ g)"
    then obtain n where n: "graph_node g i = Some n" "t \<in> set (node_targets n)"
      by (cases "graph_node g i") (auto simp: graph_succ_def)
    then show "t \<in> ?A" using graph_wf_node [OF assms n(1)] by (auto simp: node_wf_def)
    show "i \<in> ?A" using n(1) by (metis graph_node_def map_of_eq_None_iff option.distinct(1) image_set)
  qed
  from chain_length [OF _ _ this] assms obtain h
    where "\<forall>(a, b) \<in> edges (graph_succ g). h b < h a" and b: "\<And>a. h a \<le> card ?A"
    by (auto simp: graph_wf_def)
  then have "h u < h i" if "u \<in> set (graph_succ g i)" for i u
    using that by (auto simp: edges_def)
  moreover have "card ?A \<le> length (g_nodes g)"
    by (metis card_length image_set length_map)
  then have "h i \<le> length (g_nodes g)" for i using b [of i] by simp
  ultimately show ?thesis unfolding ranked_def by blast
qed

lemma walk_same:
  assumes wf: "graph_wf (e_graph env)" and h: "ranked (e_graph env) h"
  shows "h i < n \<Longrightarrow> h i < m \<Longrightarrow> same (walk env n r i) (walk env m r i)"
proof (induction n arbitrary: m r i)
  case (Suc n)
  then obtain m' where m: "m = Suc m'" by (cases m) auto
  let ?T = "set (graph_succ (e_graph env) i)"
  have "same_on ?T (walk env n) (walk env m')"
    unfolding same_on_def
  proof (intro ballI allI)
    fix t r' assume "t \<in> ?T"
    then have "h t < h i" using h by (simp add: ranked_def)
    with Suc m show "same (walk env n r' t) (walk env m' r' t)" by simp
  qed
  moreover have "set (node_targets nd) \<union> control_targets nd \<subseteq> ?T"
    if "graph_node (e_graph env) i = Some nd" for nd
    using graph_wf_node [OF wf that] that by (auto simp: node_wf_def graph_succ_def)
  ultimately have "same (walk_node env (walk env n) r i) (walk_node env (walk env m') r i)"
    by (intro same_walk_node)
  then show ?case by (simp add: same_def m)
qed simp

lemma walk_enough:
  assumes "graph_wf (e_graph env)" "length (g_nodes (e_graph env)) < n"
  shows "same_on UNIV (walk env n) (walk env (Suc (length (g_nodes (e_graph env)))))"
proof -
  obtain h where h: "ranked (e_graph env) h" using graph_wf_ranked [OF assms(1)] by blast
  have "h i < n" "h i < Suc (length (g_nodes (e_graph env)))" for i
    using h assms(2) by (auto simp: ranked_def intro: le_less_trans)
  with walk_same [OF assms(1) h] show ?thesis by (simp add: same_on_def)
qed

lemma same_run_source:
  assumes "same_on UNIV (walk env n) (walk env m)"
  shows "same (run_source env n i) (run_source env m i)"
proof -
  have "same (take_item env n i item) (take_item env m i item)" for item
    using assms by (cases item) (auto simp: take_item_def same_on_def intro: same_intros)
  then have "same (xseq (map (take_item env n i) items)) (xseq (map (take_item env m i) items))" for items
    by (intro same_xseq)
  then show ?thesis
    by (intro sameI)
      (auto simp: run_source_def ret_def same_def split: option.splits node_step.splits prod.splits sum.splits)
qed

lemma same_run_sources:
  assumes "same_on UNIV (walk env n) (walk env m)"
  shows "same (run_sources env n roots) (run_sources env m roots)"
proof (induction roots)
  case (Cons i roots)
  show ?case
  proof (rule sameI)
    fix st
    obtain res st1 where "run_source env m i st = Some (res, st1)" "run_source env n i st = Some (res, st1)"
      using same_run_source [OF assms, of i, THEN same_after, of st] by auto
    moreover obtain res2 st2 where "run_sources env m roots st1 = Some (res2, st2)"
        "run_sources env n roots st1 = Some (res2, st2)"
      using same_after [OF Cons.IH, of st1] by auto
    ultimately show "run_sources env n (i # roots) st = run_sources env m (i # roots) st \<and>
        run_sources env m (i # roots) st \<noteq> None" by simp
  qed
qed (simp add: same_def ret_def)

lemma same_flush_all:
  assumes "same_on UNIV (walk env n) (walk env m)"
  shows "same (flush_all env n) (flush_all env m)"
proof -
  have "same (flush_batch env n i) (flush_batch env m i)" for i
    using same_route_to [OF assms, THEN same_after]
    by (intro sameI) (auto simp: flush_batch_def emit_batch_def ret_def Let_def
        split: option.splits prod.splits)
  then have "same (xseq (map (flush_batch env n) is)) (xseq (map (flush_batch env m) is))" for "is"
    by (intro same_xseq)
  then have "same (flush_batches env n) (flush_batches env m)"
    by (intro sameI) (auto simp: flush_batches_def same_def)
  moreover have "same (flush_sink env i) (flush_sink env i)" for i
    by (intro sameI) (auto simp: flush_sink_def ret_def split: option.splits node_step.splits prod.splits)
  then have "same (flush_sinks env) (flush_sinks env)"
    unfolding flush_sinks_def by (intro same_xseq)
  ultimately show ?thesis unfolding flush_all_def by (intro same_xthen same_ret)
qed

lemma same_run:
  assumes "same_on UNIV (walk env n) (walk env m)"
  shows "run env n st = run env m st \<and> run env m st \<noteq> None"
  using same_after [OF same_xthen [OF same_run_sources [OF assms] same_flush_all [OF assms]],
      of "g_roots (e_graph env)" st]
  by (auto simp: run_def split: option.splits prod.splits sum.splits)

section \<open>Relations every step respects\<close>

text \<open>
  A relation between the states before and after, for a fixed environment.  \<open>delivers\<close> and \<open>passes\<close>
  are only used at sinks and at transforms.
\<close>

locale run_relation =
  fixes env :: "('w, 's) xenv" and R :: "('w, 's) xstate \<Rightarrow> ('w, 's) xstate \<Rightarrow> bool"
  assumes refl: "R st st"
    and trans: "R a b \<Longrightarrow> R b c \<Longrightarrow> R a c"
    and r_tick: "R st (set_tick t st)"
    and r_world: "R st (set_world w st)"
    and r_join: "R st (set_join i jb st)"
    and r_batch: "R st (set_batch i bb st)"
    and r_state: "graph_node (e_graph env) i = Some nd \<Longrightarrow> n_step nd = NControl (State exprs) \<Longrightarrow>
      R st (set_state i v st)"
    and r_since: "R st (set_since n st)"
    and r_error: "R st (count_error st)"
    and r_waiting: "R st (count_waiting st)"
    and r_duplicate: "R st (count_duplicate st)"
    and r_ring: "R st (record_error env i kind msg st)"
    and r_failed: "R st (note_failed i ns st)"
    and r_filtered: "R st (note_filtered i ns st)"
    and r_passed: "graph_node (e_graph env) i = Some nd \<Longrightarrow> n_step nd = NTransform f \<Longrightarrow>
      R st (note_passed i ns st)"
    and r_delivered: "graph_node (e_graph env) i = Some nd \<Longrightarrow> n_step nd = NSink sk \<Longrightarrow>
      R st (note_delivered i ns st)"
    and r_save: "e_store env = Some ops \<Longrightarrow> R st (snd (store_save ops k v st))"
begin

definition keeps :: "('w, 's) act \<Rightarrow> bool" where
  "keeps a \<longleftrightarrow> (\<forall>st res st'. a st = Some (res, st') \<longrightarrow> R st st')"

lemma keepsI: "(\<And>st res st'. a st = Some (res, st') \<Longrightarrow> R st st') \<Longrightarrow> keeps a"
  by (auto simp: keeps_def)

lemma keepsD: "keeps a \<Longrightarrow> a st = Some (res, st') \<Longrightarrow> R st st'"
  by (auto simp: keeps_def)

lemma keepsD2: "keeps a \<Longrightarrow> R st st1 \<Longrightarrow> a st1 = Some (res, st') \<Longrightarrow> R st st'"
  by (auto simp: keeps_def intro: trans)

lemma keeps_ret: "(\<And>st. R st (f st)) \<Longrightarrow> keeps (\<lambda>st. ret (f st))"
  by (auto simp: keeps_def ret_def)

lemma keeps_ret0: "keeps ret"
  by (auto simp: keeps_def ret_def refl)

lemma keeps_xthen: "keeps a \<Longrightarrow> keeps b \<Longrightarrow> keeps (xthen a b)"
  by (rule keepsI, auto simp: xthen_def split: option.splits sum.splits) (meson keepsD keepsD2)+

lemma keeps_xseq: "(\<And>x. x \<in> set xs \<Longrightarrow> keeps (f x)) \<Longrightarrow> keeps (xseq (map f xs))"
  by (induction xs) (auto intro: keeps_ret0 keeps_xthen)

lemma R_eval: "x_eval env e v st = (res, st') \<Longrightarrow> R st st'"
  by (auto simp: x_eval_def r_tick split: prod.splits)

lemma R_call: "call_component f st = (res, st') \<Longrightarrow> R st st'"
  by (auto simp: call_component_def intro: trans [OF r_world r_tick] split: prod.splits)

lemma R_failure: "R st (note_failure env nd ns kind e st)"
  unfolding note_failure_def by (rule trans [OF r_failed r_ring])

lemma R_edge_error: "R st (record_error env i kind m (count_error st))"
  by (rule trans [OF r_error r_ring])

lemma keeps_route_to:
  assumes "\<And>r i. keeps (k r i)"
  shows "keeps (route_to env k r nd)"
  unfolding route_to_def
proof (intro keeps_xseq keepsI)
  fix rt st res st'
  assume "route_one env k r (n_id nd) rt st = Some (res, st')"
  then show "R st st'"
    by (auto simp: route_one_def ret_def split: option.splits prod.splits sum.splits if_splits
        dest: R_eval intro: keepsD [OF assms] keepsD2 [OF assms] trans [OF _ R_edge_error])
qed

lemma keeps_settle:
  assumes k: "\<And>r i. keeps (k r i)" and retry: "\<And>a. retry = Some a \<Longrightarrow> keeps a"
    and nd: "graph_node (e_graph env) (n_id nd) = Some nd" "n_step nd = NTransform f"
  shows "keeps (settle env k nd ns res retry)"
proof (rule keepsI)
  fix st out st'
  assume s: "settle env k nd ns res retry st = Some (out, st')"
  note rt = keeps_route_to [OF k]
  have fail: "R st st'" if "on_failure env nd ns e retry st = Some (out, st')" for e
    using that R_failure retry by (auto simp: on_failure_def split: option.splits intro: keepsD)
  show "R st st'"
  proof (cases res)
    case (Inl e)
    then show ?thesis using s fail by (simp add: settle_def)
  next
    case (Inr x)
    have seq: "keeps (xseq (map (\<lambda>r. route_to env k r nd) rs))" for rs by (intro keeps_xseq rt)
    show ?thesis
      using s Inr fail keepsD2 [OF rt r_passed [OF nd]] keepsD2 [OF seq r_passed [OF nd]] r_filtered
      by (cases x) (auto simp: settle_def ret_def)
  qed
qed

lemma keeps_try_transform:
  assumes k: "\<And>r i. keeps (k r i)"
    and nd: "graph_node (e_graph env) (n_id nd) = Some nd" "n_step nd = NTransform g"
  shows "keeps (try_transform env k nd f r n)"
proof (induction n)
  case 0
  have "keeps (settle env k nd ns res None)" for ns res by (rule keeps_settle [OF k _ nd]) simp_all
  then show ?case
    by (intro keepsI) (auto simp: Let_def split: prod.splits dest: R_call intro: keepsD2)
next
  case (Suc n)
  have "keeps (settle env k nd ns res (Some (try_transform env k nd f r n)))" for ns res
    by (rule keeps_settle [OF k _ nd]) (use Suc in simp_all)
  then show ?case
    by (intro keepsI) (auto simp: Let_def split: prod.splits dest: R_call intro: keepsD2)
qed

lemma R_eval_bool: "eval_bool env e v st = (b, st') \<Longrightarrow> R st st'"
  by (auto simp: eval_bool_def split: prod.splits sum.splits dest: R_eval intro: trans [OF _ r_error])

lemma R_eval_items: "eval_items env e r st = (b, st') \<Longrightarrow> R st st'"
  by (auto simp: eval_items_def split: prod.splits sum.splits json.splits dest: R_eval
      intro: trans [OF _ r_error])

lemma R_eval_state: "eval_state env v exprs state st = (b, st') \<Longrightarrow> R st st'"
proof (induction exprs arbitrary: state st)
  case (Cons fe exprs)
  obtain field e where fe: "fe = (field, e)" by fastforce
  obtain res st1 where ev: "x_eval env e v st = (res, st1)" by fastforce
  from R_eval [OF ev] show ?case
    using Cons.prems ev fe by (cases res) (auto intro: trans [OF _ Cons.IH] trans [OF _ r_error])
qed (auto simp: refl)

lemma keeps_switch:
  assumes "\<And>r i. keeps (k r i)"
  shows "keeps (apply_switch env k cases dflt r)"
proof (induction cases)
  case Nil
  show ?case using assms by (auto simp: keeps_def)
next
  case (Cons c cases)
  show ?case
    by (rule keepsI) (auto split: prod.splits bool.splits dest!: R_eval_bool
        intro: keepsD2 [OF assms] keepsD2 [OF Cons.IH])
qed

lemma keeps_loop:
  assumes "\<And>r i. keeps (k r i)"
  shows "keeps (apply_loop env k nd w body r n)"
proof (induction n)
  case 0
  show ?case by (auto simp: keeps_def ret_def refl)
next
  case (Suc n)
  have "keeps (xthen (case body of Some t \<Rightarrow> k r t | None \<Rightarrow> route_to env k r nd)
      (apply_loop env k nd w body r n))"
    using assms keeps_route_to [OF assms] by (intro keeps_xthen Suc.IH) (auto split: option.splits)
  from keepsD2 [OF this] show ?case
    by (intro keepsI) (auto simp: ret_def split: prod.splits bool.splits dest!: R_eval_bool)
qed

lemma R_correlate: "correlate env r st = (r', st') \<Longrightarrow> R st st'"
  by (auto simp: correlate_def refl r_tick split: if_splits)

lemma R_correlation_of: "correlation_of env r st = (c, st') \<Longrightarrow> R st st'"
  by (auto simp: correlation_of_def refl r_tick split: option.splits)

lemma R_fresh: "fresh_record env v st = (r, st') \<Longrightarrow> R st st'"
  by (auto simp: fresh_record_def r_tick)

lemma R_merge: "merge_records env rs st = (r, st') \<Longrightarrow> R st st'"
  by (auto simp: merge_records_def refl split: list.splits dest: R_fresh)

lemma keeps_emit_batch:
  assumes "\<And>r i. keeps (k r i)"
  shows "keeps (emit_batch env k nd rs)"
  by (rule keepsI) (auto simp: emit_batch_def Let_def split: prod.splits dest!: R_fresh
      intro: keepsD2 [OF keeps_route_to [OF assms]])

lemma R_update_state:
  assumes "graph_node (e_graph env) i = Some nd" "n_step nd = NControl (State exprs)"
  shows "R st (update_state env i v st)"
  using r_state [OF assms]
  by (auto simp: update_state_def Let_def intro: trans [OF _ r_save] split: option.splits)

lemma R_park: "park_approve env nd r st = (res, st') \<Longrightarrow> R st st'"
  by (auto simp: park_approve_def Let_def refl split: option.splits sum.splits)
    (metis r_save snd_conv)

lemma keeps_foreach:
  assumes "\<And>r i. keeps (k r i)"
  shows "keeps (apply_foreach env k nd over as_field mx r)"
proof -
  have "keeps (xseq (map (\<lambda>item. route_to env k (record_set r field item) nd) xs))" for field xs
    by (intro keeps_xseq keeps_route_to [OF assms])
  from keepsD2 [OF this] show ?thesis
    by (intro keepsI) (auto simp: apply_foreach_def Let_def ret_def split: prod.splits option.splits
        dest!: R_eval_items)
qed

lemma keeps_parallel:
  assumes "\<And>r i. keeps (k r i)"
  shows "keeps (apply_parallel env k branches r)"
proof -
  have "keeps (xseq (map (k r') branches))" for r' by (intro keeps_xseq assms)
  from keepsD2 [OF this] show ?thesis
    by (intro keepsI) (auto simp: apply_parallel_def Let_def split: prod.splits dest!: R_correlate)
qed

lemma keeps_join:
  assumes "\<And>r i. keeps (k r i)"
  shows "keeps (apply_join env k nd r)"
proof (rule keepsI)
  fix st res st'
  assume a: "apply_join env k nd r st = Some (res, st')"
  obtain c st1 where c: "correlation_of env r st = (c, st1)" by fastforce
  have 1: "R st st1" using R_correlation_of [OF c] .
  show "R st st'"
  proof (cases "im_get (x_joins st1) (n_id nd)")
    case None
    then show ?thesis using a c 1 by (simp add: apply_join_def ret_def)
  next
    case (Some b)
    obtain group b' where g: "join_push c r b = (group, b')" by fastforce
    have 2: "R st (set_join (n_id nd) b' st1)" by (rule trans [OF 1 r_join])
    show ?thesis
    proof (cases group)
      case None
      then show ?thesis using a c Some g 2 by (simp add: apply_join_def ret_def)
    next
      case gs: (Some rs)
      obtain m st3 where m: "merge_records env rs (set_join (n_id nd) b' st1) = (m, st3)" by fastforce
      have "R st st3" by (rule trans [OF 2 R_merge [OF m]])
      then show ?thesis
        using a c Some g gs m keepsD2 [OF keeps_route_to [OF assms]] by (simp add: apply_join_def)
    qed
  qed
qed

lemma keeps_batch:
  assumes "\<And>r i. keeps (k r i)"
  shows "keeps (apply_batch env k nd sz win r)"
proof -
  have tb: "R st (set_tick t (set_batch i b st))" for st t i b by (rule trans [OF r_batch r_tick])
  show ?thesis
    by (intro keepsI) (auto simp: apply_batch_def Let_def ret_def refl tb split: option.splits prod.splits
        dest: keepsD2 [OF keeps_emit_batch [OF assms] tb])
qed

lemma keeps_state:
  assumes "\<And>r i. keeps (k r i)"
    and nd: "graph_node (e_graph env) (n_id nd) = Some nd" "n_step nd = NControl (State exprs)"
  shows "keeps (apply_state env k nd exprs r)"
  by (rule keepsI) (auto simp: apply_state_def ret_def split: prod.splits option.splits
      dest!: R_eval_state intro: keepsD2 [OF keeps_route_to [OF assms(1)]] trans [OF _ R_update_state [OF nd]])

lemma keeps_approve:
  assumes "\<And>r i. keeps (k r i)"
  shows "keeps (apply_approve env k nd r)"
  by (rule keepsI) (auto simp: apply_approve_def ret_def split: prod.splits sum.splits if_splits
      dest!: R_park intro: keepsD [OF keeps_route_to [OF assms]] trans [OF _ r_error] trans [OF _ r_waiting])

lemma keeps_control:
  assumes "\<And>r i. keeps (k r i)"
    and "graph_node (e_graph env) (n_id nd) = Some nd" "n_step nd = NControl c"
  shows "keeps (apply_control env k nd c r)"
  using assms by (cases c) (simp_all add: keeps_switch keeps_foreach keeps_loop keeps_parallel keeps_join
      keeps_route_to keeps_batch keeps_state keeps_approve)

lemma R_save_states: "e_store env = Some ops \<Longrightarrow> R st (save_states ops i vs st)"
  unfolding save_states_def
  by (induction vs arbitrary: st) (auto simp: refl intro: trans [OF r_save])

lemma R_checkpoint: "R st (checkpoint env st)"
  by (auto simp: checkpoint_def refl intro: trans [OF R_save_states r_since] split: option.splits)

lemma R_maybe_checkpoint: "R st (maybe_checkpoint env st)"
  by (auto simp: maybe_checkpoint_def Let_def refl r_since intro: trans [OF r_since R_checkpoint]
      split: option.splits)

lemma R_mark: "R st (mark_delivered env r st)"
  by (auto simp: mark_delivered_def refl r_save split: option.splits)

lemma R_deliver:
  assumes "graph_node (e_graph env) (n_id nd) = Some nd" "n_step nd = NSink sk"
  shows "R st (deliver env nd sk r st)"
proof (cases "is_delivered env r st")
  case False
  obtain res st1 where c: "call_component (k_send sk r) st = (res, st1)" by fastforce
  have "R st1 (maybe_checkpoint env (note_delivered (n_id nd) ns (mark_delivered env r st1)))" for ns
    by (rule trans [OF trans [OF R_mark r_delivered [OF assms]] R_maybe_checkpoint])
  then show ?thesis using False c R_call [OF c] R_failure
    by (cases res) (auto simp: deliver_def Let_def intro: trans)
qed (simp add: deliver_def r_duplicate)

lemma R_passes_when: "passes_when env nd r st = (b, st') \<Longrightarrow> R st st'"
  by (auto simp: passes_when_def refl split: option.splits prod.splits sum.splits dest: R_eval
      intro: trans [OF _ trans [OF r_failed r_ring]])

lemma keeps_run_step:
  assumes "\<And>r i. keeps (k r i)" "graph_node (e_graph env) (n_id nd) = Some nd"
  shows "keeps (run_step env k nd r)"
proof (cases "n_step nd")
  case (NSink sk)
  then show ?thesis using keeps_ret R_deliver [OF assms(2)] by (simp add: run_step_def)
qed (use assms keeps_route_to keeps_control keeps_try_transform in
    \<open>auto simp: run_step_def apply_transform_def\<close>)

lemma keeps_walk:
  assumes "\<And>i nd. graph_node (e_graph env) i = Some nd \<Longrightarrow> n_id nd = i"
  shows "keeps (walk env n r i)"
proof (induction n arbitrary: r i)
  case 0
  show ?case by (simp add: keeps_def)
next
  case (Suc n)
  show ?case
  proof (rule keepsI)
    fix st res st'
    assume a: "walk env (Suc n) r i st = Some (res, st')"
    show "R st st'"
    proof (cases "graph_node (e_graph env) i")
      case None
      then show ?thesis using a by (simp add: walk_node_def ret_def refl)
    next
      case (Some nd)
      obtain b st1 where b: "passes_when env nd r st = (b, st1)" by fastforce
      have "keeps (run_step env (walk env n) nd r)"
        using Suc assms [OF Some] Some by (intro keeps_run_step) simp_all
      from keepsD2 [OF this R_passes_when [OF b]] show ?thesis
        using a Some b R_passes_when [OF b] by (cases b) (auto simp: walk_node_def ret_def)
    qed
  qed
qed

lemma keeps_take_item:
  assumes "\<And>i nd. graph_node (e_graph env) i = Some nd \<Longrightarrow> n_id nd = i"
  shows "keeps (take_item env n i item)"
  using keeps_walk [OF assms] keeps_ret [OF R_edge_error] by (cases item) (auto simp: take_item_def)

lemma keeps_run_source:
  assumes "\<And>i nd. graph_node (e_graph env) i = Some nd \<Longrightarrow> n_id nd = i"
  shows "keeps (run_source env n i)"
proof -
  have "keeps (xseq (map (take_item env n i) items))" for items
    by (intro keeps_xseq keeps_take_item [OF assms])
  from keepsD2 [OF this r_world] show ?thesis
    by (intro keepsI) (auto simp: run_source_def ret_def refl r_world
        split: option.splits node_step.splits prod.splits sum.splits)
qed

lemma keeps_run_sources:
  assumes "\<And>i nd. graph_node (e_graph env) i = Some nd \<Longrightarrow> n_id nd = i"
  shows "keeps (run_sources env n roots)"
proof (induction roots)
  case Nil
  show ?case by (simp add: keeps_def ret_def refl)
next
  case (Cons i roots)
  show ?case
    by (rule keepsI) (auto split: option.splits prod.splits
        intro: trans [OF keepsD [OF keeps_run_source [OF assms]] keepsD [OF Cons.IH]])
qed

lemma keeps_flush_all:
  assumes "\<And>i nd. graph_node (e_graph env) i = Some nd \<Longrightarrow> n_id nd = i"
  shows "keeps (flush_all env n)"
proof -
  have w: "keeps (walk env n r i)" for r i using assms by (rule keeps_walk)
  have "keeps (flush_batch env n i)" for i
    by (rule keepsI) (auto simp: flush_batch_def ret_def Let_def refl r_batch
        split: option.splits if_splits dest: keepsD2 [OF keeps_emit_batch [OF w] r_batch])
  then have "keeps (xseq (map (flush_batch env n) is))" for "is" by (intro keeps_xseq)
  then have "keeps (flush_batches env n)" by (auto simp: keeps_def flush_batches_def)
  moreover have "keeps (flush_sink env i)" for i
    by (rule keepsI) (auto simp: flush_sink_def ret_def refl r_world split: option.splits node_step.splits prod.splits)
  then have "keeps (flush_sinks env)" unfolding flush_sinks_def by (intro keeps_xseq)
  ultimately show ?thesis
    unfolding flush_all_def by (intro keeps_xthen keeps_ret R_checkpoint)
qed

lemma run_respects:
  assumes "graph_wf (e_graph env)" "run env n st = Some (res, st')"
  shows "R st st'"
proof -
  have ids: "n_id nd = i" if "graph_node (e_graph env) i = Some nd" for i nd
    using graph_wf_node [OF assms(1) that] by (simp add: node_wf_def)
  have "keeps (xthen (run_sources env n (g_roots (e_graph env))) (flush_all env n))"
    by (intro keeps_xthen keeps_run_sources keeps_flush_all ids)
  then show ?thesis using assms(2)
    by (auto simp: run_def keeps_def split: option.splits sum.splits)
qed

lemma walk_respects:
  assumes "graph_wf (e_graph env)" "walk env n r i st = Some (res, st')"
  shows "R st st'"
  using keepsD [OF keeps_walk assms(2)] graph_wf_node [OF assms(1)] by (auto simp: node_wf_def)

end

end
