(* ===== verification/Executor_Props.thy ===== *)
theory Executor_Props
  imports Executor_Laws
begin

text \<open>
  Properties of the executor: termination, accounting, error policies, and the behaviour of
  buffers, loops and sinks.  Each invariant is an interpretation of the locale \<open>run_relation\<close>.
\<close>

section \<open>Invariants\<close>

lemmas step_defs = set_tick_def set_world_def set_join_def set_batch_def set_state_def set_since_def
  count_error_def count_waiting_def count_duplicate_def record_error_def store_save_def

definition counters_le :: "('w, 's) xstate \<Rightarrow> ('w, 's) xstate \<Rightarrow> bool" where
  "counters_le a b \<longleftrightarrow> x_processed a \<le> x_processed b \<and> x_filtered a \<le> x_filtered b \<and>
     x_errors a \<le> x_errors b \<and> x_waiting a \<le> x_waiting b \<and> x_duplicates a \<le> x_duplicates b"

interpretation counting: run_relation env counters_le for env
  by unfold_locales (auto simp: counters_le_def step_defs tick_step_def note_failed_def
      note_filtered_def note_passed_def note_delivered_def split: prod.splits)

definition ring_bounded :: "('w, 's) xstate \<Rightarrow> bool" where
  "ring_bounded st \<longleftrightarrow> length (x_ring st) \<le> error_ring_cap"

lemma length_ring_record:
  "length events \<le> error_ring_cap \<Longrightarrow> length (ring_record ev events) \<le> error_ring_cap"
  by (auto simp: ring_record_def error_ring_cap_def)

interpretation ring: run_relation env "\<lambda>a b. ring_bounded a \<longrightarrow> ring_bounded b" for env
  by unfold_locales (auto simp: ring_bounded_def step_defs tick_step_def note_failed_def
      note_filtered_def note_passed_def note_delivered_def length_ring_record split: prod.splits)

text \<open>Sums of a statistic over the steps that satisfy a predicate.\<close>

definition step_sum :: "(string \<Rightarrow> bool) \<Rightarrow> (step_stat \<Rightarrow> nat) \<Rightarrow> ('w, 's) xstate \<Rightarrow> nat" where
  "step_sum P f st = sum_list (map (\<lambda>(i, s). if P i then f s else 0) (x_steps st))"

lemma sum_bt_insert:
  assumes "bt_wf m"
  shows "sum_list (map (\<lambda>(i, s). g i s) (bt_insert i s m)) +
      (case map_of m i of None \<Rightarrow> 0 | Some old \<Rightarrow> g i old) =
    g i s + (sum_list (map (\<lambda>(i, s). g i s) m) :: nat)"
  using assms
proof (induction i s m rule: bt_insert.induct)
  case (2 i s j t m)
  have "bt_wf m" using "2.prems" by (simp add: bt_wf_def)
  moreover have "map_of m i = None" if "i \<le> j"
    using "2.prems" that by (auto simp: bt_wf_def map_of_eq_None_iff)
  ultimately show ?case using "2.IH" by (cases i j rule: linorder_cases) auto
qed simp

lemma step_sum_tick:
  assumes "bt_wf (x_steps st)" "f stat_zero = 0" "\<And>s. f (u s) = f s + d"
  shows "step_sum P f (tick_step i u st) = step_sum P f st + (if P i then d else 0)"
  using sum_bt_insert [OF assms(1), of "\<lambda>i s. if P i then f s else 0" i
      "u (case map_of (x_steps st) i of None \<Rightarrow> stat_zero | Some s \<Rightarrow> s)"] assms(2,3)
  by (auto simp: step_sum_def tick_step_def split: option.splits)

lemma bt_wf_tick_step [simp]: "bt_wf (x_steps st) \<Longrightarrow> bt_wf (x_steps (tick_step i u st))"
  by (simp add: tick_step_def)

definition filtered_balanced :: "('w, 's) xstate \<Rightarrow> bool" where
  "filtered_balanced st \<longleftrightarrow> bt_wf (x_steps st) \<and> x_filtered st = step_sum (\<lambda>_. True) ss_filtered st"

lemma step_sum_frame [simp]:
  "step_sum P f (st\<lparr>x_filtered := n\<rparr>) = step_sum P f st"
  "step_sum P f (st\<lparr>x_processed := n\<rparr>) = step_sum P f st"
  "step_sum P f (st\<lparr>x_errors := n\<rparr>) = step_sum P f st"
  "step_sum P f (st\<lparr>x_waiting := n\<rparr>) = step_sum P f st"
  "step_sum P f (st\<lparr>x_duplicates := n\<rparr>) = step_sum P f st"
  "step_sum P f (st\<lparr>x_ring := r\<rparr>) = step_sum P f st"
  "step_sum P f (st\<lparr>x_joins := js\<rparr>) = step_sum P f st"
  "step_sum P f (st\<lparr>x_batches := bs\<rparr>) = step_sum P f st"
  "step_sum P f (st\<lparr>x_since := n\<rparr>) = step_sum P f st"
  "step_sum P f (st\<lparr>x_states := vs\<rparr>) = step_sum P f st"
  "step_sum P f (st\<lparr>x_store := s\<rparr>) = step_sum P f st"
  "step_sum P f (st\<lparr>x_world := w\<rparr>) = step_sum P f st"
  "step_sum P f (st\<lparr>x_tick := n\<rparr>) = step_sum P f st"
  by (simp_all add: step_sum_def)

lemma tick_step_sums:
  assumes "bt_wf (x_steps st)"
  shows "step_sum P ss_processed (tick_step i (\<lambda>s. s\<lparr>ss_processed := Suc (ss_processed s), ss_nanos := ss_nanos s + ns\<rparr>) st) =
      step_sum P ss_processed st + (if P i then 1 else 0)"
    and "step_sum P ss_filtered (tick_step i (\<lambda>s. s\<lparr>ss_filtered := Suc (ss_filtered s), ss_nanos := ss_nanos s + ns\<rparr>) st) =
      step_sum P ss_filtered st + (if P i then 1 else 0)"
    and "step_sum P ss_filtered (tick_step i (\<lambda>s. s\<lparr>ss_processed := Suc (ss_processed s), ss_nanos := ss_nanos s + ns\<rparr>) st) =
      step_sum P ss_filtered st"
    and "step_sum P ss_filtered (tick_step i (\<lambda>s. s\<lparr>ss_errors := Suc (ss_errors s), ss_nanos := ss_nanos s + ns\<rparr>) st) =
      step_sum P ss_filtered st"
    and "step_sum P ss_processed (tick_step i (\<lambda>s. s\<lparr>ss_filtered := Suc (ss_filtered s), ss_nanos := ss_nanos s + ns\<rparr>) st) =
      step_sum P ss_processed st"
    and "step_sum P ss_processed (tick_step i (\<lambda>s. s\<lparr>ss_errors := Suc (ss_errors s), ss_nanos := ss_nanos s + ns\<rparr>) st) =
      step_sum P ss_processed st"
    and "step_sum P ss_errors (tick_step i (\<lambda>s. s\<lparr>ss_errors := Suc (ss_errors s), ss_nanos := ss_nanos s + ns\<rparr>) st) =
      step_sum P ss_errors st + (if P i then 1 else 0)"
    and "step_sum P ss_errors (tick_step i (\<lambda>s. s\<lparr>ss_processed := Suc (ss_processed s), ss_nanos := ss_nanos s + ns\<rparr>) st) =
      step_sum P ss_errors st"
    and "step_sum P ss_errors (tick_step i (\<lambda>s. s\<lparr>ss_filtered := Suc (ss_filtered s), ss_nanos := ss_nanos s + ns\<rparr>) st) =
      step_sum P ss_errors st"
  by (simp_all add: step_sum_tick [OF assms, where d = 1] step_sum_tick [OF assms, where d = 0]
      stat_zero_def)

lemma tick_step_fields [simp]:
  "x_processed (tick_step i u st) = x_processed st" "x_filtered (tick_step i u st) = x_filtered st"
  "x_errors (tick_step i u st) = x_errors st"
  by (simp_all add: tick_step_def)

interpretation filtering: run_relation env "\<lambda>a b. filtered_balanced a \<longrightarrow> filtered_balanced b" for env
  by unfold_locales (auto simp: filtered_balanced_def step_defs note_failed_def note_filtered_def
      note_passed_def note_delivered_def tick_step_sums split: prod.splits)

text \<open>The processed counter counts deliveries: it is the sum over the sinks' own counters.\<close>

definition is_sink_id :: "('w, 's) xenv \<Rightarrow> string \<Rightarrow> bool" where
  "is_sink_id env i =
     (case graph_node (e_graph env) i of None \<Rightarrow> False | Some nd \<Rightarrow> is_sink_step (n_step nd))"

definition processed_balanced :: "('w, 's) xenv \<Rightarrow> ('w, 's) xstate \<Rightarrow> bool" where
  "processed_balanced env st \<longleftrightarrow>
     bt_wf (x_steps st) \<and> x_processed st = step_sum (is_sink_id env) ss_processed st"

interpretation delivering: run_relation env
    "\<lambda>a b. processed_balanced env a \<longrightarrow> processed_balanced env b" for env
  by unfold_locales (auto simp: processed_balanced_def is_sink_id_def step_defs note_failed_def
      note_filtered_def note_passed_def note_delivered_def tick_step_sums split: prod.splits)

text \<open>Errors of sources, edge guards and control steps are counted for no step.\<close>

definition errors_covered :: "('w, 's) xstate \<Rightarrow> bool" where
  "errors_covered st \<longleftrightarrow> bt_wf (x_steps st) \<and> step_sum (\<lambda>_. True) ss_errors st \<le> x_errors st"

interpretation failing: run_relation env "\<lambda>a b. errors_covered a \<longrightarrow> errors_covered b" for env
  by unfold_locales (auto simp: errors_covered_def step_defs note_failed_def note_filtered_def
      note_passed_def note_delivered_def tick_step_sums split: prod.splits)

section \<open>A concrete flow\<close>

text \<open>
  A source of two records, a transform and a sink that collects into the world: used to evaluate
  the properties at concrete inputs.
\<close>

definition sample :: "string \<Rightarrow> rec" where
  "sample i = record_new i ''now'' (JObject [(''id'', JString i)])"

definition sample_registry :: "rec list transform \<Rightarrow> rec list registry" where
  "sample_registry f =
     [((KSource, ''two''), \<lambda>_ _. Inr (BSource (vec_source [sample ''a'', sample ''b'']))),
      ((KTransform, ''f''), \<lambda>_ _. Inr (BTransform f)),
      ((KSink, ''vec''), \<lambda>_ _. Inr (BSink vec_sink))]"

definition sample_flow :: flow_config where
  "sample_flow = demo_flow [demo_step ''in'' KSource ''two'', demo_step ''map'' KTransform ''f'',
     demo_step ''out'' KSink ''vec''] []"

definition sample_graph :: "rec list transform \<Rightarrow> rec list flow_graph" where
  "sample_graph f =
     projr (the (graph_build rev sample_flow (sample_registry f) (flow_context sample_flow None)))"

definition sample_config :: "'s store_ops option \<Rightarrow> (rec list, 's) run_config" where
  "sample_config store = \<lparr>rc_store = store, rc_resume = False, rc_every = Some 1, rc_host = idle_host,
     rc_clock = (\<lambda>n. n), rc_hash = (\<lambda>v. case v of JObject [(_, JString s)] \<Rightarrow> s | _ \<Rightarrow> ''0''), rc_order = rev\<rparr>"

lemma sample_graph_nodes: "map fst (g_nodes (sample_graph f)) = [''in'', ''map'', ''out'']"
  by code_simp

lemma sample_graph_wf: "graph_wf (sample_graph f)"
proof -
  let ?b = "graph_build rev sample_flow (sample_registry f) (flow_context sample_flow None)"
  have "map_option isl ?b = Some False" by code_simp
  then have "?b = Some (Inr (sample_graph f))" unfolding sample_graph_def
    by (cases ?b; cases "the ?b") auto
  then show ?thesis by (rule graph_build_wf [OF hash_order_rev])
qed

lemma balanced_new:
  "executor_new g vars cfg s w = (env, st) \<Longrightarrow>
   filtered_balanced st \<and> processed_balanced env st \<and> ring_bounded st \<and> errors_covered st"
  by (auto simp: executor_new_def filtered_balanced_def processed_balanced_def errors_covered_def
      ring_bounded_def step_sum_def error_ring_cap_def Let_def split: prod.splits)

lemma executor_new_env:
  "e_graph (fst (executor_new g vars cfg s w)) = g"
  by (simp add: executor_new_def Let_def split: prod.splits)

section \<open>Properties\<close>

text \<open>
  C13. A run of an accepted graph ends: with any depth bound above the number of nodes the executor
  returns a result, and the bound does not influence it.
\<close>

theorem run_terminates:
  assumes "graph_wf (e_graph env)" "length (g_nodes (e_graph env)) < n"
  shows "\<exists>res st'. run env n st = Some (res, st') \<and>
    run env (Suc (length (g_nodes (e_graph env)))) st = Some (res, st')"
  using same_run [OF walk_enough [OF assms], of st] by auto

theorem run_terminates_witness:
  "let (env, st) = executor_new (sample_graph (map_transform id)) [] (sample_config (Some memory_store)) [] [] in
   \<exists>res st'. run env 4 st = Some (res, st') \<and> x_world st' = [sample ''a'', sample ''b'']"
proof -
  let ?x = "executor_new (sample_graph (map_transform id)) [] (sample_config (Some memory_store)) [] []"
  have wf: "graph_wf (e_graph (fst ?x))" by (simp add: executor_new_env sample_graph_wf)
  have "length (g_nodes (e_graph (fst ?x))) < 4"
    using arg_cong [OF sample_graph_nodes, of length] by (simp add: executor_new_env)
  from run_terminates [OF wf this, of "snd ?x"] obtain res st' where
    r: "run (fst ?x) 4 (snd ?x) = Some (res, st')" by blast
  moreover have "map_option (\<lambda>(_, st). x_world st) (run (fst ?x) 4 (snd ?x)) =
      Some [sample ''a'', sample ''b'']" by code_simp
  ultimately show ?thesis by (auto simp: case_prod_unfold)
qed

text \<open>
  C2. The filtered and processed counters of a run are sums over its steps.  For an executor just
  created, after any run (complete or stopped by an error) the filtered counter is the sum of the
  steps' filtered counters, the processed counter is the sum of the sinks' processed counters
  (transforms do not count), the error counter is at least the sum of the steps' error counters
  (those of sources, edge guards and control steps are counted for no step), and the error ring holds at most its
  100 newest events.  (There are no per-step counters of waiting records and duplicates.)
\<close>

theorem run_accounting:
  assumes "graph_wf g" "executor_new g vars cfg s w = (env, st)" "run env n st = Some (res, st')"
  shows "x_filtered st' = step_sum (\<lambda>_. True) ss_filtered st' \<and>
    x_processed st' = step_sum (is_sink_id env) ss_processed st' \<and>
    step_sum (\<lambda>_. True) ss_errors st' \<le> x_errors st' \<and>
    length (x_ring st') \<le> error_ring_cap"
proof -
  have env: "graph_wf (e_graph env)" using assms(1,2) executor_new_env [of g vars cfg s w] by simp
  show ?thesis
    using balanced_new [OF assms(2)] filtering.run_respects [OF env assms(3)] delivering.run_respects [OF env assms(3)]
      ring.run_respects [OF env assms(3)] failing.run_respects [OF env assms(3)]
    by (simp add: filtered_balanced_def processed_balanced_def ring_bounded_def errors_covered_def)
qed

theorem run_accounting_witness:
  "let (env, st) = executor_new (sample_graph (filter_transform (\<lambda>r. rid r = ''a''))) []
     (sample_config None) () [] in
   \<exists>res st'. run env 4 st = Some (res, st') \<and> x_processed st' = 1 \<and> x_filtered st' = 1 \<and>
     step_sum (\<lambda>_. True) ss_filtered st' = 1 \<and> step_sum (is_sink_id env) ss_processed st' = 1"
proof -
  let ?g = "sample_graph (filter_transform (\<lambda>r. rid r = ''a''))"
  let ?x = "executor_new ?g [] (sample_config None) () []"
  have v: "map_option (\<lambda>(_, st). (x_processed st, x_filtered st)) (run (fst ?x) 4 (snd ?x)) = Some (1, 1)"
    by code_simp
  then obtain res st' where r: "run (fst ?x) 4 (snd ?x) = Some (res, st')"
    "x_processed st' = 1" "x_filtered st' = 1" by auto
  from run_accounting [OF sample_graph_wf _ r(1), of "filter_transform (\<lambda>r. rid r = ''a'')" "[]"
      "sample_config None" "()" "[]"] r
  show ?thesis by (auto simp: case_prod_unfold)
qed

end
