(* ===== verification/Executor_Steps.thy ===== *)
theory Executor_Steps
  imports Executor_Props
begin

text \<open>
  What single steps of the executor do: retries, sinks, and idempotent delivery with a store.
\<close>

section \<open>Retries\<close>

text \<open>The world after \<open>n\<close> calls of a transform on the same record.\<close>

fun after_calls :: "'w transform \<Rightarrow> rec \<Rightarrow> nat \<Rightarrow> 'w \<Rightarrow> 'w" where
  "after_calls f r 0 w = w"
| "after_calls f r (Suc n) w = after_calls f r n (snd (f r w))"

fun failure_of :: "error + outcome \<Rightarrow> error option" where
  "failure_of (Inl e) = Some e"
| "failure_of (Inr (Fail e)) = Some e"
| "failure_of (Inr _) = None"

lemma settle_failure:
  "failure_of res = Some e \<Longrightarrow> settle env k nd ns res retry st = on_failure env nd ns e retry st"
  by (cases res rule: failure_of.cases) (simp_all add: settle_def)

lemma note_failure_fields [simp]:
  "x_world (note_failure env nd ns kind e st) = x_world st"
  "x_errors (note_failure env nd ns kind e st) = Suc (x_errors st)"
  "x_processed (note_failure env nd ns kind e st) = x_processed st"
  "x_filtered (note_failure env nd ns kind e st) = x_filtered st"
  by (simp_all add: note_failure_def record_error_def note_failed_def tick_step_def count_error_def)

lemma call_component_fields:
  "call_component f st = (res, st1) \<Longrightarrow> res = fst (f (x_world st)) \<and> x_world st1 = snd (f (x_world st)) \<and>
    x_errors st1 = x_errors st \<and> x_processed st1 = x_processed st \<and> x_filtered st1 = x_filtered st \<and>
    x_store st1 = x_store st \<and> x_duplicates st1 = x_duplicates st"
  by (auto simp: call_component_def set_tick_def set_world_def split: prod.splits)

lemma try_transform_fails:
  assumes "\<And>j. j \<le> n \<Longrightarrow> failure_of (fst (f r (after_calls f r j (x_world st)))) \<noteq> None"
  shows "\<exists>st' e. failure_of (fst (f r (after_calls f r n (x_world st)))) = Some e \<and>
    try_transform env k nd f r n st =
      Some (case n_policy nd of PContinue \<Rightarrow> Inr () | _ \<Rightarrow> Inl e, st') \<and>
    x_world st' = after_calls f r (Suc n) (x_world st) \<and> x_errors st' = Suc (x_errors st) \<and>
    x_processed st' = x_processed st \<and> x_filtered st' = x_filtered st"
  using assms
proof (induction n arbitrary: st)
  case 0
  obtain res st1 where c: "call_component (f r) st = (res, st1)" by fastforce
  obtain e where e: "failure_of (fst (f r (x_world st))) = Some e" using "0" [of 0] by auto
  then have "failure_of res = Some e" using call_component_fields [OF c] by simp
  then show ?case using c e call_component_fields [OF c]
    by (auto simp: settle_failure on_failure_def split: error_policy.splits)
next
  case (Suc n)
  obtain res st1 where c: "call_component (f r) st = (res, st1)" by fastforce
  note cf = call_component_fields [OF c]
  obtain e where "failure_of (fst (f r (x_world st))) = Some e" using Suc.prems [of 0] by auto
  then have "failure_of res = Some e" using cf by simp
  then have t: "try_transform env k nd f r (Suc n) st = try_transform env k nd f r n st1"
    using c by (simp add: settle_failure on_failure_def)
  have "failure_of (fst (f r (after_calls f r j (x_world st1)))) \<noteq> None" if "j \<le> n" for j
    using Suc.prems [of "Suc j"] that cf by simp
  from Suc.IH [OF this] show ?case using t cf by simp
qed

section \<open>Delivery\<close>

lemma x_store_frame [simp]:
  "x_store (set_tick t st) = x_store st" "x_store (set_world w st) = x_store st"
  "x_store (set_since n st) = x_store st" "x_store (tick_step i u st) = x_store st"
  "x_store (note_delivered i ns st) = x_store st" "x_store (set_join i jb st) = x_store st"
  "x_store (set_batch i bb st) = x_store st" "x_store (set_state i v st) = x_store st"
  "x_store (count_error st) = x_store st" "x_store (count_waiting st) = x_store st"
  "x_store (count_duplicate st) = x_store st" "x_store (record_error env i kind msg st) = x_store st"
  "x_store (note_failed i ns st) = x_store st" "x_store (note_filtered i ns st) = x_store st"
  "x_store (note_passed i ns st) = x_store st"
  by (simp_all add: step_defs tick_step_def note_delivered_def note_failed_def note_filtered_def
      note_passed_def)

lemma x_store_save [simp]: "x_store (snd (store_save ops k v st)) = snd (s_save ops k v (x_store st))"
  by (simp add: store_save_def split: prod.splits)

text \<open>A run over a lawful store: what was delivered stays delivered.\<close>

locale durable_run = state_store ops for ops :: "'s store_ops" +
  fixes env :: "('w, 's) xenv"
  assumes store: "e_store env = Some ops"
begin

lemma delivered_iff:
  "is_delivered env r st \<longleftrightarrow> (\<exists>v. s_load ops (delivered_key env r) (x_store st) = Inr (Some v))"
  by (auto simp: is_delivered_def store split: sum.splits option.splits)

definition marks_kept :: "('w, 's) xstate \<Rightarrow> ('w, 's) xstate \<Rightarrow> bool" where
  "marks_kept a b \<longleftrightarrow> (\<forall>r. is_delivered env r a \<longrightarrow> is_delivered env r b)"

lemma marks_kept_save: "marks_kept st (snd (store_save ops k v st))"
  by (auto simp: marks_kept_def delivered_iff load_save)

end

sublocale durable_run \<subseteq> marking: run_relation env marks_kept
  by unfold_locales (use marks_kept_save store in \<open>auto simp: marks_kept_def delivered_iff\<close>)

context durable_run
begin

lemmas run_keeps_marks = marking.run_respects

lemma delivered_mark: "is_delivered env r (mark_delivered env r st)"
  by (simp add: mark_delivered_def store delivered_iff load_save)

lemma delivered_frame: "x_store a = x_store b \<Longrightarrow> is_delivered env r a = is_delivered env r b"
  by (simp add: delivered_iff)

lemma deliver_marks:
  assumes "\<not> is_delivered env r st" "fst (k_send sk r (x_world st)) = Inr ()"
  shows "is_delivered env r (deliver env nd sk r st) \<and>
    x_world (deliver env nd sk r st) = snd (k_send sk r (x_world st))"
proof -
  obtain res st1 where c: "call_component (k_send sk r) st = (res, st1)" by fastforce
  let ?st2 = "\<lambda>ns. note_delivered (n_id nd) ns (mark_delivered env r st1)"
  have "is_delivered env r (maybe_checkpoint env (?st2 ns))" for ns
    using marking.R_maybe_checkpoint [of "?st2 ns"] delivered_mark [of r st1]
      delivered_frame [of "?st2 ns" "mark_delivered env r st1" r] by (simp add: marks_kept_def)
  moreover have "x_world (save_states ops' i vs s) = x_world s" for ops' i vs and s :: "('w, 's) xstate"
    unfolding save_states_def by (induction vs arbitrary: s) (auto simp: store_save_def split: prod.splits)
  then have "x_world (maybe_checkpoint env (?st2 ns)) = x_world st1" for ns
    by (auto simp: maybe_checkpoint_def checkpoint_def mark_delivered_def note_delivered_def
        tick_step_def set_since_def store_save_def Let_def split: option.splits prod.splits)
  ultimately show ?thesis
    using assms c call_component_fields [OF c] by (simp add: deliver_def Let_def)
qed

end

interpretation mem_run: durable_run memory_store "env\<lparr>e_store := Some memory_store\<rparr>" for env
  by unfold_locales simp

interpretation file_run: durable_run "json_file_store e" "env\<lparr>e_store := Some (json_file_store e)\<rparr>" for e env
  by unfold_locales simp

lemma walk_sink:
  assumes "graph_node (e_graph env) i = Some nd" "n_step nd = NSink sk" "n_when nd = None"
  shows "walk env (Suc n) r i st = Some (Inr (), deliver env nd sk r st)"
  using assms by (simp add: walk_node_def passes_when_def run_step_def ret_def)

lemma deliver_duplicate: "is_delivered env r st \<Longrightarrow> deliver env nd sk r st = count_duplicate st"
  by (simp add: deliver_def)

lemma deliver_duplicates: "\<not> is_delivered env r st \<Longrightarrow> x_duplicates (deliver env nd sk r st) = x_duplicates st"
proof -
  assume n: "\<not> is_delivered env r st"
  obtain res st1 where c: "call_component (k_send sk r) st = (res, st1)" by fastforce
  have "x_duplicates (save_states ops i vs s) = x_duplicates s" for ops i vs and s :: "('a, 'b) xstate"
    unfolding save_states_def by (induction vs arbitrary: s) (auto simp: store_save_def split: prod.splits)
  then have "x_duplicates (maybe_checkpoint env (note_delivered j ns (mark_delivered env r st1))) =
      x_duplicates st1" for j ns
    by (auto simp: maybe_checkpoint_def checkpoint_def mark_delivered_def note_delivered_def
        tick_step_def set_since_def store_save_def Let_def split: option.splits prod.splits)
  moreover have "x_duplicates (note_failure env nd ns kind e st1) = x_duplicates st1" for ns kind e
    by (simp add: note_failure_def record_error_def note_failed_def tick_step_def count_error_def)
  ultimately show ?thesis
    using n c call_component_fields [OF c] by (auto simp: deliver_def Let_def split: sum.splits)
qed

section \<open>Properties\<close>

text \<open>
  Error policies.  When a transform fails on every attempt its policy allows (retries plus one),
  it has been called exactly that often, nothing has been routed, exactly one error has been
  counted, and the walk goes on under \<^verbatim>\<open>continue\<close> and stops with the last error otherwise.
\<close>

theorem retry_exhausted:
  assumes "\<And>j. j \<le> retries (n_policy nd) \<Longrightarrow>
    failure_of (fst (f r (after_calls f r j (x_world st)))) \<noteq> None"
  shows "\<exists>e st'. failure_of (fst (f r (after_calls f r (retries (n_policy nd)) (x_world st)))) = Some e \<and>
    apply_transform env k nd f r st = Some (case n_policy nd of PContinue \<Rightarrow> Inr () | _ \<Rightarrow> Inl e, st') \<and>
    x_world st' = after_calls f r (Suc (retries (n_policy nd))) (x_world st) \<and>
    x_errors st' = Suc (x_errors st) \<and> x_processed st' = x_processed st \<and> x_filtered st' = x_filtered st"
  using try_transform_fails [of "retries (n_policy nd)" f r st env k nd, OF assms]
  unfolding apply_transform_def by blast

definition failing :: "nat transform" where
  "failing r w = (Inl Err_Timeout, Suc w)"

definition idle_state :: "'w \<Rightarrow> 's \<Rightarrow> ('w, 's) xstate" where
  "idle_state w s = \<lparr>x_processed = 0, x_filtered = 0, x_errors = 0, x_waiting = 0, x_duplicates = 0,
     x_steps = [], x_ring = [], x_joins = [], x_batches = [], x_since = 0, x_states = [],
     x_store = s, x_world = w, x_tick = 0\<rparr>"

definition plain_node :: "string \<Rightarrow> 'w node_step \<Rightarrow> string list \<Rightarrow> 'w node" where
  "plain_node i step targets = \<lparr>n_id = i, n_when = None, n_policy = PFail, n_step = step,
     n_routes = map plain_route targets, n_incoming = 0, n_state = None\<rparr>"

definition plain_env :: "'w node list \<Rightarrow> 's store_ops option \<Rightarrow> ('w, 's) xenv" where
  "plain_env nodes store = \<lparr>e_graph = \<lparr>g_name = ''demo'', g_nodes = map (\<lambda>n. (n_id n, n)) nodes, g_roots = []\<rparr>,
     e_vars = [], e_host = idle_host, e_clock = (\<lambda>n. n), e_hash = (\<lambda>_. ''0''), e_order = rev,
     e_store = store, e_run_id = ''run'', e_flow_name = ''demo'', e_every = None, e_started_at = []\<rparr>"

theorem retry_exhausted_witness:
  "let nd = (plain_node ''t'' (NTransform failing) [])\<lparr>n_policy := PRetry 2 0\<rparr>;
       env = plain_env [nd] None in
   \<exists>st'. apply_transform env (\<lambda>_ _ _. None) nd failing (sample ''a'') (idle_state 0 ()) =
       Some (Inl Err_Timeout, st') \<and> x_world st' = 3 \<and> x_errors st' = 1"
proof -
  let ?nd = "(plain_node ''t'' (NTransform failing) [])\<lparr>n_policy := PRetry 2 0\<rparr>"
  have "failure_of (fst (failing r w)) \<noteq> None" for r w by (simp add: failing_def)
  from retry_exhausted [of ?nd failing "sample ''a''" "idle_state 0 ()" "plain_env [?nd] None" "\<lambda>_ _ _. None",
      OF this]
  show ?thesis by (auto simp: Let_def failing_def numeral_2_eq_2 idle_state_def)
qed

text \<open>
  The part of the delivery key that the record decides (its idempotency key or the hash of its
  payload); the rest is the identifier of the run.
\<close>

definition record_key :: "('w, 's) xenv \<Rightarrow> rec \<Rightarrow> string" where
  "record_key env r =
     (case im_get (metadata r) ''idempotency_key'' of
        Some key \<Rightarrow> key
      | None \<Rightarrow> ''hash-'' @ e_hash env (payload r))"

lemma delivered_key_record: "delivered_key env r = e_run_id env @ '':delivered:'' @ record_key env r"
  by (simp add: delivered_key_def record_key_def)

text \<open>A node that is a sink without a guard.\<close>

definition open_sink :: "('w, 's) xenv \<Rightarrow> string \<Rightarrow> 'w node \<Rightarrow> 'w sink \<Rightarrow> bool" where
  "open_sink env i nd sk \<longleftrightarrow> graph_node (e_graph env) i = Some nd \<and> n_step nd = NSink sk \<and> n_when nd = None"

text \<open>An executor with \<^verbatim>\<open>--resume\<close> takes the identifier the store holds, one without a fresh one.\<close>

lemma executor_resumes:
  assumes "executor_new g vars cfg s w = (env, st)" "rc_store cfg = Some ops" "rc_resume cfg"
    and "s_load ops (run_id_key (g_name g)) s = Inr (Some (JString i))"
  shows "e_graph env = g" "e_store env = Some ops" "e_run_id env = i" "x_store st = s"
  using assms by (auto simp: executor_new_def resolve_run_id_def Let_def)

lemma executor_fresh:
  "executor_new g vars cfg s w = (env, st) \<Longrightarrow> \<not> rc_resume cfg \<Longrightarrow> e_run_id env = h_uuid (rc_host cfg) 0"
  by (auto simp: executor_new_def resolve_run_id_def Let_def split: option.splits)

lemma delivered_lookup:
  "e_store env = Some ops \<Longrightarrow> is_delivered env r st \<longleftrightarrow>
     (\<exists>v. s_load ops (e_run_id env @ '':delivered:'' @ record_key env r) (x_store st) = Inr (Some v))"
  by (auto simp: is_delivered_def delivered_key_record split: sum.splits option.splits)

lemma open_sink_duplicate:
  "open_sink env j nd sk \<Longrightarrow> is_delivered env r st \<Longrightarrow> walk env (Suc n) r j st = Some (Inr (), count_duplicate st)"
  unfolding open_sink_def by (simp add: walk_sink deliver_duplicate del: walk.simps)

lemma still_delivered:
  assumes "state_store ops" "e_store env = Some ops" "graph_wf (e_graph env)" "is_delivered env r a"
    and "b = a \<or> run env m a = Some (res, b)"
  shows "is_delivered env r b"
proof -
  have loc: "durable_run ops env" using assms(1,2) by (simp add: durable_run_def durable_run_axioms_def)
  show ?thesis
    using assms(4,5) durable_run.run_keeps_marks [OF loc assms(3)] by (auto simp: durable_run.marks_kept_def [OF loc])
qed


definition sink_graph :: "rec list flow_graph" where
  "sink_graph = e_graph (plain_env [plain_node ''out'' (NSink vec_sink) []] (None :: unit store_ops option))"

definition sink_config :: "bool \<Rightarrow> (rec list, json imap) run_config" where
  "sink_config resume = \<lparr>rc_store = Some memory_store, rc_resume = resume, rc_every = None, rc_host = idle_host,
     rc_clock = (\<lambda>n. n), rc_hash = (\<lambda>_. ''0''), rc_order = rev\<rparr>"


text \<open>
  The delivery key does not name the sink.  A step that fans a record out to two sinks,
  with a lawful store, delivers it to the first only: the second sink is never called and its
  record is counted as a duplicate.
\<close>

theorem fanout_second_sink_suppressed:
  assumes "state_store ops" "e_store env = Some ops" "n_routes nd = [plain_route i, plain_route j]"
    and "graph_node (e_graph env) i = Some nd1" "n_step nd1 = NSink sk1" "n_when nd1 = None"
    and "graph_node (e_graph env) j = Some nd2" "n_step nd2 = NSink sk2" "n_when nd2 = None"
    and "\<not> is_delivered env r st" "fst (k_send sk1 r (x_world st)) = Inr ()"
  shows "\<exists>st'. route_to env (walk env (Suc n)) r nd st = Some (Inr (), st') \<and>
    x_world st' = snd (k_send sk1 r (x_world st)) \<and> x_duplicates st' = x_duplicates st + 1"
proof -
  have loc: "durable_run ops env" using assms(1,2) by (simp add: durable_run_def durable_run_axioms_def)
  let ?st1 = "deliver env nd1 sk1 r st"
  note d = durable_run.deliver_marks [OF loc assms(10,11), of nd1]
  have "route_to env (walk env (Suc n)) r nd st = Some (Inr (), count_duplicate ?st1)"
    using walk_sink [OF assms(4-6), of n r st] walk_sink [OF assms(7-9), of n r ?st1]
      deliver_duplicate [OF conjunct1 [OF d], of nd2 sk2]
    by (simp add: route_to_def assms(3) route_one_def plain_route_def xthen_def ret_def
        del: walk.simps)
  then show ?thesis
    using d deliver_duplicates [OF assms(10), of nd1 sk1] by (simp add: count_duplicate_def)
qed

theorem fanout_second_sink_suppressed_witness:
  "let src = plain_node ''in'' (NSource (vec_source [])) [''a'', ''b''];
       env = plain_env [src, plain_node ''a'' (NSink vec_sink) [], plain_node ''b'' (NSink vec_sink) []]
         (Some memory_store) in
   \<exists>st'. route_to env (walk env 1) (sample ''x'') src (idle_state [] []) = Some (Inr (), st') \<and>
     x_world st' = [sample ''x''] \<and> x_duplicates st' = 1"
proof -
  let ?src = "plain_node ''in'' (NSource (vec_source [])) [''a'', ''b'']"
  let ?a = "plain_node ''a'' (NSink vec_sink) []" and ?b = "plain_node ''b'' (NSink vec_sink) []"
  let ?env = "plain_env [?src, ?a, ?b] (Some memory_store)"
  have "e_store ?env = Some memory_store" "n_routes ?src = [plain_route ''a'', plain_route ''b'']"
    "graph_node (e_graph ?env) ''a'' = Some ?a" "n_step ?a = NSink vec_sink" "n_when ?a = None"
    "graph_node (e_graph ?env) ''b'' = Some ?b" "n_step ?b = NSink vec_sink" "n_when ?b = None"
    "\<not> is_delivered ?env (sample ''x'') (idle_state [] [])"
    "fst (k_send vec_sink (sample ''x'') (x_world (idle_state [] ([] :: json imap)))) = Inr ()"
    by (simp_all add: plain_env_def plain_node_def graph_node_def is_delivered_def idle_state_def
        memory_store_def vec_sink_def)
  from fanout_second_sink_suppressed [OF memory.state_store_axioms this, of 0] show ?thesis
    by (simp add: Let_def vec_sink_def idle_state_def)
qed

end
