(* ===== verification/Executor_Buffers.thy ===== *)
theory Executor_Buffers
  imports Executor_Steps
begin

text \<open>
  Properties of the executor's buffers: joins and batches lose no record and keep the order.
\<close>

section \<open>Joins\<close>

definition threshold :: "join_buffer \<Rightarrow> nat" where
  "threshold b = (case jb_mode b of JAny \<Rightarrow> 1 | JAll \<Rightarrow> max (jb_expected b) 1 | JN \<Rightarrow> max (jb_n b) 1)"

text \<open>Pushing a sequence of records with their correlations; the released groups in order.\<close>

fun join_pushes :: "(string \<times> rec) list \<Rightarrow> join_buffer \<Rightarrow> (string \<times> rec list) list \<times> join_buffer" where
  "join_pushes [] b = ([], b)"
| "join_pushes ((c, r) # crs) b =
     (let (g, b1) = join_push c r b; (gs, b2) = join_pushes crs b1 in
      (case g of None \<Rightarrow> gs | Some rs \<Rightarrow> (c, rs) # gs, b2))"

definition of_key :: "'k \<Rightarrow> ('k \<times> 'v) list \<Rightarrow> 'v list" where
  "of_key c ps = map snd (filter (\<lambda>(c', _). c' = c) ps)"

lemma of_key_simps [simp]:
  "of_key c [] = []" "of_key c ((c', v) # ps) = (if c' = c then v # of_key c ps else of_key c ps)"
  by (simp_all add: of_key_def)

definition below :: "join_buffer \<Rightarrow> bool" where
  "below b \<longleftrightarrow> (\<forall>c. length (join_group b c) < threshold b)"

lemma threshold_pos: "0 < threshold b"
  by (auto simp: threshold_def split: join_mode.splits)

lemma threshold_groups [simp]: "threshold (b\<lparr>jb_groups := gs\<rparr>) = threshold b"
  by (simp add: threshold_def cong: join_mode.case_cong)

lemma join_group_insert [simp]:
  "join_group (b\<lparr>jb_groups := im_insert c g (jb_groups b)\<rparr>) c' = (if c' = c then g else join_group b c')"
  by (simp add: join_group_def)

lemma join_push_cases:
  assumes "below b" "join_push c r b = (g, b')"
  shows "threshold b' = threshold b \<and> below b' \<and>
    (\<forall>c'. c' \<noteq> c \<longrightarrow> join_group b' c' = join_group b c') \<and>
    (case g of
       None \<Rightarrow> join_group b' c = join_group b c @ [r]
     | Some rs \<Rightarrow> rs = join_group b c @ [r] \<and> length rs = threshold b \<and> join_group b' c = [])"
proof -
  have len: "length (join_group b c) < threshold b" using assms(1) by (simp add: below_def)
  then have ready: "join_ready b (length (join_group b c @ [r])) \<longleftrightarrow>
      length (join_group b c @ [r]) = threshold b"
    by (auto simp: join_ready_def threshold_def split: join_mode.splits)
  have more: "Suc (length (join_group b c)) < threshold b" if "Suc (length (join_group b c)) \<noteq> threshold b"
    using len that by simp
  show ?thesis
    using assms len threshold_pos [of b] ready more
    by (auto simp: join_push_def Let_def below_def split: if_splits)
qed

section \<open>Batches\<close>

fun batch_pushes ::
    "nat option \<Rightarrow> int option \<Rightarrow> (nat \<times> rec) list \<Rightarrow> batch_buffer \<Rightarrow> rec list list \<times> batch_buffer" where
  "batch_pushes sz win [] b = ([], b)"
| "batch_pushes sz win ((now, r) # nrs) b =
     (let (g, b1) = batch_push sz win now r b; (gs, b2) = batch_pushes sz win nrs b1 in
      (case g of None \<Rightarrow> gs | Some rs \<Rightarrow> rs # gs, b2))"

definition batch_limit :: "nat option \<Rightarrow> nat \<Rightarrow> bool" where
  "batch_limit sz n \<longleftrightarrow> (case sz of None \<Rightarrow> True | Some limit \<Rightarrow> n \<le> max limit 1)"

definition batch_open :: "nat option \<Rightarrow> batch_buffer \<Rightarrow> bool" where
  "batch_open sz b \<longleftrightarrow> (case sz of None \<Rightarrow> True | Some limit \<Rightarrow> length (bb_records b) < max limit 1)"

lemma batch_push_cases:
  assumes "batch_open sz b" "batch_push sz win now r b = (g, b')"
  shows "batch_open sz b' \<and>
    (case g of
       None \<Rightarrow> bb_records b' = bb_records b @ [r]
     | Some rs \<Rightarrow> rs = bb_records b @ [r] \<and> bb_records b' = [] \<and> batch_limit sz (length rs) \<and>
         (win = None \<longrightarrow> (\<exists>limit. sz = Some limit \<and> length rs = max limit 1)))"
  using assms
  by (auto simp: batch_push_def Let_def batch_open_def batch_limit_def split: option.splits if_splits)

section \<open>Properties\<close>

text \<open>
  C11. A join loses nothing and mixes nothing.  Whatever the order in which records of different
  correlations arrive at a buffer, for each correlation the released groups followed by what is
  still waiting are exactly the records that arrived, in order; every released group has exactly
  the size the mode asks for (\<open>threshold\<close>), and what waits is smaller.  That size is the number of
  incoming edges for \<^verbatim>\<open>all\<close> and one for \<^verbatim>\<open>any\<close>.  So \<^verbatim>\<open>all\<close> counts records and not branches, and \<^verbatim>\<open>any\<close>
  releases every record and not only the first of a correlation, unlike the comments on
  \<^verbatim>\<open>JoinMode\<close> (sohara-core/src/control.rs) say; \<open>join_modes_as_coded\<close> shows both.
\<close>

theorem join_conserves:
  assumes "below b" "join_pushes crs b = (gs, b')"
  shows "concat (of_key c gs) @ join_group b' c = join_group b c @ of_key c crs \<and>
    (\<forall>g \<in> set (of_key c gs). length g = threshold b) \<and> length (join_group b' c) < threshold b"
  using assms
proof (induction crs b arbitrary: gs b' rule: join_pushes.induct)
  case (1 b)
  then show ?case by (simp add: below_def)
next
  case (2 k r crs b)
  obtain g b1 where p: "join_push k r b = (g, b1)" by fastforce
  obtain gs1 b2 where q: "join_pushes crs b1 = (gs1, b2)" by fastforce
  note jp = join_push_cases [OF "2.prems"(1) p]
  have th: "threshold b1 = threshold b" and other: "c \<noteq> k \<Longrightarrow> join_group b1 c = join_group b c"
    using jp by auto
  have IH: "concat (of_key c gs1) @ join_group b2 c = join_group b1 c @ of_key c crs"
      "\<forall>g \<in> set (of_key c gs1). length g = threshold b" "length (join_group b2 c) < threshold b"
    using "2.IH" [OF p [symmetric] refl conjunct1 [OF conjunct2 [OF jp]] q] unfolding th by blast+
  have gs: "gs = (case g of None \<Rightarrow> gs1 | Some rs \<Rightarrow> (k, rs) # gs1)" "b' = b2"
    using "2.prems"(2) p q by auto
  show ?case
  proof (cases g)
    case None
    then have "join_group b1 k = join_group b k @ [r]" using jp by simp
    then show ?thesis using IH other gs None by (cases "c = k") auto
  next
    case (Some rs)
    then have "rs = join_group b k @ [r]" "length rs = threshold b" "join_group b1 k = []" using jp by auto
    then show ?thesis using IH other gs Some by (cases "c = k") auto
  qed
qed

theorem join_conserves_witness:
  "let b = join_buffer_new JN 2 0; a = sample ''a''; x = sample ''x'' in
   \<exists>gs b'. join_pushes [(''p'', a), (''q'', x), (''p'', x)] b = (gs, b') \<and>
     concat (of_key ''p'' gs) @ join_group b' ''p'' = [a, x] \<and> length (join_group b' ''p'') < 2"
proof -
  let ?b = "join_buffer_new JN 2 0"
  obtain gs b' where p: "join_pushes [(''p'', sample ''a''), (''q'', sample ''x''), (''p'', sample ''x'')] ?b = (gs, b')"
    by fastforce
  have "below ?b" by (simp add: below_def join_buffer_new_def join_group_def threshold_def)
  from join_conserves [OF this p, of "''p''"] p show ?thesis
    by (auto simp: Let_def join_buffer_new_def join_group_def threshold_def)
qed

text \<open>
  With two incoming branches, two records of one branch release an \<^verbatim>\<open>all\<close> join; \<^verbatim>\<open>any\<close> releases the
  second record of a correlation too.
\<close>

lemma join_modes_as_coded:
  "fst (join_pushes [(c, r1), (c, r2)] (join_buffer_new JAll n 2)) = [(c, [r1, r2])]"
  "fst (join_pushes [(c, r1), (c, r2)] (join_buffer_new JAny n e)) = [(c, [r1]), (c, [r2])]"
  by (simp_all add: join_push_def join_buffer_new_def join_ready_def join_group_def)

text \<open>
  A batch buffer loses nothing: the released batches followed by what is still buffered are the
  records that arrived, in order, at any arrival times; no batch exceeds the declared size, and
  without a time window every batch has exactly that size (1 when the size is 0).
\<close>

theorem batch_conserves:
  assumes "batch_open sz b" "batch_pushes sz win nrs b = (gs, b')"
  shows "concat gs @ bb_records b' = bb_records b @ map snd nrs \<and>
    (\<forall>g \<in> set gs. g \<noteq> [] \<and> batch_limit sz (length g) \<and>
      (win = None \<longrightarrow> (\<exists>limit. sz = Some limit \<and> length g = max limit 1))) \<and> batch_open sz b'"
  using assms
proof (induction sz win nrs b arbitrary: gs rule: batch_pushes.induct)
  case (2 sz win now r nrs b)
  obtain g b1 where p: "batch_push sz win now r b = (g, b1)" by fastforce
  obtain gs1 b2 where q: "batch_pushes sz win nrs b1 = (gs1, b2)" by fastforce
  note c = batch_push_cases [OF "2.prems"(1) p]
  note IH = "2.IH" [OF p [symmetric] refl conjunct1 [OF c]]
  have "gs = (case g of None \<Rightarrow> gs1 | Some rs \<Rightarrow> rs # gs1)" "b' = b2"
    using "2.prems"(2) p q by auto
  with IH [of gs1] c q show ?case by (auto split: option.splits)
qed simp

theorem batch_conserves_witness:
  "\<exists>gs b'. batch_pushes (Some 2) None [(0, sample ''a''), (1, sample ''b''), (2, sample ''c'')] batch_buffer_new = (gs, b') \<and>
     concat gs @ bb_records b' = [sample ''a'', sample ''b'', sample ''c''] \<and> length (bb_records b') < 2"
proof -
  obtain gs b' where p: "batch_pushes (Some 2) None
      [(0, sample ''a''), (1, sample ''b''), (2, sample ''c'')] batch_buffer_new = (gs, b')" by fastforce
  have "batch_open (Some 2) batch_buffer_new" by (simp add: batch_open_def batch_buffer_new_def)
  from batch_conserves [OF this p] p show ?thesis by (auto simp: batch_buffer_new_def batch_open_def)
qed

end
