(* ===== verification/Executor_Resume.thy ===== *)
theory Executor_Resume
  imports Executor_Buffers
begin

text \<open>
  Loops, the approval queue and resumed runs: what the executor keeps between records and
  between runs.
\<close>

section \<open>Accumulated states\<close>

text \<open>Only \<^verbatim>\<open>state\<close> steps change accumulated states, each its own.\<close>

definition is_state_id :: "('w, 's) xenv \<Rightarrow> string \<Rightarrow> bool" where
  "is_state_id env i \<longleftrightarrow>
     (\<exists>nd exprs. graph_node (e_graph env) i = Some nd \<and> n_step nd = NControl (State exprs))"

definition states_kept :: "('w, 's) xenv \<Rightarrow> ('w, 's) xstate \<Rightarrow> ('w, 's) xstate \<Rightarrow> bool" where
  "states_kept env a b \<longleftrightarrow>
     (\<forall>i. \<not> is_state_id env i \<longrightarrow> im_get (x_states b) i = im_get (x_states a) i)"

interpretation keeping: run_relation env "states_kept env" for env
  by unfold_locales (auto simp: states_kept_def is_state_id_def step_defs tick_step_def note_failed_def
      note_filtered_def note_passed_def note_delivered_def split: prod.splits)

definition loop_body :: "('w, 's) xenv \<Rightarrow> ('w, 's) walker \<Rightarrow> 'w node \<Rightarrow> string option \<Rightarrow> rec \<Rightarrow> ('w, 's) act" where
  "loop_body env k nd body r = (case body of Some t \<Rightarrow> k r t | None \<Rightarrow> route_to env k r nd)"

lemma x_eval_clockless:
  "clockless e \<Longrightarrow> x_eval env e v st = (fst (eval (e_host env) (e_vars env) e v 0), st)"
  using eval_clockless [of e "e_host env" "e_vars env" v "x_tick st" 0]
  by (simp add: x_eval_def set_tick_def)

lemma eval_value_kept:
  "states_kept env a b \<Longrightarrow> \<not> is_state_id env (n_id nd) \<Longrightarrow> eval_value nd r b = eval_value nd r a"
  by (simp add: states_kept_def eval_value_def cong: option.case_cong)

lemma keeps_loop_body:
  assumes "graph_wf (e_graph env)" "loop_body env (walk env n) nd body r st = Some (res, st')"
  shows "states_kept env st st'"
proof -
  have w: "keeping.keeps env (walk env n r i)" for r i
    using graph_wf_node [OF assms(1)] by (intro keeping.keeps_walk) (simp add: node_wf_def)
  then show ?thesis
    using keeping.keepsD [OF w] keeping.keepsD [OF keeping.keeps_route_to [OF w]] assms(2)
    by (auto simp: loop_body_def split: option.splits)
qed

lemma apply_loop_true:
  assumes wf: "graph_wf (e_graph env)" and w: "clockless w" and nd: "\<not> is_state_id env (n_id nd)"
    and v: "fst (eval (e_host env) (e_vars env) w (eval_value nd r st) 0) = Inr v" "is_truthy v"
  shows "apply_loop env (walk env n) nd w body r m st =
    xseq (replicate m (loop_body env (walk env n) nd body r)) st"
  using v
proof (induction m arbitrary: st)
  case (Suc m)
  let ?b = "loop_body env (walk env n) nd body r"
  have e: "eval_bool env w (eval_value nd r st) st = (True, st)"
    using Suc.prems by (simp add: eval_bool_def x_eval_clockless [OF w])
  have step: "apply_loop env (walk env n) nd w body r m st' =
      xseq (replicate m ?b) st'" if "?b st = Some (Inr (), st')" for st'
  proof (rule Suc.IH)
    have "eval_value nd r st' = eval_value nd r st"
      using eval_value_kept [OF keeps_loop_body [OF wf that] nd] .
    then show "fst (eval (e_host env) (e_vars env) w (eval_value nd r st') 0) = Inr v"
      using Suc.prems(1) by simp
  qed (rule Suc.prems(2))
  have "xthen ?b (apply_loop env (walk env n) nd w body r m) st = xthen ?b (xseq (replicate m ?b)) st"
    using step by (auto simp: xthen_def split: option.splits sum.splits)
  then show ?case using e by (simp add: loop_body_def)
qed simp

section \<open>The approval queue\<close>

definition park_all :: "('w, 's) xenv \<Rightarrow> 'w node \<Rightarrow> rec list \<Rightarrow> ('w, 's) xstate \<Rightarrow> ('w, 's) xstate" where
  "park_all env nd = fold (\<lambda>r st. snd (park_approve env nd r st))"

lemma payload_fresh_records: "map payload (fresh_records h t vs) = vs"
  by (induction vs arbitrary: t) (simp_all add: record_new_def)

lemma metadata_fresh_records: "r \<in> set (fresh_records h t vs) \<Longrightarrow> metadata r = []"
  by (induction vs arbitrary: t) (auto simp: record_new_def)

context durable_run
begin

lemma queue_park:
  assumes "parked_queue ops (approve_key (e_flow_name env) (n_id nd)) (x_store st) = Inr q"
  shows "parked_queue ops (approve_key (e_flow_name env) (n_id nd)) (x_store (snd (park_approve env nd r st))) =
    Inr (q @ [payload r])"
  using assms by (simp add: park_approve_def store Let_def parked_queue_def load_save to_json_def)

lemma queue_park_all:
  assumes "parked_queue ops (approve_key (e_flow_name env) (n_id nd)) (x_store st) = Inr q"
  shows "parked_queue ops (approve_key (e_flow_name env) (n_id nd)) (x_store (park_all env nd rs st)) =
    Inr (q @ map payload rs)"
  using assms
proof (induction rs arbitrary: st q)
  case (Cons r rs)
  from Cons.IH [OF queue_park [OF Cons.prems]] show ?case by (simp add: park_all_def)
qed (simp add: park_all_def)

lemma take_queue:
  assumes "parked_queue ops (approve_key (e_flow_name env) i) (x_store st) = Inr q"
    and "take_approve_queue env i st = (Inr out, st')"
  shows "map payload out = q \<and> (\<forall>r \<in> set out. metadata r = []) \<and>
    parked_queue ops (approve_key (e_flow_name env) i) (x_store st') = Inr []"
proof -
  let ?key = "approve_key (e_flow_name env) i"
  obtain res s where d: "s_delete ops ?key (x_store st) = (res, s)" by fastforce
  have "s_load ops ?key s = Inr None" using load_delete [of ?key ?key "x_store st"] d by simp
  then show ?thesis
    using assms d by (auto simp: take_approve_queue_def store Let_def store_delete_def parked_queue_def
        payload_fresh_records set_tick_def dest: metadata_fresh_records split: sum.splits)
qed

end

section \<open>Resumed runs\<close>

lemma save_states_store:
  "x_store (save_states ops i vs st) =
   fold (\<lambda>(k, v) s. snd (s_save ops k v s)) (map (map_prod (state_key i) id) vs) (x_store st)"
  unfolding save_states_def
  by (induction vs arbitrary: st) (auto simp: store_save_def split: prod.splits)

lemma map_of_rev:
  assumes "distinct (map fst xs)"
  shows "map_of (rev xs) = map_of xs"
proof
  fix k
  have "map_of (rev xs) k = Some v \<longleftrightarrow> map_of xs k = Some v" for v
    using assms by (simp add: map_of_eq_Some_iff rev_map [symmetric])
  then show "map_of (rev xs) k = map_of xs k" by (metis option.exhaust)
qed

lemma map_of_state_keys:
  assumes "distinct (map fst vs)"
  shows "map_of (rev (map (map_prod (state_key i) id) vs)) (state_key i k) = map_of vs k"
proof -
  have "distinct (map fst (map (map_prod (state_key i) id) vs))"
    using assms by (auto simp: distinct_map inj_on_def state_key_def)
  then have "map_of (rev (map (map_prod (state_key i) id) vs)) = map_of (map (map_prod (state_key i) id) vs)"
    by (rule map_of_rev)
  moreover have "map_of (map (map_prod (state_key i) id) vs) (state_key i k) = map_of vs k"
    by (induction vs) (auto simp: state_key_def)
  ultimately show ?thesis by simp
qed

lemma initial_states_get:
  assumes "distinct (map fst (g_nodes g))" "graph_node g i = Some nd"
  shows "im_get (initial_states g run_id store resume s) i =
    (if n_state nd = None then None else Some (initial_state store resume run_id s i (n_state nd)))"
proof -
  have "distinct (map fst ns) \<Longrightarrow> map_of ns i = Some nd \<Longrightarrow>
    map_of (List.map_filter (\<lambda>(i, n). if n_state n \<noteq> None then Some (i, h i n) else None) ns) i =
      (if n_state nd = None then None else Some (h i nd))" for ns and h :: "string \<Rightarrow> 'a node \<Rightarrow> json"
  proof (induction ns)
    case (Cons p ns)
    have none: "map_of (List.map_filter (\<lambda>(i, n). if n_state n \<noteq> None then Some (i, h i n) else None) ns) i = None"
      if "i \<notin> set (map fst ns)" for ns
      using that by (induction ns) (auto simp: List.map_filter_simps)
    from Cons show ?case by (cases p) (auto simp: List.map_filter_simps none [simplified])
  qed simp
  from this [OF assms(1), of "\<lambda>i n. initial_state store resume run_id s i (n_state n)"] assms(2)
  show ?thesis by (simp add: initial_states_def graph_node_def)
qed

section \<open>Properties\<close>

text \<open>
  A loop runs all its iterations or none.  For a well-formed graph and a condition without
  \<^verbatim>\<open>now()\<close> and \<^verbatim>\<open>uuid()\<close>, a loop step evaluates its condition on a value no iteration changes: the
  record is fixed and only \<^verbatim>\<open>state\<close> steps update states, each its own.  So the body runs exactly
  \<^verbatim>\<open>max_iterations\<close> times (or until it fails) when the condition holds at the start, and never
  otherwise.
\<close>

theorem loop_all_or_nothing:
  assumes "graph_wf (e_graph env)" "graph_node (e_graph env) (n_id nd) = Some nd"
    and "n_step nd = NControl (Loop w mx body)" "clockless w"
  shows "apply_control env (walk env n) nd (Loop w mx body) r st =
    (case fst (eval (e_host env) (e_vars env) w (eval_value nd r st) 0) of
       Inr v \<Rightarrow> if is_truthy v then xseq (replicate mx (loop_body env (walk env n) nd body r)) st else ret st
     | Inl _ \<Rightarrow> if mx = 0 then ret st else ret (count_error st))"
proof -
  have nd: "\<not> is_state_id env (n_id nd)" using assms(2,3) by (simp add: is_state_id_def)
  show ?thesis
  proof (cases "fst (eval (e_host env) (e_vars env) w (eval_value nd r st) 0)")
    case (Inl e)
    then show ?thesis
      by (cases mx) (simp_all add: eval_bool_def x_eval_clockless [OF assms(4)])
  next
    case (Inr v)
    show ?thesis
    proof (cases "is_truthy v")
      case True
      with apply_loop_true [OF assms(1,4) nd Inr] Inr show ?thesis by simp
    next
      case False
      with Inr show ?thesis
        by (cases mx) (simp_all add: eval_bool_def x_eval_clockless [OF assms(4)])
    qed
  qed
qed

theorem loop_all_or_nothing_witness:
  "let nd = plain_node ''l'' (NControl (Loop (Lit (JBool True)) 2 (Some ''out''))) [''out''];
       g = \<lparr>g_name = ''demo'', g_nodes = [(''l'', nd), (''out'', (plain_node ''out'' (NSink vec_sink) [])\<lparr>n_incoming := 1\<rparr>)],
            g_roots = []\<rparr>;
       env = (plain_env [] None)\<lparr>e_graph := g\<rparr> in
   graph_wf g \<and> (\<exists>st'. apply_control env (walk env 2) nd (Loop (Lit (JBool True)) 2 (Some ''out'')) (sample ''a'')
       (idle_state [] ()) = Some (Inr (), st') \<and> x_world st' = [sample ''a'', sample ''a''])"
proof -
  let ?c = "Loop (Lit (JBool True)) 2 (Some ''out'')"
  let ?nd = "plain_node ''l'' (NControl ?c) [''out''] :: rec list node"
  let ?out = "(plain_node ''out'' (NSink vec_sink) [])\<lparr>n_incoming := 1\<rparr>"
  let ?g = "\<lparr>g_name = ''demo'', g_nodes = [(''l'', ?nd), (''out'', ?out)], g_roots = []\<rparr>"
  let ?env = "(plain_env [] None)\<lparr>e_graph := ?g\<rparr> :: (rec list, unit) xenv"
  have "edges (graph_succ ?g) = {(''l'', ''out'')}"
    by (auto simp: edges_def graph_succ_def graph_node_def plain_node_def node_targets_def plain_route_def
        split: if_splits)
  then have "acyclic (edges (graph_succ ?g))" by (auto simp: acyclic_def dest: tranclD elim: tranclE)
  then have wf: "graph_wf ?g"
    by (simp add: graph_wf_def node_wf_def bt_wf_def node_targets_def control_targets_def
        incoming_count_def plain_node_def plain_route_def)
  have l: "apply_control ?env (walk ?env 2) ?nd ?c (sample ''a'') (idle_state [] ()) =
      xseq (replicate 2 (loop_body ?env (walk ?env 2) ?nd (Some ''out'') (sample ''a''))) (idle_state [] ())"
    using loop_all_or_nothing [of ?env ?nd "Lit (JBool True)" 2 "Some ''out''" 2 "sample ''a''" "idle_state [] ()"] wf
    by (simp add: graph_node_def plain_node_def)
  have "map_option (map_prod id x_world) (xseq (replicate 2 (loop_body ?env (walk ?env 2) ?nd (Some ''out'') (sample ''a''))) (idle_state [] ())) =
      Some (Inr (), [sample ''a'', sample ''a''])" by code_simp
  with l wf show ?thesis by (auto simp: Let_def)
qed

text \<open>
  C12. The approval queue is first in, first out and consuming.  With a lawful store, approving after
  any number of records were parked re-injects the payloads that were already waiting followed by
  the parked ones, in order, and leaves the queue empty.  The re-injected records are new: their
  metadata (correlation, idempotency key) is gone.
\<close>

theorem approve_roundtrip:
  assumes "state_store ops" "e_store env = Some ops"
    and "parked_queue ops (approve_key (e_flow_name env) (n_id nd)) (x_store st) = Inr q"
    and "take_approve_queue env (n_id nd) (park_all env nd rs st) = (Inr out, st')"
  shows "map payload out = q @ map payload rs \<and> (\<forall>r \<in> set out. metadata r = []) \<and>
    parked_queue ops (approve_key (e_flow_name env) (n_id nd)) (x_store st') = Inr []"
proof -
  have loc: "durable_run ops env" using assms(1,2) by (simp add: durable_run_def durable_run_axioms_def)
  show ?thesis
    using durable_run.take_queue [OF loc durable_run.queue_park_all [OF loc assms(3)] assms(4)] .
qed

theorem approve_roundtrip_witness:
  "let nd = plain_node ''ok'' (NControl (Approve ''t'')) []; env = plain_env [nd] (Some memory_store) in
   \<exists>out st'. take_approve_queue env ''ok'' (park_all env nd [sample ''a'', sample ''b''] (idle_state () [])) = (Inr out, st') \<and>
     map payload out = [payload (sample ''a''), payload (sample ''b'')]"
proof -
  let ?nd = "plain_node ''ok'' (NControl (Approve ''t'')) [] :: unit node"
  let ?env = "plain_env [?nd] (Some memory_store)"
  let ?st = "park_all ?env ?nd [sample ''a'', sample ''b''] (idle_state () [])"
  have e: "e_store ?env = Some memory_store" by (simp add: plain_env_def)
  have q: "parked_queue memory_store (approve_key (e_flow_name ?env) (n_id ?nd)) (x_store (idle_state () [])) = Inr []"
    by (simp add: parked_queue_def memory_store_def idle_state_def)
  have "\<not> isl (fst (take_approve_queue ?env (n_id ?nd) ?st))" by code_simp
  then obtain out st' where t: "take_approve_queue ?env (n_id ?nd) ?st = (Inr out, st')"
    by (cases "take_approve_queue ?env (n_id ?nd) ?st"; cases "fst (take_approve_queue ?env (n_id ?nd) ?st)") auto
  from approve_roundtrip [OF memory.state_store_axioms e q t] t show ?thesis
    by (auto simp: Let_def plain_node_def)
qed

text \<open>
  A resumed run continues the checkpointed one.  With a lawful store that knows the run's
  identifier, an executor created with \<^verbatim>\<open>resume\<close> after a checkpoint takes over the run identifier
  (and with it the delivery markers) and, for every step that declares an initial state, the
  accumulated state of the checkpoint.  The state of a step that declares none is saved but not
  restored: \<^verbatim>\<open>initial_states\<close> only inserts declared states.
\<close>

theorem resume_restores:
  assumes "state_store ops" "e_store env = Some ops" "rc_store cfg = Some ops" "rc_resume cfg"
    and dist: "distinct (map fst (x_states st))" "distinct (map fst (g_nodes g))"
    and rid: "s_load ops (run_id_key (g_name g)) (x_store st) = Inr (Some (JString (e_run_id env)))"
    and key: "run_id_key (g_name g) \<notin> state_key (e_run_id env) ` fst ` set (x_states st)"
    and new: "executor_new g vars cfg (x_store (checkpoint env st)) w = (env', st')"
  shows "e_run_id env' = e_run_id env \<and>
    (\<forall>i nd v. graph_node g i = Some nd \<and> im_get (x_states st) i = Some v \<longrightarrow>
       im_get (x_states st') i = (if n_state nd = None then None else Some v))"
proof -
  note load = state_store.load_after_saves [OF assms(1)]
  let ?s = "x_store (checkpoint env st)"
  have s: "?s = fold (\<lambda>(k, v) s. snd (s_save ops k v s))
      (map (map_prod (state_key (e_run_id env)) id) (x_states st)) (x_store st)"
    by (simp add: checkpoint_def assms(2) save_states_store)
  have "map_of (rev (map (map_prod (state_key (e_run_id env)) id) (x_states st))) (run_id_key (g_name g)) = None"
    using key by (force simp: map_of_eq_None_iff)
  then have "s_load ops (run_id_key (g_name g)) ?s = Inr (Some (JString (e_run_id env)))"
    by (simp add: s load rid)
  moreover have "s_load ops (state_key (e_run_id env) i) ?s = Inr (Some v)"
    if "im_get (x_states st) i = Some v" for i v
    by (simp add: s load map_of_state_keys [OF dist(1)] that)
  ultimately show ?thesis
    using new assms(3,4)
    by (auto simp: executor_new_def resolve_run_id_def Let_def initial_state_def initial_states_get [OF dist(2)])
qed

theorem resume_restores_witness:
  "let nd = (plain_node ''s'' (NControl (State [])) [])\<lparr>n_state := Some (JObject [])\<rparr>;
       env = plain_env [nd] (Some memory_store);
       st = (idle_state ([] :: rec list) [(''demo:run_id'', JString (e_run_id env))])\<lparr>x_states := [(''s'', JString ''seen'')]\<rparr>;
       (env', st') = executor_new (e_graph env) [] ((sample_config (Some memory_store))\<lparr>rc_resume := True\<rparr>)
         (x_store (checkpoint env st)) [] in
   e_run_id env' = e_run_id env \<and> im_get (x_states st') ''s'' = Some (JString ''seen'')"
proof -
  let ?nd = "(plain_node ''s'' (NControl (State [])) [])\<lparr>n_state := Some (JObject [])\<rparr> :: rec list node"
  let ?env = "plain_env [?nd] (Some memory_store)"
  let ?st = "(idle_state ([] :: rec list) [(''demo:run_id'', JString (e_run_id ?env))])\<lparr>x_states := [(''s'', JString ''seen'')]\<rparr>"
  let ?cfg = "(sample_config (Some memory_store))\<lparr>rc_resume := True\<rparr>"
  obtain env' st' where n: "executor_new (e_graph ?env) [] ?cfg (x_store (checkpoint ?env ?st)) [] = (env', st')"
    by fastforce
  have a: "s_load memory_store (run_id_key (g_name (e_graph ?env))) (x_store ?st) = Inr (Some (JString (e_run_id ?env)))"
    by code_simp
  have b: "run_id_key (g_name (e_graph ?env)) \<notin> state_key (e_run_id ?env) ` fst ` set (x_states ?st)"
    by code_simp
  have "e_run_id env' = e_run_id ?env \<and> (\<forall>i nd v. graph_node (e_graph ?env) i = Some nd \<and>
      im_get (x_states ?st) i = Some v \<longrightarrow> im_get (x_states st') i = (if n_state nd = None then None else Some v))"
    by (rule resume_restores [OF memory.state_store_axioms _ _ _ _ _ a b n])
      (simp_all add: plain_env_def sample_config_def)
  then have "e_run_id env' = e_run_id ?env \<and> im_get (x_states st') ''s'' = Some (JString ''seen'')"
    by (auto simp: graph_node_def plain_env_def plain_node_def)
  with n show ?thesis by (simp add: Let_def)
qed

end
