(* ===== verification/Schedule.thy ===== *)
theory Schedule
  imports Executor_Resume
begin

text \<open>
  Source tasks and the pause gate (\<^verbatim>\<open>run_source\<close> in \<^verbatim>\<open>sohara-runtime/src/runner.rs\<close>,
  \<^verbatim>\<open>pause.rs\<close>) as a step relation.  Every source is a task of its own; a step takes one item from
  one source, tests the gate, goes to sleep, lets the item through, or walks it through the graph, and
  an operator may pause and resume at any time, also after an item has passed the gate: it is in flight
  (\<open>Walking\<close>) and is walked although the run is paused.  The walk itself is a single step: what
  happens between the increments of one walk, and walks of several sources at the same time, are
  not states of this model.  Waiting at the gate is
  the two actions the code has: loading the flag, then creating the future that a wake-up reaches.
\<close>

section \<open>Tasks\<close>

type_synonym item = "error + rec"

datatype task =
    Pulling
  | Checking item
  | Registering item
  | Asleep item
  | Walking item
  | Finished

record ('w, 's) sched =
  sc_state :: "('w, 's) xstate"
  sc_items :: "string \<Rightarrow> item list"
  sc_task :: "string \<Rightarrow> task"
  sc_paused :: bool
  sc_done :: "(string \<times> item) list"

fun wake :: "task \<Rightarrow> task" where
  "wake (Asleep it) = Checking it"
| "wake t = t"

text \<open>\<^verbatim>\<open>PauseGate::set_paused\<close>: resuming wakes the tasks that are asleep, and no others.\<close>

definition set_paused :: "bool \<Rightarrow> ('w, 's) sched \<Rightarrow> ('w, 's) sched" where
  "set_paused b sc = sc\<lparr>sc_paused := b, sc_task := (if b then sc_task sc else wake \<circ> sc_task sc)\<rparr>"

definition set_task :: "string \<Rightarrow> task \<Rightarrow> ('w, 's) sched \<Rightarrow> ('w, 's) sched" where
  "set_task i t sc = sc\<lparr>sc_task := (sc_task sc)(i := t)\<rparr>"

definition after_item :: "error + unit \<Rightarrow> task" where
  "after_item res = (case res of Inl _ \<Rightarrow> Finished | Inr _ \<Rightarrow> Pulling)"

inductive sched_step :: "('w, 's) xenv \<Rightarrow> nat \<Rightarrow> ('w, 's) sched \<Rightarrow> ('w, 's) sched \<Rightarrow> bool" for env n where
  Pull: "sc_task sc i = Pulling \<Longrightarrow> sc_items sc i = it # rest \<Longrightarrow>
    sched_step env n sc (set_task i (Checking it) (sc\<lparr>sc_items := (sc_items sc)(i := rest)\<rparr>))"
| Exhausted: "sc_task sc i = Pulling \<Longrightarrow> sc_items sc i = [] \<Longrightarrow> sched_step env n sc (set_task i Finished sc)"
| Load_Paused: "sc_task sc i = Checking it \<Longrightarrow> sc_paused sc \<Longrightarrow> sched_step env n sc (set_task i (Registering it) sc)"
| Register: "sc_task sc i = Registering it \<Longrightarrow> sched_step env n sc (set_task i (Asleep it) sc)"
| Pass: "sc_task sc i = Checking it \<Longrightarrow> \<not> sc_paused sc \<Longrightarrow> sched_step env n sc (set_task i (Walking it) sc)"
| Walk: "sc_task sc i = Walking it \<Longrightarrow> take_item env n i it (sc_state sc) = Some (res, st) \<Longrightarrow>
    sched_step env n sc (set_task i (after_item res) (sc\<lparr>sc_state := st, sc_done := sc_done sc @ [(i, it)]\<rparr>))"
| Pause: "sched_step env n sc (set_paused True sc)"
| Resume: "sched_step env n sc (set_paused False sc)"

inductive_simps sched_step_iff: "sched_step env n sc sc'"

definition sched_start :: "('w, 's) xstate \<Rightarrow> (string \<Rightarrow> item list) \<Rightarrow> ('w, 's) sched" where
  "sched_start st items = \<lparr>sc_state = st, sc_items = items, sc_task = (\<lambda>_. Pulling), sc_paused = False, sc_done = []\<rparr>"

section \<open>What a schedule keeps\<close>

fun held :: "task \<Rightarrow> item list" where
  "held (Checking it) = [it]"
| "held (Registering it) = [it]"
| "held (Asleep it) = [it]"
| "held (Walking it) = [it]"
| "held _ = []"

lemma held_wake [simp]: "held (wake t) = held t"
  by (cases t) auto

definition done_by :: "string \<Rightarrow> ('w, 's) sched \<Rightarrow> item list" where
  "done_by i sc = map snd (filter (\<lambda>p. fst p = i) (sc_done sc))"

definition intake :: "string \<Rightarrow> ('w, 's) sched \<Rightarrow> item list" where
  "intake i sc = done_by i sc @ held (sc_task sc i) @ sc_items sc i"

lemma sched_step_intake:
  assumes "sched_step env n sc sc'"
  shows "intake i sc' = intake i sc"
  using assms by cases (auto simp: intake_def done_by_def set_task_def set_paused_def after_item_def split: sum.splits)

lemma sched_steps_intake: "(sched_step env n)\<^sup>*\<^sup>* sc sc' \<Longrightarrow> intake i sc' = intake i sc"
  by (induction rule: rtranclp_induct) (auto simp: sched_step_intake)

context run_relation
begin

lemma keeps_take_item:
  assumes "graph_wf (e_graph env)"
  shows "keeps (take_item env n i it)"
  using walk_respects [OF assms] trans [OF r_error r_ring]
  by (cases it) (auto simp: take_item_def keeps_def ret_def)

lemma sched_respects:
  assumes "graph_wf (e_graph env)" "(sched_step env n)\<^sup>*\<^sup>* sc sc'"
  shows "R (sc_state sc) (sc_state sc')"
  using assms(2)
proof (induction rule: rtranclp_induct)
  case (step sc' sc'')
  from step.hyps(2) have "R (sc_state sc') (sc_state sc'')"
    by cases (auto simp: set_task_def set_paused_def refl intro: keepsD [OF keeps_take_item [OF assms(1)]])
  with step.IH show ?case by (rule trans)
qed (rule refl)

end

text \<open>What can happen while the run is paused.\<close>

lemma wake_walking [simp]: "wake t = Walking it \<longleftrightarrow> t = Walking it"
  by (cases t) auto

lemma after_item_walking [simp]: "after_item res \<noteq> Walking it"
  by (simp add: after_item_def split: sum.split)

lemma paused_steps:
  "\<forall>sc'. sc_paused sc \<and> sched_step env n sc sc' \<longrightarrow>
     (\<forall>i it. sc_task sc' i = Walking it \<longrightarrow> sc_task sc i = Walking it) \<and>
     (sc_state sc' = sc_state sc \<and> sc_done sc' = sc_done sc \<or>
      (\<exists>i it. sc_task sc i = Walking it \<and> (\<forall>it'. sc_task sc' i \<noteq> Walking it') \<and> sc_done sc' = sc_done sc @ [(i, it)]))"
proof (intro allI impI, elim conjE)
  fix sc' assume "sc_paused sc" "sched_step env n sc sc'"
  from this(2,1) show "(\<forall>i it. sc_task sc' i = Walking it \<longrightarrow> sc_task sc i = Walking it) \<and>
     (sc_state sc' = sc_state sc \<and> sc_done sc' = sc_done sc \<or>
      (\<exists>i it. sc_task sc i = Walking it \<and> (\<forall>it'. sc_task sc' i \<noteq> Walking it') \<and> sc_done sc' = sc_done sc @ [(i, it)]))"
    by cases (auto simp: set_task_def set_paused_def)
qed

section \<open>Lost wake-ups\<close>

text \<open>Without a further \<^verbatim>\<open>Resume\<close>, nothing wakes a task that is asleep.\<close>

definition quiet_step :: "('w, 's) xenv \<Rightarrow> nat \<Rightarrow> ('w, 's) sched \<Rightarrow> ('w, 's) sched \<Rightarrow> bool" where
  "quiet_step env n sc sc' \<longleftrightarrow> sched_step env n sc sc' \<and> sc' \<noteq> set_paused False sc"

lemma quiet_step_asleep:
  assumes "quiet_step env n sc sc'" "sc_task sc i = Asleep it"
  shows "sc_task sc' i = Asleep it"
proof -
  have "sched_step env n sc sc'" "sc' \<noteq> set_paused False sc" using assms(1) by (simp_all add: quiet_step_def)
  then show ?thesis using assms(2) by cases (auto simp: set_task_def set_paused_def)
qed

lemma quiet_steps_asleep:
  "(quiet_step env n)\<^sup>*\<^sup>* sc sc' \<Longrightarrow> sc_task sc i = Asleep it \<Longrightarrow> sc_task sc' i = Asleep it"
  by (induction rule: rtranclp_induct) (auto dest: quiet_step_asleep)

section \<open>Properties\<close>

text \<open>
  C19. Every schedule of the source tasks is accounted for.  However the sources' tasks interleave,
  item by item, and however often the run is paused and resumed: each source's items are walked in
  order and exactly once, or held at the gate or in flight, or not yet pulled; whenever no item is in
  flight, the statistics of an executor that was just created add up (during a walk its counters are
  increased one after the other); and while the run is paused no item passes the gate and nothing is
  walked but the items that had passed it before, one for each source at most.
\<close>

theorem schedule_accounting:
  assumes "graph_wf g" "executor_new g vars cfg s w = (env, st)"
    and "(sched_step env n)\<^sup>*\<^sup>* (sched_start st items) sc"
  shows "(\<forall>i. done_by i sc @ held (sc_task sc i) @ sc_items sc i = items i) \<and>
    ((\<forall>i it. sc_task sc i \<noteq> Walking it) \<longrightarrow>
       x_filtered (sc_state sc) = step_sum (\<lambda>_. True) ss_filtered (sc_state sc) \<and>
       x_processed (sc_state sc) = step_sum (is_sink_id env) ss_processed (sc_state sc) \<and>
       length (x_ring (sc_state sc)) \<le> error_ring_cap) \<and>
    (\<forall>sc'. sc_paused sc \<and> sched_step env n sc sc' \<longrightarrow>
       (\<forall>i it. sc_task sc' i = Walking it \<longrightarrow> sc_task sc i = Walking it) \<and>
       (sc_state sc' = sc_state sc \<and> sc_done sc' = sc_done sc \<or>
        (\<exists>i it. sc_task sc i = Walking it \<and> (\<forall>it'. sc_task sc' i \<noteq> Walking it') \<and> sc_done sc' = sc_done sc @ [(i, it)])))"
proof -
  have env: "graph_wf (e_graph env)" using assms(1,2) executor_new_env [of g vars cfg s w] by simp
  have init: "sc_state (sched_start st items) = st" by (simp add: sched_start_def)
  have "\<forall>i. done_by i sc @ held (sc_task sc i) @ sc_items sc i = items i"
    using sched_steps_intake [OF assms(3)] by (simp add: intake_def done_by_def sched_start_def)
  moreover have "x_filtered (sc_state sc) = step_sum (\<lambda>_. True) ss_filtered (sc_state sc) \<and>
      x_processed (sc_state sc) = step_sum (is_sink_id env) ss_processed (sc_state sc) \<and>
      length (x_ring (sc_state sc)) \<le> error_ring_cap"
    using balanced_new [OF assms(2)] filtering.sched_respects [OF env assms(3)]
      delivering.sched_respects [OF env assms(3)] ring.sched_respects [OF env assms(3)]
    by (simp add: init filtered_balanced_def processed_balanced_def ring_bounded_def)
  ultimately show ?thesis using paused_steps [of sc env n] by blast
qed

text \<open>
  A resume can be lost.  \<^verbatim>\<open>wait_unpaused\<close> loads the flag before it creates the future that
  \<^verbatim>\<open>notify_waiters\<close> reaches.  From the start of any run whose source has an item, there is an
  execution that pauses and resumes once and after which the gate is open but the source's task
  sleeps; and it sleeps on, whatever happens, until somebody resumes a run that is not paused.
\<close>

theorem resume_lost:
  assumes "items i = it # rest"
  shows "\<exists>sc. (sched_step env n)\<^sup>*\<^sup>* (sched_start st items) sc \<and> \<not> sc_paused sc \<and> sc_task sc i = Asleep it \<and>
    (\<forall>sc'. (quiet_step env n)\<^sup>*\<^sup>* sc sc' \<longrightarrow> sc_task sc' i = Asleep it)"
proof -
  let ?s0 = "sched_start st items :: ('a, 'b) sched"
  let ?s1 = "set_paused True ?s0"
  let ?s2 = "set_task i (Checking it) (?s1\<lparr>sc_items := (sc_items ?s1)(i := rest)\<rparr>)"
  let ?s3 = "set_task i (Registering it) ?s2"
  let ?s4 = "set_paused False ?s3"
  let ?s5 = "set_task i (Asleep it) ?s4"
  have "sched_step env n ?s0 ?s1" by (rule Pause)
  moreover have "sched_step env n ?s1 ?s2"
    by (rule Pull) (use assms in \<open>simp_all add: sched_start_def set_paused_def\<close>)
  moreover have "sched_step env n ?s2 ?s3" by (rule Load_Paused) (simp_all add: set_task_def set_paused_def)
  moreover have "sched_step env n ?s3 ?s4" by (rule Resume)
  moreover have "sched_step env n ?s4 ?s5" by (rule Register) (simp add: set_task_def set_paused_def)
  ultimately have "(sched_step env n)\<^sup>*\<^sup>* ?s0 ?s5" by (meson converse_rtranclp_into_rtranclp rtranclp.rtrancl_refl)
  moreover have "\<not> sc_paused ?s5" "sc_task ?s5 i = Asleep it" by (simp_all add: set_task_def set_paused_def)
  ultimately show ?thesis using quiet_steps_asleep [of env n ?s5] by blast
qed

theorem schedule_accounting_witness:
  "let (env, st) = executor_new (sample_graph (filter_transform (\<lambda>r. rid r = ''a''))) [] (sample_config None) () [];
       items = (\<lambda>i. if i = ''in'' then [Inr (sample ''a''), Inr (sample ''b'')] else []);
       sc = set_task ''in'' (Checking (Inr (sample ''a'')))
         ((sched_start st items)\<lparr>sc_items := (\<lambda>i. if i = ''in'' then [Inr (sample ''b'')] else [])\<rparr>) in
   done_by ''in'' (set_paused True sc) @ held (sc_task (set_paused True sc) ''in'') @ sc_items (set_paused True sc) ''in'' =
     [Inr (sample ''a''), Inr (sample ''b'')]"
proof -
  let ?g = "sample_graph (filter_transform (\<lambda>r. rid r = ''a''))"
  let ?x = "executor_new ?g [] (sample_config None) () []"
  let ?items = "\<lambda>i. if i = ''in'' then [Inr (sample ''a''), Inr (sample ''b'')] else []"
  let ?start = "sched_start (snd ?x) ?items"
  let ?sc = "set_task ''in'' (Checking (Inr (sample ''a''))) (?start\<lparr>sc_items := (sc_items ?start)(''in'' := [Inr (sample ''b'')])\<rparr>)"
  have "sched_step (fst ?x) 4 ?start ?sc" by (rule Pull) (simp_all add: sched_start_def)
  then have "(sched_step (fst ?x) 4)\<^sup>*\<^sup>* ?start (set_paused True ?sc)"
    by (meson Pause rtranclp.rtrancl_into_rtrancl rtranclp.rtrancl_refl)
  from schedule_accounting [OF sample_graph_wf _ this, of "filter_transform (\<lambda>r. rid r = ''a'')" "[]" "sample_config None" "()" "[]"]
  have "done_by ''in'' (set_paused True ?sc) @ held (sc_task (set_paused True ?sc) ''in'') @ sc_items (set_paused True ?sc) ''in'' =
      ?items ''in''" by (simp add: prod_eq_iff)
  then show ?thesis by (simp add: case_prod_unfold Let_def set_task_def set_paused_def sched_start_def done_by_def)
qed

theorem resume_lost_witness:
  "\<exists>sc. (sched_step (plain_env [] None) 1)\<^sup>*\<^sup>* (sched_start (idle_state () ()) (\<lambda>_. [Inr (sample ''a'')])) sc \<and>
     \<not> sc_paused sc \<and> sc_task sc ''in'' = Asleep (Inr (sample ''a''))"
  using resume_lost [of "\<lambda>_. [Inr (sample ''a'')]" "''in''" "Inr (sample ''a'')" "[]" "plain_env [] None" 1 "idle_state () ()"]
  by auto

end
