(* ===== verification/Supervisor.thy ===== *)
theory Supervisor
  imports Json "HOL-Library.Word" "HOL-Library.Multiset"
begin

text \<open>
  One managed instance of the node agent (\<^verbatim>\<open>sohara-agent/src/config.rs\<close>, \<^verbatim>\<open>policy.rs\<close>,
  \<^verbatim>\<open>probe.rs\<close>, \<^verbatim>\<open>process.rs\<close>, \<^verbatim>\<open>instance.rs\<close>): launch specification, restart policy, health
  probe and the supervision loop.  The operating system and the HTTP client are the parameter
  \<open>sup_env\<close>; each call to it has a number, \<open>sup_ops\<close>, so that it may answer differently every
  time.  \<open>sup_log\<close> records what happens to processes; the code keeps no such log.  Counters
  have their width of 32 bits and wrap as in a release build.
\<close>

unbundle bit_operations_syntax

section \<open>Configuration\<close>

record policy =
  p_restart :: bool
  p_max_restarts :: "32 word"
  p_backoff_ms :: "64 word"
  p_health_failures :: "32 word"

definition default_policy :: policy where
  "default_policy = \<lparr>p_restart = True, p_max_restarts = 5, p_backoff_ms = 2000, p_health_failures = 3\<rparr>"

record instance_spec =
  sp_id :: string
  sp_flow :: string
  sp_bin :: string
  sp_admin :: "string option"
  sp_trigger :: "string option"
  sp_relay :: "string option"
  sp_relay_token :: "string option"
  sp_admin_token :: "string option"
  sp_resume :: bool
  sp_args :: "string list"
  sp_health_enabled :: bool
  sp_policy :: policy

definition default_spec :: instance_spec where
  "default_spec = \<lparr>sp_id = [], sp_flow = [], sp_bin = ''sohara'', sp_admin = None, sp_trigger = None,
     sp_relay = None, sp_relay_token = None, sp_admin_token = None, sp_resume = False, sp_args = [],
     sp_health_enabled = True, sp_policy = default_policy\<rparr>"

section \<open>Restart policy\<close>

definition saturating_mul :: "64 word \<Rightarrow> 64 word \<Rightarrow> 64 word" where
  "saturating_mul a b = (if unat a * unat b < 2 ^ 64 then a * b else - 1)"

definition restart_backoff :: "policy \<Rightarrow> 32 word \<Rightarrow> 64 word option" where
  "restart_backoff p attempts =
     (if \<not> p_restart p \<or> attempts \<ge> p_max_restarts p then None
      else
        (let factor = push_bit (unat (min attempts 10)) (1 :: 64 word);
             millis = min (saturating_mul (p_backoff_ms p) factor) 60000
         in Some millis))"

section \<open>Admin calls\<close>

record http_request =
  rq_method :: string
  rq_url :: string
  rq_token :: "string option"

record http_reply =
  rp_status :: nat
  rp_body :: "json option"

definition is_success :: "http_reply \<Rightarrow> bool" where
  "is_success r = (200 \<le> rp_status r \<and> rp_status r < 300)"

record health =
  he_healthy :: bool
  he_paused :: bool

definition probe_health :: "(http_request \<Rightarrow> http_reply option) \<Rightarrow> string \<Rightarrow> string option \<Rightarrow> health option" where
  "probe_health http admin token =
     (case http \<lparr>rq_method = ''GET'', rq_url = ''http://'' @ admin @ ''/admin/health'', rq_token = token\<rparr> of
        None \<Rightarrow> None
      | Some response \<Rightarrow>
          if \<not> is_success response then Some \<lparr>he_healthy = False, he_paused = False\<rparr>
          else
            (case rp_body response of
               None \<Rightarrow> None
             | Some v \<Rightarrow> Some \<lparr>he_healthy = True,
                 he_paused = (case v of JObject m \<Rightarrow> im_get m ''paused'' = Some (JBool True) | _ \<Rightarrow> False)\<rparr>))"

definition admin_post :: "(http_request \<Rightarrow> http_reply option) \<Rightarrow> string \<Rightarrow> string option \<Rightarrow> string \<Rightarrow> bool" where
  "admin_post http admin token path =
     (case http \<lparr>rq_method = ''POST'', rq_url = ''http://'' @ admin @ path, rq_token = token\<rparr> of
        None \<Rightarrow> False
      | Some response \<Rightarrow> is_success response)"

section \<open>Instance state\<close>

datatype instance_state = Starting | Running | Paused | Restarting | Stopping | Stopped | Failed

fun state_str :: "instance_state \<Rightarrow> string" where
  "state_str Starting = ''starting''"
| "state_str Running = ''running''"
| "state_str Paused = ''paused''"
| "state_str Restarting = ''restarting''"
| "state_str Stopping = ''stopping''"
| "state_str Stopped = ''stopped''"
| "state_str Failed = ''failed''"

datatype instance_command = Cmd_Start | Cmd_Stop | Cmd_Restart | Cmd_Pause | Cmd_Resume

record shared =
  sh_id :: string
  sh_state :: instance_state
  sh_paused :: bool
  sh_healthy :: bool
  sh_restarts :: "32 word"
  sh_admin :: "string option"
  sh_trigger :: "string option"

datatype wait_result = Alive | Exited | Wait_Error

datatype proc_event =
    Spawned nat
  | Terminated nat
  | Reaped nat
  | Lost nat
  | Backoff "64 word"

record sup_env =
  sv_http :: "nat \<Rightarrow> http_request \<Rightarrow> http_reply option"
  sv_spawn :: "nat \<Rightarrow> string \<Rightarrow> string list \<Rightarrow> nat option"
  sv_wait :: "nat \<Rightarrow> nat \<Rightarrow> wait_result"
  sv_port :: "nat \<Rightarrow> string option"

record supervisor =
  sup_shared :: shared
  sup_child :: "nat option"
  sup_attempts :: "32 word"
  sup_failures :: "32 word"
  sup_ops :: nat
  sup_log :: "proc_event list"

definition with_shared :: "(shared \<Rightarrow> shared) \<Rightarrow> supervisor \<Rightarrow> supervisor" where
  "with_shared f st = st\<lparr>sup_shared := f (sup_shared st)\<rparr>"

definition set_instance_state :: "instance_state \<Rightarrow> supervisor \<Rightarrow> supervisor" where
  "set_instance_state s = with_shared (sh_state_update (\<lambda>_. s))"

definition count_op :: "supervisor \<Rightarrow> supervisor" where
  "count_op st = st\<lparr>sup_ops := Suc (sup_ops st)\<rparr>"

definition log_event :: "proc_event \<Rightarrow> supervisor \<Rightarrow> supervisor" where
  "log_event e st = st\<lparr>sup_log := sup_log st @ [e]\<rparr>"

definition set_child :: "nat option \<Rightarrow> supervisor \<Rightarrow> supervisor" where
  "set_child c st = st\<lparr>sup_child := c\<rparr>"

section \<open>Processes\<close>

definition launch_args :: "instance_spec \<Rightarrow> string \<Rightarrow> string list" where
  "launch_args spec admin =
     (if sp_args spec = [] then
        [''serve'', sp_flow spec, ''--admin'', admin]
        @ (if sp_resume spec then [''--resume''] else [])
        @ (case sp_admin_token spec of None \<Rightarrow> [] | Some t \<Rightarrow> [''--admin-token'', t])
        @ (case sp_relay spec of None \<Rightarrow> [] | Some r \<Rightarrow> [''--relay'', r])
        @ (case sp_relay_token spec of None \<Rightarrow> [] | Some t \<Rightarrow> [''--relay-token'', t])
      else sp_args spec)"

text \<open>The admin address is resolved once: a free port is asked for only when none is known.\<close>

definition resolve_admin :: "sup_env \<Rightarrow> supervisor \<Rightarrow> supervisor" where
  "resolve_admin env st =
     (case sh_admin (sup_shared st) of
        Some _ \<Rightarrow> st
      | None \<Rightarrow> count_op (with_shared (sh_admin_update (\<lambda>_. sv_port env (sup_ops st))) st))"

definition spawn_child :: "sup_env \<Rightarrow> instance_spec \<Rightarrow> supervisor \<Rightarrow> supervisor" where
  "spawn_child env spec st =
     (let st1 = set_instance_state Starting (resolve_admin env st);
          admin = (case sh_admin (sup_shared st1) of None \<Rightarrow> [] | Some a \<Rightarrow> a) in
      case sv_spawn env (sup_ops st1) (sp_bin spec) (launch_args spec admin) of
        Some pid \<Rightarrow>
          with_shared (sh_healthy_update (\<lambda>_. True)) (set_instance_state Running
            (log_event (Spawned pid) (set_child (Some pid) (count_op st1))))
      | None \<Rightarrow>
          with_shared (sh_healthy_update (\<lambda>_. False)) (set_instance_state Failed (count_op st1)))"

definition terminate_child :: "supervisor \<Rightarrow> supervisor" where
  "terminate_child st =
     (case sup_child st of
        None \<Rightarrow> st
      | Some pid \<Rightarrow> log_event (Terminated pid) (set_child None st))"

section \<open>Commands\<close>

definition post_admin :: "sup_env \<Rightarrow> instance_spec \<Rightarrow> string \<Rightarrow> supervisor \<Rightarrow> bool \<times> supervisor" where
  "post_admin env spec path st =
     (case sh_admin (sup_shared st) of
        None \<Rightarrow> (False, st)
      | Some admin \<Rightarrow> (admin_post (sv_http env (sup_ops st)) admin (sp_admin_token spec) path, count_op st))"

definition pause_instance :: "sup_env \<Rightarrow> instance_spec \<Rightarrow> supervisor \<Rightarrow> supervisor" where
  "pause_instance env spec st =
     (let (ok, st1) = post_admin env spec ''/admin/pause'' st in
      if ok then set_instance_state Paused (with_shared (sh_paused_update (\<lambda>_. True)) st1) else st1)"

definition resume_instance :: "sup_env \<Rightarrow> instance_spec \<Rightarrow> supervisor \<Rightarrow> supervisor" where
  "resume_instance env spec st =
     (let (ok, st1) = post_admin env spec ''/admin/resume'' st in
      if ok then set_instance_state Running (with_shared (sh_paused_update (\<lambda>_. False)) st1) else st1)"

fun handle_command :: "sup_env \<Rightarrow> instance_spec \<Rightarrow> instance_command \<Rightarrow> supervisor \<Rightarrow> supervisor" where
  "handle_command env spec Cmd_Start st =
     (if sh_state (sup_shared st) \<in> {Stopped, Failed} then spawn_child env spec st else st)"
| "handle_command env spec Cmd_Stop st =
     set_instance_state Stopped (terminate_child (set_instance_state Stopping st))"
| "handle_command env spec Cmd_Restart st =
     spawn_child env spec (terminate_child (set_instance_state Restarting st))"
| "handle_command env spec Cmd_Pause st = pause_instance env spec st"
| "handle_command env spec Cmd_Resume st = resume_instance env spec st"

section \<open>Supervision\<close>

definition restart_or_fail :: "sup_env \<Rightarrow> instance_spec \<Rightarrow> supervisor \<Rightarrow> supervisor" where
  "restart_or_fail env spec st =
     (let attempts = sup_attempts st + 1;
          st1 = with_shared (sh_restarts_update (\<lambda>_. attempts)) (st\<lparr>sup_attempts := attempts\<rparr>) in
      case restart_backoff (sp_policy spec) attempts of
        Some backoff \<Rightarrow>
          (spawn_child env spec (log_event (Backoff backoff) (terminate_child (set_instance_state Restarting st1))))
            \<lparr>sup_failures := 0\<rparr>
      | None \<Rightarrow>
          with_shared (sh_healthy_update (\<lambda>_. False)) (set_instance_state Failed (terminate_child st1)))"

definition check_health_restart :: "sup_env \<Rightarrow> instance_spec \<Rightarrow> supervisor \<Rightarrow> supervisor" where
  "check_health_restart env spec st =
     (if sup_failures st \<ge> p_health_failures (sp_policy spec) then restart_or_fail env spec st else st)"

definition probe_failed :: "sup_env \<Rightarrow> instance_spec \<Rightarrow> supervisor \<Rightarrow> supervisor" where
  "probe_failed env spec st = check_health_restart env spec (st\<lparr>sup_failures := sup_failures st + 1\<rparr>)"

definition apply_health :: "sup_env \<Rightarrow> instance_spec \<Rightarrow> health \<Rightarrow> supervisor \<Rightarrow> supervisor" where
  "apply_health env spec h st =
     (if \<not> he_healthy h then probe_failed env spec st
      else with_shared (\<lambda>sh. sh\<lparr>sh_healthy := True, sh_paused := he_paused h,
          sh_state := (if he_paused h then Paused
                       else if sh_state sh = Paused then Running else sh_state sh)\<rparr>)
        (st\<lparr>sup_failures := 0\<rparr>))"

definition child_exited :: "sup_env \<Rightarrow> supervisor \<Rightarrow> bool \<times> supervisor" where
  "child_exited env st =
     (case sup_child st of
        None \<Rightarrow> (False, st)
      | Some pid \<Rightarrow>
          (case sv_wait env (sup_ops st) pid of
             Alive \<Rightarrow> (False, count_op st)
           | Exited \<Rightarrow> (True, log_event (Reaped pid) (count_op st))
           | Wait_Error \<Rightarrow> (True, log_event (Lost pid) (count_op st))))"

definition supervise_tick :: "sup_env \<Rightarrow> instance_spec \<Rightarrow> supervisor \<Rightarrow> supervisor" where
  "supervise_tick env spec st =
     (let (exited, st1) = child_exited env st in
      if exited then
        (let st2 = set_child None st1 in
         if sh_state (sup_shared st2) = Stopping then set_instance_state Stopped st2
         else restart_or_fail env spec st2)
      else if \<not> sp_health_enabled spec \<or> sup_child st1 = None then st1
      else
        (case sh_admin (sup_shared st1) of
           None \<Rightarrow> st1
         | Some admin \<Rightarrow>
             (case probe_health (sv_http env (sup_ops st1)) admin (sp_admin_token spec) of
                Some h \<Rightarrow> apply_health env spec h (count_op st1)
              | None \<Rightarrow> probe_failed env spec (count_op st1))))"

text \<open>
  \<^verbatim>\<open>InstanceManager::spawn_with_desired\<close> and the loop \<^verbatim>\<open>supervise\<close>: commands and ticks arrive in an
  order the scheduler chooses, given here as a list of events; when the command channel is
  closed the loop ends and the process is terminated.
\<close>

definition new_supervisor :: "instance_spec \<Rightarrow> nat \<Rightarrow> supervisor" where
  "new_supervisor spec n =
     \<lparr>sup_shared = \<lparr>sh_id = sp_id spec, sh_state = Starting, sh_paused = False, sh_healthy = False,
        sh_restarts = 0, sh_admin = sp_admin spec, sh_trigger = sp_trigger spec\<rparr>,
      sup_child = None, sup_attempts = 0, sup_failures = 0, sup_ops = n, sup_log = []\<rparr>"

definition supervise_init :: "sup_env \<Rightarrow> instance_spec \<Rightarrow> string \<Rightarrow> nat \<Rightarrow> supervisor" where
  "supervise_init env spec desired n =
     (let st = new_supervisor spec n in
      if desired \<noteq> ''stopped'' then
        (let st1 = spawn_child env spec st in
         if desired = ''paused'' then pause_instance env spec st1 else st1)
      else set_instance_state Stopped st)"

datatype sup_event = On_Command instance_command | On_Tick

fun supervise_step :: "sup_env \<Rightarrow> instance_spec \<Rightarrow> sup_event \<Rightarrow> supervisor \<Rightarrow> supervisor" where
  "supervise_step env spec (On_Command c) st = handle_command env spec c st"
| "supervise_step env spec On_Tick st = supervise_tick env spec st"

definition supervise :: "sup_env \<Rightarrow> instance_spec \<Rightarrow> string \<Rightarrow> nat \<Rightarrow> sup_event list \<Rightarrow> supervisor" where
  "supervise env spec desired n evs = fold (supervise_step env spec) evs (supervise_init env spec desired n)"

definition supervise_end :: "supervisor \<Rightarrow> supervisor" where
  "supervise_end st = terminate_child st"

section \<open>Reference notions\<close>

text \<open>
  The processes that a log leaves running.  A process that was told to terminate and waited for is
  taken to be gone; one whose status could not be asked for (\<open>Lost\<close>) may well be running.
\<close>

fun live_after :: "proc_event \<Rightarrow> nat list \<Rightarrow> nat list" where
  "live_after (Spawned p) ps = ps @ [p]"
| "live_after (Terminated p) ps = remove1 p ps"
| "live_after (Reaped p) ps = remove1 p ps"
| "live_after (Lost p) ps = ps"
| "live_after (Backoff d) ps = ps"

definition live :: "proc_event list \<Rightarrow> nat list" where
  "live l = fold live_after l []"

definition lost :: "proc_event list \<Rightarrow> nat list" where
  "lost l = List.map_filter (\<lambda>e. case e of Lost p \<Rightarrow> Some p | _ \<Rightarrow> None) l"

fun is_backoff :: "proc_event \<Rightarrow> bool" where
  "is_backoff (Backoff _) = True"
| "is_backoff _ = False"

definition auto_restarts :: "supervisor \<Rightarrow> nat" where
  "auto_restarts st = length (filter is_backoff (sup_log st))"

definition one_process :: "supervisor \<Rightarrow> bool" where
  "one_process st \<longleftrightarrow>
     mset (live (sup_log st)) = mset (lost (sup_log st)) + (case sup_child st of None \<Rightarrow> {#} | Some p \<Rightarrow> {#p#})"

definition lost_by_wait :: "sup_env \<Rightarrow> supervisor \<Rightarrow> bool" where
  "lost_by_wait env st \<longleftrightarrow> set (lost (sup_log st)) \<subseteq> {p. \<exists>n. sv_wait env n p = Wait_Error}"

definition settled :: "supervisor \<Rightarrow> bool" where
  "settled st \<longleftrightarrow> sh_state (sup_shared st) \<notin> {Starting, Restarting, Stopping} \<and>
     (sh_state (sup_shared st) \<in> {Stopped, Failed} \<longrightarrow> sup_child st = None)"

definition in_budget :: "policy \<Rightarrow> supervisor \<Rightarrow> bool" where
  "in_budget p st \<longleftrightarrow> sh_restarts (sup_shared st) = sup_attempts st \<and>
     auto_restarts st = (if p_restart p then min (unat (sup_attempts st)) (unat (p_max_restarts p) - 1) else 0)"

section \<open>Elementary steps\<close>

lemma live_append [simp]: "live (l @ [e]) = live_after e (live l)"
  by (simp add: live_def)

lemma lost_append [simp]: "lost (l @ [e]) = (case e of Lost p \<Rightarrow> lost l @ [p] | _ \<Rightarrow> lost l)"
  by (cases e) (simp_all add: lost_def map_filter_def)

lemma lost_Nil [simp]: "lost [] = []"
  by (simp add: lost_def map_filter_def)

lemmas sup_elementary = with_shared_def set_instance_state_def count_op_def log_event_def set_child_def

named_theorems sup_steps \<open>definitions of the supervisor's operations\<close>

lemmas sup_step_defs [sup_steps] = sup_elementary resolve_admin_def spawn_child_def terminate_child_def
  post_admin_def pause_instance_def resume_instance_def Let_def

text \<open>Spawning needs a free slot; every caller terminates the old process first.\<close>

lemma spawn_child_ok:
  assumes "one_process st" "sup_child st = None"
  shows "one_process (spawn_child env spec st) \<and> settled (spawn_child env spec st)"
  using assms by (auto simp: sup_steps one_process_def settled_def split: option.splits)

lemma terminate_child_ok:
  "one_process st \<Longrightarrow> one_process (terminate_child st) \<and> sup_child (terminate_child st) = None"
  by (auto simp: sup_steps one_process_def split: option.splits)

lemma one_process_frame:
  "sup_log a = sup_log b \<Longrightarrow> sup_child a = sup_child b \<Longrightarrow> one_process a = one_process b"
  by (simp add: one_process_def)

lemma restart_or_fail_ok:
  assumes "one_process st"
  shows "one_process (restart_or_fail env spec st) \<and> settled (restart_or_fail env spec st)"
proof (cases "restart_backoff (sp_policy spec) (sup_attempts st + 1)")
  case None
  then show ?thesis using assms
    by (auto simp: restart_or_fail_def sup_steps one_process_def settled_def split: option.splits)
next
  case (Some d)
  let ?st1 = "with_shared (sh_restarts_update (\<lambda>_. sup_attempts st + 1)) (st\<lparr>sup_attempts := sup_attempts st + 1\<rparr>)"
  let ?st2 = "log_event (Backoff d) (terminate_child (set_instance_state Restarting ?st1))"
  have "one_process ?st2 \<and> sup_child ?st2 = None"
    using assms by (auto simp: sup_steps one_process_def split: option.splits)
  from spawn_child_ok [of ?st2 env spec] this Some show ?thesis
    by (simp add: restart_or_fail_def Let_def one_process_def settled_def)
qed

lemma supervise_step_ok:
  assumes "one_process st" "settled st"
  shows "one_process (supervise_step env spec ev st) \<and> settled (supervise_step env spec ev st)"
proof (cases ev)
  case (On_Command c)
  then show ?thesis
  proof (cases c)
    case Cmd_Restart
    have "one_process (set_instance_state Restarting st)"
      using assms(1) by (simp add: sup_elementary one_process_def)
    from spawn_child_ok [of _ env spec] terminate_child_ok [OF this] On_Command Cmd_Restart show ?thesis by simp
  qed (use assms spawn_child_ok [of st env spec] in
      \<open>auto simp: settled_def one_process_def sup_steps split: option.splits\<close>)
next
  case On_Tick
  have health: "one_process (apply_health env spec h s) \<and> settled (apply_health env spec h s)"
    "one_process (probe_failed env spec s) \<and> settled (probe_failed env spec s)"
    if "one_process s" "settled s" "sup_child s \<noteq> None" for h s
    using that restart_or_fail_ok [of "s\<lparr>sup_failures := sup_failures s + 1\<rparr>" env spec]
    by (auto simp: apply_health_def probe_failed_def check_health_restart_def one_process_def settled_def sup_elementary)
  show ?thesis
  proof (cases "sup_child st")
    case None
    then show ?thesis using assms On_Tick by (simp add: supervise_tick_def child_exited_def)
  next
    case (Some p)
    let ?r = "log_event (Reaped p) (count_op st)\<lparr>sup_child := None\<rparr>"
    let ?l = "log_event (Lost p) (count_op st)\<lparr>sup_child := None\<rparr>"
    have "one_process ?r" "one_process ?l" "sh_state (sup_shared ?r) \<noteq> Stopping" "sh_state (sup_shared ?l) \<noteq> Stopping"
      using assms Some by (auto simp: sup_elementary one_process_def settled_def)
    moreover have "one_process (count_op st)" "settled (count_op st)" "one_process (count_op (count_op st))"
      "settled (count_op (count_op st))"
      using assms by (simp_all add: sup_elementary one_process_def settled_def)
    ultimately show ?thesis
      using On_Tick Some health [of "count_op (count_op st)"] restart_or_fail_ok [of ?r env spec]
        restart_or_fail_ok [of ?l env spec]
      by (auto simp: supervise_tick_def child_exited_def set_child_def count_op_def log_event_def Let_def
          split: wait_result.splits option.splits)
  qed
qed

text \<open>A process is lost only where asking for its status failed.\<close>

lemma lost_fields [simp]:
  "lost (sup_log (spawn_child env spec st)) = lost (sup_log st)"
  "lost (sup_log (terminate_child st)) = lost (sup_log st)"
  "lost (sup_log (restart_or_fail env spec st)) = lost (sup_log st)"
proof -
  show s: "lost (sup_log (spawn_child env spec st)) = lost (sup_log st)" for st
    by (auto simp: sup_steps split: option.splits)
  show t: "lost (sup_log (terminate_child st)) = lost (sup_log st)" for st
    by (auto simp: sup_steps split: option.splits)
  show "lost (sup_log (restart_or_fail env spec st)) = lost (sup_log st)"
    by (simp add: restart_or_fail_def Let_def s t sup_elementary split: option.split)
qed

lemma supervise_step_lost:
  assumes "lost_by_wait env st"
  shows "lost_by_wait env (supervise_step env spec ev st)"
proof (cases ev)
  case (On_Command c)
  have "lost (sup_log (handle_command env spec c st)) = lost (sup_log st)"
    by (cases c) (auto simp: set_instance_state_def with_shared_def pause_instance_def resume_instance_def
        post_admin_def count_op_def split: option.splits)
  with On_Command assms show ?thesis by (simp add: lost_by_wait_def)
next
  case On_Tick
  with assms show ?thesis
    by (auto simp: lost_by_wait_def supervise_tick_def child_exited_def apply_health_def probe_failed_def
        check_health_restart_def Let_def sup_elementary split: option.splits wait_result.splits)
qed

lemma supervise_init_ok: "one_process (supervise_init env spec d n) \<and> settled (supervise_init env spec d n)"
proof -
  have s: "one_process (spawn_child env spec (new_supervisor spec n)) \<and> settled (spawn_child env spec (new_supervisor spec n))"
    by (rule spawn_child_ok) (simp_all add: new_supervisor_def one_process_def live_def)
  have "one_process (pause_instance env spec st) \<and> settled (pause_instance env spec st)"
    if "one_process st" "settled st" for st
    using that by (auto simp: pause_instance_def post_admin_def sup_elementary one_process_def settled_def
        split: option.splits)
  with s show ?thesis
    by (auto simp: supervise_init_def Let_def new_supervisor_def one_process_def settled_def live_def sup_elementary)
qed

lemma supervise_init_lost: "lost_by_wait env (supervise_init env spec d n)"
  by (auto simp: supervise_init_def Let_def lost_by_wait_def new_supervisor_def pause_instance_def post_admin_def
      sup_elementary split: option.splits)

lemma supervise_ok:
  "one_process (supervise env spec d n evs) \<and> settled (supervise env spec d n evs) \<and>
   lost_by_wait env (supervise env spec d n evs)"
proof -
  have "one_process (fold (supervise_step env spec) evs st) \<and> settled (fold (supervise_step env spec) evs st) \<and>
      lost_by_wait env (fold (supervise_step env spec) evs st)"
    if "one_process st" "settled st" "lost_by_wait env st" for st
    using that by (induction evs arbitrary: st) (use supervise_step_ok supervise_step_lost in auto)
  with supervise_init_ok supervise_init_lost show ?thesis by (simp add: supervise_def)
qed

subsection \<open>The restart budget\<close>

lemma in_budget_frame:
  assumes "filter is_backoff (sup_log a) = filter is_backoff (sup_log b)" "sup_attempts a = sup_attempts b"
    "sh_restarts (sup_shared a) = sh_restarts (sup_shared b)"
  shows "in_budget p a = in_budget p b"
  using assms by (simp add: in_budget_def auto_restarts_def)

lemma budget_fields [simp]:
  "sup_attempts (spawn_child env spec st) = sup_attempts st"
  "sh_restarts (sup_shared (spawn_child env spec st)) = sh_restarts (sup_shared st)"
  "filter is_backoff (sup_log (spawn_child env spec st)) = filter is_backoff (sup_log st)"
  "sup_attempts (terminate_child st) = sup_attempts st"
  "sh_restarts (sup_shared (terminate_child st)) = sh_restarts (sup_shared st)"
  "filter is_backoff (sup_log (terminate_child st)) = filter is_backoff (sup_log st)"
  by (auto simp: sup_steps split: option.splits)

lemma unat_Suc: "Suc (unat (w :: 32 word)) < 2 ^ 32 \<Longrightarrow> unat (w + 1) = Suc (unat w)"
  by (simp add: unat_word_ariths)

lemma restart_or_fail_budget:
  assumes "in_budget (sp_policy spec) st" "Suc (unat (sup_attempts st)) < 2 ^ 32"
  shows "in_budget (sp_policy spec) (restart_or_fail env spec st) \<and>
    unat (sup_attempts (restart_or_fail env spec st)) = Suc (unat (sup_attempts st))"
proof -
  have u: "unat (sup_attempts st + 1) = Suc (unat (sup_attempts st))" using unat_Suc [OF assms(2)] .
  have le: "p_max_restarts (sp_policy spec) \<le> sup_attempts st + 1 \<longleftrightarrow>
      unat (p_max_restarts (sp_policy spec)) \<le> Suc (unat (sup_attempts st))"
    using u by (simp add: word_le_nat_alt)
  show ?thesis
    using assms(1) u
    by (auto simp: restart_or_fail_def restart_backoff_def le in_budget_def auto_restarts_def
        sup_elementary Let_def min_def)
qed

lemma supervise_step_budget:
  assumes "in_budget (sp_policy spec) st" "Suc (unat (sup_attempts st)) < 2 ^ 32"
  shows "in_budget (sp_policy spec) (supervise_step env spec ev st) \<and>
    unat (sup_attempts (supervise_step env spec ev st)) \<le> Suc (unat (sup_attempts st))"
proof (cases ev)
  case (On_Command c)
  have "filter is_backoff (sup_log (handle_command env spec c st)) = filter is_backoff (sup_log st) \<and>
      sup_attempts (handle_command env spec c st) = sup_attempts st \<and>
      sh_restarts (sup_shared (handle_command env spec c st)) = sh_restarts (sup_shared st)"
    by (cases c) (auto simp: set_instance_state_def with_shared_def pause_instance_def resume_instance_def
        post_admin_def count_op_def split: option.splits)
  with On_Command assms(1) show ?thesis
    using in_budget_frame [of "handle_command env spec c st" st] by simp
next
  case On_Tick
  define Q where "Q s \<longleftrightarrow> in_budget (sp_policy spec) s \<and> unat (sup_attempts s) \<le> Suc (unat (sup_attempts st))" for s
  have r: "Q (restart_or_fail env spec s)"
    if "filter is_backoff (sup_log s) = filter is_backoff (sup_log st)" "sup_attempts s = sup_attempts st"
      "sh_restarts (sup_shared s) = sh_restarts (sup_shared st)" for s
    using restart_or_fail_budget [of spec s env] in_budget_frame [OF that] assms that(2) by (simp add: Q_def)
  have k: "Q s"
    if "filter is_backoff (sup_log s) = filter is_backoff (sup_log st)" "sup_attempts s = sup_attempts st"
      "sh_restarts (sup_shared s) = sh_restarts (sup_shared st)" for s
    using in_budget_frame [OF that] assms that(2) by (simp add: Q_def)
  have "Q (supervise_tick env spec st)"
    unfolding supervise_tick_def child_exited_def apply_health_def probe_failed_def check_health_restart_def
    by (simp add: Let_def sup_elementary r k split: option.split wait_result.split)
  with On_Tick show ?thesis by (simp add: Q_def)
qed

lemma supervise_budget:
  assumes "length evs < 2 ^ 32"
  shows "in_budget (sp_policy spec) (supervise env spec d n evs) \<and>
    unat (sup_attempts (supervise env spec d n evs)) \<le> length evs"
  using assms
proof (induction evs rule: rev_induct)
  case Nil
  then show ?case
    by (auto simp: supervise_def supervise_init_def Let_def in_budget_def auto_restarts_def new_supervisor_def
        sup_elementary pause_instance_def post_admin_def split: option.splits)
next
  case (snoc ev evs)
  then show ?case
    using supervise_step_budget [of spec "supervise env spec d n evs" env ev]
    by (auto simp: supervise_def)
qed

section \<open>Properties\<close>

text \<open>
  The backoff of an allowed restart is exactly the base backoff times \<open>2 ^ min attempts 10\<close>,
  capped at 60000 milliseconds, whatever the 64-bit base: the multiplication saturates and never
  wraps around.  No restart is allowed exactly when restarts are disabled or the attempts reach
  the budget.
\<close>

theorem restart_backoff_exact:
  "map_option unat (restart_backoff p attempts) =
    (if p_restart p \<and> unat attempts < unat (p_max_restarts p)
     then Some (min (unat (p_backoff_ms p) * 2 ^ min (unat attempts) 10) 60000) else None)"
proof -
  let ?k = "min (unat attempts) 10"
  have k: "unat (min attempts 10) = ?k" by (simp add: min_def word_le_nat_alt)
  have "(2 :: nat) ^ ?k < 2 ^ 64" by (rule power_strict_increasing) auto
  then have "unat (of_nat (2 ^ ?k) :: 64 word) = 2 ^ ?k" by (simp only: unsigned_of_nat) (simp add: take_bit_nat_eq_self)
  then have f: "unat ((2 :: 64 word) ^ ?k) = 2 ^ ?k" by simp
  have "unat (min (saturating_mul b w) 60000) = min (unat b * unat w) 60000" for b w :: "64 word"
  proof (cases "unat b * unat w < 2 ^ 64")
    case True
    then have "unat (b * w) = unat b * unat w" by (simp add: unat_word_ariths)
    with True show ?thesis by (simp add: saturating_mul_def min_def word_le_nat_alt)
  next
    case False
    then show ?thesis by (simp add: saturating_mul_def min_def word_le_nat_alt unsigned_minus_1_eq_mask mask_eq_exp_minus_1)
  qed
  then show ?thesis
    by (simp add: restart_backoff_def Let_def k f word_le_nat_alt not_le)
qed

text \<open>
  C8. One process per instance, up to those the supervisor loses sight of.  Whatever commands and
  ticks the supervisor receives and however spawning, probing, posting and waiting turn out: the
  running processes are the current child and those dropped because asking whether they had exited
  failed (the code takes that error for an exit, neither kills nor waits for the process, and may
  start another one beside it); so while that question never fails, at most one process runs.  An
  instance that is stopped or failed has no current child, the state between two events is never a
  transitional one, and ending the supervisor leaves no process behind but the lost ones.
\<close>

theorem supervise_one_process:
  "let st = supervise env spec desired n evs in
    mset (live (sup_log st)) = mset (lost (sup_log st)) + (case sup_child st of None \<Rightarrow> {#} | Some p \<Rightarrow> {#p#}) \<and>
    set (lost (sup_log st)) \<subseteq> {p. \<exists>n. sv_wait env n p = Wait_Error} \<and>
    (sh_state (sup_shared st) \<in> {Stopped, Failed} \<longrightarrow> sup_child st = None) \<and>
    sh_state (sup_shared st) \<notin> {Starting, Restarting, Stopping} \<and>
    mset (live (sup_log (supervise_end st))) = mset (lost (sup_log st))"
  using supervise_ok [where env = env and spec = spec and d = desired and n = n and evs = evs]
  by (auto simp: one_process_def settled_def lost_by_wait_def supervise_end_def terminate_child_def sup_elementary Let_def
      split: option.splits)

definition calm_env :: sup_env where
  "calm_env = \<lparr>sv_http = (\<lambda>_ _. None), sv_spawn = (\<lambda>n _ _. Some n), sv_wait = (\<lambda>_ _. Exited),
     sv_port = (\<lambda>_. Some ''127.0.0.1:1'')\<rparr>"

lemmas run_eval = supervise_def supervise_init_def supervise_tick_def child_exited_def restart_or_fail_def
  restart_backoff_def new_supervisor_def default_spec_def default_policy_def calm_env_def sup_steps

definition blind_env :: sup_env where
  "blind_env = calm_env\<lparr>sv_wait := (\<lambda>_ _. Wait_Error)\<rparr>"

theorem supervise_one_process_witness:
  "let st = supervise calm_env default_spec ''running'' 0 [On_Tick, On_Command Cmd_Restart, On_Command Cmd_Stop];
       st' = supervise blind_env default_spec ''running'' 0 [On_Tick] in
   live (sup_log st) = [] \<and> sh_state (sup_shared st) = Stopped \<and> length (sup_log st) = 7 \<and>
   length (live (sup_log st')) = 2 \<and> length (lost (sup_log st')) = 1 \<and> sup_child st' \<noteq> None"
proof -
  let ?st = "supervise calm_env default_spec ''running'' 0 [On_Tick, On_Command Cmd_Restart, On_Command Cmd_Stop]"
  let ?st' = "supervise blind_env default_spec ''running'' 0 [On_Tick]"
  have s: "sh_state (sup_shared ?st) = Stopped" "length (sup_log ?st) = 7"
    by (simp_all add: run_eval word_le_nat_alt)
  note supervise_one_process [of calm_env default_spec "''running''" 0
      "[On_Tick, On_Command Cmd_Restart, On_Command Cmd_Stop]"]
  with s have "live (sup_log ?st) = []" by (auto simp: Let_def calm_env_def)
  moreover have "length (lost (sup_log ?st')) = 1" "sup_child ?st' \<noteq> None"
    by (simp_all add: run_eval blind_env_def word_le_nat_alt lost_def map_filter_def)
  moreover from this supervise_one_process [of blind_env default_spec "''running''" 0 "[On_Tick]"]
  have "size (mset (live (sup_log ?st'))) = 2" by (auto simp: Let_def)
  ultimately show ?thesis using s by (simp add: Let_def)
qed

text \<open>
  The restart budget is one short.  In any run of fewer than \<open>2 ^ 32\<close> events, the number of
  automatic restarts is the number of failures the supervisor reports as \<^verbatim>\<open>restarts\<close>, but at
  most \<^verbatim>\<open>max_restarts\<close> minus one (none when restarts are disabled): the attempt counter is
  increased before it is compared with the budget.
\<close>

theorem auto_restarts_exact:
  assumes "length evs < 2 ^ 32"
  shows "let st = supervise env spec desired n evs; p = sp_policy spec in
    auto_restarts st =
      (if p_restart p then min (unat (sh_restarts (sup_shared st))) (unat (p_max_restarts p) - 1) else 0)"
  using supervise_budget [OF assms, of spec env desired n] by (simp add: in_budget_def Let_def)

theorem auto_restarts_exact_witness:
  "let spec = default_spec\<lparr>sp_policy := default_policy\<lparr>p_max_restarts := 1\<rparr>\<rparr>;
       st = supervise calm_env spec ''running'' 0 [On_Tick] in
   auto_restarts st = 0 \<and> sh_state (sup_shared st) = Failed"
proof -
  let ?spec = "default_spec\<lparr>sp_policy := default_policy\<lparr>p_max_restarts := 1\<rparr>\<rparr>"
  have "sh_state (sup_shared (supervise calm_env ?spec ''running'' 0 [On_Tick])) = Failed"
    by (simp add: run_eval)
  with auto_restarts_exact [of "[On_Tick]" calm_env ?spec "''running''" 0] show ?thesis
    by (simp add: Let_def default_policy_def)
qed

end
