(* ===== verification/Agent.thy ===== *)
theory Agent
  imports Supervisor
begin

text \<open>
  The node agent (\<^verbatim>\<open>sohara-agent/src/agent.rs\<close>) and the messages it exchanges with the control
  plane (\<^verbatim>\<open>transport.rs\<close>).  A manager holds its supervisor and the commands sent to it that the
  supervisor task has not taken yet; \<open>env\<close> gives the operating system and HTTP client each
  instance sees.  The hash map of managers is an association list.  Sequence numbers grow by
  one per command and are natural numbers: the 64-bit counter cannot be exhausted in practice.
\<close>

section \<open>Messages\<close>

record instance_report =
  rep_id :: string
  rep_state :: instance_state
  rep_paused :: bool
  rep_healthy :: bool
  rep_restarts :: "32 word"
  rep_admin :: "string option"
  rep_trigger :: "string option"

record heartbeat_msg =
  hb_node :: string
  hb_time :: string
  hb_instances :: "instance_report list"

record command =
  cm_seq :: nat
  cm_op :: string
  cm_instance :: string

datatype ack_error = Unknown_Op string | Unknown_Instance string

record command_ack =
  ak_seq :: nat
  ak_ok :: bool
  ak_error :: "ack_error option"

record desired_instance =
  di_spec :: instance_spec
  di_desired :: string

record heartbeat_response =
  hr_commands :: "command list"
  hr_desired :: "desired_instance list"

section \<open>Managers\<close>

record manager =
  mg_spec :: instance_spec
  mg_sup :: supervisor
  mg_inbox :: "instance_command list"

type_synonym node_env = "string \<Rightarrow> sup_env"

definition spawn_with_desired :: "node_env \<Rightarrow> instance_spec \<Rightarrow> string \<Rightarrow> manager" where
  "spawn_with_desired env spec desired =
     \<lparr>mg_spec = spec, mg_sup = supervise_init (env (sp_id spec)) spec desired 0, mg_inbox = []\<rparr>"

definition manager_send :: "instance_command \<Rightarrow> manager \<Rightarrow> manager" where
  "manager_send c m = m\<lparr>mg_inbox := mg_inbox m @ [c]\<rparr>"

text \<open>
  The supervisor task takes the commands in the order they were sent; ticks of its interval may
  come between them, in \<open>manager_tick\<close>.
\<close>

definition manager_drain :: "node_env \<Rightarrow> manager \<Rightarrow> manager" where
  "manager_drain env m =
     m\<lparr>mg_sup := fold (handle_command (env (sp_id (mg_spec m))) (mg_spec m)) (mg_inbox m) (mg_sup m),
       mg_inbox := []\<rparr>"

definition manager_tick :: "node_env \<Rightarrow> manager \<Rightarrow> manager" where
  "manager_tick env m = m\<lparr>mg_sup := supervise_tick (env (sp_id (mg_spec m))) (mg_spec m) (mg_sup m)\<rparr>"

definition manager_snapshot :: "manager \<Rightarrow> instance_report" where
  "manager_snapshot m = (let sh = sup_shared (mg_sup m) in
     \<lparr>rep_id = sh_id sh, rep_state = sh_state sh, rep_paused = sh_paused sh, rep_healthy = sh_healthy sh,
      rep_restarts = sh_restarts sh, rep_admin = sh_admin sh, rep_trigger = sh_trigger sh\<rparr>)"

text \<open>
  \<^verbatim>\<open>shutdown\<close> sends a stop command and waits for the supervisor to handle it; dropping the manager
  closes the channel, which ends the supervision loop.
\<close>

definition shutdown :: "node_env \<Rightarrow> manager \<Rightarrow> manager" where
  "shutdown env m = manager_drain env (manager_send Cmd_Stop m)"

definition drop_manager :: "manager \<Rightarrow> manager" where
  "drop_manager m = m\<lparr>mg_sup := supervise_end (mg_sup m)\<rparr>"

section \<open>Agent\<close>

text \<open>
  \<open>ag_log\<close> is no field of the code: it lists the commands this agent process has executed so far,
  answered with success or not, and \<open>execute\<close>, the only place that does so, appends to it.
\<close>

record agent =
  ag_node :: string
  ag_managers :: "(string \<times> manager) list"
  ag_retired :: "manager list"
  ag_log :: "command list"

definition agent_new :: "node_env \<Rightarrow> string \<Rightarrow> instance_spec list \<Rightarrow> agent" where
  "agent_new env node specs =
     \<lparr>ag_node = node,
      ag_managers = fold (\<lambda>spec ms. im_insert (sp_id spec) (spawn_with_desired env spec ''running'') ms) specs [],
      ag_retired = [], ag_log = []\<rparr>"

definition build_heartbeat :: "string \<Rightarrow> agent \<Rightarrow> heartbeat_msg" where
  "build_heartbeat now ag =
     \<lparr>hb_node = ag_node ag, hb_time = now, hb_instances = map (manager_snapshot \<circ> snd) (ag_managers ag)\<rparr>"

definition parse_op :: "string \<Rightarrow> instance_command option" where
  "parse_op op =
     (if op = ''start'' then Some Cmd_Start
      else if op = ''stop'' then Some Cmd_Stop
      else if op = ''restart'' then Some Cmd_Restart
      else if op = ''pause'' then Some Cmd_Pause
      else if op = ''resume'' then Some Cmd_Resume
      else None)"

definition logged :: "command \<Rightarrow> agent \<Rightarrow> agent" where
  "logged c ag = ag\<lparr>ag_log := ag_log ag @ [c]\<rparr>"

definition execute :: "command \<Rightarrow> agent \<Rightarrow> command_ack \<times> agent" where
  "execute c ag =
     (case parse_op (cm_op c) of
        None \<Rightarrow> (\<lparr>ak_seq = cm_seq c, ak_ok = False, ak_error = Some (Unknown_Op (cm_op c))\<rparr>, logged c ag)
      | Some op \<Rightarrow>
          (case im_get (ag_managers ag) (cm_instance c) of
             Some m \<Rightarrow> (\<lparr>ak_seq = cm_seq c, ak_ok = True, ak_error = None\<rparr>,
               logged c (ag\<lparr>ag_managers := im_insert (cm_instance c) (manager_send op m) (ag_managers ag)\<rparr>))
           | None \<Rightarrow> (\<lparr>ak_seq = cm_seq c, ak_ok = False, ak_error = Some (Unknown_Instance (cm_instance c))\<rparr>,
               logged c ag)))"

lemma logged_fields [simp]:
  "ag_log (logged c ag) = ag_log ag @ [c]" "ag_node (logged c ag) = ag_node ag"
  "ag_managers (logged c ag) = ag_managers ag"
  by (simp_all add: logged_def)

lemma execute_log: "ag_log (snd (execute c ag)) = ag_log ag @ [c]"
  by (simp add: execute_def split: option.split)

text \<open>\<^verbatim>\<open>dispatch\<close>: the acknowledgements are returned in the order they are sent to the plane.\<close>

fun dispatch_loop :: "command list \<Rightarrow> nat \<Rightarrow> nat \<Rightarrow> agent \<Rightarrow> command_ack list \<times> nat \<times> agent" where
  "dispatch_loop [] last_seq seq ag = ([], seq, ag)"
| "dispatch_loop (c # cs) last_seq seq ag =
     (if cm_seq c \<le> last_seq then dispatch_loop cs last_seq seq ag
      else
        (let (ack, ag1) = execute c ag;
             (acks, seq', ag2) = dispatch_loop cs last_seq (max seq (cm_seq c)) ag1
         in (ack # acks, seq', ag2)))"

definition dispatch :: "command list \<Rightarrow> nat \<Rightarrow> agent \<Rightarrow> command_ack list \<times> nat \<times> agent" where
  "dispatch cs last_seq ag = dispatch_loop cs last_seq last_seq ag"

definition reconcile :: "node_env \<Rightarrow> desired_instance list \<Rightarrow> agent \<Rightarrow> agent" where
  "reconcile env desired ag =
     (let desired_ids = map (sp_id \<circ> di_spec) desired;
          managers = fold (\<lambda>item ms.
              let i = sp_id (di_spec item) in
              if im_contains ms i then ms
              else im_insert i (spawn_with_desired env (di_spec item) (di_desired item)) ms)
            desired (ag_managers ag);
          stale = filter (\<lambda>(i, _). i \<notin> set desired_ids) managers
      in ag\<lparr>ag_managers := filter (\<lambda>(i, _). i \<in> set desired_ids) managers,
            ag_retired := ag_retired ag @ map (\<lambda>(_, m). drop_manager (shutdown env m)) stale\<rparr>)"

text \<open>
  One turn of the loop of \<^verbatim>\<open>Agent::run\<close> with the plane's answer, or none when the heartbeat failed;
  the second component is \<^verbatim>\<open>last_seq\<close>.
\<close>

definition agent_turn ::
    "node_env \<Rightarrow> heartbeat_response option \<Rightarrow> nat \<Rightarrow> agent \<Rightarrow> command_ack list \<times> nat \<times> agent" where
  "agent_turn env response last_seq ag =
     (case response of
        None \<Rightarrow> ([], last_seq, ag)
      | Some r \<Rightarrow>
          (let (acks, seq, ag1) = dispatch (hr_commands r) last_seq ag
           in (acks, seq, reconcile env (hr_desired r) ag1)))"

definition agent_shutdown :: "node_env \<Rightarrow> agent \<Rightarrow> agent" where
  "agent_shutdown env ag = ag\<lparr>ag_managers := map (\<lambda>(i, m). (i, shutdown env m)) (ag_managers ag)\<rparr>"

section \<open>Dispatch\<close>

lemma dispatch_loop_acks:
  "\<lbrakk>dispatch_loop cs last_seq seq ag = (acks, seq', ag')\<rbrakk>
   \<Longrightarrow> map ak_seq acks = filter (\<lambda>n. last_seq < n) (map cm_seq cs)"
proof (induction cs arbitrary: seq ag acks ag')
  case (Cons c cs)
  then show ?case
    by (cases "execute c ag") (auto simp: execute_def split: if_splits option.splits prod.splits)
qed auto

lemma dispatch_loop_log:
  "dispatch_loop cs last_seq seq ag = (acks, seq', ag') \<Longrightarrow>
   ag_log ag' = ag_log ag @ filter (\<lambda>c. last_seq < cm_seq c) cs"
proof (induction cs arbitrary: seq ag acks seq')
  case (Cons c cs)
  then show ?case
    by (cases "execute c ag") (use execute_log [of c ag] in \<open>force split: if_splits prod.splits\<close>)
qed simp

lemma dispatch_loop_seq:
  "\<lbrakk>dispatch_loop cs last_seq seq ag = (acks, seq', ag'); last_seq \<le> seq\<rbrakk>
   \<Longrightarrow> seq' = Max (insert seq (set (map cm_seq cs)))"
proof (induction cs arbitrary: seq ag acks ag')
  case (Cons c cs)
  show ?case
  proof (cases "cm_seq c \<le> last_seq")
    case True
    with Cons.prems have "seq' = Max (insert seq (set (map cm_seq cs)))" by (intro Cons.IH) auto
    moreover have "Max (insert seq (insert (cm_seq c) (set (map cm_seq cs)))) = Max (insert seq (set (map cm_seq cs)))"
      using True Cons.prems(2) by (subst insert_commute, subst Max_insert) (auto simp: max_def intro: order_trans)
    ultimately show ?thesis by simp
  next
    case False
    then obtain acks1 ag1 ack where "execute c ag = (ack, ag1)"
      "dispatch_loop cs last_seq (max seq (cm_seq c)) ag1 = (acks1, seq', ag')"
      using Cons.prems(1) by (auto split: prod.splits)
    from Cons.IH [OF this(2)] Cons.prems(2) show ?thesis
      by (cases "cs = []") (auto simp: max_def insert_commute)
  qed
qed auto

lemma dispatch_old:
  "\<forall>c \<in> set cs. cm_seq c \<le> last_seq \<Longrightarrow> dispatch cs last_seq ag = ([], last_seq, ag)"
proof -
  have "\<forall>c \<in> set cs. cm_seq c \<le> last_seq \<Longrightarrow> dispatch_loop cs last_seq seq ag = ([], seq, ag)" for seq
    by (induction cs) auto
  then show "\<forall>c \<in> set cs. cm_seq c \<le> last_seq \<Longrightarrow> ?thesis" by (simp add: dispatch_def)
qed

end
