(* ===== verification/Plane.thy ===== *)
theory Plane
  imports Agent State_Store Routes
begin

text \<open>
  The control plane's registry (\<^verbatim>\<open>sohara-plane/src/types.rs\<close>, \<^verbatim>\<open>registry.rs\<close>, \<^verbatim>\<open>reconcile.rs\<close>,
  \<^verbatim>\<open>events.rs\<close>, \<^verbatim>\<open>store.rs\<close>): declared and reported instances, the command queues of the nodes,
  plane events and the state file.  Hash maps are association lists whose iteration order is
  the parameter \<open>pe_order\<close>; the clock, the JSON printer and reader and the faults of the file
  system are parameters too.  Heartbeats, acknowledgements and the relay hold the
  registry's lock throughout.  The declaring operations take it three times, to write, to
  record an event and to save; here they are one step.
\<close>

section \<open>Declarations\<close>

datatype desired = D_Running | D_Paused | D_Stopped

fun desired_str :: "desired \<Rightarrow> string" where
  "desired_str D_Running = ''running''"
| "desired_str D_Paused = ''paused''"
| "desired_str D_Stopped = ''stopped''"

record instance_decl =
  dc_id :: string
  dc_node :: string
  dc_flow_id :: "string option"
  dc_desired :: desired
  dc_spec :: instance_spec

record flow_decl =
  fd_id :: string
  fd_name :: string
  fd_yaml :: string

datatype route_mode = Proxy | Bus

datatype strategy = Round_Robin | Hash

record route_decl =
  rd_id :: string
  rd_path :: string
  rd_flow_id :: string
  rd_mode :: route_mode
  rd_strategy :: strategy
  rd_sticky_key :: "string option"
  rd_topic :: "string option"

record instance_view =
  iv_id :: string
  iv_node :: string
  iv_flow_id :: "string option"
  iv_desired :: string
  iv_actual :: "string option"
  iv_healthy :: "bool option"
  iv_paused :: "bool option"
  iv_restarts :: "32 word option"
  iv_admin :: "string option"
  iv_trigger :: "string option"

record node_view =
  nv_id :: string
  nv_last_seen :: "string option"

section \<open>State\<close>

record relay_queue =
  rq_seq :: nat
  rq_buffer :: "(nat \<times> json) list"

record inner =
  pi_flows :: "flow_decl imap"
  pi_instances :: "instance_decl imap"
  pi_actual :: "instance_report list imap"
  pi_last_seen :: "string imap"
  pi_pending :: "command list imap"
  pi_seq :: "nat imap"
  pi_routes :: "route_decl imap"
  pi_round_robin :: "nat imap"
  pi_relay :: "relay_queue imap"
  pi_relay_cursors :: "nat imap imap"
  pi_events :: "json list"
  pi_clock :: nat

definition default_inner :: inner where
  "default_inner = \<lparr>pi_flows = [], pi_instances = [], pi_actual = [], pi_last_seen = [], pi_pending = [],
     pi_seq = [], pi_routes = [], pi_round_robin = [], pi_relay = [], pi_relay_cursors = [],
     pi_events = [], pi_clock = 0\<rparr>"

record persisted =
  ps_flows :: "flow_decl list"
  ps_instances :: "instance_decl list"
  ps_routes :: "route_decl list"

record plane_env =
  pe_order :: "string list \<Rightarrow> string list"
  pe_now :: "nat \<Rightarrow> string"
  pe_fault :: "nat \<Rightarrow> string option"
  pe_torn :: "nat \<Rightarrow> string"
  pe_print :: "persisted \<Rightarrow> string"
  pe_read :: "string \<Rightarrow> persisted option"

record registry_state =
  rg_inner :: inner
  rg_path :: "string option"
  rg_disk :: "(string \<times> string) list"
  rg_ops :: nat

definition values_of :: "plane_env \<Rightarrow> 'v imap \<Rightarrow> 'v list" where
  "values_of env m = List.map_filter (im_get m) (pe_order env (im_keys m))"

section \<open>State file\<close>

definition store_save_file ::
    "plane_env \<Rightarrow> string \<Rightarrow> persisted \<Rightarrow> (string \<times> string) list \<Rightarrow> nat
     \<Rightarrow> (string + unit) \<times> (string \<times> string) list \<times> nat" where
  "store_save_file env path v disk n =
     (let tmp = tmp_path path in
      case (if has_parent path then pe_fault env n else None) of
        Some m \<Rightarrow> (Inl m, disk, n + 1)
      | None \<Rightarrow>
          (case pe_fault env (n + 1) of
             Some m \<Rightarrow> (Inl m, AList.update tmp (pe_torn env (n + 1)) disk, n + 2)
           | None \<Rightarrow>
               (let disk1 = AList.update tmp (pe_print env v) disk in
                case pe_fault env (n + 2) of
                  Some m \<Rightarrow> (Inl m, disk1, n + 3)
                | None \<Rightarrow> (Inr (), AList.update path (pe_print env v) (AList.delete tmp disk1), n + 3))))"

definition empty_persisted :: persisted where
  "empty_persisted = \<lparr>ps_flows = [], ps_instances = [], ps_routes = []\<rparr>"

definition store_load_file :: "plane_env \<Rightarrow> string \<Rightarrow> (string \<times> string) list \<Rightarrow> persisted" where
  "store_load_file env path disk =
     (case im_get disk path of
        None \<Rightarrow> empty_persisted
      | Some text \<Rightarrow> (case pe_read env text of None \<Rightarrow> empty_persisted | Some p \<Rightarrow> p))"

definition keyed :: "('v \<Rightarrow> string) \<Rightarrow> 'v list \<Rightarrow> 'v imap" where
  "keyed key vs = fold (\<lambda>v. im_insert (key v) v) vs []"

definition registry_load ::
    "plane_env \<Rightarrow> string option \<Rightarrow> (string \<times> string) list \<Rightarrow> nat \<Rightarrow> registry_state" where
  "registry_load env path disk n =
     (let p = (case path of None \<Rightarrow> empty_persisted | Some f \<Rightarrow> store_load_file env f disk) in
      \<lparr>rg_inner = default_inner\<lparr>pi_flows := keyed fd_id (ps_flows p), pi_instances := keyed dc_id (ps_instances p),
          pi_routes := keyed rd_id (ps_routes p)\<rparr>,
       rg_path = path, rg_disk = disk, rg_ops = n\<rparr>)"

definition persisted_of :: "plane_env \<Rightarrow> inner \<Rightarrow> persisted" where
  "persisted_of env s = \<lparr>ps_flows = values_of env (pi_flows s), ps_instances = values_of env (pi_instances s),
     ps_routes = values_of env (pi_routes s)\<rparr>"

definition registry_persist :: "plane_env \<Rightarrow> registry_state \<Rightarrow> (string + unit) \<times> registry_state" where
  "registry_persist env r =
     (case rg_path r of
        None \<Rightarrow> (Inr (), r)
      | Some path \<Rightarrow>
          (let (res, disk, n) = store_save_file env path (persisted_of env (rg_inner r)) (rg_disk r) (rg_ops r)
           in (res, r\<lparr>rg_disk := disk, rg_ops := n\<rparr>)))"

section \<open>Events\<close>

definition event_cap :: nat where
  "event_cap = 200"

definition record_event :: "plane_env \<Rightarrow> string \<Rightarrow> string \<Rightarrow> inner \<Rightarrow> inner" where
  "record_event env kind message s =
     (let event = JObject [(''time'', JString (pe_now env (pi_clock s))), (''kind'', JString kind),
            (''message'', JString message)];
          events = pi_events s @ [event]
      in s\<lparr>pi_clock := Suc (pi_clock s), pi_events := (if length events > event_cap then tl events else events)\<rparr>)"

definition list_events :: "inner \<Rightarrow> json list" where
  "list_events s = rev (pi_events s)"

definition instance_decl_of :: "inner \<Rightarrow> string \<Rightarrow> instance_decl option" where
  "instance_decl_of s i = im_get (pi_instances s) i"

section \<open>Reconciliation\<close>

definition declared_for :: "plane_env \<Rightarrow> inner \<Rightarrow> string \<Rightarrow> instance_decl list" where
  "declared_for env s node = filter (\<lambda>d. dc_node d = node) (values_of env (pi_instances s))"

definition find_report :: "instance_report list \<Rightarrow> string \<Rightarrow> instance_report option" where
  "find_report reports i = find (\<lambda>r. rep_id r = i) reports"

definition actual_of :: "inner \<Rightarrow> string \<Rightarrow> string \<Rightarrow> instance_report option" where
  "actual_of s node i = Option.bind (im_get (pi_actual s) node) (\<lambda>reports. find_report reports i)"

fun desired_op :: "desired \<Rightarrow> instance_state \<Rightarrow> string option" where
  "desired_op D_Running Stopped = Some ''start''"
| "desired_op D_Running Failed = Some ''start''"
| "desired_op D_Running Paused = Some ''resume''"
| "desired_op D_Paused Running = Some ''pause''"
| "desired_op D_Paused Stopped = Some ''start''"
| "desired_op D_Paused Failed = Some ''start''"
| "desired_op D_Stopped Running = Some ''stop''"
| "desired_op D_Stopped Paused = Some ''stop''"
| "desired_op D_Stopped Starting = Some ''stop''"
| "desired_op D_Stopped Restarting = Some ''stop''"
| "desired_op _ _ = None"

definition desired_command :: "instance_decl \<Rightarrow> instance_report option \<Rightarrow> command list \<Rightarrow> command option" where
  "desired_command decl actual queue =
     (case actual of
        None \<Rightarrow> None
      | Some a \<Rightarrow>
          (case desired_op (dc_desired decl) (rep_state a) of
             None \<Rightarrow> None
           | Some op \<Rightarrow>
               if list_ex (\<lambda>c. cm_instance c = dc_id decl \<and> cm_op c = op) queue then None
               else Some \<lparr>cm_seq = 0, cm_op = op, cm_instance = dc_id decl\<rparr>))"

definition pending_of :: "inner \<Rightarrow> string \<Rightarrow> command list" where
  "pending_of s node = (case im_get (pi_pending s) node of None \<Rightarrow> [] | Some cs \<Rightarrow> cs)"

definition seq_of :: "inner \<Rightarrow> string \<Rightarrow> nat" where
  "seq_of s node = (case im_get (pi_seq s) node of None \<Rightarrow> 0 | Some n \<Rightarrow> n)"

definition enqueue_one :: "string \<Rightarrow> instance_report list \<Rightarrow> instance_decl \<Rightarrow> inner \<Rightarrow> inner" where
  "enqueue_one node reports decl s =
     (case desired_command decl (find_report reports (dc_id decl)) (pending_of s node) of
        None \<Rightarrow> s
      | Some command \<Rightarrow>
          (let seq = seq_of s node + 1 in
           s\<lparr>pi_seq := im_insert node seq (pi_seq s),
             pi_pending := im_insert node (pending_of s node @ [command\<lparr>cm_seq := seq\<rparr>]) (pi_pending s)\<rparr>))"

definition enqueue_reconcile :: "string \<Rightarrow> instance_decl list \<Rightarrow> instance_report list \<Rightarrow> inner \<Rightarrow> inner" where
  "enqueue_reconcile node declared reports = fold (enqueue_one node reports) declared"

definition state_transitions :: "inner \<Rightarrow> string \<Rightarrow> instance_report list \<Rightarrow> string list" where
  "state_transitions s node =
     List.map_filter (\<lambda>r.
       let previous = map_option rep_state (actual_of s node (rep_id r)) in
       if previous \<noteq> Some (rep_state r) then
         Some (''instance '' @ [CHR 0x27] @ rep_id r @ [CHR 0x27] @ '' state ''
           @ (case previous of None \<Rightarrow> ''unknown'' | Some p \<Rightarrow> state_str p) @ '' -> '' @ state_str (rep_state r))
       else None)"

section \<open>Registry operations\<close>

definition quoted :: "string \<Rightarrow> string" where
  "quoted s = [CHR 0x27] @ s @ [CHR 0x27]"

definition upd_inner :: "(inner \<Rightarrow> inner) \<Rightarrow> registry_state \<Rightarrow> registry_state" where
  "upd_inner f r = r\<lparr>rg_inner := f (rg_inner r)\<rparr>"

definition declare_instance :: "plane_env \<Rightarrow> instance_decl \<Rightarrow> registry_state \<Rightarrow> (string + unit) \<times> registry_state" where
  "declare_instance env decl r =
     (let decl1 = decl\<lparr>dc_spec := (dc_spec decl)\<lparr>sp_id := dc_id decl\<rparr>\<rparr> in
      registry_persist env (upd_inner (\<lambda>s. record_event env ''declare'' (''instance '' @ quoted (dc_id decl) @ '' declared'')
        (s\<lparr>pi_instances := im_insert (dc_id decl) decl1 (pi_instances s)\<rparr>)) r))"

definition remove_instance :: "plane_env \<Rightarrow> string \<Rightarrow> registry_state \<Rightarrow> (string + unit) \<times> registry_state" where
  "remove_instance env i r =
     registry_persist env (upd_inner (\<lambda>s. record_event env ''undeclare'' (''instance '' @ quoted i @ '' removed'')
       (s\<lparr>pi_instances := AList.delete i (pi_instances s)\<rparr>)) r)"

definition set_desired :: "plane_env \<Rightarrow> string \<Rightarrow> desired \<Rightarrow> registry_state \<Rightarrow> (string + unit) \<times> registry_state" where
  "set_desired env i d r =
     registry_persist env (upd_inner (\<lambda>s.
       record_event env ''desired'' (''instance '' @ quoted i @ '' desired -> '' @ desired_str d)
         (case im_get (pi_instances s) i of
            None \<Rightarrow> s
          | Some decl \<Rightarrow> s\<lparr>pi_instances := im_insert i (decl\<lparr>dc_desired := d\<rparr>) (pi_instances s)\<rparr>)) r)"

definition put_flow :: "plane_env \<Rightarrow> flow_decl \<Rightarrow> registry_state \<Rightarrow> (string + unit) \<times> registry_state" where
  "put_flow env f r =
     registry_persist env (upd_inner (\<lambda>s. s\<lparr>pi_flows := im_insert (fd_id f) f (pi_flows s)\<rparr>) r)"

definition list_flows :: "plane_env \<Rightarrow> inner \<Rightarrow> flow_decl list" where
  "list_flows env s = values_of env (pi_flows s)"

definition view_of :: "inner \<Rightarrow> instance_decl \<Rightarrow> instance_view" where
  "view_of s d =
     (let a = actual_of s (dc_node d) (dc_id d) in
      \<lparr>iv_id = dc_id d, iv_node = dc_node d, iv_flow_id = dc_flow_id d, iv_desired = desired_str (dc_desired d),
       iv_actual = map_option (state_str \<circ> rep_state) a, iv_healthy = map_option rep_healthy a,
       iv_paused = map_option rep_paused a, iv_restarts = map_option rep_restarts a,
       iv_admin = Option.bind a rep_admin, iv_trigger = Option.bind a rep_trigger\<rparr>)"

definition list_instances :: "plane_env \<Rightarrow> inner \<Rightarrow> instance_view list" where
  "list_instances env s = map (view_of s) (values_of env (pi_instances s))"

definition list_nodes :: "plane_env \<Rightarrow> inner \<Rightarrow> node_view list" where
  "list_nodes env s =
     List.map_filter (\<lambda>i. map_option (\<lambda>seen. \<lparr>nv_id = i, nv_last_seen = Some seen\<rparr>) (im_get (pi_last_seen s) i))
       (pe_order env (im_keys (pi_last_seen s)))"

definition heartbeat :: "plane_env \<Rightarrow> heartbeat_msg \<Rightarrow> inner \<Rightarrow> heartbeat_response \<times> inner" where
  "heartbeat env hb s =
     (let node = hb_node hb;
          transitions = state_transitions s node (hb_instances hb);
          s1 = s\<lparr>pi_actual := im_insert node (hb_instances hb) (pi_actual s),
                 pi_last_seen := im_insert node (hb_time hb) (pi_last_seen s)\<rparr>;
          s2 = fold (record_event env ''state'') transitions s1;
          declared = declared_for env s2 node;
          s3 = enqueue_reconcile node declared (hb_instances hb) s2
      in (\<lparr>hr_commands = pending_of s3 node,
           hr_desired = map (\<lambda>d. \<lparr>di_spec = dc_spec d, di_desired = desired_str (dc_desired d)\<rparr>) declared\<rparr>, s3))"

definition ack :: "command_ack \<Rightarrow> inner \<Rightarrow> inner" where
  "ack a s = s\<lparr>pi_pending := map (\<lambda>(node, cs). (node, filter (\<lambda>c. cm_seq c \<noteq> ak_seq a) cs)) (pi_pending s)\<rparr>"

definition declare_route :: "plane_env \<Rightarrow> route_decl \<Rightarrow> registry_state \<Rightarrow> (string + unit) \<times> registry_state" where
  "declare_route env rt r =
     registry_persist env (upd_inner (\<lambda>s. s\<lparr>pi_routes := im_insert (rd_id rt) rt (pi_routes s)\<rparr>) r)"

definition remove_route :: "plane_env \<Rightarrow> string \<Rightarrow> registry_state \<Rightarrow> (string + unit) \<times> registry_state" where
  "remove_route env i r =
     registry_persist env (upd_inner (\<lambda>s. s\<lparr>pi_routes := AList.delete i (pi_routes s)\<rparr>) r)"

definition list_routes :: "plane_env \<Rightarrow> inner \<Rightarrow> route_decl list" where
  "list_routes env s = values_of env (pi_routes s)"

end
