(* ===== verification/Plane_Relay.thy ===== *)
theory Plane_Relay
  imports Plane
begin

text \<open>
  The plane's topic mailboxes (\<^verbatim>\<open>sohara-plane/src/relay_api.rs\<close>), with an abstract specification
  they refine: a log per topic and a cursor per subscriber and topic.
\<close>

section \<open>Mailboxes\<close>

record relay_message =
  rm_topic :: string
  rm_seq :: nat
  rm_payload :: json

record pull_subscription =
  pb_topic :: string
  pb_after :: nat

definition relay_cap :: nat where
  "relay_cap = 1000"

definition relay_batch :: nat where
  "relay_batch = 100"

definition relay_publish :: "string \<Rightarrow> json \<Rightarrow> inner \<Rightarrow> inner" where
  "relay_publish topic payload s =
     (let queue = (case im_get (pi_relay s) topic of None \<Rightarrow> \<lparr>rq_seq = 0, rq_buffer = []\<rparr> | Some q \<Rightarrow> q);
          seq = rq_seq queue + 1;
          buffer = rq_buffer queue @ [(seq, payload)]
      in s\<lparr>pi_relay := im_insert topic
             \<lparr>rq_seq = seq, rq_buffer = (if length buffer > relay_cap then tl buffer else buffer)\<rparr> (pi_relay s)\<rparr>)"

text \<open>The loop over a buffer: entries up to the cursor, or beyond the batch, are skipped.\<close>

fun deliver_batch :: "(nat \<times> json) list \<Rightarrow> nat \<Rightarrow> nat \<Rightarrow> (nat \<times> json) list \<times> nat" where
  "deliver_batch [] cursor delivered = ([], cursor)"
| "deliver_batch ((seq, payload) # rest) cursor delivered =
     (if seq \<le> cursor \<or> delivered \<ge> relay_batch then deliver_batch rest cursor delivered
      else
        (let (msgs, cursor') = deliver_batch rest seq (delivered + 1) in ((seq, payload) # msgs, cursor')))"

definition cursors_of :: "inner \<Rightarrow> string \<Rightarrow> nat imap" where
  "cursors_of s subscriber = (case im_get (pi_relay_cursors s) subscriber of None \<Rightarrow> [] | Some m \<Rightarrow> m)"

definition cursor_of :: "inner \<Rightarrow> string \<Rightarrow> string \<Rightarrow> nat" where
  "cursor_of s subscriber topic = (case im_get (cursors_of s subscriber) topic of None \<Rightarrow> 0 | Some c \<Rightarrow> c)"

fun relay_pull ::
    "string \<Rightarrow> (string \<times> nat) list \<Rightarrow> inner \<Rightarrow> relay_message list \<times> pull_subscription list \<times> inner" where
  "relay_pull subscriber [] s = ([], [], s)"
| "relay_pull subscriber ((topic, after) # subs) s =
     (case im_get (pi_relay s) topic of
        None \<Rightarrow> relay_pull subscriber subs s
      | Some queue \<Rightarrow>
          (let (batch, cursor) = deliver_batch (rq_buffer queue) (max after (cursor_of s subscriber topic)) 0;
               s1 = s\<lparr>pi_relay_cursors :=
                 im_insert subscriber (im_insert topic cursor (cursors_of s subscriber)) (pi_relay_cursors s)\<rparr>;
               (msgs, next, s2) = relay_pull subscriber subs s1
           in (map (\<lambda>(seq, payload). \<lparr>rm_topic = topic, rm_seq = seq, rm_payload = payload\<rparr>) batch @ msgs,
               \<lparr>pb_topic = topic, pb_after = cursor\<rparr> # next, s2)))"

section \<open>Specification\<close>

text \<open>
  Per topic the log of everything published, per subscriber and topic a cursor.  A pull starts at
  the cursor or, where that has been dropped, at the oldest of the last \<open>relay_cap\<close> messages, and
  hands out at most \<open>relay_batch\<close> of them.
\<close>

record relay_spec =
  rs_log :: "string \<Rightarrow> json list"
  rs_cursor :: "string \<Rightarrow> string \<Rightarrow> nat"

definition spec_publish :: "string \<Rightarrow> json \<Rightarrow> relay_spec \<Rightarrow> relay_spec" where
  "spec_publish topic payload a = a\<lparr>rs_log := (rs_log a)(topic := rs_log a topic @ [payload])\<rparr>"

definition numbered :: "json list \<Rightarrow> (nat \<times> json) list" where
  "numbered l = enumerate 1 l"

definition spec_window :: "json list \<Rightarrow> nat \<Rightarrow> nat" where
  "spec_window l cursor = max cursor (length l - relay_cap)"

definition spec_batch :: "json list \<Rightarrow> nat \<Rightarrow> (nat \<times> json) list" where
  "spec_batch l cursor = take relay_batch (drop (spec_window l cursor) (numbered l))"

definition spec_next :: "json list \<Rightarrow> nat \<Rightarrow> nat" where
  "spec_next l cursor = spec_window l cursor + length (spec_batch l cursor)"

fun spec_pull ::
    "string \<Rightarrow> (string \<times> nat) list \<Rightarrow> relay_spec \<Rightarrow> relay_message list \<times> pull_subscription list \<times> relay_spec" where
  "spec_pull u [] a = ([], [], a)"
| "spec_pull u ((t, after) # subs) a =
     (if rs_log a t = [] then spec_pull u subs a
      else
        (let start = max after (rs_cursor a u t);
             batch = spec_batch (rs_log a t) start;
             cursor = spec_next (rs_log a t) start;
             a1 = a\<lparr>rs_cursor := (rs_cursor a)(u := (rs_cursor a u)(t := cursor))\<rparr>;
             (msgs, next, a2) = spec_pull u subs a1
         in (map (\<lambda>(seq, payload). \<lparr>rm_topic = t, rm_seq = seq, rm_payload = payload\<rparr>) batch @ msgs,
             \<lparr>pb_topic = t, pb_after = cursor\<rparr> # next, a2)))"

definition relay_refines :: "inner \<Rightarrow> relay_spec \<Rightarrow> bool" where
  "relay_refines s a \<longleftrightarrow>
     (\<forall>t. im_get (pi_relay s) t =
        (if rs_log a t = [] then None
         else Some \<lparr>rq_seq = length (rs_log a t),
           rq_buffer = drop (length (rs_log a t) - relay_cap) (numbered (rs_log a t))\<rparr>)) \<and>
     (\<forall>u t. cursor_of s u t = rs_cursor a u t)"

section \<open>Refinement\<close>

lemma numbered_append: "numbered (l @ [v]) = numbered l @ [(Suc (length l), v)]"
  by (simp add: numbered_def enumerate_append_eq)

lemma length_numbered [simp]: "length (numbered l) = length l"
  by (simp add: numbered_def)

lemma drop_numbered: "drop k (numbered l) = enumerate (Suc k) (drop k l)"
proof -
  have "drop k (enumerate n l) = enumerate (n + k) (drop k l)" for n
    by (induction l arbitrary: k n) (auto simp: drop_Cons' split: nat.splits)
  then show ?thesis by (simp add: numbered_def)
qed

lemma take_enumerate: "take k (enumerate n l) = enumerate n (take k l)"
  by (induction l arbitrary: k n) (auto simp: take_Cons' split: nat.splits)

lemma publish_window:
  "(let b = drop (length l - relay_cap) (numbered l) @ [(Suc (length l), v)] in
    if length b > relay_cap then tl b else b) = drop (length (l @ [v]) - relay_cap) (numbered (l @ [v]))"
proof (cases "length l < relay_cap")
  case False
  then have "drop (Suc (length l) - relay_cap) (numbered l) = tl (drop (length l - relay_cap) (numbered l))"
    by (simp add: Suc_diff_le drop_Suc tl_drop)
  moreover have "drop (length l - relay_cap) (numbered l) \<noteq> []" using False by (simp add: relay_cap_def)
  ultimately show ?thesis using False by (simp add: numbered_append)
qed (simp add: numbered_append)

lemma deliver_batch_spec:
  assumes "d < relay_batch"
  shows "deliver_batch (enumerate (Suc k) xs) c d =
    (let ms = take (relay_batch - d) (drop (c - k) (enumerate (Suc k) xs))
     in (ms, if ms = [] then c else max c k + length ms))"
proof -
  have full: "deliver_batch bs c d = ([], c)" if "relay_batch \<le> d" for bs c d
    using that by (induction bs) auto
  show ?thesis using assms
  proof (induction xs arbitrary: k c d)
    case (Cons x xs)
    consider "Suc k \<le> c" | "c \<le> k" "Suc d < relay_batch" | "c \<le> k" "relay_batch = Suc d"
      using Cons.prems by linarith
    then show ?case
    proof cases
      case 1
      then have "c - k = Suc (c - Suc k)" "max c (Suc k) = c" "max c k = c" by auto
      with 1 Cons show ?thesis by (simp add: Let_def max_def)
    next
      case 2
      then have "relay_batch - d = Suc (relay_batch - Suc d)" by simp
      with 2 Cons show ?thesis by (simp add: Let_def max_def)
    next
      case 3
      then have "relay_batch - d = Suc 0" by simp
      with 3 Cons.prems show ?thesis by (simp add: full)
    qed
  qed simp
qed

lemma deliver_window:
  assumes "l \<noteq> []"
  shows "deliver_batch (drop (length l - relay_cap) (numbered l)) c 0 = (spec_batch l c, spec_next l c)"
proof -
  let ?k = "length l - relay_cap"
  have m: "take (relay_batch - 0) (drop (c - ?k) (enumerate (Suc ?k) (drop ?k l))) = spec_batch l c"
    by (simp add: spec_batch_def spec_window_def max_def add.commute flip: drop_numbered)
  have "deliver_batch (drop ?k (numbered l)) c 0 =
      (spec_batch l c, if spec_batch l c = [] then c else max c ?k + length (spec_batch l c))"
    unfolding drop_numbered
    by (subst deliver_batch_spec, simp add: relay_batch_def, unfold m Let_def, rule refl)
  moreover have "max c ?k = c" if "spec_batch l c = []"
    using that assms by (auto simp: spec_batch_def spec_window_def max_def relay_cap_def relay_batch_def)
  ultimately show ?thesis by (auto simp: spec_next_def spec_window_def)
qed

lemma publish_refines:
  assumes "relay_refines s a"
  shows "relay_refines (relay_publish t v s) (spec_publish t v a)"
proof -
  let ?l = "rs_log a t"
  have q: "im_get (pi_relay s) t' = (if rs_log a t' = [] then None else Some \<lparr>rq_seq = length (rs_log a t'),
      rq_buffer = drop (length (rs_log a t') - relay_cap) (numbered (rs_log a t'))\<rparr>)" for t'
    using assms by (simp add: relay_refines_def)
  have "im_get (pi_relay (relay_publish t v s)) t = Some \<lparr>rq_seq = Suc (length ?l),
      rq_buffer = drop (length (?l @ [v]) - relay_cap) (numbered (?l @ [v]))\<rparr>"
  proof (cases "?l = []")
    case False
    have "relay_publish t v s = s\<lparr>pi_relay := im_insert t \<lparr>rq_seq = Suc (length ?l), rq_buffer =
        (let b = drop (length ?l - relay_cap) (numbered ?l) @ [(Suc (length ?l), v)] in
         if length b > relay_cap then tl b else b)\<rparr> (pi_relay s)\<rparr>"
      using False by (simp add: relay_publish_def q Let_def)
    then show ?thesis unfolding publish_window by simp
  qed (simp add: relay_publish_def q Let_def relay_cap_def numbered_def)
  moreover have "im_get (pi_relay (relay_publish t v s)) t' = im_get (pi_relay s) t'" if "t' \<noteq> t" for t'
    using that by (simp add: relay_publish_def Let_def)
  moreover have "cursor_of (relay_publish t v s) u t' = cursor_of s u t'" for u t'
    by (simp add: relay_publish_def Let_def cursor_of_def cursors_of_def)
  ultimately show ?thesis using assms by (auto simp: relay_refines_def spec_publish_def q)
qed

lemma pull_refines:
  "\<lbrakk>relay_refines s a; relay_pull u subs s = (msgs, next, s')\<rbrakk>
   \<Longrightarrow> \<exists>a'. spec_pull u subs a = (msgs, next, a') \<and> relay_refines s' a'"
proof (induction subs arbitrary: s a msgs "next" s')
  case (Cons p subs)
  obtain t after where p: "p = (t, after)" by fastforce
  have q: "im_get (pi_relay s) t' = (if rs_log a t' = [] then None else Some \<lparr>rq_seq = length (rs_log a t'),
      rq_buffer = drop (length (rs_log a t') - relay_cap) (numbered (rs_log a t'))\<rparr>)"
    and c: "cursor_of s u t' = rs_cursor a u t'" for t' u
    using Cons.prems(1) by (simp_all add: relay_refines_def)
  show ?case
  proof (cases "rs_log a t = []")
    case True
    with Cons q [of t] p show ?thesis by simp
  next
    case False
    let ?start = "max after (rs_cursor a u t)"
    let ?cursor = "spec_next (rs_log a t) ?start"
    let ?s1 = "s\<lparr>pi_relay_cursors := im_insert u (im_insert t ?cursor (cursors_of s u)) (pi_relay_cursors s)\<rparr>"
    let ?a1 = "a\<lparr>rs_cursor := (rs_cursor a)(u := (rs_cursor a u)(t := ?cursor))\<rparr>"
    obtain msgs1 next1 s1 where r: "relay_pull u subs ?s1 = (msgs1, next1, s1)" by (cases "relay_pull u subs ?s1")
    have "cursor_of ?s1 u' t' = rs_cursor ?a1 u' t'" for u' t'
      using c [of u' t'] by (auto simp: cursor_of_def cursors_of_def)
    then have "relay_refines ?s1 ?a1" using q by (simp add: relay_refines_def)
    from Cons.IH [OF this r] obtain a' where "spec_pull u subs ?a1 = (msgs1, next1, a')" "relay_refines s1 a'"
      by blast
    then show ?thesis
      using Cons.prems(2) False r p by (auto simp: q c deliver_window Let_def)
  qed
qed simp

section \<open>Runs\<close>

datatype relay_event = Publish string json | Pull string "(string \<times> nat) list"

fun relay_run :: "relay_event list \<Rightarrow> inner \<Rightarrow> (string \<times> relay_message) list \<times> inner" where
  "relay_run [] s = ([], s)"
| "relay_run (Publish t v # evs) s = relay_run evs (relay_publish t v s)"
| "relay_run (Pull u subs # evs) s =
     (let (msgs, _, s1) = relay_pull u subs s; (out, s2) = relay_run evs s1 in (map (Pair u) msgs @ out, s2))"

definition received :: "string \<Rightarrow> string \<Rightarrow> (string \<times> relay_message) list \<Rightarrow> (nat \<times> json) list" where
  "received u t out = map (\<lambda>(_, m). (rm_seq m, rm_payload m)) (filter (\<lambda>(u', m). u' = u \<and> rm_topic m = t) out)"

definition published :: "string \<Rightarrow> relay_event list \<Rightarrow> json list" where
  "published t evs = List.map_filter (\<lambda>e. case e of Publish t' v \<Rightarrow> if t' = t then Some v else None | _ \<Rightarrow> None) evs"

lemma published_simps [simp]:
  "published t [] = []"
  "published t (Publish t' v # evs) = (if t' = t then [v] else []) @ published t evs"
  "published t (Pull u subs # evs) = published t evs"
  by (simp_all add: published_def List.map_filter_simps)

text \<open>Messages in order, after one cursor and up to another, each with its number in the log.\<close>

definition in_window :: "json list \<Rightarrow> nat \<Rightarrow> nat \<Rightarrow> (nat \<times> json) list \<Rightarrow> bool" where
  "in_window l lo hi ms \<longleftrightarrow> sorted_wrt (<) (map fst ms) \<and>
     (\<forall>(n, v) \<in> set ms. lo < n \<and> n \<le> hi \<and> n \<le> length l \<and> l ! (n - 1) = v)"

lemma in_window_Nil [simp]: "in_window l lo hi []"
  by (simp add: in_window_def)

lemma in_window_append:
  "\<lbrakk>in_window l lo mid ms; in_window l mid hi ms'; lo \<le> mid; mid \<le> hi\<rbrakk> \<Longrightarrow> in_window l lo hi (ms @ ms')"
  by (fastforce simp: in_window_def sorted_wrt_append)

lemma in_window_log: "in_window l lo hi ms \<Longrightarrow> in_window (l @ l') lo hi ms"
  by (fastforce simp: in_window_def nth_append)

lemma in_window_batch: "in_window l c (spec_next l c) (spec_batch l c)"
proof -
  let ?w = "spec_window l c"
  have b: "spec_batch l c = enumerate (Suc ?w) (take relay_batch (drop ?w l))"
    by (simp add: spec_batch_def drop_numbered take_enumerate)
  have "(n, v) \<in> set (spec_batch l c) \<Longrightarrow>
      ?w < n \<and> n \<le> spec_next l c \<and> n \<le> length l \<and> l ! (n - 1) = v" for n v
    by (auto simp: spec_next_def b in_set_enumerate_eq)
  moreover have "c \<le> ?w" by (simp add: spec_window_def)
  moreover have "sorted_wrt (<) (map fst (spec_batch l c))" by (simp add: b del: upt_Suc)
  ultimately show ?thesis unfolding in_window_def by fastforce
qed

lemma received_append [simp]: "received u t (a @ b) = received u t a @ received u t b"
  by (simp add: received_def)

lemma received_Nil [simp]: "received u t [] = []"
  by (simp add: received_def)

lemma spec_pull_window:
  "spec_pull u subs a = (msgs, next, a') \<Longrightarrow>
   rs_log a' = rs_log a \<and> (\<forall>u' t. rs_cursor a u' t \<le> rs_cursor a' u' t) \<and>
   in_window (rs_log a t) (rs_cursor a u t) (rs_cursor a' u t) (received u t (map (Pair u) msgs))"
proof (induction u subs a arbitrary: msgs "next" a' rule: spec_pull.induct)
  case (2 u t' after subs a)
  show ?case
  proof (cases "rs_log a t' = []")
    case True
    with "2.prems" have "spec_pull u subs a = (msgs, next, a')" by simp
    from "2.IH"(1) [OF True this] show ?thesis .
  next
    case False
    let ?l = "rs_log a t'"
    let ?start = "max after (rs_cursor a u t')"
    let ?a1 = "a\<lparr>rs_cursor := (rs_cursor a)(u := (rs_cursor a u)(t' := spec_next ?l ?start))\<rparr>"
    obtain msgs1 next1 a1 where r: "spec_pull u subs ?a1 = (msgs1, next1, a1)" by (cases "spec_pull u subs ?a1")
    have IH: "rs_log a1 = rs_log ?a1 \<and> (\<forall>u' t. rs_cursor ?a1 u' t \<le> rs_cursor a1 u' t) \<and>
        in_window (rs_log ?a1 t) (rs_cursor ?a1 u t) (rs_cursor a1 u t) (received u t (map (Pair u) msgs1))"
      using "2.IH"(2) [OF False refl refl refl refl r] .
    have le: "rs_cursor a u t' \<le> spec_next ?l ?start" by (simp add: spec_next_def spec_window_def)
    have eq: "a' = a1" "msgs = map (\<lambda>(seq, payload). \<lparr>rm_topic = t', rm_seq = seq, rm_payload = payload\<rparr>)
        (spec_batch ?l ?start) @ msgs1" using "2.prems" False r by (auto simp: Let_def)
    have b: "received u t (map (Pair u \<circ> (\<lambda>(seq, payload). \<lparr>rm_topic = t', rm_seq = seq, rm_payload = payload\<rparr>)) ms)
        = (if t = t' then ms else [])" for ms
      by (auto simp: received_def filter_empty_conv comp_def case_prod_unfold)
    have "in_window ?l (rs_cursor a u t') (spec_next ?l ?start) (spec_batch ?l ?start)"
      using in_window_batch [of ?l ?start] by (fastforce simp: in_window_def)
    then have "in_window (rs_log a t) (rs_cursor a u t) (rs_cursor a1 u t) (received u t (map (Pair u) msgs))"
      using IH le by (auto simp: eq b intro: in_window_append split: if_splits)
    moreover have "rs_cursor a u' x \<le> rs_cursor a1 u' x" for u' x
    proof (rule order_trans)
      show "rs_cursor a u' x \<le> rs_cursor ?a1 u' x" using le by simp
    qed (rule IH [THEN conjunct2, THEN conjunct1, rule_format])
    ultimately show ?thesis using IH eq by simp
  qed
qed simp

lemma relay_run_window:
  "\<lbrakk>relay_refines s a; relay_run evs s = (out, s')\<rbrakk> \<Longrightarrow>
   \<exists>hi. in_window (rs_log a t @ published t evs) (rs_cursor a u t) hi (received u t out) \<and> rs_cursor a u t \<le> hi"
proof (induction evs s arbitrary: a out s' rule: relay_run.induct)
  case (1 s)
  then show ?case by (auto simp: received_def)
next
  case (2 t' v evs s)
  from "2.IH" [OF publish_refines [OF "2.prems"(1)]] "2.prems"(2) show ?case
    by (auto simp: spec_publish_def)
next
  case (3 u' subs evs s)
  obtain msgs nxt s1 where p: "relay_pull u' subs s = (msgs, nxt, s1)" by (cases "relay_pull u' subs s")
  obtain out1 where r: "relay_run evs s1 = (out1, s')" and out: "out = map (Pair u') msgs @ out1"
    using "3.prems"(2) p by (auto split: prod.splits)
  obtain a1 where a1: "spec_pull u' subs a = (msgs, nxt, a1)" "relay_refines s1 a1"
    using pull_refines [OF "3.prems"(1) p] by blast
  have w: "rs_log a1 = rs_log a" "rs_cursor a u t \<le> rs_cursor a1 u t"
    "in_window (rs_log a t) (rs_cursor a u' t) (rs_cursor a1 u' t) (received u' t (map (Pair u') msgs))"
    using spec_pull_window [OF a1(1), of t] by auto
  have "received u t (map (Pair u') msgs) = []" if "u \<noteq> u'"
    using that by (auto simp: received_def filter_empty_conv)
  then have "in_window (rs_log a t @ published t evs) (rs_cursor a u t) (rs_cursor a1 u t) (received u t (map (Pair u') msgs))"
    using w(3) by (cases "u = u'") (auto intro: in_window_log)
  moreover obtain hi where "in_window (rs_log a1 t @ published t evs) (rs_cursor a1 u t) hi (received u t out1)"
    "rs_cursor a1 u t \<le> hi" using "3.IH" [OF p [symmetric] refl refl a1(2) r] by blast
  ultimately show ?case
    using w by (auto simp: out intro: in_window_append order_trans)
qed

definition relay_start :: relay_spec where
  "relay_start = \<lparr>rs_log = (\<lambda>_. []), rs_cursor = (\<lambda>_ _. 0)\<rparr>"

lemma relay_refines_start: "pi_relay s = [] \<Longrightarrow> pi_relay_cursors s = [] \<Longrightarrow> relay_refines s relay_start"
  by (simp add: relay_refines_def relay_start_def cursor_of_def cursors_of_def)

section \<open>Properties\<close>

text \<open>
  C16. The plane's relay implements its specification.  Publishing and pulling on the registry's
  bounded buffers and cursor tables are simulated, step by step and with the same messages and
  next cursors, by the abstract relay: a log per topic of which only the last 1000 messages can
  still be pulled, 100 at a time, each subscriber from its own cursor.
\<close>

theorem relay_simulation:
  assumes "relay_refines s a"
  shows "relay_refines (relay_publish topic payload s) (spec_publish topic payload a) \<and>
    (case relay_pull u subs s of (msgs, next, s') \<Rightarrow>
       case spec_pull u subs a of (msgs', next', a') \<Rightarrow> msgs' = msgs \<and> next' = next \<and> relay_refines s' a')"
proof -
  obtain msgs nxt s' where p: "relay_pull u subs s = (msgs, nxt, s')" by (cases "relay_pull u subs s")
  from pull_refines [OF assms p] publish_refines [OF assms] p show ?thesis by auto
qed

theorem relay_simulation_witness:
  "relay_refines default_inner relay_start \<and>
   relay_refines (relay_publish ''t'' JNull default_inner) (spec_publish ''t'' JNull relay_start)"
proof -
  have "relay_refines default_inner relay_start" by (rule relay_refines_start) (simp_all add: default_inner_def)
  with relay_simulation [OF this, of "''t''" JNull] show ?thesis by simp
qed

text \<open>
  C9. The relay delivers at most once and in order.  Whatever subscribers publish and pull, with
  whatever cursors they claim to have, from an empty relay on: what one subscriber receives of one
  topic has strictly increasing sequence numbers (so no message twice), and a message numbered
  \<open>n\<close> is the \<open>n\<close>-th one published to that topic.
\<close>

theorem relay_at_most_once:
  assumes "pi_relay s = []" "pi_relay_cursors s = []"
  shows "let ms = received u t (fst (relay_run evs s)) in
    sorted_wrt (<) (map fst ms) \<and>
    (\<forall>(n, v) \<in> set ms. 1 \<le> n \<and> n \<le> length (published t evs) \<and> published t evs ! (n - 1) = v)"
proof -
  obtain out s' where r: "relay_run evs s = (out, s')" by fastforce
  from relay_run_window [OF relay_refines_start [OF assms] r, of t u] show ?thesis
    by (auto simp: r relay_start_def in_window_def Let_def Suc_le_eq)
qed

theorem relay_at_most_once_witness:
  "let evs = [Publish ''t'' JNull, Pull ''u'' [(''t'', 0)], Publish ''t'' (JBool True), Pull ''u'' [(''t'', 0)]];
       ms = received ''u'' ''t'' (fst (relay_run evs default_inner)) in
   map fst ms = [1, 2] \<and> (\<forall>(n, v) \<in> set ms. published ''t'' evs ! (n - 1) = v)"
proof -
  let ?evs = "[Publish ''t'' JNull, Pull ''u'' [(''t'', 0)], Publish ''t'' (JBool True), Pull ''u'' [(''t'', 0)]]"
  have "pi_relay default_inner = []" "pi_relay_cursors default_inner = []" by (simp_all add: default_inner_def)
  from relay_at_most_once [OF this, of "''u''" "''t''" ?evs]
  have "\<forall>(n, v) \<in> set (received ''u'' ''t'' (fst (relay_run ?evs default_inner))). published ''t'' ?evs ! (n - 1) = v"
    by (auto simp: Let_def)
  moreover have "map fst (received ''u'' ''t'' (fst (relay_run ?evs default_inner))) = [1, 2]" by code_simp
  ultimately show ?thesis by (simp add: Let_def)
qed

end
