(* ===== verification/Gateway.thy ===== *)
theory Gateway
  imports Plane_Relay
begin

text \<open>
  The plane's gateway (\<^verbatim>\<open>sohara-plane/src/gateway.rs\<close>): route lookup, candidate selection and
  forwarding, and the token check in front of the other interfaces (\<^verbatim>\<open>lib.rs\<close>).  The request to
  an instance is the parameter \<open>forward\<close>, the hasher the parameter \<open>hash\<close>, and reading a body as
  JSON the parameter \<open>decode\<close>.
\<close>

section \<open>Routes\<close>

text \<open>\<^verbatim>\<open>Iterator::max_by_key\<close> returns the last of several maximal elements.\<close>

fun max_by_key :: "('a \<Rightarrow> nat) \<Rightarrow> 'a list \<Rightarrow> 'a option" where
  "max_by_key f [] = None"
| "max_by_key f (x # xs) =
     (case max_by_key f xs of
        None \<Rightarrow> Some x
      | Some y \<Rightarrow> if f y < f x then Some x else Some y)"

definition trim_slashes :: "string \<Rightarrow> string" where
  "trim_slashes s = dropWhile (\<lambda>c. c = CHR ''/'') s"

definition starts_with :: "string \<Rightarrow> string \<Rightarrow> bool" where
  "starts_with s p = (take (length p) s = p)"

definition route_matches :: "string \<Rightarrow> route_decl \<Rightarrow> bool" where
  "route_matches path rt =
     (let prefix = trim_slashes (rd_path rt) in path = prefix \<or> starts_with path (prefix @ ''/''))"

definition find_route :: "plane_env \<Rightarrow> string \<Rightarrow> inner \<Rightarrow> route_decl option" where
  "find_route env path s =
     max_by_key (\<lambda>rt. length (rd_path rt))
       (filter (route_matches (trim_slashes path)) (values_of env (pi_routes s)))"

section \<open>Candidates\<close>

definition running_target :: "inner \<Rightarrow> route_decl \<Rightarrow> instance_decl \<Rightarrow> (string \<times> string) option" where
  "running_target s rt decl =
     (if dc_flow_id decl = Some (rd_flow_id rt) then
        (case actual_of s (dc_node decl) (dc_id decl) of
           None \<Rightarrow> None
         | Some report \<Rightarrow>
             if rep_state report \<noteq> Running then None
             else map_option (Pair (dc_id decl)) (rep_trigger report))
      else None)"

definition running_targets :: "plane_env \<Rightarrow> inner \<Rightarrow> route_decl \<Rightarrow> (string \<times> string) list" where
  "running_targets env s rt = List.map_filter (running_target s rt) (values_of env (pi_instances s))"

definition order_targets ::
    "(string \<Rightarrow> string \<Rightarrow> nat) \<Rightarrow> route_decl \<Rightarrow> string option \<Rightarrow> (string \<times> string) list \<Rightarrow> inner
     \<Rightarrow> string list \<times> inner" where
  "order_targets hash rt hash_key targets s =
     (case (rd_strategy rt, hash_key) of
        (Hash, Some key) \<Rightarrow> (map snd (sort_key (\<lambda>(i, _). hash key i) targets), s)
      | _ \<Rightarrow>
          (let counter = (case im_get (pi_round_robin s) (rd_id rt) of None \<Rightarrow> 0 | Some n \<Rightarrow> n);
               shift = counter mod length targets
           in (map snd (rotate shift targets),
               s\<lparr>pi_round_robin := im_insert (rd_id rt) (counter + 1) (pi_round_robin s)\<rparr>)))"

definition select_targets ::
    "plane_env \<Rightarrow> (string \<Rightarrow> string \<Rightarrow> nat) \<Rightarrow> route_decl \<Rightarrow> string option \<Rightarrow> inner \<Rightarrow> string list \<times> inner" where
  "select_targets env hash rt hash_key s =
     (let targets = running_targets env s rt in
      if targets = [] then ([], s) else order_targets hash rt hash_key targets s)"

section \<open>Requests\<close>

record gateway_reply =
  gr_status :: nat
  gr_body :: string

record forward_request =
  fr_path :: string
  fr_method :: string
  fr_headers :: "string \<Rightarrow> string option"
  fr_body :: string

definition bus_dispatch :: "(string \<Rightarrow> json option) \<Rightarrow> route_decl \<Rightarrow> string \<Rightarrow> inner \<Rightarrow> gateway_reply \<times> inner" where
  "bus_dispatch decode rt body s =
     (case rd_topic rt of
        None \<Rightarrow> (\<lparr>gr_status = 400, gr_body = ''bus route needs a topic''\<rparr>, s)
      | Some topic \<Rightarrow>
          (\<lparr>gr_status = 202, gr_body = ''accepted''\<rparr>,
           relay_publish topic (case decode body of None \<Rightarrow> JString body | Some v \<Rightarrow> v) s))"

fun try_targets ::
    "(string \<Rightarrow> forward_request \<Rightarrow> gateway_reply option) \<Rightarrow> forward_request \<Rightarrow> string list \<Rightarrow> gateway_reply" where
  "try_targets forward request [] = \<lparr>gr_status = 502, gr_body = ''all candidates failed''\<rparr>"
| "try_targets forward request (t # ts) =
     (case forward t request of Some reply \<Rightarrow> reply | None \<Rightarrow> try_targets forward request ts)"

definition proxy_request ::
    "plane_env \<Rightarrow> (string \<Rightarrow> string \<Rightarrow> nat) \<Rightarrow> (string \<Rightarrow> forward_request \<Rightarrow> gateway_reply option)
     \<Rightarrow> route_decl \<Rightarrow> forward_request \<Rightarrow> inner \<Rightarrow> gateway_reply \<times> inner" where
  "proxy_request env hash forward rt request s =
     (let hash_key = Option.bind (rd_sticky_key rt) (fr_headers request);
          (targets, s1) = select_targets env hash rt hash_key s
      in if targets = [] then (\<lparr>gr_status = 503, gr_body = ''no healthy instance''\<rparr>, s1)
         else (try_targets forward request (take 2 targets), s1))"

definition gateway ::
    "plane_env \<Rightarrow> (string \<Rightarrow> string \<Rightarrow> nat) \<Rightarrow> (string \<Rightarrow> json option)
     \<Rightarrow> (string \<Rightarrow> forward_request \<Rightarrow> gateway_reply option) \<Rightarrow> forward_request \<Rightarrow> inner \<Rightarrow> gateway_reply \<times> inner" where
  "gateway env hash decode forward request s =
     (case find_route env (fr_path request) s of
        None \<Rightarrow> (\<lparr>gr_status = 404, gr_body = ''no route matches this path''\<rparr>, s)
      | Some rt \<Rightarrow>
          (case rd_mode rt of
             Bus \<Rightarrow> bus_dispatch decode rt (fr_body request) s
           | Proxy \<Rightarrow> proxy_request env hash forward rt request s))"

text \<open>The guard of the agent, manager and relay interfaces.\<close>

definition bearer_matches :: "(string \<Rightarrow> string option) \<Rightarrow> string \<Rightarrow> bool" where
  "bearer_matches headers token =
     (case headers ''authorization'' of
        None \<Rightarrow> False
      | Some v \<Rightarrow> starts_with v ''Bearer '' \<and> drop (length ''Bearer '') v = token)"

definition auth :: "string option \<Rightarrow> (string \<Rightarrow> string option) \<Rightarrow> bool" where
  "auth token headers = (case token of None \<Rightarrow> True | Some t \<Rightarrow> bearer_matches headers t)"

section \<open>Lemmas\<close>

lemma max_by_key_None [simp]: "max_by_key f xs = None \<longleftrightarrow> xs = []"
  by (cases xs) (auto split: option.splits)

lemma max_by_key_Some:
  "max_by_key f xs = Some y \<Longrightarrow> y \<in> set xs \<and> (\<forall>x \<in> set xs. f x \<le> f y)"
  by (induction xs arbitrary: y) (fastforce split: option.splits if_splits)+

lemma set_values_of:
  assumes "hash_order (pe_order env)"
  shows "set (values_of env m) = ran (im_get m)"
proof -
  have "v \<in> set (values_of env m) \<longleftrightarrow> (\<exists>k \<in> set (pe_order env (im_keys m)). im_get m k = Some v)" for v
    by (force simp: values_of_def List.map_filter_def)
  then have "v \<in> set (values_of env m) \<longleftrightarrow> (\<exists>k. im_get m k = Some v)" for v
    using im_get_None_iff [of m] by (metis hash_order_set [OF assms] option.distinct(1))
  then show ?thesis by (auto simp: ran_def)
qed

lemma starts_with_iff: "starts_with s p \<longleftrightarrow> (\<exists>r. s = p @ r)"
  unfolding starts_with_def by (metis append_eq_conv_conj append_take_drop_id)

text \<open>A route path as it is normally written: one slash, then the prefix.\<close>

definition canonical :: "route_decl \<Rightarrow> bool" where
  "canonical rt \<longleftrightarrow> rd_path rt = CHR ''/'' # trim_slashes (rd_path rt)"

lemma matches_cases:
  "route_matches path rt \<longleftrightarrow> (\<exists>r. path = trim_slashes (rd_path rt) @ r \<and> (r = [] \<or> hd r = CHR ''/''))"
  unfolding route_matches_def Let_def starts_with_iff
  by (metis append.assoc append.right_neutral append_Cons append_Nil hd_Cons_tl list.sel(1))

lemma matching_prefixes:
  assumes "route_matches path a" "route_matches path b"
    and "length (trim_slashes (rd_path a)) \<le> length (trim_slashes (rd_path b))"
  shows "\<exists>r. trim_slashes (rd_path b) = trim_slashes (rd_path a) @ r"
proof -
  obtain r r' where "path = trim_slashes (rd_path a) @ r" "path = trim_slashes (rd_path b) @ r'"
    using assms(1,2) unfolding matches_cases by blast
  then have "trim_slashes (rd_path a) @ r = trim_slashes (rd_path b) @ r'" by simp
  then show ?thesis using assms(3) by (auto simp: append_eq_append_conv2) (metis)
qed

lemma running_targets_frame:
  "pi_actual s' = pi_actual s \<Longrightarrow> pi_instances s' = pi_instances s \<Longrightarrow>
   running_targets env s' rt = running_targets env s rt"
proof -
  assume "pi_actual s' = pi_actual s" and i: "pi_instances s' = pi_instances s"
  then have "running_target s' rt = running_target s rt"
    by (simp add: running_target_def actual_of_def fun_eq_iff)
  with i show ?thesis by (simp add: running_targets_def)
qed

lemma select_targets_frame:
  "running_targets env (snd (select_targets env hash rt key s)) rt' = running_targets env s rt'"
  by (rule running_targets_frame)
    (simp_all add: select_targets_def order_targets_def Let_def split: strategy.split option.split)

fun select_many ::
    "plane_env \<Rightarrow> (string \<Rightarrow> string \<Rightarrow> nat) \<Rightarrow> route_decl \<Rightarrow> nat \<Rightarrow> inner \<Rightarrow> string list list" where
  "select_many env hash rt 0 s = []"
| "select_many env hash rt (Suc n) s =
     (let (ts, s1) = select_targets env hash rt None s in ts # select_many env hash rt n s1)"

definition counter_of :: "inner \<Rightarrow> route_decl \<Rightarrow> nat" where
  "counter_of s rt = (case im_get (pi_round_robin s) (rd_id rt) of None \<Rightarrow> 0 | Some n \<Rightarrow> n)"

lemma select_round_robin:
  assumes "running_targets env s rt = ts" "ts \<noteq> []"
  shows "\<exists>s'. select_targets env hash rt None s = (map snd (rotate (counter_of s rt) ts), s') \<and>
    counter_of s' rt = Suc (counter_of s rt) \<and> running_targets env s' rt = ts"
  using assms select_targets_frame [of env hash rt None s rt]
  by (auto simp: select_targets_def order_targets_def counter_of_def Let_def rotate_conv_mod [of "counter_of s rt"]
      rotate_conv_mod [of "case im_get (pi_round_robin s) (rd_id rt) of None \<Rightarrow> 0 | Some n \<Rightarrow> n"]
      split: strategy.splits)

lemma select_many_rotations:
  assumes "running_targets env s rt = ts" "ts \<noteq> []"
  shows "select_many env hash rt n s = map (\<lambda>k. map snd (rotate k ts)) [counter_of s rt..<counter_of s rt + n]"
  using assms
proof (induction n arbitrary: s)
  case (Suc n)
  obtain s' where s': "select_targets env hash rt None s = (map snd (rotate (counter_of s rt) ts), s')"
    "counter_of s' rt = Suc (counter_of s rt)" "running_targets env s' rt = ts"
    using select_round_robin [OF Suc.prems] by blast
  from Suc.IH [OF s'(3) Suc.prems(2)] s' show ?case by (simp add: upt_conv_Cons del: upt_Suc)
qed simp

lemma mset_rotation_heads:
  assumes "xs \<noteq> []"
  shows "mset (map (\<lambda>k. xs ! (k mod length xs)) [c..<c + length xs]) = mset xs"
proof -
  have "map (\<lambda>k. xs ! (k mod length xs)) [c..<c + length xs] = rotate c xs"
    using assms by (intro nth_equalityI) (auto simp: nth_rotate)
  moreover have "mset (rotate c xs) = mset xs"
  proof (induction c)
    case (Suc c)
    have "mset (rotate1 ys) = mset ys" for ys :: "'a list" by (cases ys) auto
    with Suc show ?case by (simp add: rotate_Suc)
  qed simp
  ultimately show ?thesis by simp
qed

section \<open>Properties\<close>

text \<open>
  C27. The gateway picks the longest matching prefix.  A request finds no route only when no route
  matches its path.  Otherwise the route found is a declared one that matches at a path-segment
  boundary, no other matching route has a longer path string and, where routes are written with
  one leading slash, the prefix of every other matching route is a prefix of the chosen one.
\<close>

theorem find_route_longest:
  assumes "hash_order (pe_order env)"
  shows "case find_route env path s of
      None \<Rightarrow> \<forall>rt \<in> ran (im_get (pi_routes s)). \<not> route_matches (trim_slashes path) rt
    | Some rt \<Rightarrow> rt \<in> ran (im_get (pi_routes s)) \<and> route_matches (trim_slashes path) rt \<and>
        (\<forall>rt' \<in> ran (im_get (pi_routes s)). route_matches (trim_slashes path) rt' \<longrightarrow>
           length (rd_path rt') \<le> length (rd_path rt) \<and>
           (canonical rt \<and> canonical rt' \<longrightarrow> (\<exists>r. trim_slashes (rd_path rt) = trim_slashes (rd_path rt') @ r)))"
proof (cases "find_route env path s")
  case None
  then show ?thesis using set_values_of [OF assms, of "pi_routes s"]
    by (auto simp: find_route_def filter_empty_conv)
next
  case (Some rt)
  have m: "rt \<in> ran (im_get (pi_routes s))" "route_matches (trim_slashes path) rt"
    "\<And>rt'. rt' \<in> ran (im_get (pi_routes s)) \<Longrightarrow> route_matches (trim_slashes path) rt' \<Longrightarrow>
      length (rd_path rt') \<le> length (rd_path rt)"
    using max_by_key_Some [OF Some [unfolded find_route_def]] set_values_of [OF assms, of "pi_routes s"] by auto
  have "length (trim_slashes (rd_path rt')) \<le> length (trim_slashes (rd_path rt))"
    if "canonical rt" "canonical rt'" "length (rd_path rt') \<le> length (rd_path rt)" for rt'
    using that unfolding canonical_def by (metis length_Cons Suc_le_mono)
  then show ?thesis using m matching_prefixes Some by fastforce
qed

text \<open>
  Round robin is fair.  While the set of running instances of a route stays as it is, any
  \<open>n\<close> consecutive requests to the route, \<open>n\<close> being the number of those instances, are offered
  each instance as first candidate exactly once, wherever the counter stands.
\<close>

theorem round_robin_fair:
  assumes "running_targets env s rt = ts" "ts \<noteq> []"
  shows "mset (map hd (select_many env hash rt (length ts) s)) = mset (map snd ts)"
proof -
  let ?xs = "map snd ts"
  have "hd (rotate k ?xs) = ?xs ! (k mod length ?xs)" for k
    using assms(2) by (simp add: hd_rotate_conv_nth)
  then have "map hd (select_many env hash rt (length ts) s) =
      map (\<lambda>k. ?xs ! (k mod length ?xs)) [counter_of s rt..<counter_of s rt + length ?xs]"
    by (simp add: select_many_rotations [OF assms] rotate_map)
  then show ?thesis using mset_rotation_heads [of ?xs "counter_of s rt"] assms(2) by simp
qed

definition plain_plane :: plane_env where
  "plain_plane = \<lparr>pe_order = id, pe_now = (\<lambda>_. ''now''), pe_fault = (\<lambda>_. None), pe_torn = (\<lambda>_. []),
     pe_print = (\<lambda>_. []), pe_read = (\<lambda>_. None)\<rparr>"

definition demo_route :: "string \<Rightarrow> string \<Rightarrow> route_decl" where
  "demo_route i path = \<lparr>rd_id = i, rd_path = path, rd_flow_id = ''f'', rd_mode = Proxy, rd_strategy = Round_Robin,
     rd_sticky_key = None, rd_topic = None\<rparr>"

definition demo_decl :: "string \<Rightarrow> desired \<Rightarrow> instance_decl" where
  "demo_decl i d = \<lparr>dc_id = i, dc_node = ''n'', dc_flow_id = Some ''f'', dc_desired = d,
     dc_spec = default_spec\<lparr>sp_id := i\<rparr>\<rparr>"

definition demo_report :: "string \<Rightarrow> instance_state \<Rightarrow> instance_report" where
  "demo_report i s = \<lparr>rep_id = i, rep_state = s, rep_paused = False, rep_healthy = True, rep_restarts = 0,
     rep_admin = None, rep_trigger = Some (''addr-'' @ i)\<rparr>"

theorem find_route_longest_witness:
  "let s = default_inner\<lparr>pi_routes := [(''r'', demo_route ''r'' ''/a''), (''q'', demo_route ''q'' ''/a/b'')]\<rparr> in
   hash_order (pe_order plain_plane) \<and> find_route plain_plane ''a/b/c'' s = Some (demo_route ''q'' ''/a/b'') \<and>
   route_matches (trim_slashes ''a/b/c'') (demo_route ''q'' ''/a/b'')"
proof -
  let ?s = "default_inner\<lparr>pi_routes := [(''r'', demo_route ''r'' ''/a''), (''q'', demo_route ''q'' ''/a/b'')]\<rparr>"
  have o: "hash_order (pe_order plain_plane)" by (simp add: hash_order_def plain_plane_def)
  have "find_route plain_plane ''a/b/c'' ?s = Some (demo_route ''q'' ''/a/b'')" by code_simp
  with find_route_longest [OF o, where path = "''a/b/c''" and s = ?s] o show ?thesis by (simp add: Let_def)
qed

theorem round_robin_fair_witness:
  "let s = default_inner\<lparr>pi_instances := [(''a'', demo_decl ''a'' D_Running), (''b'', demo_decl ''b'' D_Running)],
        pi_actual := [(''n'', [demo_report ''a'' Running, demo_report ''b'' Running])],
        pi_round_robin := [(''r'', 7)]\<rparr> in
   mset (map hd (select_many plain_plane (\<lambda>_ _. 0) (demo_route ''r'' ''/a'') 2 s)) = {#''addr-a'', ''addr-b''#}"
proof -
  let ?s = "default_inner\<lparr>pi_instances := [(''a'', demo_decl ''a'' D_Running), (''b'', demo_decl ''b'' D_Running)],
        pi_actual := [(''n'', [demo_report ''a'' Running, demo_report ''b'' Running])],
        pi_round_robin := [(''r'', 7)]\<rparr>"
  have "running_targets plain_plane ?s (demo_route ''r'' ''/a'') = [(''a'', ''addr-a''), (''b'', ''addr-b'')]"
    by code_simp
  from round_robin_fair [OF this, of "\<lambda>_ _. 0"] show ?thesis by (simp add: Let_def numeral_2_eq_2)
qed

end
