(* ===== verification/Control_Loop.thy ===== *)
theory Control_Loop
  imports Gateway
begin

text \<open>
  The plane and one node agent together: the command queues of the registry, the heartbeat round
  over a network that may lose requests, responses and acknowledgements, what other nodes send to the
  plane in between, and restarts of the plane and of the agent.
\<close>

section \<open>Steps of the plane\<close>

text \<open>Operations of the manager, relay and gateway interfaces: everything but the agents' calls.\<close>

inductive operator_step :: "plane_env \<Rightarrow> registry_state \<Rightarrow> registry_state \<Rightarrow> bool" for env where
  Declare: "operator_step env r (snd (declare_instance env d r))"
| Remove: "operator_step env r (snd (remove_instance env i r))"
| Set_Desired: "operator_step env r (snd (set_desired env i d r))"
| Put_Flow: "operator_step env r (snd (put_flow env f r))"
| Declare_Route: "operator_step env r (snd (declare_route env rt r))"
| Remove_Route: "operator_step env r (snd (remove_route env i r))"
| Relay_Publish: "operator_step env r (upd_inner (relay_publish t v) r)"
| Relay_Pull: "operator_step env r (upd_inner (\<lambda>s. snd (snd (relay_pull u subs s))) r)"
| Gateway: "operator_step env r (upd_inner (\<lambda>s. snd (gateway env hash decode forward rq s)) r)"

inductive plane_step :: "plane_env \<Rightarrow> registry_state \<Rightarrow> registry_state \<Rightarrow> bool" for env where
  Operator: "operator_step env r r' \<Longrightarrow> plane_step env r r'"
| Heartbeat: "plane_step env r (upd_inner (\<lambda>s. snd (heartbeat env hb s)) r)"
| Ack: "plane_step env r (upd_inner (ack a) r)"

section \<open>Command queues\<close>

definition queue_ok :: "nat \<Rightarrow> command list \<Rightarrow> bool" where
  "queue_ok n cs \<longleftrightarrow> sorted_wrt (<) (map cm_seq cs) \<and>
     (\<forall>c \<in> set cs. 0 < cm_seq c \<and> cm_seq c \<le> n \<and> parse_op (cm_op c) \<noteq> None) \<and>
     distinct (map (\<lambda>c. (cm_instance c, cm_op c)) cs)"

definition plane_ok :: "inner \<Rightarrow> bool" where
  "plane_ok s \<longleftrightarrow> (\<forall>node. queue_ok (seq_of s node) (pending_of s node)) \<and> length (pi_events s) \<le> event_cap \<and>
     (\<forall>i d. im_get (pi_instances s) i = Some d \<longrightarrow> dc_id d = i)"

lemma queue_ok_filter: "queue_ok n cs \<Longrightarrow> queue_ok n (filter P cs)"
  by (auto simp: queue_ok_def sorted_wrt_filter sorted_wrt_map distinct_map intro: inj_on_subset)

lemma desired_op_parses: "desired_op d st = Some op \<Longrightarrow> parse_op op \<noteq> None"
  by (cases d; cases st) (auto simp: parse_op_def)

lemma desired_command_Some:
  "desired_command d a cs = Some c \<longleftrightarrow>
   (\<exists>r op. a = Some r \<and> desired_op (dc_desired d) (rep_state r) = Some op \<and>
      (\<forall>c' \<in> set cs. \<not> (cm_instance c' = dc_id d \<and> cm_op c' = op)) \<and>
      c = \<lparr>cm_seq = 0, cm_op = op, cm_instance = dc_id d\<rparr>)"
  by (auto simp: desired_command_def list_ex_iff split: option.splits if_splits)

lemma enqueue_one_cases:
  obtains "enqueue_one node reports d s = s" "desired_command d (find_report reports (dc_id d)) (pending_of s node) = None"
  | op where "desired_op (dc_desired d) (rep_state (the (find_report reports (dc_id d)))) = Some op"
    "find_report reports (dc_id d) \<noteq> None"
    "\<forall>c \<in> set (pending_of s node). \<not> (cm_instance c = dc_id d \<and> cm_op c = op)"
    "enqueue_one node reports d s =
       s\<lparr>pi_seq := im_insert node (Suc (seq_of s node)) (pi_seq s),
         pi_pending := im_insert node (pending_of s node @
           [\<lparr>cm_seq = Suc (seq_of s node), cm_op = op, cm_instance = dc_id d\<rparr>]) (pi_pending s)\<rparr>"
proof (cases "desired_command d (find_report reports (dc_id d)) (pending_of s node)")
  case None
  then show ?thesis by (intro that(1)) (simp_all add: enqueue_one_def)
next
  case (Some c)
  then obtain r op where "find_report reports (dc_id d) = Some r"
    "desired_op (dc_desired d) (rep_state r) = Some op"
    "\<forall>c' \<in> set (pending_of s node). \<not> (cm_instance c' = dc_id d \<and> cm_op c' = op)"
    "c = \<lparr>cm_seq = 0, cm_op = op, cm_instance = dc_id d\<rparr>"
    unfolding desired_command_Some by blast
  with Some show ?thesis by (intro that(2) [of op]) (simp_all add: enqueue_one_def Let_def)
qed

lemma queue_lookup [simp]:
  "pending_of (s\<lparr>pi_pending := im_insert node cs p\<rparr>) node' =
     (if node' = node then cs else pending_of (s\<lparr>pi_pending := p\<rparr>) node')"
  "seq_of (s\<lparr>pi_seq := im_insert node n q, pi_pending := p\<rparr>) node' =
     (if node' = node then n else seq_of (s\<lparr>pi_seq := q\<rparr>) node')"
  "pending_of (s\<lparr>pi_seq := q, pi_pending := p\<rparr>) node' = pending_of (s\<lparr>pi_pending := p\<rparr>) node'"
  by (simp_all add: pending_of_def seq_of_def)

lemma queue_self [simp]:
  "pending_of (s\<lparr>pi_pending := pi_pending s\<rparr>) node = pending_of s node"
  "seq_of (s\<lparr>pi_seq := pi_seq s\<rparr>) node = seq_of s node"
  "pending_of (s\<lparr>pi_seq := q\<rparr>) node = pending_of s node"
  by (simp_all add: pending_of_def seq_of_def)

lemma enqueue_one_ok:
  assumes "\<forall>n. queue_ok (seq_of s n) (pending_of s n)"
  shows "queue_ok (seq_of (enqueue_one node reports d s) n) (pending_of (enqueue_one node reports d s) n)"
proof (cases rule: enqueue_one_cases [of node reports d s])
  case (2 op)
  have q: "queue_ok (seq_of s node) (pending_of s node)" using assms by blast
  have "queue_ok (Suc (seq_of s node)) (pending_of s node @
      [\<lparr>cm_seq = Suc (seq_of s node), cm_op = op, cm_instance = dc_id d\<rparr>])"
    using q 2(3) desired_op_parses [OF 2(1)]
    by (fastforce simp: queue_ok_def sorted_wrt_append)
  then show ?thesis using assms by (simp add: 2(4))
qed (use assms in simp)

lemma ack_lookup [simp]:
  "pending_of (ack a s) node = filter (\<lambda>c. cm_seq c \<noteq> ak_seq a) (pending_of s node)"
  "seq_of (ack a s) node = seq_of s node"
proof -
  have "map_of (map (\<lambda>(node, cs). (node, filter (\<lambda>c. cm_seq c \<noteq> ak_seq a) cs)) m) k =
      map_option (filter (\<lambda>c. cm_seq c \<noteq> ak_seq a)) (map_of m k)" for m :: "command list imap" and k
    by (induction m) auto
  then show "pending_of (ack a s) node = filter (\<lambda>c. cm_seq c \<noteq> ak_seq a) (pending_of s node)"
    by (cases "im_get (pi_pending s) node") (simp_all add: pending_of_def ack_def)
qed (simp add: seq_of_def ack_def)

text \<open>What an operation leaves alone: the queues, their counters and the keys of the declarations.\<close>

definition queues_kept :: "inner \<Rightarrow> inner \<Rightarrow> bool" where
  "queues_kept s s' \<longleftrightarrow> pi_pending s' = pi_pending s \<and> pi_seq s' = pi_seq s"

lemma queues_kept_lookup:
  "queues_kept s s' \<Longrightarrow> pending_of s' node = pending_of s node \<and> seq_of s' node = seq_of s node"
  by (simp add: queues_kept_def pending_of_def seq_of_def)

lemma record_event_fields [simp]:
  "pi_pending (record_event env k m s) = pi_pending s"
  "pi_seq (record_event env k m s) = pi_seq s"
  "pi_instances (record_event env k m s) = pi_instances s"
  "pi_actual (record_event env k m s) = pi_actual s"
  by (simp_all add: record_event_def Let_def)

lemma record_event_cap: "length (pi_events s) \<le> event_cap \<Longrightarrow> length (pi_events (record_event env k m s)) \<le> event_cap"
  by (simp add: record_event_def Let_def event_cap_def)

lemma record_events_fields [simp]:
  "pi_pending (fold (record_event env k) ms s) = pi_pending s"
  "pi_seq (fold (record_event env k) ms s) = pi_seq s"
  "pi_instances (fold (record_event env k) ms s) = pi_instances s"
  "pi_actual (fold (record_event env k) ms s) = pi_actual s"
  "length (pi_events s) \<le> event_cap \<Longrightarrow> length (pi_events (fold (record_event env k) ms s)) \<le> event_cap"
  by (induction ms arbitrary: s) (simp_all add: record_event_cap)

lemma registry_persist_inner [simp]: "rg_inner (snd (registry_persist env r)) = rg_inner r"
  by (simp add: registry_persist_def Let_def case_prod_unfold split: option.split)

lemma relay_pull_fields [simp]:
  "pi_pending (snd (snd (relay_pull u subs s))) = pi_pending s"
  "pi_seq (snd (snd (relay_pull u subs s))) = pi_seq s"
  "pi_events (snd (snd (relay_pull u subs s))) = pi_events s"
  "pi_instances (snd (snd (relay_pull u subs s))) = pi_instances s"
  by (induction subs arbitrary: s) (auto simp: Let_def case_prod_unfold split: option.split)

lemma gateway_fields [simp]:
  "pi_pending (snd (gateway env hash decode forward rq s)) = pi_pending s"
  "pi_seq (snd (gateway env hash decode forward rq s)) = pi_seq s"
  "pi_events (snd (gateway env hash decode forward rq s)) = pi_events s"
  "pi_instances (snd (gateway env hash decode forward rq s)) = pi_instances s"
  by (auto simp: gateway_def bus_dispatch_def proxy_request_def select_targets_def order_targets_def relay_publish_def
      Let_def split: option.splits route_mode.splits strategy.splits prod.splits)

lemma operator_step_keeps:
  assumes "operator_step env r r'"
  shows "queues_kept (rg_inner r) (rg_inner r')"
  using assms
  by cases (auto simp: queues_kept_def declare_instance_def remove_instance_def set_desired_def put_flow_def
      declare_route_def remove_route_def upd_inner_def relay_publish_def Let_def split: option.split)

lemma operator_step_rest:
  assumes "operator_step env r r'" "length (pi_events (rg_inner r)) \<le> event_cap"
    "\<forall>i d. im_get (pi_instances (rg_inner r)) i = Some d \<longrightarrow> dc_id d = i"
  shows "length (pi_events (rg_inner r')) \<le> event_cap \<and>
    (\<forall>i d. im_get (pi_instances (rg_inner r')) i = Some d \<longrightarrow> dc_id d = i)"
  using assms
  by cases (auto simp: declare_instance_def remove_instance_def set_desired_def put_flow_def declare_route_def
      remove_route_def upd_inner_def relay_publish_def Let_def delete_conv' record_event_cap
      split: option.splits if_splits)

lemma enqueue_reconcile_ok:
  assumes "\<forall>n. queue_ok (seq_of s n) (pending_of s n)"
  shows "\<forall>n. queue_ok (seq_of (enqueue_reconcile node ds reports s) n) (pending_of (enqueue_reconcile node ds reports s) n)"
  using assms unfolding enqueue_reconcile_def
  by (induction ds arbitrary: s) (simp_all add: enqueue_one_ok)

lemma enqueue_reconcile_fields [simp]:
  "pi_events (enqueue_reconcile node ds reports s) = pi_events s"
  "pi_instances (enqueue_reconcile node ds reports s) = pi_instances s"
  unfolding enqueue_reconcile_def
  by (induction ds arbitrary: s) (auto simp: enqueue_one_def Let_def split: option.splits)

lemma heartbeat_state:
  "\<exists>ds s2. queues_kept s s2 \<and> pi_instances s2 = pi_instances s \<and>
     (length (pi_events s) \<le> event_cap \<longrightarrow> length (pi_events s2) \<le> event_cap) \<and>
     ds = declared_for env s2 (hb_node hb) \<and>
     snd (heartbeat env hb s) = enqueue_reconcile (hb_node hb) ds (hb_instances hb) s2 \<and>
     fst (heartbeat env hb s) = \<lparr>hr_commands = pending_of (snd (heartbeat env hb s)) (hb_node hb),
       hr_desired = map (\<lambda>d. \<lparr>di_spec = dc_spec d, di_desired = desired_str (dc_desired d)\<rparr>) ds\<rparr>"
  by (intro exI conjI) (auto simp: heartbeat_def Let_def queues_kept_def)

lemma plane_step_ok:
  assumes "plane_step env r r'" "plane_ok (rg_inner r)"
  shows "plane_ok (rg_inner r')"
  using assms
proof (cases rule: plane_step.cases)
  case Operator
  then show ?thesis
    using operator_step_keeps [OF Operator] operator_step_rest [OF Operator] assms(2)
    by (auto simp: plane_ok_def queues_kept_lookup)
next
  case (Heartbeat hb)
  obtain ds s2 where h: "queues_kept (rg_inner r) s2" "pi_instances s2 = pi_instances (rg_inner r)"
    "length (pi_events (rg_inner r)) \<le> event_cap \<longrightarrow> length (pi_events s2) \<le> event_cap"
    "rg_inner r' = enqueue_reconcile (hb_node hb) ds (hb_instances hb) s2"
    using heartbeat_state [of "rg_inner r" env hb] Heartbeat by (auto simp: upd_inner_def)
  have "\<forall>n. queue_ok (seq_of s2 n) (pending_of s2 n)"
    using assms(2) h(1) by (simp add: plane_ok_def queues_kept_lookup)
  from enqueue_reconcile_ok [OF this] show ?thesis using assms(2) h by (simp add: plane_ok_def)
next
  case (Ack a)
  with assms(2) show ?thesis
    by (auto simp: plane_ok_def upd_inner_def queue_ok_filter ack_def [of a, THEN arg_cong [of _ _ pi_events]]
        ack_def [of a, THEN arg_cong [of _ _ pi_instances]])
qed

lemma keyed_lookup: "im_get (keyed key vs) i = Some v \<Longrightarrow> key v = i"
proof -
  have "im_get (fold (\<lambda>v. im_insert (key v) v) vs m) i = Some v \<Longrightarrow> im_get m i = Some v \<or> key v = i" for m
  proof (induction vs arbitrary: m)
    case (Cons a vs)
    from Cons.IH [of "im_insert (key a) a m"] Cons.prems show ?case by (auto split: if_splits)
  qed simp
  from this [of "[]"] show "im_get (keyed key vs) i = Some v \<Longrightarrow> key v = i" by (auto simp: keyed_def)
qed

lemma registry_load_ok: "plane_ok (rg_inner (registry_load env path disk n))"
  by (auto simp: registry_load_def plane_ok_def default_inner_def pending_of_def queue_ok_def event_cap_def Let_def
      keyed_lookup)

section \<open>The closed loop\<close>

text \<open>
  \<open>sy_last\<close> is the agent's \<^verbatim>\<open>last_seq\<close>.  In one round the network may lose the heartbeat, the
  response, or some of the acknowledgements.
\<close>

record system =
  sy_plane :: registry_state
  sy_agent :: agent
  sy_last :: nat

abbreviation sy_executed :: "system \<Rightarrow> command list" where
  "sy_executed y \<equiv> ag_log (sy_agent y)"

datatype net = Request_Lost | Response_Lost | Delivered "nat \<Rightarrow> bool"

definition heartbeat_round :: "plane_env \<Rightarrow> node_env \<Rightarrow> string \<Rightarrow> net \<Rightarrow> system \<Rightarrow> system" where
  "heartbeat_round penv env now net y =
     (let (response, s1) = heartbeat penv (build_heartbeat now (sy_agent y)) (rg_inner (sy_plane y));
          y1 = y\<lparr>sy_plane := upd_inner (\<lambda>_. s1) (sy_plane y)\<rparr> in
      case net of
        Request_Lost \<Rightarrow> y
      | Response_Lost \<Rightarrow> y1
      | Delivered arrives \<Rightarrow>
          (let (acks, seq, ag) = agent_turn env (Some response) (sy_last y) (sy_agent y) in
           y1\<lparr>sy_plane := upd_inner (fold ack (filter (arrives \<circ> ak_seq) acks)) (sy_plane y1),
              sy_agent := ag, sy_last := seq\<rparr>))"

definition on_manager :: "(manager \<Rightarrow> manager) \<Rightarrow> string \<Rightarrow> system \<Rightarrow> system" where
  "on_manager f i y = y\<lparr>sy_agent := (sy_agent y)\<lparr>ag_managers :=
     map (\<lambda>(k, m). (k, if k = i then f m else m)) (ag_managers (sy_agent y))\<rparr>\<rparr>"

text \<open>
  \<open>local_step\<close>: what this node's agent and supervisors and the operators do.  \<open>sys_step\<close> adds
  everything else the plane may be sent, heartbeats and acknowledgements of any other node (or of a
  second process in the name of this one), and the restarts: a new plane process reads the file
  again, whatever it holds by then, and a new agent process starts from the instances of its
  configuration.  \<open>undisturbed n\<close> leaves out the restarts and the acknowledgements of number \<open>n\<close>
  that others send.
\<close>

inductive local_step :: "plane_env \<Rightarrow> node_env \<Rightarrow> system \<Rightarrow> system \<Rightarrow> bool" for penv env where
  Round: "local_step penv env y (heartbeat_round penv env now net y)"
| Drain: "local_step penv env y (on_manager (manager_drain env) i y)"
| Tick: "local_step penv env y (on_manager (manager_tick env) i y)"
| Operate: "operator_step penv (sy_plane y) r \<Longrightarrow> local_step penv env y (y\<lparr>sy_plane := r\<rparr>)"

inductive sys_step :: "plane_env \<Rightarrow> node_env \<Rightarrow> system \<Rightarrow> system \<Rightarrow> bool" for penv env where
  Local: "local_step penv env y y' \<Longrightarrow> sys_step penv env y y'"
| Foreign: "plane_step penv (sy_plane y) r \<Longrightarrow> sys_step penv env y (y\<lparr>sy_plane := r\<rparr>)"
| Restart_Plane: "sys_step penv env y (y\<lparr>sy_plane := registry_load penv path disk n\<rparr>)"
| Restart_Agent: "sys_step penv env y (y\<lparr>sy_agent := agent_new env (ag_node (sy_agent y)) specs, sy_last := 0\<rparr>)"

inductive undisturbed :: "nat \<Rightarrow> plane_env \<Rightarrow> node_env \<Rightarrow> system \<Rightarrow> system \<Rightarrow> bool" for n penv env where
  Calm_Local: "local_step penv env y y' \<Longrightarrow> undisturbed n penv env y y'"
| Calm_Heartbeat: "undisturbed n penv env y (y\<lparr>sy_plane := upd_inner (\<lambda>s. snd (heartbeat penv hb s)) (sy_plane y)\<rparr>)"
| Calm_Ack: "ak_seq a \<noteq> n \<Longrightarrow> undisturbed n penv env y (y\<lparr>sy_plane := upd_inner (ack a) (sy_plane y)\<rparr>)"

lemma undisturbed_sys: "undisturbed n penv env y y' \<Longrightarrow> sys_step penv env y y'"
  by (auto elim!: undisturbed.cases intro: sys_step.intros plane_step.intros)

definition queue :: "system \<Rightarrow> command list" where
  "queue y = pending_of (rg_inner (sy_plane y)) (ag_node (sy_agent y))"

lemma dispatch_loop_node: "dispatch_loop cs l n ag = (acks, n', ag') \<Longrightarrow> ag_node ag' = ag_node ag"
  by (induction cs arbitrary: n ag acks n')
    (fastforce simp: execute_def split: if_splits option.splits prod.splits)+

lemma agent_turn_facts:
  assumes "agent_turn env (Some resp) l0 ag = (acks, seq, ag')"
  shows "ag_node ag' = ag_node ag"
    "map ak_seq acks = filter (\<lambda>n. l0 < n) (map cm_seq (hr_commands resp))"
    "seq = Max (insert l0 (set (map cm_seq (hr_commands resp))))"
    "ag_log ag' = ag_log ag @ filter (\<lambda>c. l0 < cm_seq c) (hr_commands resp)"
proof -
  obtain ag1 where d: "dispatch_loop (hr_commands resp) l0 l0 ag = (acks, seq, ag1)"
    and r: "ag' = reconcile env (hr_desired resp) ag1"
    using assms by (auto simp: agent_turn_def dispatch_def split: prod.splits)
  show "ag_node ag' = ag_node ag" using dispatch_loop_node [OF d] r by (simp add: reconcile_def Let_def)
  show "map ak_seq acks = filter (\<lambda>n. l0 < n) (map cm_seq (hr_commands resp))" by (rule dispatch_loop_acks [OF d])
  show "seq = Max (insert l0 (set (map cm_seq (hr_commands resp))))" by (rule dispatch_loop_seq [OF d]) simp
  show "ag_log ag' = ag_log ag @ filter (\<lambda>c. l0 < cm_seq c) (hr_commands resp)"
    using dispatch_loop_log [OF d] r by (simp add: reconcile_def Let_def)
qed

lemma acks_lookup:
  "pending_of (fold ack as s) node = filter (\<lambda>c. cm_seq c \<notin> ak_seq ` set as) (pending_of s node)"
  "seq_of (fold ack as s) node = seq_of s node"
  by (induction as arbitrary: s) (auto intro: filter_cong)

lemma acks_ok: "plane_ok s \<Longrightarrow> plane_ok (fold ack as s)"
proof (induction as arbitrary: s)
  case (Cons a as)
  let ?r = "\<lparr>rg_inner = s, rg_path = None, rg_disk = [], rg_ops = 0\<rparr>"
  have "plane_step plain_plane ?r (upd_inner (ack a) ?r)" by (rule Ack)
  from plane_step_ok [OF this] Cons show ?case by (simp add: upd_inner_def)
qed simp

text \<open>A round, in terms of the queue before and after the heartbeat.\<close>

lemma round_cases:
  assumes "plane_ok (rg_inner (sy_plane y))"
  obtains (lost) "heartbeat_round penv env now net y = y"
  | (unheard) s1 where "heartbeat_round penv env now net y = y\<lparr>sy_plane := upd_inner (\<lambda>_. s1) (sy_plane y)\<rparr>"
    "s1 = snd (heartbeat penv (build_heartbeat now (sy_agent y)) (rg_inner (sy_plane y)))" "plane_ok s1"
  | (heard) arrives s1 acks where
    "s1 = snd (heartbeat penv (build_heartbeat now (sy_agent y)) (rg_inner (sy_plane y)))" "plane_ok s1"
    "net = Delivered arrives"
    "map ak_seq acks = filter (\<lambda>n. sy_last y < n) (map cm_seq (pending_of s1 (ag_node (sy_agent y))))"
    "sy_executed (heartbeat_round penv env now net y) =
       sy_executed y @ filter (\<lambda>c. sy_last y < cm_seq c) (pending_of s1 (ag_node (sy_agent y)))"
    "sy_last (heartbeat_round penv env now net y) =
       Max (insert (sy_last y) (set (map cm_seq (pending_of s1 (ag_node (sy_agent y))))))"
    "ag_node (sy_agent (heartbeat_round penv env now net y)) = ag_node (sy_agent y)"
    "rg_inner (sy_plane (heartbeat_round penv env now net y)) = fold ack (filter (arrives \<circ> ak_seq) acks) s1"
proof -
  obtain resp s1 where h: "heartbeat penv (build_heartbeat now (sy_agent y)) (rg_inner (sy_plane y)) = (resp, s1)"
    by fastforce
  have cs: "hr_commands resp = pending_of s1 (ag_node (sy_agent y))"
    using h by (auto simp: heartbeat_def Let_def build_heartbeat_def)
  have ok: "plane_ok s1"
    using plane_step_ok [OF Heartbeat [of penv "sy_plane y" "build_heartbeat now (sy_agent y)"] assms] h
    by (simp add: upd_inner_def)
  show ?thesis
  proof (cases net)
    case Request_Lost
    then show ?thesis by (intro lost) (simp add: heartbeat_round_def h)
  next
    case Response_Lost
    then show ?thesis using ok by (intro unheard) (simp_all add: heartbeat_round_def h)
  next
    case (Delivered arrives)
    obtain acks seq ag where t: "agent_turn env (Some resp) (sy_last y) (sy_agent y) = (acks, seq, ag)"
      by (cases "agent_turn env (Some resp) (sy_last y) (sy_agent y)")
    from agent_turn_facts [OF t] ok Delivered cs show ?thesis
      by (intro heard [of s1 arrives acks]) (simp_all add: heartbeat_round_def h t upd_inner_def)
  qed
qed

lemma on_manager_fields [simp]:
  "sy_plane (on_manager f i y) = sy_plane y" "sy_last (on_manager f i y) = sy_last y"
  "sy_executed (on_manager f i y) = sy_executed y" "ag_node (sy_agent (on_manager f i y)) = ag_node (sy_agent y)"
  by (simp_all add: on_manager_def)

lemma agent_new_fields [simp]: "ag_node (agent_new env node specs) = node" "ag_log (agent_new env node specs) = []"
  by (simp_all add: agent_new_def)

lemma operator_step_ok: "operator_step penv r r' \<Longrightarrow> plane_ok (rg_inner r) \<Longrightarrow> plane_ok (rg_inner r')"
  using plane_step_ok [OF Operator] .

lemma local_step_ok:
  assumes "local_step penv env y y'" "plane_ok (rg_inner (sy_plane y))"
  shows "plane_ok (rg_inner (sy_plane y')) \<and> ag_node (sy_agent y') = ag_node (sy_agent y)"
  using assms(1)
proof (cases rule: local_step.cases)
  case (Round now net)
  from assms(2) show ?thesis
    by (cases rule: round_cases [of y penv env now net]) (use Round assms(2) in \<open>auto simp: upd_inner_def acks_ok\<close>)
qed (use assms(2) operator_step_ok in auto)

lemma sys_step_ok:
  assumes "sys_step penv env y y'" "plane_ok (rg_inner (sy_plane y))"
  shows "plane_ok (rg_inner (sy_plane y')) \<and> ag_node (sy_agent y') = ag_node (sy_agent y)"
  using assms by cases (simp_all add: local_step_ok plane_step_ok registry_load_ok)

text \<open>The agent never carries a command out twice.\<close>

definition executed_ok :: "system \<Rightarrow> bool" where
  "executed_ok y \<longleftrightarrow> sorted_wrt (<) (map cm_seq (sy_executed y)) \<and>
     (\<forall>c \<in> set (sy_executed y). cm_seq c \<le> sy_last y)"

lemma local_step_executed:
  assumes "local_step penv env y y'" "plane_ok (rg_inner (sy_plane y))" "executed_ok y"
  shows "executed_ok y'"
  using assms(1)
proof (cases rule: local_step.cases)
  case (Round now net)
  from assms(2) show ?thesis
  proof (cases rule: round_cases [of y penv env now net])
    case (heard arrives s1 acks)
    let ?q = "pending_of s1 (ag_node (sy_agent y))"
    have "queue_ok (seq_of s1 (ag_node (sy_agent y))) ?q" using heard(2) by (simp add: plane_ok_def)
    then have "sorted_wrt (<) (map cm_seq (filter (\<lambda>c. sy_last y < cm_seq c) ?q))"
      by (auto simp: queue_ok_def sorted_wrt_map sorted_wrt_filter)
    moreover have "cm_seq c \<le> sy_last y'" if "c \<in> set ?q" for c
      using that Round heard(6) by (auto simp: Max_ge_iff)
    moreover have "sy_last y \<le> sy_last y'" using Round heard(6) by (auto simp: Max_ge_iff)
    moreover have "sy_executed y' = sy_executed y @ filter (\<lambda>c. sy_last y < cm_seq c) ?q" using Round heard(5) by simp
    moreover have "cm_seq a < cm_seq b" if "a \<in> set (sy_executed y)" "sy_last y < cm_seq b" for a b
      using assms(3) that by (meson executed_ok_def le_less_trans)
    ultimately show ?thesis using assms(3) by (fastforce simp: executed_ok_def sorted_wrt_append)
  qed (use Round assms(3) in \<open>simp_all add: executed_ok_def\<close>)
qed (use assms(3) in \<open>simp_all add: executed_ok_def\<close>)

lemma sys_step_executed:
  assumes "sys_step penv env y y'" "plane_ok (rg_inner (sy_plane y))" "executed_ok y"
  shows "executed_ok y'"
  using assms(1) by cases (use assms(2,3) local_step_executed in \<open>auto simp: executed_ok_def\<close>)

text \<open>A command whose number the agent has passed stays in the queue.\<close>

lemma enqueue_keeps: "c \<in> set (pending_of s n) \<Longrightarrow> c \<in> set (pending_of (enqueue_reconcile node ds reports s) n)"
proof -
  have one: "c \<in> set (pending_of s n) \<Longrightarrow> c \<in> set (pending_of (enqueue_one node reports d s) n)" for d s
    by (cases rule: enqueue_one_cases [of node reports d s]) auto
  show "c \<in> set (pending_of s n) \<Longrightarrow> ?thesis"
    unfolding enqueue_reconcile_def by (induction ds arbitrary: s) (auto intro: one)
qed

lemma heartbeat_keeps:
  assumes "c \<in> set (pending_of s n)"
  shows "c \<in> set (pending_of (snd (heartbeat penv hb s)) n)"
proof -
  obtain ds s2 where h: "queues_kept s s2" "snd (heartbeat penv hb s) = enqueue_reconcile (hb_node hb) ds (hb_instances hb) s2"
    using heartbeat_state [of s penv hb] by blast
  have "c \<in> set (pending_of s2 n)" using assms queues_kept_lookup [OF h(1)] by simp
  then show ?thesis unfolding h(2) by (rule enqueue_keeps)
qed

definition stale :: "command \<Rightarrow> system \<Rightarrow> bool" where
  "stale c y \<longleftrightarrow> plane_ok (rg_inner (sy_plane y)) \<and> c \<in> set (queue y) \<and> cm_seq c \<le> sy_last y"

definition same_request :: "command \<Rightarrow> command \<Rightarrow> bool" where
  "same_request c c' \<longleftrightarrow> cm_instance c' = cm_instance c \<and> cm_op c' = cm_op c"

lemma queue_same_request: "queue_ok n cs \<Longrightarrow> c \<in> set cs \<Longrightarrow> c' \<in> set cs \<Longrightarrow> same_request c c' \<Longrightarrow> c' = c"
  by (auto simp: queue_ok_def distinct_map inj_on_def same_request_def)

lemma local_step_stale:
  assumes "local_step penv env y y'" "stale c y"
  shows "stale c y' \<and> (\<exists>cs. sy_executed y' = sy_executed y @ cs \<and> (\<forall>c' \<in> set cs. \<not> same_request c c'))"
  using assms(1)
proof (cases rule: local_step.cases)
  case (Round now net)
  have ok: "plane_ok (rg_inner (sy_plane y))" and c: "c \<in> set (queue y)" "cm_seq c \<le> sy_last y"
    using assms(2) by (simp_all add: stale_def)
  from ok show ?thesis
  proof (cases rule: round_cases [of y penv env now net])
    case (unheard s1)
    with Round c show ?thesis by (auto simp: stale_def queue_def upd_inner_def heartbeat_keeps)
  next
    case (heard arrives s1 acks)
    let ?node = "ag_node (sy_agent y)"
    have c1: "c \<in> set (pending_of s1 ?node)" using c heard(1) by (simp add: queue_def heartbeat_keeps)
    have "sy_last y < ak_seq x" if "x \<in> set acks" for x
    proof -
      have "ak_seq x \<in> set (map ak_seq acks)" using that by simp
      then show ?thesis unfolding heard(4) by simp
    qed
    then have "cm_seq c \<notin> ak_seq ` set (filter (arrives \<circ> ak_seq) acks)" using c(2) by fastforce
    then have "c \<in> set (queue y')" using c1 heard(7,8) Round by (simp add: queue_def acks_lookup)
    moreover have "cm_seq c \<le> sy_last y'" using c(2) Round heard(6) by (auto simp: Max_ge_iff)
    moreover have "\<not> same_request c c'" if "c' \<in> set (pending_of s1 ?node)" "sy_last y < cm_seq c'" for c'
    proof -
      have "queue_ok (seq_of s1 ?node) (pending_of s1 ?node)" using heard(2) by (simp add: plane_ok_def)
      from queue_same_request [OF this c1 that(1)] that(2) c(2) show ?thesis by auto
    qed
    ultimately show ?thesis using local_step_ok [OF assms(1) ok] Round heard(5) by (auto simp: stale_def)
  qed (use Round assms(2) in simp)
next
  case (Operate r)
  then show ?thesis
    using assms(2) operator_step_keeps [OF Operate(2)] operator_step_ok [OF Operate(2)]
    by (auto simp: stale_def queue_def queues_kept_lookup)
qed (use assms(2) in \<open>auto simp: stale_def queue_def\<close>)

lemma undisturbed_stale:
  assumes "undisturbed (cm_seq c) penv env y y'" "stale c y"
  shows "stale c y' \<and> (\<exists>cs. sy_executed y' = sy_executed y @ cs \<and> (\<forall>c' \<in> set cs. \<not> same_request c c'))"
  using assms(1)
proof cases
  case Calm_Local
  then show ?thesis using assms(2) by (rule local_step_stale)
next
  case (Calm_Heartbeat hb)
  then show ?thesis using assms(2) plane_step_ok [OF Heartbeat [of penv "sy_plane y" hb]]
    by (auto simp: stale_def queue_def heartbeat_keeps upd_inner_def)
next
  case (Calm_Ack a)
  then show ?thesis using assms(2) plane_step_ok [OF Ack [of penv "sy_plane y" a]]
    by (auto simp: stale_def queue_def upd_inner_def)
qed

end
