(* ===== verification/Control_Props.thy ===== *)
theory Control_Props
  imports Control_Loop
begin

text \<open>
  Properties of the control plane and the agent together: well-formed queues, at-most-once
  execution by an agent process, and commands that are stuck.
\<close>

section \<open>Runs\<close>

lemma plane_steps_ok: "(plane_step env)\<^sup>*\<^sup>* r r' \<Longrightarrow> plane_ok (rg_inner r) \<Longrightarrow> plane_ok (rg_inner r')"
  by (induction rule: rtranclp_induct) (auto intro: plane_step_ok)

lemma sys_steps_executed:
  "(sys_step penv env)\<^sup>*\<^sup>* y y' \<Longrightarrow> plane_ok (rg_inner (sy_plane y)) \<Longrightarrow> executed_ok y \<Longrightarrow>
   plane_ok (rg_inner (sy_plane y')) \<and> executed_ok y'"
  by (induction rule: rtranclp_induct) (auto dest: sys_step_ok intro: sys_step_executed)

lemma undisturbed_steps_stale:
  "(undisturbed (cm_seq c) penv env)\<^sup>*\<^sup>* y y' \<Longrightarrow> stale c y \<Longrightarrow>
   stale c y' \<and> (\<exists>cs. sy_executed y' = sy_executed y @ cs \<and> (\<forall>c' \<in> set cs. \<not> same_request c c'))"
proof (induction rule: rtranclp_induct)
  case (step y' y'')
  then obtain cs cs' where "stale c y''" "sy_executed y'' = sy_executed y @ cs @ cs'"
    "\<forall>c' \<in> set cs. \<not> same_request c c'" "\<forall>c' \<in> set cs'. \<not> same_request c c'"
    using undisturbed_stale [OF step.hyps(2)] by fastforce
  then show ?case by (intro conjI exI [of _ "cs @ cs'"]) auto
qed auto

section \<open>Properties\<close>

text \<open>
  C10. The plane's queues are always well formed.  Whatever operators, heartbeats and
  acknowledgements a registry has seen since it was loaded, whatever its file held: the pending
  commands of every node have strictly increasing numbers between 1 and the node's counter, each
  is an operation the agent understands, no two of them ask the same of the same instance, at
  most 200 events are kept, and every declaration is stored under its own identifier.
\<close>

theorem plane_well_formed:
  assumes "(plane_step env)\<^sup>*\<^sup>* (registry_load env path disk n) r"
  shows "(\<forall>node. let cs = pending_of (rg_inner r) node in
      sorted_wrt (<) (map cm_seq cs) \<and>
      (\<forall>c \<in> set cs. 0 < cm_seq c \<and> cm_seq c \<le> seq_of (rg_inner r) node \<and> parse_op (cm_op c) \<noteq> None) \<and>
      distinct (map (\<lambda>c. (cm_instance c, cm_op c)) cs)) \<and>
    length (list_events (rg_inner r)) \<le> 200 \<and>
    (\<forall>i d. im_get (pi_instances (rg_inner r)) i = Some d \<longrightarrow> dc_id d = i)"
  using plane_steps_ok [OF assms registry_load_ok]
  by (simp add: plane_ok_def queue_ok_def list_events_def event_cap_def Let_def)

definition demo_registry :: registry_state where
  "demo_registry = snd (declare_instance plain_plane (demo_decl ''i'' D_Running) (registry_load plain_plane None [] 0))"

definition demo_heartbeat :: "instance_state \<Rightarrow> heartbeat_msg" where
  "demo_heartbeat st = \<lparr>hb_node = ''n'', hb_time = ''now'', hb_instances = [demo_report ''i'' st]\<rparr>"

theorem plane_well_formed_witness:
  "let r = upd_inner (\<lambda>s. snd (heartbeat plain_plane (demo_heartbeat Stopped) s)) demo_registry in
   map cm_op (pending_of (rg_inner r) ''n'') = [''start''] \<and>
   (\<forall>c \<in> set (pending_of (rg_inner r) ''n''). parse_op (cm_op c) \<noteq> None)"
proof -
  let ?r = "upd_inner (\<lambda>s. snd (heartbeat plain_plane (demo_heartbeat Stopped) s)) demo_registry"
  have "(plane_step plain_plane)\<^sup>*\<^sup>* (registry_load plain_plane None [] 0) ?r"
    unfolding demo_registry_def
    by (rule rtranclp.rtrancl_into_rtrancl [OF rtranclp.rtrancl_into_rtrancl [OF rtranclp.rtrancl_refl]])
      (rule Operator, rule Declare, rule Heartbeat)
  from plane_well_formed [OF this]
  have "\<forall>c \<in> set (pending_of (rg_inner ?r) ''n''). parse_op (cm_op c) \<noteq> None" by (auto simp: Let_def)
  moreover have "map cm_op (pending_of (rg_inner ?r) ''n'') = [''start'']" by code_simp
  ultimately show ?thesis by (simp add: Let_def)
qed

text \<open>
  C4. An agent process executes every command at most once.  From the start of the processes, however
  operators act, whichever heartbeats, responses and acknowledgements are lost (commands are
  delivered again until acknowledged), whatever other nodes send to the plane, however supervisors
  run in between, and also when the plane or the agent is restarted: the commands the current
  agent process has executed have strictly increasing numbers.  (A restarted agent begins at number
  0 again, so a command whose acknowledgement was lost is executed again by the next process.)
\<close>

theorem executed_at_most_once:
  assumes "ag_log ag = []"
    and "(sys_step penv env)\<^sup>*\<^sup>* \<lparr>sy_plane = registry_load penv path disk n, sy_agent = ag, sy_last = 0\<rparr> y"
  shows "sorted_wrt (<) (map cm_seq (sy_executed y)) \<and> distinct (sy_executed y)"
proof -
  have "executed_ok y" using sys_steps_executed [OF assms(2)] registry_load_ok assms(1) by (simp add: executed_ok_def)
  then show ?thesis using strict_sorted_iff distinct_map by (auto simp: executed_ok_def)
qed

definition demo_agent :: agent where
  "demo_agent = \<lparr>ag_node = ''n'', ag_managers =
     [(''i'', spawn_with_desired (\<lambda>_. calm_env) (default_spec\<lparr>sp_id := ''i''\<rparr>) ''stopped'')], ag_retired = [], ag_log = []\<rparr>"

definition demo_system :: "registry_state \<Rightarrow> nat \<Rightarrow> system" where
  "demo_system r n = \<lparr>sy_plane = r, sy_agent = demo_agent, sy_last = n\<rparr>"

theorem executed_at_most_once_witness:
  "let rnd = heartbeat_round plain_plane (\<lambda>_. calm_env) ''now'';
       y = rnd (Delivered (\<lambda>_. True)) (rnd (Delivered (\<lambda>_. False)) (demo_system demo_registry 0)) in
   map cm_op (sy_executed y) = [''start''] \<and> distinct (sy_executed y)"
proof -
  let ?rnd = "heartbeat_round plain_plane (\<lambda>_. calm_env) ''now''"
  let ?start = "demo_system (registry_load plain_plane None [] 0) 0"
  let ?y = "?rnd (Delivered (\<lambda>_. True)) (?rnd (Delivered (\<lambda>_. False)) (?start\<lparr>sy_plane := demo_registry\<rparr>))"
  have "operator_step plain_plane (sy_plane ?start) demo_registry"
    unfolding demo_registry_def demo_system_def by (simp add: Declare)
  then have "sys_step plain_plane (\<lambda>_. calm_env) ?start (?start\<lparr>sy_plane := demo_registry\<rparr>)"
    by (rule Local [OF Operate])
  then have "(sys_step plain_plane (\<lambda>_. calm_env))\<^sup>*\<^sup>* ?start ?y"
    by (meson Local [OF Round] rtranclp.rtrancl_into_rtrancl rtranclp.rtrancl_refl)
  from executed_at_most_once [OF _ this [unfolded demo_system_def]] have "distinct (sy_executed ?y)"
    by (simp add: demo_system_def demo_agent_def)
  moreover have "map cm_op (sy_executed ?y) = [''start'']" by code_simp
  ultimately show ?thesis by (simp add: Let_def demo_system_def)
qed

text \<open>
  C17. A command the agent has passed is stuck.  The agent skips a command whose number is not above
  its \<^verbatim>\<open>last_seq\<close>, without acknowledging it; the plane neither drops it nor queues its operation for
  that instance again.  So after the acknowledgement of a command was lost, or after the plane
  restarted and counts from one again, the command stays pending and the agent does not execute that
  operation on that instance again, as long as neither process is restarted and no other node
  acknowledges the same number: whatever operators do, whichever messages are lost, and whatever
  heartbeats and other acknowledgements arrive.  (The plane removes a command from the queues of all
  nodes when one of them acknowledges its number, so another node's acknowledgement frees it.)
\<close>

theorem stale_command_stuck:
  assumes "plane_ok (rg_inner (sy_plane y))" "c \<in> set (queue y)" "cm_seq c \<le> sy_last y"
    and "(undisturbed (cm_seq c) penv env)\<^sup>*\<^sup>* y y'"
  shows "c \<in> set (queue y') \<and>
    (\<exists>cs. sy_executed y' = sy_executed y @ cs \<and>
       (\<forall>c' \<in> set cs. \<not> (cm_instance c' = cm_instance c \<and> cm_op c' = cm_op c)))"
  using undisturbed_steps_stale [OF assms(4)] assms(1-3) by (auto simp: stale_def same_request_def)

theorem stale_command_stuck_witness:
  "let rnd = heartbeat_round plain_plane (\<lambda>_. calm_env) ''now'' (Delivered (\<lambda>_. True));
       y = rnd (demo_system demo_registry 3) in
   \<exists>c \<in> set (queue y). \<forall>n. c \<in> set (queue ((rnd ^^ n) y)) \<and>
     (\<forall>c' \<in> set (sy_executed ((rnd ^^ n) y)). cm_op c' \<noteq> ''start'' \<or> cm_instance c' \<noteq> ''i'')"
proof -
  let ?rnd = "heartbeat_round plain_plane (\<lambda>_. calm_env) ''now'' (Delivered (\<lambda>_. True))"
  let ?c = "\<lparr>cm_seq = 1, cm_op = ''start'', cm_instance = ''i''\<rparr>"
  let ?y = "?rnd (demo_system demo_registry 3)"
  have q: "queue ?y = [?c]" "sy_last ?y = 3" "sy_executed ?y = []" by code_simp+
  have "plane_ok (rg_inner demo_registry)"
    unfolding demo_registry_def by (rule plane_step_ok [OF Operator [OF Declare] registry_load_ok])
  then have ok: "plane_ok (rg_inner (sy_plane ?y))"
    using local_step_ok [OF Round, of "demo_system demo_registry 3" plain_plane] by (simp add: demo_system_def)
  have steps: "(undisturbed (cm_seq ?c) plain_plane (\<lambda>_. calm_env))\<^sup>*\<^sup>* ?y ((?rnd ^^ n) ?y)" for n
    by (induction n) (auto intro: rtranclp.rtrancl_into_rtrancl Calm_Local Round)
  have "?c \<in> set (queue ((?rnd ^^ n) ?y)) \<and>
      (\<forall>c' \<in> set (sy_executed ((?rnd ^^ n) ?y)). cm_op c' \<noteq> ''start'' \<or> cm_instance c' \<noteq> ''i'')" for n
    using stale_command_stuck [OF ok _ _ steps [of n]] q by auto
  with q(1) show ?thesis by (auto simp: Let_def)
qed

end
