(* ===== verification/Convergence.thy ===== *)
theory Convergence
  imports Control_Props
begin

text \<open>
  What the control loop achieves when nothing is lost and plane and agent are in step: a managed
  instance whose process does as it is told reaches its desired state within two heartbeat rounds.
\<close>

section \<open>Targets\<close>

fun reached :: "desired \<Rightarrow> instance_state \<Rightarrow> bool" where
  "reached D_Running st = (st = Running)"
| "reached D_Paused st = (st = Paused)"
| "reached D_Stopped st = (st \<in> {Stopped, Failed})"

text \<open>The state after the command the plane chooses, for an instance that carries it out.\<close>

fun step_towards :: "desired \<Rightarrow> instance_state \<Rightarrow> instance_state" where
  "step_towards D_Running st = Running"
| "step_towards D_Paused st = (if st \<in> {Running, Paused} then Paused else Running)"
| "step_towards D_Stopped st = (if st = Failed then Failed else Stopped)"

definition transitional :: "instance_state \<Rightarrow> bool" where
  "transitional st \<longleftrightarrow> st \<in> {Starting, Restarting, Stopping}"

lemma step_towards_twice: "reached d (step_towards d (step_towards d st))"
  by (cases d) auto

lemma step_towards_reached: "reached d st \<Longrightarrow> step_towards d st = st"
  by (cases d) auto

section \<open>One round\<close>

definition wanted :: "instance_report list \<Rightarrow> instance_decl \<Rightarrow> string list" where
  "wanted reports d =
     (case find_report reports (dc_id d) of
        None \<Rightarrow> []
      | Some r \<Rightarrow> (case desired_op (dc_desired d) (rep_state r) of None \<Rightarrow> [] | Some op \<Rightarrow> [op]))"

definition requests :: "command list \<Rightarrow> string \<Rightarrow> string list" where
  "requests cs i = map cm_op (filter (\<lambda>c. cm_instance c = i) cs)"

lemma requests_append [simp]: "requests (a @ b) i = requests a i @ requests b i"
  by (simp add: requests_def)

lemma enqueue_one_requests:
  assumes "\<forall>c \<in> set (pending_of s node). cm_instance c \<noteq> dc_id d"
  shows "requests (pending_of (enqueue_one node reports d s) node) i =
      requests (pending_of s node) i @ (if i = dc_id d then wanted reports d else []) \<and>
    (\<forall>c \<in> set (pending_of (enqueue_one node reports d s) node).
       c \<in> set (pending_of s node) \<or> seq_of s node < cm_seq c \<and> cm_instance c = dc_id d) \<and>
    seq_of s node \<le> seq_of (enqueue_one node reports d s) node"
proof (cases rule: enqueue_one_cases [of node reports d s])
  case 1
  have "wanted reports d = []"
  proof (rule ccontr)
    assume "wanted reports d \<noteq> []"
    then obtain r op where "find_report reports (dc_id d) = Some r" "desired_op (dc_desired d) (rep_state r) = Some op"
      by (auto simp: wanted_def split: option.splits)
    with assms have "desired_command d (find_report reports (dc_id d)) (pending_of s node) =
        Some \<lparr>cm_seq = 0, cm_op = op, cm_instance = dc_id d\<rparr>"
      by (auto simp: desired_command_Some)
    with 1(2) show False by simp
  qed
  with 1(1) show ?thesis by simp
next
  case (2 op)
  then have "wanted reports d = [op]" by (auto simp: wanted_def)
  with 2(4) show ?thesis by (auto simp: requests_def)
qed

lemma enqueue_requests:
  assumes "distinct (map dc_id ds)" "\<forall>c \<in> set (pending_of s node). cm_instance c \<notin> dc_id ` set ds"
    and "\<forall>c \<in> set (pending_of s node). n < cm_seq c" "n \<le> seq_of s node"
  shows "requests (pending_of (enqueue_reconcile node ds reports s) node) i =
      requests (pending_of s node) i @ concat (map (wanted reports) (filter (\<lambda>d. dc_id d = i) ds)) \<and>
    (\<forall>c \<in> set (pending_of (enqueue_reconcile node ds reports s) node). n < cm_seq c) \<and>
    n \<le> seq_of (enqueue_reconcile node ds reports s) node"
  using assms unfolding enqueue_reconcile_def
proof (induction ds arbitrary: s)
  case (Cons d ds)
  let ?s = "enqueue_one node reports d s"
  have one: "requests (pending_of ?s node) i =
      requests (pending_of s node) i @ (if i = dc_id d then wanted reports d else [])"
    "\<forall>c \<in> set (pending_of ?s node). c \<in> set (pending_of s node) \<or> seq_of s node < cm_seq c \<and> cm_instance c = dc_id d"
    "seq_of s node \<le> seq_of ?s node"
    using enqueue_one_requests [of s node d reports i] Cons.prems(2) by auto
  have "\<forall>c \<in> set (pending_of ?s node). cm_instance c \<notin> dc_id ` set ds"
    using one(2) Cons.prems(1,2) by fastforce
  moreover have "\<forall>c \<in> set (pending_of ?s node). n < cm_seq c"
    using one(2) Cons.prems(3,4) le_less_trans by blast
  ultimately show ?case
    using Cons.IH [of ?s] Cons.prems one by auto
qed simp

lemma dispatch_inbox:
  "\<lbrakk>dispatch_loop cs l n ag = (acks, n', ag'); \<forall>c \<in> set cs. l < cm_seq c \<and> parse_op (cm_op c) \<noteq> None\<rbrakk> \<Longrightarrow>
   im_get (ag_managers ag') i = map_option (\<lambda>m. m\<lparr>mg_inbox := mg_inbox m @ map (the \<circ> parse_op) (requests cs i)\<rparr>)
     (im_get (ag_managers ag) i)"
proof (induction cs arbitrary: n ag acks n')
  case Nil
  then show ?case by (cases "im_get (ag_managers ag) i") (auto simp: requests_def)
next
  case (Cons c cs)
  obtain op where op: "parse_op (cm_op c) = Some op" using Cons.prems(2) by auto
  obtain ack1 ag1 where e: "execute c ag = (ack1, ag1)" by fastforce
  obtain acks1 where d: "dispatch_loop cs l (max n (cm_seq c)) ag1 = (acks1, n', ag')"
    using Cons.prems e by (auto split: prod.splits)
  have "im_get (ag_managers ag1) i = map_option (\<lambda>m. m\<lparr>mg_inbox := mg_inbox m @ map (the \<circ> parse_op) (requests [c] i)\<rparr>)
      (im_get (ag_managers ag) i)"
    using e op by (cases "im_get (ag_managers ag) i")
      (auto simp: execute_def requests_def manager_send_def split: option.splits if_splits)
  with Cons.IH [OF d] Cons.prems(2) show ?case
    by (cases "im_get (ag_managers ag) i") (auto simp: requests_def)
qed

lemma map_of_filter_keys: "map_of (filter (\<lambda>(k, _). k \<in> S) m) i = (if i \<in> S then map_of m i else None)"
  by (induction m) auto

lemma reconcile_keeps:
  assumes "im_get (ag_managers ag) i = Some m" "i \<in> set (map (sp_id \<circ> di_spec) desired)"
  shows "im_get (ag_managers (reconcile env desired ag)) i = Some m"
proof -
  have "im_get (fold (\<lambda>item ms. let i = sp_id (di_spec item) in if im_contains ms i then ms
      else im_insert i (spawn_with_desired env (di_spec item) (di_desired item)) ms) items ms) i = Some m"
    if "im_get ms i = Some m" for items ms
    by (rule fold_invariant [where Q = "\<lambda>_. True"]) (use that in \<open>auto simp: Let_def im_contains_def\<close>)
  with assms show ?thesis by (simp add: reconcile_def Let_def map_of_filter_keys)
qed

section \<open>Well-formed agents\<close>

definition agent_keys :: "agent \<Rightarrow> bool" where
  "agent_keys ag \<longleftrightarrow> distinct (map fst (ag_managers ag)) \<and>
     (\<forall>(k, m) \<in> set (ag_managers ag). sh_id (sup_shared (mg_sup m)) = k)"

lemma sh_id_steps [simp]:
  "sh_id (sup_shared (spawn_child env spec st)) = sh_id (sup_shared st)"
  "sh_id (sup_shared (terminate_child st)) = sh_id (sup_shared st)"
  "sh_id (sup_shared (pause_instance env spec st)) = sh_id (sup_shared st)"
  "sh_id (sup_shared (resume_instance env spec st)) = sh_id (sup_shared st)"
  "sh_id (sup_shared (set_instance_state s st)) = sh_id (sup_shared st)"
  by (auto simp: sup_steps split: option.splits)

lemma sh_id_handle_command [simp]: "sh_id (sup_shared (handle_command env spec c st)) = sh_id (sup_shared st)"
  by (cases c) simp_all

lemma sh_id_init: "sh_id (sup_shared (supervise_init env spec d n)) = sp_id spec"
  by (simp add: supervise_init_def Let_def new_supervisor_def)

definition drain_all :: "node_env \<Rightarrow> agent \<Rightarrow> agent" where
  "drain_all env ag = ag\<lparr>ag_managers := map (\<lambda>(k, m). (k, manager_drain env m)) (ag_managers ag)\<rparr>"

lemma sh_id_drain: "sh_id (sup_shared (mg_sup (manager_drain env m))) = sh_id (sup_shared (mg_sup m))"
proof -
  have "sh_id (sup_shared (fold (handle_command e spec) cs st)) = sh_id (sup_shared st)" for e spec cs st
    by (induction cs arbitrary: st) simp_all
  then show ?thesis by (simp add: manager_drain_def)
qed

lemma agent_keys_drain: "agent_keys ag \<Longrightarrow> agent_keys (drain_all env ag)"
  by (auto simp: agent_keys_def drain_all_def comp_def case_prod_unfold sh_id_drain)

lemma drain_all_lookup: "im_get (ag_managers (drain_all env ag)) i = map_option (manager_drain env) (im_get (ag_managers ag) i)"
proof -
  have "map_of (map (\<lambda>(k, m). (k, manager_drain env m)) ms) i = map_option (manager_drain env) (map_of ms i)" for ms
    by (induction ms) auto
  then show ?thesis by (simp add: drain_all_def)
qed

text \<open>Inserting under the manager's own identifier.\<close>

lemma agent_keys_insert:
  assumes "agent_keys ag" "sh_id (sup_shared (mg_sup m)) = i"
  shows "agent_keys (ag\<lparr>ag_managers := im_insert i m (ag_managers ag)\<rparr>)"
proof -
  have d: "distinct (map fst (im_insert i m (ag_managers ag)))"
    using assms(1) by (simp add: agent_keys_def distinct_update)
  have "sh_id (sup_shared (mg_sup m')) = k" if "(k, m') \<in> set (im_insert i m (ag_managers ag))" for k m'
  proof -
    have "im_get (im_insert i m (ag_managers ag)) k = Some m'" by (rule map_of_is_SomeI [OF d that])
    then show ?thesis using assms by (auto simp: agent_keys_def split: if_splits dest: map_of_SomeD)
  qed
  with d show ?thesis by (auto simp: agent_keys_def)
qed

lemma agent_keys_logged [simp]: "agent_keys (logged c ag) = agent_keys ag"
  by (simp add: agent_keys_def)

lemma agent_keys_dispatch:
  "dispatch_loop cs l n ag = (acks, n', ag') \<Longrightarrow> agent_keys ag \<Longrightarrow> agent_keys ag'"
proof (induction cs arbitrary: n ag acks n')
  case (Cons c cs)
  have "agent_keys (snd (execute c ag))"
  proof (cases "parse_op (cm_op c) = None \<or> im_get (ag_managers ag) (cm_instance c) = None")
    case False
    then obtain op m where "parse_op (cm_op c) = Some op" "im_get (ag_managers ag) (cm_instance c) = Some m" by auto
    moreover from this have "sh_id (sup_shared (mg_sup (manager_send op m))) = cm_instance c"
      using Cons.prems(2) by (auto simp: agent_keys_def manager_send_def dest: map_of_SomeD)
    ultimately show ?thesis
      using agent_keys_insert [OF Cons.prems(2), of "manager_send op m" "cm_instance c"] by (simp add: execute_def)
  qed (use Cons.prems(2) in \<open>auto simp: execute_def split: option.split\<close>)
  with Cons show ?case by (auto split: if_splits prod.splits)
qed simp

lemma agent_keys_reconcile:
  assumes "agent_keys ag"
  shows "agent_keys (reconcile env desired ag)"
proof -
  have "agent_keys (ag\<lparr>ag_managers := fold (\<lambda>item ms. let i = sp_id (di_spec item) in if im_contains ms i then ms
      else im_insert i (spawn_with_desired env (di_spec item) (di_desired item)) ms) desired (ag_managers ag)\<rparr>)"
  proof (rule fold_invariant [where Q = "\<lambda>_. True" and P = "\<lambda>ms. agent_keys (ag\<lparr>ag_managers := ms\<rparr>)"])
    fix item and ms :: "(string \<times> manager) list"
    assume k: "agent_keys (ag\<lparr>ag_managers := ms\<rparr>)"
    show "agent_keys (ag\<lparr>ag_managers := let i = sp_id (di_spec item) in if im_contains ms i then ms
      else im_insert i (spawn_with_desired env (di_spec item) (di_desired item)) ms\<rparr>)"
      using agent_keys_insert [OF k, of "spawn_with_desired env (di_spec item) (di_desired item)" "sp_id (di_spec item)"] k
      by (simp add: Let_def spawn_with_desired_def sh_id_init)
  qed (use assms in simp_all)
  then show ?thesis
    by (auto simp: agent_keys_def reconcile_def Let_def distinct_map_filter case_prod_unfold)
qed

lemma heartbeat_report:
  assumes "agent_keys ag" "im_get (ag_managers ag) i = Some m"
  shows "find_report (hb_instances (build_heartbeat now ag)) i = Some (manager_snapshot m)"
proof -
  have "find (\<lambda>r. rep_id r = i) (map (manager_snapshot \<circ> snd) ms) = map_option manager_snapshot (map_of ms i)"
    if "\<forall>(k, m) \<in> set ms. sh_id (sup_shared (mg_sup m)) = k" for ms
    using that by (induction ms) (auto simp: manager_snapshot_def Let_def)
  with assms show ?thesis by (simp add: find_report_def build_heartbeat_def agent_keys_def)
qed

section \<open>Carrying commands out\<close>

definition cooperative :: "sup_env \<Rightarrow> bool" where
  "cooperative e \<longleftrightarrow> (\<forall>n b a. sv_spawn e n b a \<noteq> None) \<and> (\<forall>n. sv_port e n \<noteq> None) \<and>
     (\<forall>n admin token path. admin_post (sv_http e n) admin token path)"

text \<open>A manager whose mailbox is empty and whose process can be reached when it has one.\<close>

definition controllable :: "manager \<Rightarrow> bool" where
  "controllable m \<longleftrightarrow> mg_inbox m = [] \<and>
     (let sh = sup_shared (mg_sup m) in \<not> transitional (sh_state sh) \<and>
        (sh_state sh \<in> {Running, Paused} \<longrightarrow> sh_admin sh \<noteq> None))"

definition state_of :: "manager \<Rightarrow> instance_state" where
  "state_of m = sh_state (sup_shared (mg_sup m))"

lemma spawn_child_cooperative:
  "cooperative e \<Longrightarrow> sh_state (sup_shared (spawn_child e spec st)) = Running \<and>
   sh_admin (sup_shared (spawn_child e spec st)) \<noteq> None"
  by (auto simp: cooperative_def sup_steps split: option.split)

lemma post_cooperative:
  assumes "cooperative e" "sh_admin (sup_shared st) \<noteq> None"
  shows "sh_state (sup_shared (pause_instance e spec st)) = Paused \<and> sh_admin (sup_shared (pause_instance e spec st)) \<noteq> None"
    "sh_state (sup_shared (resume_instance e spec st)) = Running \<and> sh_admin (sup_shared (resume_instance e spec st)) \<noteq> None"
  using assms by (auto simp: cooperative_def sup_steps)

lemma parse_ops [simp]:
  "parse_op ''start'' = Some Cmd_Start" "parse_op ''stop'' = Some Cmd_Stop"
  "parse_op ''pause'' = Some Cmd_Pause" "parse_op ''resume'' = Some Cmd_Resume"
  by (simp_all add: parse_op_def)

lemma carry_out:
  assumes c: "cooperative (env (sp_id (mg_spec m)))" and m: "controllable m"
    and ops: "ops = (case desired_op d (state_of m) of None \<Rightarrow> [] | Some op \<Rightarrow> [op])"
  shows "controllable (manager_drain env (m\<lparr>mg_inbox := map (the \<circ> parse_op) ops\<rparr>)) \<and>
    state_of (manager_drain env (m\<lparr>mg_inbox := map (the \<circ> parse_op) ops\<rparr>)) = step_towards d (state_of m)"
proof -
  note [simp] = controllable_def state_of_def transitional_def manager_drain_def Let_def ops
    set_instance_state_def with_shared_def
  have a: "state_of m \<in> {Running, Paused} \<Longrightarrow> sh_admin (sup_shared (mg_sup m)) \<noteq> None"
    and t: "state_of m \<in> {Running, Paused, Stopped, Failed}"
    using m by (cases "sh_state (sup_shared (mg_sup m))"; simp)+
  show ?thesis
    using a t m post_cooperative [OF c, of "mg_sup m" "mg_spec m"] spawn_child_cooperative [OF c, of "mg_spec m"]
    by (cases d; cases "sh_state (sup_shared (mg_sup m))") (simp_all add: terminate_child_def split: option.splits)
qed

section \<open>Reliable rounds\<close>

definition reliable_round :: "plane_env \<Rightarrow> node_env \<Rightarrow> string \<Rightarrow> system \<Rightarrow> system" where
  "reliable_round penv env now y =
     (let y1 = heartbeat_round penv env now (Delivered (\<lambda>_. True)) y
      in y1\<lparr>sy_agent := drain_all env (sy_agent y1)\<rparr>)"

definition in_sync :: "system \<Rightarrow> bool" where
  "in_sync y \<longleftrightarrow> plane_ok (rg_inner (sy_plane y)) \<and> im_wf (pi_instances (rg_inner (sy_plane y))) \<and> queue y = [] \<and>
     sy_last y \<le> seq_of (rg_inner (sy_plane y)) (ag_node (sy_agent y)) \<and> agent_keys (sy_agent y)"

definition managed :: "system \<Rightarrow> string \<Rightarrow> instance_decl \<Rightarrow> manager \<Rightarrow> bool" where
  "managed y i d m \<longleftrightarrow> im_get (pi_instances (rg_inner (sy_plane y))) i = Some d \<and> dc_node d = ag_node (sy_agent y) \<and>
     sp_id (dc_spec d) = i \<and> im_get (ag_managers (sy_agent y)) i = Some m \<and> controllable m"

lemma distinct_values:
  assumes "hash_order (pe_order env)" "im_wf m" "\<And>k v. im_get m k = Some v \<Longrightarrow> f v = k"
  shows "distinct (map f (values_of env m))"
proof -
  have "map f (List.map_filter (im_get m) ks) = filter (\<lambda>k. im_get m k \<noteq> None) ks" for ks
    by (induction ks) (auto simp: List.map_filter_simps assms(3) split: option.split)
  moreover have "distinct (pe_order env (im_keys m))"
    using hash_order_distinct [OF assms(1)] assms(2) by (simp add: im_wf_def)
  ultimately show ?thesis by (simp add: values_of_def)
qed

lemma filter_unique: "distinct (map f xs) \<Longrightarrow> x \<in> set xs \<Longrightarrow> filter (\<lambda>y. f y = f x) xs = [x]"
  by (induction xs) (auto simp: filter_empty_conv image_iff)

lemma acks_clear:
  "map ak_seq acks = map cm_seq (pending_of s n) \<Longrightarrow> pending_of (fold ack acks s) n = []"
proof -
  assume "map ak_seq acks = map cm_seq (pending_of s n)"
  then have "set (map ak_seq acks) = set (map cm_seq (pending_of s n))" by simp
  then show ?thesis by (auto simp: acks_lookup filter_empty_conv)
qed

lemma acks_instances [simp]: "pi_instances (fold ack acks s) = pi_instances s"
  by (induction acks arbitrary: s) (simp_all add: ack_def)

lemma reliable_round_step:
  assumes ho: "hash_order (pe_order penv)" and y: "in_sync y" and m: "managed y i d m"
    and c: "cooperative (env (sp_id (mg_spec m)))"
  shows "in_sync (reliable_round penv env now y) \<and>
    (\<exists>m'. managed (reliable_round penv env now y) i d m' \<and> mg_spec m' = mg_spec m \<and>
       state_of m' = step_towards (dc_desired d) (state_of m))"
proof -
  let ?ag = "sy_agent y" and ?s = "rg_inner (sy_plane y)"
  let ?node = "ag_node ?ag" and ?hb = "build_heartbeat now ?ag"
  have hb: "hb_node ?hb = ?node" by (simp add: build_heartbeat_def)
  obtain resp s1 where h: "heartbeat penv ?hb ?s = (resp, s1)" by fastforce
  obtain ds s2 where s2: "queues_kept ?s s2" "pi_instances s2 = pi_instances ?s" "ds = declared_for penv s2 ?node"
    "s1 = enqueue_reconcile ?node ds (hb_instances ?hb) s2"
    "resp = \<lparr>hr_commands = pending_of s1 ?node,
       hr_desired = map (\<lambda>d. \<lparr>di_spec = dc_spec d, di_desired = desired_str (dc_desired d)\<rparr>) ds\<rparr>"
    using heartbeat_state [of ?s penv ?hb] h hb by auto
  have ok: "plane_ok s1"
    using plane_step_ok [OF Heartbeat [of penv "sy_plane y" ?hb]] y h by (simp add: upd_inner_def in_sync_def)
  have keys: "\<And>k v. im_get (pi_instances s2) k = Some v \<Longrightarrow> dc_id v = k"
    using y s2(2) by (simp add: in_sync_def plane_ok_def)
  have di: "dc_id d = i" "im_get (pi_instances s2) i = Some d" using keys m s2(2) by (auto simp: managed_def)
  have dist: "distinct (map dc_id ds)"
    using distinct_values [OF ho, of "pi_instances s2" dc_id] keys y s2(2,3)
    by (simp add: declared_for_def in_sync_def distinct_map_filter)
  have d: "d \<in> set ds"
    using set_values_of [OF ho, of "pi_instances s2"] di m s2(3) by (auto simp: declared_for_def managed_def ran_def)
  have q0: "pending_of s2 ?node = []" "sy_last y \<le> seq_of s2 ?node"
    using y queues_kept_lookup [OF s2(1)] by (simp_all add: in_sync_def queue_def)
  have w: "wanted (hb_instances ?hb) d = (case desired_op (dc_desired d) (state_of m) of None \<Rightarrow> [] | Some op \<Rightarrow> [op])"
    using heartbeat_report [of ?ag i m now] y m di(1)
    by (simp add: wanted_def in_sync_def managed_def manager_snapshot_def state_of_def Let_def)
  have q1: "requests (pending_of s1 ?node) i = wanted (hb_instances ?hb) d"
    "\<forall>c \<in> set (pending_of s1 ?node). sy_last y < cm_seq c" "sy_last y \<le> seq_of s1 ?node"
    using enqueue_requests [OF dist, of s2 ?node "sy_last y" "hb_instances ?hb" i] q0 filter_unique [OF dist d] di(1)
    by (simp_all add: s2(4) requests_def)
  have wf: "queue_ok (seq_of s1 ?node) (pending_of s1 ?node)" using ok by (simp add: plane_ok_def)
  obtain acks seq ag1 where l: "dispatch_loop (pending_of s1 ?node) (sy_last y) (sy_last y) ?ag = (acks, seq, ag1)"
    by (cases "dispatch_loop (pending_of s1 ?node) (sy_last y) (sy_last y) ?ag")
  let ?ag2 = "drain_all env (reconcile env (hr_desired resp) ag1)"
  have r: "reliable_round penv env now y = y\<lparr>sy_plane := upd_inner (\<lambda>_. fold ack acks s1) (sy_plane y),
      sy_agent := ?ag2, sy_last := seq\<rparr>"
    using l s2(5) by (simp add: reliable_round_def heartbeat_round_def h agent_turn_def dispatch_def Let_def upd_inner_def comp_def)
  have node: "ag_node ?ag2 = ?node"
    using dispatch_loop_node [OF l] by (simp add: drain_all_def reconcile_def Let_def)
  have "map ak_seq acks = map cm_seq (pending_of s1 ?node)"
    using dispatch_loop_acks [OF l] q1(2) by (simp add: filter_id_conv)
  then have empty: "pending_of (fold ack acks s1) ?node = []" by (rule acks_clear)
  have seq: "seq \<le> seq_of s1 ?node"
    using dispatch_loop_seq [OF l] q1(3) wf by (auto simp: queue_ok_def)
  have sync: "in_sync (reliable_round penv env now y)"
    using y ok empty seq node s2(2,4) agent_keys_drain [OF agent_keys_reconcile [OF agent_keys_dispatch [OF l]]]
    by (simp add: r in_sync_def queue_def upd_inner_def acks_ok acks_lookup)
  let ?m1 = "m\<lparr>mg_inbox := map (the \<circ> parse_op) (wanted (hb_instances ?hb) d)\<rparr>"
  have "im_get (ag_managers ag1) i = Some ?m1"
    using dispatch_inbox [OF l, of i] q1(1,2) wf m by (auto simp: managed_def controllable_def queue_ok_def)
  moreover have "i \<in> set (map (sp_id \<circ> di_spec) (hr_desired resp))"
    using d m s2(5) by (force simp: managed_def)
  ultimately have "im_get (ag_managers ?ag2) i = Some (manager_drain env ?m1)"
    by (simp add: drain_all_lookup reconcile_keeps)
  moreover have "controllable m" using m by (simp add: managed_def)
  note carry_out [where env = env and m = m, OF c this w]
  ultimately have "managed (reliable_round penv env now y) i d (manager_drain env ?m1) \<and>
      mg_spec (manager_drain env ?m1) = mg_spec m \<and>
      state_of (manager_drain env ?m1) = step_towards (dc_desired d) (state_of m)"
    using m node s2(2,4) by (simp add: managed_def r upd_inner_def manager_drain_def)
  with sync show ?thesis by blast
qed

lemma reliable_rounds:
  assumes "hash_order (pe_order penv)" "in_sync y" "managed y i d m" "cooperative (env (sp_id (mg_spec m)))"
  shows "\<exists>m'. in_sync ((reliable_round penv env now ^^ n) y) \<and> managed ((reliable_round penv env now ^^ n) y) i d m' \<and>
    mg_spec m' = mg_spec m \<and> state_of m' = (step_towards (dc_desired d) ^^ n) (state_of m)"
proof (induction n)
  case (Suc n)
  then obtain m' where m': "in_sync ((reliable_round penv env now ^^ n) y)"
    "managed ((reliable_round penv env now ^^ n) y) i d m'" "mg_spec m' = mg_spec m"
    "state_of m' = (step_towards (dc_desired d) ^^ n) (state_of m)" by blast
  then show ?case using reliable_round_step [OF assms(1) m'(1,2), of env now] assms(4) by auto
qed (use assms in auto)

lemma steps_reached: "2 \<le> n \<Longrightarrow> reached d ((step_towards d ^^ n) st)"
proof (induction n rule: dec_induct)
  case base
  show ?case using step_towards_twice by (simp add: numeral_2_eq_2)
qed (simp add: step_towards_reached)

section \<open>Property\<close>

text \<open>
  C5. The control loop converges while nothing goes wrong.  Take a system whose plane and agent are in
  step (a well-formed plane, nothing pending for the node, the sequence counter not behind the
  agent's) and an instance that is declared on the agent's node under its own id and managed by the
  agent, with an empty mailbox, not starting or stopping, and with an admin address if it runs.
  Suppose every attempt to start its process succeeds, finds a port, and every call of its admin
  interface succeeds.  After two or more heartbeat rounds without losses, each followed by the supervisors
  emptying their mailboxes and with no other step between them, the instance is in its desired state
  (stopped or failed where it should be stopped), whatever other instances are declared or managed.
  Without these conditions it need not be: see C17 for a system where the counters are not in step.
\<close>

theorem instance_converges:
  assumes "hash_order (pe_order penv)" "in_sync y" "managed y i d m" "cooperative (env (sp_id (mg_spec m)))"
    and "2 \<le> n"
  shows "\<exists>m'. im_get (ag_managers (sy_agent ((reliable_round penv env now ^^ n) y))) i = Some m' \<and>
    reached (dc_desired d) (sh_state (sup_shared (mg_sup m')))"
proof -
  obtain m' where "managed ((reliable_round penv env now ^^ n) y) i d m'"
    "state_of m' = (step_towards (dc_desired d) ^^ n) (state_of m)"
    using reliable_rounds [where env = env, OF assms(1-4), where now = now and n = n] by blast
  then show ?thesis using steps_reached [OF assms(5), of "dc_desired d" "state_of m"]
    by (auto simp: managed_def state_of_def)
qed

definition willing_env :: sup_env where
  "willing_env = calm_env\<lparr>sv_http := (\<lambda>_ _. Some \<lparr>rp_status = 200, rp_body = None\<rparr>)\<rparr>"

theorem instance_converges_witness:
  "let r = snd (declare_instance plain_plane (demo_decl ''i'' D_Paused) (registry_load plain_plane None [] 0));
       y = (reliable_round plain_plane (\<lambda>_. willing_env) ''now'' ^^ 2) (demo_system r 0) in
   \<exists>m. im_get (ag_managers (sy_agent y)) ''i'' = Some m \<and> sh_state (sup_shared (mg_sup m)) = Paused"
proof -
  let ?r = "snd (declare_instance plain_plane (demo_decl ''i'' D_Paused) (registry_load plain_plane None [] 0))"
  let ?start = "demo_system ?r 0"
  let ?d = "demo_decl ''i'' D_Paused"
  obtain m where m: "ag_managers demo_agent = [(''i'', m)]"
    "m = spawn_with_desired (\<lambda>_. calm_env) (default_spec\<lparr>sp_id := ''i''\<rparr>) ''stopped''" by (simp add: demo_agent_def)
  have "plane_ok (rg_inner ?r)" by (rule plane_step_ok [OF Operator [OF Declare] registry_load_ok])
  moreover have "im_get (pi_instances (rg_inner ?r)) ''i'' = Some ?d" "im_wf (pi_instances (rg_inner ?r))"
    "pi_pending (rg_inner ?r) = []"
    by (simp_all add: declare_instance_def upd_inner_def registry_load_def default_inner_def demo_decl_def Let_def
        record_event_def keyed_def empty_persisted_def im_wf_def im_keys_def)
  ultimately have "in_sync ?start" "managed ?start ''i'' ?d m"
    using m by (auto simp: in_sync_def managed_def demo_system_def queue_def pending_of_def agent_keys_def controllable_def
        transitional_def demo_decl_def demo_agent_def spawn_with_desired_def supervise_init_def new_supervisor_def
        sup_elementary Let_def default_spec_def)
  moreover have "hash_order (pe_order plain_plane)" by (simp add: hash_order_def plain_plane_def)
  moreover have "cooperative willing_env"
    by (simp add: cooperative_def willing_env_def calm_env_def admin_post_def is_success_def)
  ultimately show ?thesis
    using instance_converges [where penv = plain_plane and y = ?start and i = "''i''" and d = ?d and m = m
      and env = "\<lambda>_. willing_env" and n = 2 and now = "''now''"]
    by (simp add: Let_def demo_decl_def)
qed

end
