(* ===== verification/Config_Decode.thy ===== *)
theory Config_Decode
  imports Core_Error
begin

text \<open>
  Decoding a JSON value into a typed step config, as the derived \<^verbatim>\<open>Deserialize\<close> implementations
  with \<^verbatim>\<open>deny_unknown_fields\<close> do (\<^verbatim>\<open>parse_config\<close> in \<^verbatim>\<open>sohara-builtins/src/lib.rs\<close>).  The entries
  are checked in the order of the object; the first unknown field or ill-typed value is the
  error, and missing required fields are reported last.  As \<^verbatim>\<open>serde\<close> does, a struct may also be
  given as an array of its fields in order, and a unit variant as an object with one null entry.
  After a successful check the fields are read with total accessors.
\<close>

type_synonym checker = "json \<Rightarrow> serde_error option"
type_synonym struct_spec = "(string \<times> bool \<times> checker) list"

section \<open>Checks\<close>

definition chk :: "(json \<Rightarrow> bool) \<Rightarrow> checker" where
  "chk p v = (if p v then None else Some (Sd_Type v))"

fun is_usize :: "json \<Rightarrow> bool" where
  "is_usize (JNumber (PosInt n)) = (0 \<le> n \<and> n \<le> u64_max)"
| "is_usize _ = False"

fun is_bool :: "json \<Rightarrow> bool" where
  "is_bool (JBool _) = True"
| "is_bool _ = False"

fun is_variant :: "string list \<Rightarrow> json \<Rightarrow> bool" where
  "is_variant names (JString s) = (s \<in> set names)"
| "is_variant names (JObject [(s, JNull)]) = (s \<in> set names)"
| "is_variant names _ = False"

definition chk_any :: checker where
  "chk_any v = None"

definition chk_opt :: "checker \<Rightarrow> checker" where
  "chk_opt c v = (if v = JNull then None else c v)"

fun first_error :: "checker \<Rightarrow> json list \<Rightarrow> serde_error option" where
  "first_error c [] = None"
| "first_error c (v # vs) = (case c v of Some e \<Rightarrow> Some e | None \<Rightarrow> first_error c vs)"

definition chk_list :: "checker \<Rightarrow> checker" where
  "chk_list c v = (case v of JArray vs \<Rightarrow> first_error c vs | _ \<Rightarrow> Some (Sd_Type v))"

definition chk_map :: "checker \<Rightarrow> checker" where
  "chk_map c v = (case v of JObject m \<Rightarrow> first_error c (map snd m) | _ \<Rightarrow> Some (Sd_Type v))"

fun check_fields :: "struct_spec \<Rightarrow> json imap \<Rightarrow> serde_error option" where
  "check_fields spec [] = None"
| "check_fields spec ((k, v) # m) =
     (case map_of spec k of
        None \<Rightarrow> Some (Sd_Unknown_Field k)
      | Some (_, c) \<Rightarrow> (case c v of Some e \<Rightarrow> Some e | None \<Rightarrow> check_fields spec m))"

definition missing_field :: "struct_spec \<Rightarrow> json imap \<Rightarrow> string option" where
  "missing_field spec m =
     map_option fst (find (\<lambda>(k, required, _). required \<and> \<not> im_contains m k) spec)"

definition decode_struct :: "struct_spec \<Rightarrow> json \<Rightarrow> serde_error + json imap" where
  "decode_struct spec v =
     (case v of
        JObject m \<Rightarrow>
          (case check_fields spec m of
             Some e \<Rightarrow> Inl e
           | None \<Rightarrow> (case missing_field spec m of Some k \<Rightarrow> Inl (Sd_Missing k) | None \<Rightarrow> Inr m))
      | JArray vs \<Rightarrow>
          (let m = zip (map fst spec) vs in
           case check_fields spec m of
             Some e \<Rightarrow> Inl e
           | None \<Rightarrow>
               if length vs > length spec \<or> missing_field spec m \<noteq> None then Inl (Sd_Length (length vs))
               else Inr m)
      | _ \<Rightarrow> Inl (Sd_Type v))"

definition chk_struct :: "struct_spec \<Rightarrow> checker" where
  "chk_struct spec v = (case decode_struct spec v of Inl e \<Rightarrow> Some e | Inr _ \<Rightarrow> None)"

definition parse_config :: "string \<Rightarrow> struct_spec \<Rightarrow> json \<Rightarrow> error + json imap" where
  "parse_config what spec config =
     (case decode_struct spec config of
        Inl e \<Rightarrow> Inl (Err_Config (C_bad_config what e))
      | Inr m \<Rightarrow> Inr m)"

section \<open>Accessors\<close>

definition opt_field :: "(json \<Rightarrow> 'a) \<Rightarrow> json imap \<Rightarrow> string \<Rightarrow> 'a option" where
  "opt_field f m k = (case im_get m k of None \<Rightarrow> None | Some v \<Rightarrow> if v = JNull then None else Some (f v))"

definition req_field :: "(json \<Rightarrow> 'a) \<Rightarrow> json imap \<Rightarrow> string \<Rightarrow> 'a" where
  "req_field f m k = f (case im_get m k of None \<Rightarrow> JNull | Some v \<Rightarrow> v)"

fun str_of :: "json \<Rightarrow> string" where
  "str_of (JString s) = s"
| "str_of _ = []"

fun usize_of :: "json \<Rightarrow> nat" where
  "usize_of (JNumber (PosInt n)) = nat n"
| "usize_of _ = 0"

fun bool_of :: "json \<Rightarrow> bool" where
  "bool_of (JBool b) = b"
| "bool_of _ = False"

fun variant_of :: "json \<Rightarrow> string" where
  "variant_of (JString s) = s"
| "variant_of (JObject [(s, _)]) = s"
| "variant_of _ = []"

fun list_of :: "(json \<Rightarrow> 'a) \<Rightarrow> json \<Rightarrow> 'a list" where
  "list_of f (JArray vs) = map f vs"
| "list_of f _ = []"

text \<open>\<^verbatim>\<open>BTreeMap<String, String>\<close>: sorted by key.\<close>

fun btree_of :: "(json \<Rightarrow> 'a) \<Rightarrow> json \<Rightarrow> (string \<times> 'a) list" where
  "btree_of f (JObject m) = fold (\<lambda>(k, v). bt_insert k (f v)) m []"
| "btree_of f _ = []"

definition struct_of :: "struct_spec \<Rightarrow> json \<Rightarrow> json imap" where
  "struct_of spec v = (case decode_struct spec v of Inl _ \<Rightarrow> [] | Inr m \<Rightarrow> m)"

section \<open>Lemmas\<close>

lemma check_fields_None:
  "check_fields spec m = None \<Longrightarrow> im_get m k = Some v \<Longrightarrow> \<exists>req c. map_of spec k = Some (req, c) \<and> c v = None"
  by (induction m) (auto split: option.splits if_splits)

lemma missing_field_None:
  "missing_field spec m = None \<Longrightarrow> (k, True, c) \<in> set spec \<Longrightarrow> im_contains m k"
  by (auto simp: missing_field_def find_None_iff)

lemma decode_struct_fields:
  assumes "decode_struct spec v = Inr m" "im_get m k = Some x"
  shows "\<exists>req c. map_of spec k = Some (req, c) \<and> c x = None"
  using assms check_fields_None [of spec m k x]
  by (auto simp: decode_struct_def Let_def split: json.splits option.splits if_splits)

lemma decode_struct_required:
  assumes "decode_struct spec v = Inr m" "(k, True, c) \<in> set spec"
  shows "im_contains m k"
  using assms missing_field_None [of spec m k c]
  by (auto simp: decode_struct_def Let_def split: json.splits option.splits if_splits)

lemma btree_of_wf [simp]: "bt_wf (btree_of f v)"
proof -
  have "bt_wf acc \<Longrightarrow> bt_wf (fold (\<lambda>(k, v). bt_insert k (f v)) m acc)" for m :: "json imap" and acc
    by (induction m arbitrary: acc) auto
  then show ?thesis by (cases v) auto
qed

end
