(* ===== verification/Builtins.thy ===== *)
theory Builtins
  imports Config_Decode Flow_Graph
begin

text \<open>
  The built-in steps (\<^verbatim>\<open>sohara-builtins/src/\<close>): filter, map, add_field and assert transforms
  (\<^verbatim>\<open>transforms.rs\<close>), the control-step factories (\<^verbatim>\<open>control.rs\<close>), the inline source and the
  log, noop, collect and queue sinks (\<^verbatim>\<open>inline.rs\<close>, \<^verbatim>\<open>sinks.rs\<close>).  What a step does to the outside
  world goes through the accessors \<open>'w io\<close>: the clock of the expression host, the id and time of
  the n-th record a step makes while it is built (\<open>io_built\<close>), the buffers sinks
  keep (one per step, named after it), files and the event bus.
\<close>

section \<open>Outside world\<close>

record 'w io =
  io_host :: host
  io_tick :: "'w \<Rightarrow> nat"
  io_set_tick :: "nat \<Rightarrow> 'w \<Rightarrow> 'w"
  io_built :: "string \<Rightarrow> nat \<Rightarrow> string \<times> string"
  io_buffer :: "string \<Rightarrow> 'w \<Rightarrow> rec list"
  io_set_buffer :: "string \<Rightarrow> rec list \<Rightarrow> 'w \<Rightarrow> 'w"
  io_read_file :: "string \<Rightarrow> 'w \<Rightarrow> error + string"
  io_write_file :: "bool \<Rightarrow> string \<Rightarrow> string \<Rightarrow> 'w \<Rightarrow> (error + unit) \<times> 'w"
  io_publish :: "nat \<Rightarrow> string \<Rightarrow> json \<Rightarrow> 'w \<Rightarrow> (error + unit) \<times> 'w"

definition io_eval :: "'w io \<Rightarrow> json imap \<Rightarrow> expr \<Rightarrow> json \<Rightarrow> 'w \<Rightarrow> (expr_error + json) \<times> 'w" where
  "io_eval io vars e v w =
     (let (res, t) = eval (io_host io) vars e v (io_tick io w) in (res, io_set_tick io t w))"

definition io_record :: "'w io \<Rightarrow> json \<Rightarrow> 'w \<Rightarrow> rec \<times> 'w" where
  "io_record io v w =
     (let t = io_tick io w in (record_new (h_uuid (io_host io) t) (h_now (io_host io) t) v, io_set_tick io (Suc t) w))"

fun io_records :: "'w io \<Rightarrow> json list \<Rightarrow> 'w \<Rightarrow> rec list \<times> 'w" where
  "io_records io [] w = ([], w)"
| "io_records io (v # vs) w = (let (r, w1) = io_record io v w; (rs, w2) = io_records io vs w1 in (r # rs, w2))"

text \<open>The step a sink is built for names its buffer.\<close>

definition step_name :: "build_context \<Rightarrow> string" where
  "step_name ctx = (case b_step ctx of None \<Rightarrow> [] | Some m \<Rightarrow> sm_id m)"

section \<open>Transforms\<close>

definition filter_spec :: struct_spec where
  "filter_spec = [(''where'', False, chk_opt (chk is_string)), (''invert'', False, chk is_bool)]"

definition filter_step :: "'w io \<Rightarrow> expr option \<Rightarrow> bool \<Rightarrow> json imap \<Rightarrow> 'w transform" where
  "filter_step io e invert vars r w =
     (case e of
        None \<Rightarrow> (Inr (if True \<noteq> invert then Pass r else Filtered), w)
      | Some e \<Rightarrow>
          (case io_eval io vars e (payload r) w of
             (Inl err, w1) \<Rightarrow> (Inl (Err_Expression err), w1)
           | (Inr v, w1) \<Rightarrow> (Inr (if is_truthy v \<noteq> invert then Pass r else Filtered), w1)))"

text \<open>An optional expression is parsed when the step is built.\<close>

definition parse_opt :: "(expr_error \<Rightarrow> config_msg) \<Rightarrow> string option \<Rightarrow> error + expr option" where
  "parse_opt msg src =
     (case src of
        None \<Rightarrow> Inr None
      | Some s \<Rightarrow> (case the (parse s) of Inl e \<Rightarrow> Inl (Err_Config (msg e)) | Inr e \<Rightarrow> Inr (Some e)))"

definition parse_req :: "(expr_error \<Rightarrow> config_msg) \<Rightarrow> string \<Rightarrow> error + expr" where
  "parse_req msg s = (case the (parse s) of Inl e \<Rightarrow> Inl (Err_Config (msg e)) | Inr e \<Rightarrow> Inr e)"

definition build_filter :: "'w io \<Rightarrow> 'w factory" where
  "build_filter io config ctx =
     rbind (parse_config ''filter config'' filter_spec config) (\<lambda>cfg.
     rbind (parse_opt C_filter_where (opt_field str_of cfg ''where'')) (\<lambda>e.
     Inr (BTransform (filter_step io e (req_field bool_of cfg ''invert'') (b_vars ctx)))))"

definition map_spec :: struct_spec where
  "map_spec = [(''expr'', False, chk_opt (chk_map (chk is_string))), (''project'', False, chk_opt (chk_list (chk is_string)))]"

fun map_exprs :: "'w io \<Rightarrow> json imap \<Rightarrow> (string \<times> expr) list \<Rightarrow> rec \<Rightarrow> 'w \<Rightarrow> (error + rec) \<times> 'w" where
  "map_exprs io vars [] r w = (Inr r, w)"
| "map_exprs io vars ((field, e) # es) r w =
     (case io_eval io vars e (payload r) w of
        (Inl err, w1) \<Rightarrow> (Inl (Err_Expression err), w1)
      | (Inr v, w1) \<Rightarrow> map_exprs io vars es (record_set r field v) w1)"

definition project_fields :: "string list \<Rightarrow> rec \<Rightarrow> json imap" where
  "project_fields names r =
     fold (\<lambda>f m. case record_get r f of None \<Rightarrow> m | Some v \<Rightarrow> im_insert f v m) names []"

definition map_step :: "'w io \<Rightarrow> (string \<times> expr) list \<Rightarrow> string list option \<Rightarrow> json imap \<Rightarrow> 'w transform" where
  "map_step io exprs project vars r w =
     (case map_exprs io vars exprs r w of
        (Inl e, w1) \<Rightarrow> (Inl e, w1)
      | (Inr r1, w1) \<Rightarrow>
          (Inr (Pass (case project of
             None \<Rightarrow> r1
           | Some names \<Rightarrow> r1\<lparr>payload := JObject (project_fields names r1)\<rparr>)), w1))"

definition parse_named ::
    "(string \<Rightarrow> expr_error \<Rightarrow> config_msg) \<Rightarrow> (string \<times> string) list \<Rightarrow> error + (string \<times> expr) list" where
  "parse_named msg sources =
     collect_res (map (\<lambda>(field, s). rbind (parse_req (msg field) s) (\<lambda>e. Inr (field, e))) sources)"

definition build_map :: "'w io \<Rightarrow> 'w factory" where
  "build_map io config ctx =
     rbind (parse_config ''map config'' map_spec config) (\<lambda>cfg.
     rbind (parse_named C_map_expr (case opt_field (btree_of str_of) cfg ''expr'' of None \<Rightarrow> [] | Some es \<Rightarrow> es)) (\<lambda>exprs.
     Inr (BTransform (map_step io exprs (opt_field (list_of str_of) cfg ''project'') (b_vars ctx)))))"

definition add_field_spec :: struct_spec where
  "add_field_spec = [(''field'', True, chk is_string), (''value'', True, chk_any)]"

definition build_add_field :: "'w factory" where
  "build_add_field config ctx =
     rbind (parse_config ''add_field config'' add_field_spec config) (\<lambda>cfg.
     Inr (BTransform (add_field_transform (req_field str_of cfg ''field'') (req_field id cfg ''value''))))"

definition assert_ops :: "string list" where
  "assert_ops = [''eq'', ''neq'', ''gt'', ''gte'', ''lt'', ''lte'', ''in'', ''contains'', ''is_null'', ''not_null'', ''exists'']"

definition assert_item_spec :: struct_spec where
  "assert_item_spec = [(''field'', True, chk is_string), (''op'', True, chk (is_variant assert_ops)),
     (''value'', False, chk_any), (''message'', False, chk_opt (chk is_string))]"

definition assert_spec :: struct_spec where
  "assert_spec = [(''expect'', True, chk_list (chk_struct assert_item_spec)),
     (''on_fail'', False, chk_opt (chk (is_variant [''error'', ''filter''])))]"

definition assert_number :: "(f64 \<Rightarrow> check) \<Rightarrow> string \<Rightarrow> json \<Rightarrow> error + check" where
  "assert_number c field v =
     (case as_f64 v of None \<Rightarrow> Inl (Err_Config (C_assert_number field v)) | Some n \<Rightarrow> Inr (c n))"

definition to_check :: "string \<Rightarrow> string \<Rightarrow> json option \<Rightarrow> error + check" where
  "to_check field op raw =
     (if op \<notin> {''is_null'', ''not_null'', ''exists''} \<and> raw = None then Inl (Err_Config (C_assert_needs_value field op))
      else
        (let v = (case raw of None \<Rightarrow> JNull | Some v \<Rightarrow> v) in
         if op = ''eq'' then Inr (ChkEq v)
         else if op = ''neq'' then Inr (ChkNeq v)
         else if op = ''gt'' then assert_number ChkGt field v
         else if op = ''gte'' then assert_number ChkGte field v
         else if op = ''lt'' then assert_number ChkLt field v
         else if op = ''lte'' then assert_number ChkLte field v
         else if op = ''in'' then
           (case v of JArray items \<Rightarrow> Inr (ChkIn items) | other \<Rightarrow> Inl (Err_Config (C_assert_array field op other)))
         else if op = ''contains'' then Inr (ChkContains v)
         else if op = ''is_null'' then Inr ChkNull
         else if op = ''not_null'' then Inr ChkNotNull
         else Inr ChkExists))"

definition to_assertion :: "json imap \<Rightarrow> error + assertion" where
  "to_assertion item =
     rbind (to_check (req_field str_of item ''field'') (req_field variant_of item ''op'') (opt_field id item ''value''))
       (\<lambda>c. Inr \<lparr>a_field = req_field str_of item ''field'', a_check = c, a_message = opt_field str_of item ''message''\<rparr>)"

definition build_assert :: "'w factory" where
  "build_assert config ctx =
     rbind (parse_config ''assert config'' assert_spec config) (\<lambda>cfg.
     rbind (collect_res (map to_assertion (req_field (list_of (struct_of assert_item_spec)) cfg ''expect''))) (\<lambda>as.
     Inr (BTransform (assert_transform as
       (if opt_field variant_of cfg ''on_fail'' = Some ''filter'' then AFilter else AFail)))))"

section \<open>Control steps\<close>

definition default_max_iterations :: nat where
  "default_max_iterations = 10000"

definition case_spec :: struct_spec where
  "case_spec = [(''when'', True, chk is_string), (''to'', True, chk is_string)]"

definition switch_spec :: struct_spec where
  "switch_spec = [(''cases'', True, chk_list (chk_struct case_spec)), (''default'', False, chk_opt (chk is_string))]"

definition switch_case_of :: "json imap \<Rightarrow> error + switch_case" where
  "switch_case_of c =
     (let src = req_field str_of c ''when'' in
      rbind (parse_req (C_switch_case src) src) (\<lambda>e. Inr \<lparr>case_when = e, case_to = req_field str_of c ''to''\<rparr>))"

definition build_switch :: "'w factory" where
  "build_switch config ctx =
     rbind (parse_config ''switch'' switch_spec config) (\<lambda>cfg.
     let raw = req_field (list_of (struct_of case_spec)) cfg ''cases'' in
     if raw = [] then Inl (Err_Config C_switch_empty)
     else rbind (collect_res (map switch_case_of raw)) (\<lambda>cases.
       case opt_field str_of cfg ''default'' of
         None \<Rightarrow> Inl (Err_Config C_switch_default)
       | Some d \<Rightarrow> Inr (BControl (Switch cases d))))"

definition foreach_spec :: struct_spec where
  "foreach_spec = [(''over'', True, chk is_string), (''as'', False, chk_opt (chk is_string)),
     (''max_iterations'', False, chk_opt (chk is_usize))]"

definition build_foreach :: "'w factory" where
  "build_foreach config ctx =
     rbind (parse_config ''foreach'' foreach_spec config) (\<lambda>cfg.
     rbind (parse_req C_foreach_over (req_field str_of cfg ''over'')) (\<lambda>over.
     Inr (BControl (Foreach over (opt_field str_of cfg ''as'')
       (case opt_field usize_of cfg ''max_iterations'' of None \<Rightarrow> default_max_iterations | Some n \<Rightarrow> n)))))"

definition loop_spec :: struct_spec where
  "loop_spec = [(''while'', True, chk is_string), (''max_iterations'', True, chk is_usize),
     (''step'', False, chk_opt (chk is_string))]"

definition build_loop :: "'w factory" where
  "build_loop config ctx =
     rbind (parse_config ''loop'' loop_spec config) (\<lambda>cfg.
     rbind (parse_req C_loop_while (req_field str_of cfg ''while'')) (\<lambda>e.
     Inr (BControl (Loop e (req_field usize_of cfg ''max_iterations'') (opt_field str_of cfg ''step'')))))"

definition parallel_spec :: struct_spec where
  "parallel_spec = [(''branches'', True, chk_list (chk is_string)), (''concurrency'', False, chk_opt (chk is_usize))]"

definition build_parallel :: "'w factory" where
  "build_parallel config ctx =
     rbind (parse_config ''parallel'' parallel_spec config) (\<lambda>cfg.
     let branches = req_field (list_of str_of) cfg ''branches'' in
     if branches = [] then Inl (Err_Config C_parallel_empty) else Inr (BControl (Parallel branches)))"

definition join_spec :: struct_spec where
  "join_spec = [(''mode'', False, chk_opt (chk (is_variant [''all'', ''any'', ''n'']))), (''n'', False, chk_opt (chk is_usize))]"

definition join_mode_of :: "string option \<Rightarrow> join_mode" where
  "join_mode_of m = (if m = Some ''any'' then JAny else if m = Some ''n'' then JN else JAll)"

definition build_join :: "'w factory" where
  "build_join config ctx =
     rbind (parse_config ''join'' join_spec config) (\<lambda>cfg.
     let mode = join_mode_of (opt_field variant_of cfg ''mode'');
         n = (case opt_field usize_of cfg ''n'' of None \<Rightarrow> 0 | Some n \<Rightarrow> n) in
     if mode = JN \<and> n = 0 then Inl (Err_Config C_join_n) else Inr (BControl (Join mode n)))"

definition delay_spec :: struct_spec where
  "delay_spec = [(''duration'', True, chk is_string)]"

definition build_delay :: "'w factory" where
  "build_delay config ctx =
     rbind (parse_config ''delay'' delay_spec config) (\<lambda>cfg.
     case parse_duration (req_field str_of cfg ''duration'') of
       Inl e \<Rightarrow> Inl (Err_Config (C_delay e))
     | Inr d \<Rightarrow> Inr (BControl (Delay d)))"

definition batch_spec :: struct_spec where
  "batch_spec = [(''size'', False, chk_opt (chk is_usize)), (''within'', False, chk_opt (chk is_string)),
     (''group_by'', False, chk_opt (chk_list (chk is_string)))]"

definition build_batch :: "'w factory" where
  "build_batch config ctx =
     rbind (parse_config ''batch'' batch_spec config) (\<lambda>cfg.
     let bsize = opt_field usize_of cfg ''size''; window = opt_field str_of cfg ''within'' in
     if opt_field (list_of str_of) cfg ''group_by'' \<noteq> None then Inl (Err_Config C_batch_group_by)
     else if bsize = None \<and> window = None then Inl (Err_Config C_batch_size)
     else
       (case window of
          None \<Rightarrow> Inr (BControl (Batch bsize None))
        | Some s \<Rightarrow>
            (case parse_duration s of
               Inl e \<Rightarrow> Inl (Err_Config (C_batch_within e))
             | Inr d \<Rightarrow> Inr (BControl (Batch bsize (Some d))))))"

definition state_spec :: struct_spec where
  "state_spec = [(''expr'', True, chk_map (chk is_string))]"

definition build_state :: "'w factory" where
  "build_state config ctx =
     rbind (parse_config ''state step'' state_spec config) (\<lambda>cfg.
     let sources = req_field (btree_of str_of) cfg ''expr'' in
     if sources = [] then Inl (Err_Config C_state_empty)
     else rbind (parse_named C_state_expr sources) (\<lambda>exprs. Inr (BControl (State exprs))))"

definition approve_spec :: struct_spec where
  "approve_spec = [(''title'', False, chk_opt (chk is_string)), (''owners'', False, chk_opt (chk_list (chk is_string)))]"

definition build_approve :: "'w factory" where
  "build_approve config ctx =
     rbind (parse_config ''approve'' approve_spec config) (\<lambda>cfg.
     Inr (BControl (Approve (case opt_field str_of cfg ''title'' of None \<Rightarrow> ''approval'' | Some s \<Rightarrow> s))))"

section \<open>Inline source and sinks\<close>

definition inline_spec :: struct_spec where
  "inline_spec = [(''records'', True, chk_list chk_any)]"

text \<open>The records are made once, when the step is built: every stream has the same ids.\<close>

definition built_records :: "'w io \<Rightarrow> string \<Rightarrow> json list \<Rightarrow> rec list" where
  "built_records io i vs =
     map (\<lambda>(k, v). let (uid, now) = io_built io i k in record_new uid now v) (enumerate 0 vs)"

definition build_inline :: "'w io \<Rightarrow> 'w factory" where
  "build_inline io config ctx =
     rbind (parse_config ''inline source'' inline_spec config) (\<lambda>cfg.
     Inr (BSource (vec_source (built_records io (step_name ctx) (req_field (list_of id) cfg ''records'')))))"

definition log_spec :: struct_spec where
  "log_spec = [(''level'', False, chk_opt (chk is_string))]"

definition build_log :: "'w factory" where
  "build_log config ctx =
     rbind (parse_config ''log sink'' log_spec config) (\<lambda>cfg.
     case opt_field str_of cfg ''level'' of
       None \<Rightarrow> Inr (BSink log_sink)
     | Some l \<Rightarrow>
         if l \<in> {''debug'', ''info'', ''warn'', ''error''} then Inr (BSink log_sink)
         else Inl (Err_Config (C_log_level l)))"

definition noop_sink :: "'w sink" where
  "noop_sink = \<lparr>k_send = (\<lambda>r w. (Inr (), w)), k_flush = (\<lambda>w. (Inr (), w))\<rparr>"

definition build_noop :: "'w factory" where
  "build_noop config ctx = rbind (parse_config ''noop sink'' [] config) (\<lambda>_. Inr (BSink noop_sink))"

definition collect_sink :: "'w io \<Rightarrow> string \<Rightarrow> 'w sink" where
  "collect_sink io i =
     \<lparr>k_send = (\<lambda>r w. (Inr (), io_set_buffer io i (io_buffer io i w @ [r]) w)), k_flush = (\<lambda>w. (Inr (), w))\<rparr>"

definition build_collect :: "'w io \<Rightarrow> 'w factory" where
  "build_collect io config ctx =
     rbind (parse_config ''collect sink'' [] config) (\<lambda>_. Inr (BSink (collect_sink io (step_name ctx))))"

definition queue_spec :: struct_spec where
  "queue_spec = [(''topic'', True, chk is_string)]"

definition queue_sink :: "'w io \<Rightarrow> nat \<Rightarrow> string \<Rightarrow> 'w sink" where
  "queue_sink io bus topic =
     \<lparr>k_send = (\<lambda>r w. io_publish io bus topic (to_json r) w), k_flush = (\<lambda>w. (Inr (), w))\<rparr>"

definition build_queue :: "'w io \<Rightarrow> 'w factory" where
  "build_queue io config ctx =
     rbind (parse_config ''queue sink'' queue_spec config) (\<lambda>cfg.
     case b_bus ctx of
       None \<Rightarrow> Inl (Err_Config C_queue_no_bus)
     | Some bus \<Rightarrow> Inr (BSink (queue_sink io bus (req_field str_of cfg ''topic''))))"

text \<open>\<^verbatim>\<open>FanoutSink\<close>: every sink receives the record, the first error is returned.\<close>

fun fanout_send :: "'w sink list \<Rightarrow> rec \<Rightarrow> 'w \<Rightarrow> (error + unit) \<times> 'w" where
  "fanout_send [] r w = (Inr (), w)"
| "fanout_send (k # ks) r w =
     (let (res, w1) = k_send k r w; (rest, w2) = fanout_send ks r w1
      in (case res of Inl e \<Rightarrow> Inl e | Inr _ \<Rightarrow> rest, w2))"

fun fanout_flush :: "'w sink list \<Rightarrow> 'w \<Rightarrow> (error + unit) \<times> 'w" where
  "fanout_flush [] w = (Inr (), w)"
| "fanout_flush (k # ks) w =
     (case k_flush k w of (Inl e, w1) \<Rightarrow> (Inl e, w1) | (Inr _, w1) \<Rightarrow> fanout_flush ks w1)"

definition fanout_sink :: "'w sink list \<Rightarrow> 'w sink" where
  "fanout_sink ks = \<lparr>k_send = fanout_send ks, k_flush = fanout_flush ks\<rparr>"

end
