(* ===== verification/File_Steps.thy ===== *)
theory File_Steps
  imports Builtins
begin

text \<open>
  The file source and sink (\<^verbatim>\<open>sohara-builtins/src/file.rs\<close>) and the table of all built-in steps
  (\<^verbatim>\<open>lib.rs\<close>).  The JSON printer and reader and the \<^verbatim>\<open>csv\<close> crate are the parameter \<open>codec\<close>: the
  header row of a text, the records its reader yields (given the headers set by hand, if any),
  whether its writer takes one more row after those written, and the text it has written.
\<close>

section \<open>Formats\<close>

datatype format = Csv | Json | Jsonl

record codec =
  cd_json_read :: "string \<Rightarrow> json option"
  cd_json_print :: "json \<Rightarrow> string"
  cd_csv_headers :: "char \<Rightarrow> string \<Rightarrow> string + string list"
  cd_csv_records :: "char \<Rightarrow> string list option \<Rightarrow> string \<Rightarrow> (string + string list) list"
  cd_csv_refuses :: "string list list \<Rightarrow> string list \<Rightarrow> string option"
  cd_csv_text :: "string list list \<Rightarrow> string + string"

definition format_names :: "string list" where
  "format_names = [''csv'', ''json'', ''jsonl'']"

definition format_of :: "json \<Rightarrow> format" where
  "format_of v = (if variant_of v = ''csv'' then Csv else if variant_of v = ''json'' then Json else Jsonl)"

definition newline :: char where
  "newline = CHR 0x0A"

definition strip_cr :: "string \<Rightarrow> string" where
  "strip_cr s = (if s \<noteq> [] \<and> last s = CHR 0x0D then butlast s else s)"

definition text_lines :: "string \<Rightarrow> string list" where
  "text_lines text =
     (let ps = split_on newline text
      in map strip_cr (butlast ps) @ (if last ps = [] then [] else [last ps]))"

section \<open>Source\<close>

record file_source_config =
  fc_path :: string
  fc_format :: format
  fc_columns :: "string list option"
  fc_delimiter :: char
  fc_header :: bool

definition file_source_spec :: struct_spec where
  "file_source_spec = [(''path'', True, chk is_string), (''format'', True, chk (is_variant format_names)),
     (''columns'', False, chk_opt (chk_list (chk is_string))), (''delimiter'', False, chk_opt (chk is_string)),
     (''header'', False, chk_opt (chk is_bool))]"

text \<open>A delimiter is one byte: one ASCII character.\<close>

definition parse_delimiter :: "string \<Rightarrow> error + char" where
  "parse_delimiter text =
     (case text of [c] \<Rightarrow> if of_char c < (128 :: nat) then Inr c else Inl (Err_Config (C_delimiter text))
      | _ \<Rightarrow> Inl (Err_Config (C_delimiter text)))"

definition record_from_row :: "string list \<Rightarrow> string list \<Rightarrow> json" where
  "record_from_row row headers =
     JObject (fold (\<lambda>(i, h) m. im_insert h (JString (if i < length row then row ! i else [])) m)
       (enumerate 0 headers) [])"

definition csv_row :: "string list \<Rightarrow> string + string list \<Rightarrow> error + json" where
  "csv_row headers row =
     (case row of Inl e \<Rightarrow> Inl (Err_Config (C_text e)) | Inr cells \<Rightarrow> Inr (record_from_row cells headers))"

definition resolve_headers :: "codec \<Rightarrow> file_source_config \<Rightarrow> string \<Rightarrow> error + string list" where
  "resolve_headers cd cfg text =
     (if fc_header cfg then
        (case cd_csv_headers cd (fc_delimiter cfg) text of Inl e \<Rightarrow> Inl (Err_Config (C_text e)) | Inr hs \<Rightarrow> Inr hs)
      else
        (case fc_columns cfg of None \<Rightarrow> Inl (Err_Config C_csv_columns) | Some hs \<Rightarrow> Inr hs))"

definition parse_csv :: "codec \<Rightarrow> file_source_config \<Rightarrow> string \<Rightarrow> error + json list" where
  "parse_csv cd cfg text =
     rbind (resolve_headers cd cfg text) (\<lambda>headers.
       collect_res (map (csv_row headers)
         (cd_csv_records cd (fc_delimiter cfg) (if fc_header cfg then None else Some headers) text)))"

definition parse_jsonl :: "codec \<Rightarrow> string \<Rightarrow> error + json list" where
  "parse_jsonl cd text =
     collect_res (map (\<lambda>line. case cd_json_read cd line of
         None \<Rightarrow> Inl (Err_Config (C_text line))
       | Some v \<Rightarrow> Inr v) (filter (\<lambda>line. trim line \<noteq> []) (text_lines text)))"

definition parse_json :: "codec \<Rightarrow> string \<Rightarrow> error + json list" where
  "parse_json cd text =
     (case cd_json_read cd text of
        None \<Rightarrow> Inl (Err_Config (C_text text))
      | Some (JArray items) \<Rightarrow> Inr items
      | Some other \<Rightarrow> Inr [other])"

definition parse_file :: "codec \<Rightarrow> file_source_config \<Rightarrow> string \<Rightarrow> error + json list" where
  "parse_file cd cfg text =
     (case fc_format cfg of
        Csv \<Rightarrow> parse_csv cd cfg text
      | Jsonl \<Rightarrow> parse_jsonl cd text
      | Json \<Rightarrow> parse_json cd text)"

definition file_source_stream :: "codec \<Rightarrow> 'w io \<Rightarrow> file_source_config \<Rightarrow> 'w source" where
  "file_source_stream cd io cfg w =
     (case rbind (io_read_file io (fc_path cfg) w) (parse_file cd cfg) of
        Inl e \<Rightarrow> (Inl e, w)
      | Inr vs \<Rightarrow> (let (rs, w1) = io_records io vs w in vec_source rs w1))"

definition build_file_source :: "codec \<Rightarrow> 'w io \<Rightarrow> 'w factory" where
  "build_file_source cd io config ctx =
     rbind (parse_config ''file source'' file_source_spec config) (\<lambda>cfg.
     rbind (case opt_field str_of cfg ''delimiter'' of None \<Rightarrow> Inr (CHR '','') | Some s \<Rightarrow> parse_delimiter s) (\<lambda>d.
     Inr (BSource (file_source_stream cd io
       \<lparr>fc_path = req_field str_of cfg ''path'', fc_format = req_field format_of cfg ''format'',
        fc_columns = opt_field (list_of str_of) cfg ''columns'', fc_delimiter = d,
        fc_header = (case opt_field bool_of cfg ''header'' of None \<Rightarrow> True | Some b \<Rightarrow> b)\<rparr>))))"

section \<open>Sink\<close>

definition file_sink_spec :: struct_spec where
  "file_sink_spec = [(''path'', True, chk is_string), (''format'', True, chk (is_variant format_names)),
     (''append'', False, chk is_bool)]"

fun csv_text :: "codec \<Rightarrow> json \<Rightarrow> string" where
  "csv_text cd (JString s) = s"
| "csv_text cd JNull = []"
| "csv_text cd v = cd_json_print cd v"

text \<open>The header line has the keys of the first record; each record's values follow in its own order.\<close>

definition csv_put :: "codec \<Rightarrow> string list list \<Rightarrow> string list \<Rightarrow> error + string list list" where
  "csv_put cd rows row =
     (case cd_csv_refuses cd rows row of Some e \<Rightarrow> Inl (Err_Config (C_text e)) | None \<Rightarrow> Inr (rows @ [row]))"

fun csv_rows :: "codec \<Rightarrow> bool \<Rightarrow> string list list \<Rightarrow> json list \<Rightarrow> error + string list list" where
  "csv_rows cd wrote_header rows [] = Inr rows"
| "csv_rows cd wrote_header rows (JObject m # vs) =
     rbind (if wrote_header then Inr rows else csv_put cd rows (im_keys m)) (\<lambda>rows.
     rbind (csv_put cd rows (map (\<lambda>(_, v). csv_text cd v) m)) (\<lambda>rows.
     csv_rows cd True rows vs))"
| "csv_rows cd wrote_header rows (_ # vs) = Inl (Err_Config C_csv_objects)"

definition render_csv :: "codec \<Rightarrow> rec list \<Rightarrow> error + string" where
  "render_csv cd rs =
     rbind (csv_rows cd False [] (map payload rs)) (\<lambda>rows.
       case cd_csv_text cd rows of Inl e \<Rightarrow> Inl (Err_Config (C_text e)) | Inr text \<Rightarrow> Inr text)"

fun join_lines :: "string list \<Rightarrow> string" where
  "join_lines [] = []"
| "join_lines [l] = l"
| "join_lines (l # ls) = l @ newline # join_lines ls"

definition render :: "codec \<Rightarrow> format \<Rightarrow> rec list \<Rightarrow> error + string" where
  "render cd fmt rs =
     (case fmt of
        Jsonl \<Rightarrow> Inr (join_lines (map (cd_json_print cd \<circ> to_json) rs) @ [newline])
      | Json \<Rightarrow> Inr (cd_json_print cd (JArray (map to_json rs)))
      | Csv \<Rightarrow> render_csv cd rs)"

definition file_flush :: "codec \<Rightarrow> 'w io \<Rightarrow> string \<Rightarrow> string \<Rightarrow> format \<Rightarrow> bool \<Rightarrow> 'w \<Rightarrow> (error + unit) \<times> 'w" where
  "file_flush cd io i path fmt app w =
     (let rs = io_buffer io i w; w1 = io_set_buffer io i [] w in
      if rs = [] then (Inr (), w1)
      else
        (case render cd fmt rs of
           Inl e \<Rightarrow> (Inl e, w1)
         | Inr text \<Rightarrow> io_write_file io app path text w1))"

definition file_sink :: "codec \<Rightarrow> 'w io \<Rightarrow> string \<Rightarrow> string \<Rightarrow> format \<Rightarrow> bool \<Rightarrow> 'w sink" where
  "file_sink cd io i path fmt app =
     \<lparr>k_send = k_send (collect_sink io i), k_flush = file_flush cd io i path fmt app\<rparr>"

definition build_file_sink :: "codec \<Rightarrow> 'w io \<Rightarrow> 'w factory" where
  "build_file_sink cd io config ctx =
     rbind (parse_config ''file sink'' file_sink_spec config) (\<lambda>cfg.
     let fmt = req_field format_of cfg ''format''; app = req_field bool_of cfg ''append'' in
     if app \<and> fmt = Json then Inl (Err_Config C_append_json)
     else Inr (BSink (file_sink cd io (step_name ctx) (req_field str_of cfg ''path'') fmt app)))"

section \<open>All built-in steps\<close>

definition register_data_steps :: "codec \<Rightarrow> 'w io \<Rightarrow> 'w registry \<Rightarrow> 'w registry" where
  "register_data_steps cd io reg =
     fold (\<lambda>(kind, ty, f). register kind ty f)
       [(KSource, ''file'', build_file_source cd io), (KSource, ''inline'', build_inline io),
        (KTransform, ''filter'', build_filter io), (KTransform, ''map'', build_map io),
        (KTransform, ''add_field'', build_add_field), (KTransform, ''assert'', build_assert),
        (KSink, ''file'', build_file_sink cd io), (KSink, ''log'', build_log), (KSink, ''noop'', build_noop),
        (KSink, ''collect'', build_collect io), (KSink, ''queue'', build_queue io)] reg"

definition register_control_steps :: "'w registry \<Rightarrow> 'w registry" where
  "register_control_steps reg =
     fold (\<lambda>(kind, ty, f). register kind ty f)
       [(KControl, ''switch'', build_switch), (KControl, ''foreach'', build_foreach), (KControl, ''loop'', build_loop),
        (KControl, ''parallel'', build_parallel), (KControl, ''join'', build_join), (KControl, ''delay'', build_delay),
        (KTransform, ''batch'', build_batch), (KTransform, ''state'', build_state),
        (KControl, ''approve'', build_approve)] reg"

definition register_all :: "codec \<Rightarrow> 'w io \<Rightarrow> 'w registry \<Rightarrow> 'w registry" where
  "register_all cd io reg = register_control_steps (register_data_steps cd io reg)"

section \<open>A disk\<close>

text \<open>
  One outside world, for the witnesses: files and buffers as maps, only the empty path cannot
  be written; and a codec that writes CSV cells without quoting and refuses uneven rows.
\<close>

record disk =
  dk_tick :: nat
  dk_files :: "string \<rightharpoonup> string"
  dk_buffers :: "string \<Rightarrow> rec list"

definition disk_io :: "disk io" where
  "disk_io =
     \<lparr>io_host = idle_host, io_tick = dk_tick, io_set_tick = (\<lambda>t w. w\<lparr>dk_tick := t\<rparr>),
      io_built = (\<lambda>i k. (i @ replicate k (CHR ''x''), ''now'')),
      io_buffer = (\<lambda>i w. dk_buffers w i),
      io_set_buffer = (\<lambda>i rs w. w\<lparr>dk_buffers := (dk_buffers w)(i := rs)\<rparr>),
      io_read_file = (\<lambda>p w. case dk_files w p of None \<Rightarrow> Inl (Err_Io ''not found'') | Some s \<Rightarrow> Inr s),
      io_write_file = (\<lambda>app p text w.
        if p = [] then (Inl (Err_Io ''is a directory''), w)
        else (Inr (), w\<lparr>dk_files := (dk_files w)(p \<mapsto>
          (if app then (case dk_files w p of None \<Rightarrow> text | Some s \<Rightarrow> s @ text) else text))\<rparr>)),
      io_publish = (\<lambda>bus topic v w. (Inr (), w))\<rparr>"

definition blank_disk :: disk where
  "blank_disk = \<lparr>dk_tick = 0, dk_files = Map.empty, dk_buffers = (\<lambda>_. [])\<rparr>"

definition bare_codec :: codec where
  "bare_codec =
     \<lparr>cd_json_read = (\<lambda>s. Some (JString s)), cd_json_print = (\<lambda>v. case v of JString s \<Rightarrow> s | _ \<Rightarrow> ''?''),
      cd_csv_headers = (\<lambda>d s. Inr (split_on d (hd (split_on newline s)))),
      cd_csv_records = (\<lambda>d hs s. map (\<lambda>l. Inr (split_on d l))
        (if hs = None then tl (split_on newline s) else split_on newline s)),
      cd_csv_refuses = (\<lambda>rows row.
        if rows \<noteq> [] \<and> length row \<noteq> length (hd rows) then Some ''unequal lengths'' else None),
      cd_csv_text = (\<lambda>rows. Inr (concat (map (\<lambda>row. concat (map (\<lambda>c. c @ '','') row) @ [newline]) rows)))\<rparr>"

section \<open>Well-formed steps\<close>

text \<open>What the executor may rely on in a control step.\<close>

fun control_ok :: "control_node \<Rightarrow> bool" where
  "control_ok (Switch cases d) = (cases \<noteq> [])"
| "control_ok (Parallel branches) = (branches \<noteq> [])"
| "control_ok (Join mode n) = (mode = JN \<longrightarrow> 0 < n)"
| "control_ok (Delay d) = (0 \<le> d \<and> d \<le> u64_max)"
| "control_ok (Batch bsize window) =
     ((bsize \<noteq> None \<or> window \<noteq> None) \<and> (case window of None \<Rightarrow> True | Some d \<Rightarrow> 0 \<le> d \<and> d \<le> u64_max))"
| "control_ok (State exprs) = (exprs \<noteq> [] \<and> bt_wf exprs)"
| "control_ok _ = True"

fun well_kinded :: "step_kind \<Rightarrow> string \<Rightarrow> 'w built_step \<Rightarrow> bool" where
  "well_kinded k ty (BSource _) = (k = KSource)"
| "well_kinded k ty (BTransform _) = (k = KTransform)"
| "well_kinded k ty (BSink _) = (k = KSink)"
| "well_kinded k ty (BControl c) = ((k = KControl \<or> k = KTransform \<and> ty \<in> {''batch'', ''state''}) \<and> control_ok c)"

lemma collect_res_nonempty: "collect_res xs = Inr ys \<Longrightarrow> ys = [] \<longleftrightarrow> xs = []"
  by (auto simp: collect_res_Inr_iff)

lemma parse_named_keys: "parse_named msg srcs = Inr es \<Longrightarrow> map fst es = map fst srcs"
proof (induction srcs arbitrary: es)
  case (Cons s srcs)
  from Cons.prems obtain e es' where "es = (fst s, e) # es'" "parse_named msg srcs = Inr es'"
    by (auto simp: parse_named_def collect_res_Inr_iff rbind_Inr_iff split_beta Cons_eq_map_conv)
  with Cons.IH show ?case by simp
qed (simp add: parse_named_def)

lemma bt_wf_keys: "map fst xs = map fst ys \<Longrightarrow> bt_wf xs = bt_wf ys"
  by (simp add: bt_wf_def)

lemma build_control_kinds:
  "build_switch config ctx = Inr b \<Longrightarrow> well_kinded KControl ty b"
  "build_foreach config ctx = Inr b \<Longrightarrow> well_kinded KControl ty b"
  "build_loop config ctx = Inr b \<Longrightarrow> well_kinded KControl ty b"
  "build_parallel config ctx = Inr b \<Longrightarrow> well_kinded KControl ty b"
  "build_join config ctx = Inr b \<Longrightarrow> well_kinded KControl ty b"
  "build_approve config ctx = Inr b \<Longrightarrow> well_kinded KControl ty b"
  by (auto simp: build_switch_def build_foreach_def build_loop_def build_parallel_def build_join_def
      build_approve_def rbind_Inr_iff Let_def
      split: if_splits option.splits dest!: collect_res_nonempty)

lemma case_dur_Inr_iff:
  "(case s of Inl e \<Rightarrow> Inl (h e) | Inr d \<Rightarrow> Inr (g d)) = Inr b \<longleftrightarrow> (\<exists>d. s = Inr d \<and> b = g d)"
  by (cases s) auto

lemma build_timed_kinds:
  "build_delay config ctx = Inr b \<Longrightarrow> well_kinded KControl ty b"
  "build_batch config ctx = Inr b \<Longrightarrow> well_kinded KTransform ''batch'' b"
  by (auto simp: build_delay_def build_batch_def rbind_Inr_iff Let_def case_dur_Inr_iff
      dest!: parse_duration_range split: if_splits option.splits)

lemma step_kindI:
  "BSource s = b \<Longrightarrow> well_kinded KSource ty b"
  "BTransform f = b \<Longrightarrow> well_kinded KTransform ty b"
  "BSink k = b \<Longrightarrow> well_kinded KSink ty b"
  by auto

lemma build_data_kinds:
  "build_file_source cd io config ctx = Inr b \<Longrightarrow> well_kinded KSource ty b"
  "build_inline io config ctx = Inr b \<Longrightarrow> well_kinded KSource ty b"
  "build_filter io config ctx = Inr b \<Longrightarrow> well_kinded KTransform ty b"
  "build_map io config ctx = Inr b \<Longrightarrow> well_kinded KTransform ty b"
  "build_add_field config ctx = Inr b \<Longrightarrow> well_kinded KTransform ty b"
  "build_assert config ctx = Inr b \<Longrightarrow> well_kinded KTransform ty b"
  unfolding build_file_source_def build_inline_def build_filter_def build_map_def build_add_field_def build_assert_def
    rbind_Inr_iff sum.inject
  by (elim exE conjE, erule step_kindI)+

lemma checked_opt_Inr:
  "(case v of None \<Rightarrow> Inr x | Some l \<Rightarrow> if P l then Inr x else Inl (e l)) = Inr b \<Longrightarrow> x = b"
  by (cases v) (auto split: if_split_asm)

lemma build_log_kind: "build_log config ctx = Inr b \<Longrightarrow> well_kinded KSink ty b"
  unfolding build_log_def rbind_Inr_iff by (elim exE conjE, drule checked_opt_Inr, erule step_kindI)

lemma build_sink_kinds:
  "build_noop config ctx = Inr b \<Longrightarrow> well_kinded KSink ty b"
  "build_collect io config ctx = Inr b \<Longrightarrow> well_kinded KSink ty b"
  unfolding build_noop_def build_collect_def rbind_Inr_iff sum.inject by (elim exE conjE, erule step_kindI)+

lemma build_queue_kind: "build_queue io config ctx = Inr b \<Longrightarrow> well_kinded KSink ty b"
  by (cases "b_bus ctx") (auto simp: build_queue_def rbind_Inr_iff)

lemma build_file_sink_kind: "build_file_sink cd io config ctx = Inr b \<Longrightarrow> well_kinded KSink ty b"
  unfolding build_file_sink_def rbind_Inr_iff Let_def
  by (elim exE conjE) (auto split: if_split_asm)

lemma build_state_kind: "build_state config ctx = Inr b \<Longrightarrow> well_kinded KTransform ''state'' b"
proof -
  assume "build_state config ctx = Inr b"
  then obtain cfg exprs where e: "req_field (btree_of str_of) cfg ''expr'' \<noteq> []"
    "parse_named C_state_expr (req_field (btree_of str_of) cfg ''expr'') = Inr exprs" "b = BControl (State exprs)"
    by (auto simp: build_state_def rbind_Inr_iff Let_def split: if_splits)
  from parse_named_keys [OF e(2)] have k: "map fst exprs = map fst (req_field (btree_of str_of) cfg ''expr'')" .
  then have "bt_wf exprs" using bt_wf_keys [OF k] by (simp add: req_field_def)
  moreover have "exprs \<noteq> []" using k e(1) by auto
  ultimately show ?thesis using e(3) by simp
qed



section \<open>What a file holds after several flushes\<close>

fun send_each :: "'w sink \<Rightarrow> rec list \<Rightarrow> 'w \<Rightarrow> (error + unit) \<times> 'w" where
  "send_each k [] w = (Inr (), w)"
| "send_each k (r # rs) w = (case k_send k r w of (Inl e, w1) \<Rightarrow> (Inl e, w1) | (Inr _, w1) \<Rightarrow> send_each k rs w1)"

definition send_flush :: "'w sink \<Rightarrow> rec list \<Rightarrow> 'w \<Rightarrow> (error + unit) \<times> 'w" where
  "send_flush k rs w = (case send_each k rs w of (Inl e, w1) \<Rightarrow> (Inl e, w1) | (Inr _, w1) \<Rightarrow> k_flush k w1)"

text \<open>
  What the sink relies on: buffers are cells of their own, apart from the files, and a write
  that succeeds leaves its text in the file, after the old one when it appends.
\<close>

definition io_lawful :: "'w io \<Rightarrow> bool" where
  "io_lawful io \<longleftrightarrow>
     (\<forall>i j rs w. io_buffer io i (io_set_buffer io j rs w) = (if i = j then rs else io_buffer io i w)) \<and>
     (\<forall>p j rs w. io_read_file io p (io_set_buffer io j rs w) = io_read_file io p w) \<and>
     (\<forall>i app p text w. io_buffer io i (snd (io_write_file io app p text w)) = io_buffer io i w) \<and>
     (\<forall>p text w w'. io_write_file io False p text w = (Inr (), w') \<longrightarrow> io_read_file io p w' = Inr text) \<and>
     (\<forall>p text old w w'. io_write_file io True p text w = (Inr (), w') \<longrightarrow> io_read_file io p w = Inr old \<longrightarrow>
        io_read_file io p w' = Inr (old @ text))"

lemma io_lawfulD:
  assumes "io_lawful io"
  shows "io_buffer io i (io_set_buffer io j rs w) = (if i = j then rs else io_buffer io i w)"
    "io_read_file io p (io_set_buffer io j rs w) = io_read_file io p w"
    "io_buffer io i (snd (io_write_file io app p text w)) = io_buffer io i w"
    "io_write_file io False p text w = (Inr (), w') \<Longrightarrow> io_read_file io p w' = Inr text"
    "io_write_file io True p text w = (Inr (), w') \<Longrightarrow> io_read_file io p w = Inr old \<Longrightarrow>
       io_read_file io p w' = Inr (old @ text)"
  using assms by (simp_all add: io_lawful_def)

lemma send_each_file:
  assumes "io_lawful io"
  shows "\<exists>w'. send_each (file_sink cd io i path fmt app) rs w = (Inr (), w') \<and>
     io_buffer io i w' = io_buffer io i w @ rs \<and> io_read_file io p w' = io_read_file io p w"
proof (induction rs arbitrary: w)
  case (Cons r rs)
  from Cons.IH [of "io_set_buffer io i (io_buffer io i w @ [r]) w"] show ?case
    by (auto simp: file_sink_def collect_sink_def io_lawfulD [OF assms])
qed simp

text \<open>One batch through the sink: the buffer is empty again and the file holds its text.\<close>

lemma send_flush_file:
  assumes "io_lawful io" "io_buffer io i w = []" "rs \<noteq> []" "render cd fmt rs = Inr text"
    "send_flush (file_sink cd io i path fmt app) rs w = (Inr (), w')"
  shows "io_buffer io i w' = []"
    and "\<not> app \<Longrightarrow> io_read_file io path w' = Inr text"
    and "app \<Longrightarrow> io_read_file io path w = Inr old \<Longrightarrow> io_read_file io path w' = Inr (old @ text)"
proof -
  obtain w1 where s: "send_each (file_sink cd io i path fmt app) rs w = (Inr (), w1)"
    "io_buffer io i w1 = rs" "io_read_file io path w1 = io_read_file io path w"
    using send_each_file [OF assms(1), of cd i path fmt app rs w path] assms(2) by auto
  have f: "io_write_file io app path text (io_set_buffer io i [] w1) = (Inr (), w')"
    using assms(3-5) s(1,2) by (simp add: send_flush_def file_sink_def file_flush_def Let_def)
  show "io_buffer io i w' = []"
    using io_lawfulD(1,3) [OF assms(1)] f by (metis snd_conv)
  show "io_read_file io path w' = Inr text" if "\<not> app"
    using io_lawfulD(4) [OF assms(1)] f that by simp
  show "io_read_file io path w' = Inr (old @ text)" if "app" "io_read_file io path w = Inr old"
    using io_lawfulD(5) [OF assms(1)] f that s(3) by (simp add: io_lawfulD(2) [OF assms(1)])
qed

text \<open>
  A file sink flushed twice, both times with records and without an error: an appending
  sink's file holds what it held, then both batches; any other sink's file holds the second
  batch alone, the first one is gone.
\<close>

theorem file_sink_keeps_last:
  assumes "io_lawful io" "io_buffer io i w = []" "a \<noteq> []" "b \<noteq> []"
    "render cd fmt a = Inr ta" "render cd fmt b = Inr tb"
    "send_flush (file_sink cd io i path fmt app) a w = (Inr (), w1)"
    "send_flush (file_sink cd io i path fmt app) b w1 = (Inr (), w2)"
    "app \<Longrightarrow> io_read_file io path w = Inr old"
  shows "io_read_file io path w2 = Inr (if app then old @ ta @ tb else tb)"
  using send_flush_file [OF assms(1,2,3,5,7)]
    send_flush_file [OF assms(1) _ assms(4,6,8)] assms(9) by (cases app) auto

lemma disk_io_lawful: "io_lawful disk_io"
  by (auto simp: io_lawful_def disk_io_def split: option.splits)

theorem file_sink_keeps_last_witness:
  "\<exists>w2. io_read_file disk_io ''out.csv'' w2 = Inr (''k,'' @ newline # ''2,'' @ [newline])"
proof -
  define r where "r s = \<lparr>rid = ''r'', timestamp = ''t'', payload = JObject [(''k'', JString s)], metadata = []\<rparr>" for s
  have t: "render bare_codec Csv [r s] = Inr (''k,'' @ newline # s @ '','' @ [newline])" for s
    by (simp add: render_def render_csv_def r_def csv_put_def bare_codec_def rbind_def im_keys_def)
  let ?k = "file_sink bare_codec disk_io ''s'' ''out.csv'' Csv False"
  define w1 where "w1 = snd (send_flush ?k [r ''1''] blank_disk)"
  define w2 where "w2 = snd (send_flush ?k [r ''2''] w1)"
  have f: "send_flush ?k [r s] w = (Inr (), snd (send_flush ?k [r s] w))" if "io_buffer disk_io ''s'' w = []" for s w
    using that t [of s] by (simp add: send_flush_def file_sink_def file_flush_def collect_sink_def Let_def disk_io_def)
  have b: "io_buffer disk_io ''s'' blank_disk = []" by (simp add: disk_io_def blank_disk_def)
  have s1: "send_flush ?k [r ''1''] blank_disk = (Inr (), w1)" using f [OF b] by (simp add: w1_def)
  have s2: "send_flush ?k [r ''2''] w1 = (Inr (), w2)"
    using f [OF send_flush_file(1) [OF disk_io_lawful b _ t s1]] by (simp add: w2_def)
  show ?thesis
    using file_sink_keeps_last [OF disk_io_lawful b _ _ t t s1 s2] by auto
qed

text \<open>A flush empties the buffer first: records whose write fails are gone, the next flush has nothing to do.\<close>

lemma file_flush_takes:
  assumes "io_lawful io" "file_flush cd io i path fmt app w = (res, w1)"
  shows "io_buffer io i w1 = [] \<and>
    file_flush cd io i path fmt app w1 = (Inr (), io_set_buffer io i [] w1)"
proof -
  have "io_buffer io i w1 = []"
    using assms(2) io_lawfulD(1) [OF assms(1), of i i "[]" w]
      io_lawfulD(3) [OF assms(1), of i app path _ "io_set_buffer io i [] w"]
    by (auto simp: file_flush_def Let_def split: if_splits sum.splits) (metis snd_conv)
  then show ?thesis by (simp add: file_flush_def)
qed

end
