(* ===== verification/Extension_Client.thy ===== *)
theory Extension_Client
  imports Config_Decode Flow_Graph
begin

text \<open>
  The client side of extension processes (\<^verbatim>\<open>sohara-runtime/src/stdio_extensions.rs\<close>): JSON-RPC over
  the pipes of a child process, one request and one reply line at a time.  Operating system,
  JSON text and the text of messages are the parameter \<open>'p pipe\<close>; a child has a handle.  A slot is
  what the mutex of a step, store or bus guards, the client if there is one, together with the
  outside world \<open>'p\<close>.  It also records which children run and which request ids the current child
  was sent; the code keeps no such record.
\<close>

section \<open>Specifications\<close>

record ext_base =
  x_name :: string
  x_version :: string
  x_protocol :: string
  x_command :: string
  x_cwd :: "string option"
  x_args :: "string list"
  x_type :: string

datatype async_kind = Ak_Source | Ak_Transform | Ak_Sink | Ak_Trigger
datatype blocking_kind = Bk_State_Store | Bk_Event_Bus

record async_spec = ext_base +
  ax_kind :: async_kind

record blocking_spec = ext_base +
  bx_kind :: blocking_kind

definition host_protocol :: string where
  "host_protocol = ''sohara.stdio/v1''"

fun async_kind_name :: "async_kind \<Rightarrow> string" where
  "async_kind_name Ak_Source = ''source''"
| "async_kind_name Ak_Transform = ''transform''"
| "async_kind_name Ak_Sink = ''sink''"
| "async_kind_name Ak_Trigger = ''trigger''"

fun blocking_kind_name :: "blocking_kind \<Rightarrow> string" where
  "blocking_kind_name Bk_State_Store = ''state_store''"
| "blocking_kind_name Bk_Event_Bus = ''event_bus''"

datatype ext_msg =
    X_spawn string "string list" string
  | X_write string string
  | X_flush string string
  | X_read string string
  | X_closed string
  | X_bad_response string serde_error
  | X_version string string
  | X_id string nat nat
  | X_failed string string string int
  | X_no_result string string
  | X_protocol string string string
  | X_capability string string
  | X_no_records string

section \<open>Processes and slots\<close>

record 'p pipe =
  pp_spawn :: "ext_base \<Rightarrow> 'p \<Rightarrow> (string + nat) \<times> 'p"
  pp_write :: "nat \<Rightarrow> json \<Rightarrow> 'p \<Rightarrow> (string + unit) \<times> 'p"
  pp_flush :: "nat \<Rightarrow> 'p \<Rightarrow> (string + unit) \<times> 'p"
  pp_read :: "nat \<Rightarrow> 'p \<Rightarrow> (string + (string + json) option) \<times> 'p"
  pp_kill :: "nat \<Rightarrow> 'p \<Rightarrow> 'p"
  pp_text :: "ext_msg \<Rightarrow> string"
  pp_time :: "string \<Rightarrow> string option"

record capabilities =
  cap_source :: bool
  cap_transform :: bool
  cap_sink :: bool
  cap_trigger :: bool
  cap_state_store :: bool
  cap_event_bus :: bool

definition no_capabilities :: capabilities where
  "no_capabilities = \<lparr>cap_source = False, cap_transform = False, cap_sink = False, cap_trigger = False,
     cap_state_store = False, cap_event_bus = False\<rparr>"

fun supports_async :: "capabilities \<Rightarrow> async_kind \<Rightarrow> bool" where
  "supports_async c Ak_Source = cap_source c"
| "supports_async c Ak_Transform = cap_transform c"
| "supports_async c Ak_Sink = cap_sink c"
| "supports_async c Ak_Trigger = cap_trigger c"

fun supports_blocking :: "capabilities \<Rightarrow> blocking_kind \<Rightarrow> bool" where
  "supports_blocking c Bk_State_Store = cap_state_store c"
| "supports_blocking c Bk_Event_Bus = cap_event_bus c"

record client =
  cl_child :: nat
  cl_next :: nat
  cl_caps :: capabilities

record 'p slot =
  sl_client :: "client option"
  sl_alive :: "nat list"
  sl_sent :: "nat list"
  sl_world :: 'p

definition fresh_slot :: "'p \<Rightarrow> 'p slot" where
  "fresh_slot w = \<lparr>sl_client = None, sl_alive = [], sl_sent = [], sl_world = w\<rparr>"

type_synonym ('p, 'a) slot_action = "'p slot \<Rightarrow> (error + 'a) \<times> 'p slot"

definition sbind :: "('p, 'a) slot_action \<Rightarrow> ('a \<Rightarrow> ('p, 'b) slot_action) \<Rightarrow> ('p, 'b) slot_action" where
  "sbind m f sl = (case m sl of (Inl e, sl1) \<Rightarrow> (Inl e, sl1) | (Inr x, sl1) \<Rightarrow> f x sl1)"

fun async_error :: "'p pipe \<Rightarrow> async_spec \<Rightarrow> ext_msg \<Rightarrow> error" where
  "async_error pp spec m =
     (case ax_kind spec of
        Ak_Source \<Rightarrow> Err_Source (pp_text pp m)
      | Ak_Trigger \<Rightarrow> Err_Source (pp_text pp m)
      | Ak_Transform \<Rightarrow> Err_Transform (pp_text pp m)
      | Ak_Sink \<Rightarrow> Err_Sink (pp_text pp m))"

definition blocking_error :: "'p pipe \<Rightarrow> ext_msg \<Rightarrow> error" where
  "blocking_error pp m = Err_Runtime (pp_text pp m)"

section \<open>Messages\<close>

definition json_nat :: "nat \<Rightarrow> json" where
  "json_nat n = JNumber (PosInt (int n))"

definition rpc_json :: "nat \<Rightarrow> string \<Rightarrow> json \<Rightarrow> json" where
  "rpc_json i meth params =
     JObject [(''jsonrpc'', JString ''2.0''), (''id'', json_nat i), (''method'', JString meth), (''params'', params)]"

record 'r response =
  rs_jsonrpc :: string
  rs_id :: nat
  rs_result :: "'r option"
  rs_error :: "(int \<times> string) option"

text \<open>Replies are decoded without \<^verbatim>\<open>deny_unknown_fields\<close>: other fields are skipped.\<close>

definition decode_open :: "struct_spec \<Rightarrow> json \<Rightarrow> serde_error + json imap" where
  "decode_open spec v =
     (case v of
        JObject m \<Rightarrow> decode_struct spec (JObject (filter (\<lambda>p. fst p \<in> fst ` set spec) m))
      | _ \<Rightarrow> decode_struct spec v)"

definition chk_dec :: "(json \<Rightarrow> serde_error + 'a) \<Rightarrow> checker" where
  "chk_dec dec v = (case dec v of Inl e \<Rightarrow> Some e | Inr _ \<Rightarrow> None)"

fun is_i64 :: "json \<Rightarrow> bool" where
  "is_i64 (JNumber (PosInt n)) = (n < 2 ^ 63)"
| "is_i64 (JNumber (NegInt n)) = (- (2 ^ 63) \<le> n)"
| "is_i64 _ = False"

fun i64_of :: "json \<Rightarrow> int" where
  "i64_of (JNumber (PosInt n)) = n"
| "i64_of (JNumber (NegInt n)) = n"
| "i64_of _ = 0"

definition rpc_error_spec :: struct_spec where
  "rpc_error_spec = [(''code'', True, chk is_i64), (''message'', True, chk is_string)]"

definition response_spec :: "(json \<Rightarrow> serde_error + 'r) \<Rightarrow> struct_spec" where
  "response_spec dec =
     [(''jsonrpc'', True, chk is_string), (''id'', True, chk is_usize), (''result'', False, chk_opt (chk_dec dec)),
      (''error'', False, chk_opt (chk_dec (decode_open rpc_error_spec)))]"

definition rpc_error_of :: "json \<Rightarrow> int \<times> string" where
  "rpc_error_of v =
     (let m = projr (decode_open rpc_error_spec v) in (req_field i64_of m ''code'', req_field str_of m ''message''))"

definition decode_response :: "(json \<Rightarrow> serde_error + 'r) \<Rightarrow> json \<Rightarrow> serde_error + 'r response" where
  "decode_response dec v =
     rbind (decode_open (response_spec dec) v) (\<lambda>m. Inr
       \<lparr>rs_jsonrpc = req_field str_of m ''jsonrpc'', rs_id = req_field usize_of m ''id'',
        rs_result = opt_field (\<lambda>r. projr (dec r)) m ''result'', rs_error = opt_field rpc_error_of m ''error''\<rparr>)"

definition capability_fields :: "string list" where
  "capability_fields = [''source'', ''transform'', ''sink'', ''trigger'', ''state_store'', ''event_bus'']"

definition capabilities_spec :: struct_spec where
  "capabilities_spec = map (\<lambda>f. (f, False, chk is_bool)) capability_fields"

definition decode_capabilities :: "json \<Rightarrow> serde_error + capabilities" where
  "decode_capabilities v =
     rbind (decode_open capabilities_spec v) (\<lambda>m. Inr
       \<lparr>cap_source = req_field bool_of m ''source'', cap_transform = req_field bool_of m ''transform'',
        cap_sink = req_field bool_of m ''sink'', cap_trigger = req_field bool_of m ''trigger'',
        cap_state_store = req_field bool_of m ''state_store'', cap_event_bus = req_field bool_of m ''event_bus''\<rparr>)"

definition init_spec :: struct_spec where
  "init_spec = [(''protocol'', True, chk is_string), (''capabilities'', False, chk_dec decode_capabilities)]"

definition decode_init :: "json \<Rightarrow> serde_error + string \<times> capabilities" where
  "decode_init v =
     rbind (decode_open init_spec v) (\<lambda>m. Inr (req_field str_of m ''protocol'',
       case im_get m ''capabilities'' of None \<Rightarrow> no_capabilities | Some c \<Rightarrow> projr (decode_capabilities c)))"

definition decode_empty :: "json \<Rightarrow> serde_error + unit" where
  "decode_empty v = rbind (decode_open [] v) (\<lambda>_. Inr ())"

text \<open>A record as JSON; \<^verbatim>\<open>chrono\<close> reads the timestamp.\<close>

definition rec_json :: "rec \<Rightarrow> json" where
  "rec_json r =
     JObject [(''id'', JString (rid r)), (''timestamp'', JString (timestamp r)), (''payload'', payload r),
       (''metadata'', JObject (map (\<lambda>(k, v). (k, JString v)) (metadata r)))]"

definition rec_spec :: "'p pipe \<Rightarrow> struct_spec" where
  "rec_spec pp = [(''id'', True, chk is_string),
     (''timestamp'', True, chk (\<lambda>v. is_string v \<and> pp_time pp (str_of v) \<noteq> None)),
     (''payload'', True, chk_any), (''metadata'', True, chk_map (chk is_string))]"

fun strings_of :: "json \<Rightarrow> (string \<times> string) list" where
  "strings_of (JObject m) = map (\<lambda>(k, v). (k, str_of v)) m"
| "strings_of _ = []"

definition decode_rec :: "'p pipe \<Rightarrow> json \<Rightarrow> serde_error + rec" where
  "decode_rec pp v =
     rbind (decode_open (rec_spec pp) v) (\<lambda>m. Inr
       \<lparr>rid = req_field str_of m ''id'', timestamp = the (pp_time pp (req_field str_of m ''timestamp'')),
        payload = req_field id m ''payload'', metadata = req_field strings_of m ''metadata''\<rparr>)"

record pulled =
  pu_records :: "rec list"
  pu_done :: bool

definition records_of :: "'p pipe \<Rightarrow> json \<Rightarrow> rec list" where
  "records_of pp = list_of (\<lambda>v. projr (decode_rec pp v))"

definition decode_pull :: "'p pipe \<Rightarrow> json \<Rightarrow> serde_error + pulled" where
  "decode_pull pp v =
     rbind (decode_open [(''records'', False, chk_list (chk_dec (decode_rec pp))), (''done'', False, chk is_bool)] v) (\<lambda>m. Inr
       \<lparr>pu_records = req_field (records_of pp) m ''records'', pu_done = req_field bool_of m ''done''\<rparr>)"

definition decode_load :: "json \<Rightarrow> serde_error + bool \<times> json option" where
  "decode_load v =
     rbind (decode_open [(''found'', True, chk is_bool), (''value'', False, chk_any)] v) (\<lambda>m. Inr
       (req_field bool_of m ''found'', opt_field id m ''value''))"

text \<open>\<^verbatim>\<open>TransformResult\<close> is tagged by its field \<^verbatim>\<open>outcome\<close>, or by the first element of an array.\<close>

definition decode_outcome_as :: "'p pipe \<Rightarrow> string \<Rightarrow> json \<Rightarrow> serde_error + outcome" where
  "decode_outcome_as pp tag v =
     (if tag = ''pass'' then
        rbind (decode_open [(''record'', True, chk_dec (decode_rec pp))] v) (\<lambda>m.
          Inr (Pass (req_field (\<lambda>r. projr (decode_rec pp r)) m ''record'')))
      else if tag = ''filtered'' then Inr Filtered
      else if tag = ''expand'' then
        rbind (decode_open [(''records'', True, chk_list (chk_dec (decode_rec pp)))] v) (\<lambda>m.
          Inr (Expand (req_field (records_of pp) m ''records'')))
      else Inl (Sd_Type (JString tag)))"

definition decode_transform :: "'p pipe \<Rightarrow> json \<Rightarrow> serde_error + outcome" where
  "decode_transform pp v =
     (case v of
        JObject m \<Rightarrow>
          (case im_get m ''outcome'' of
             None \<Rightarrow> Inl (Sd_Missing ''outcome'')
           | Some (JString tag) \<Rightarrow> decode_outcome_as pp tag v
           | Some other \<Rightarrow> Inl (Sd_Type other))
      | JArray (JString tag # vs) \<Rightarrow> decode_outcome_as pp tag (JArray vs)
      | _ \<Rightarrow> Inl (Sd_Type v))"

section \<open>Requests\<close>

definition rpc_fail :: "error \<Rightarrow> 'p slot \<Rightarrow> (error + 'a) \<times> 'p slot" where
  "rpc_fail e sl = (Inl e, sl)"

text \<open>\<^verbatim>\<open>request\<close>: write the line, flush, read the reply line, check its version and id.\<close>

definition check_reply ::
    "(ext_msg \<Rightarrow> error) \<Rightarrow> (json \<Rightarrow> serde_error + 'r) \<Rightarrow> string \<Rightarrow> nat \<Rightarrow> (string + json) option \<Rightarrow> error + 'r response" where
  "check_reply err dec meth i line =
     (case line of
        None \<Rightarrow> Inl (err (X_closed meth))
      | Some (Inl e) \<Rightarrow> Inl (err (X_bad_response meth (Sd_Text e)))
      | Some (Inr v) \<Rightarrow>
          (case decode_response dec v of
             Inl e \<Rightarrow> Inl (err (X_bad_response meth e))
           | Inr r \<Rightarrow>
               if rs_jsonrpc r \<noteq> ''2.0'' then Inl (err (X_version meth (rs_jsonrpc r)))
               else if rs_id r \<noteq> i then Inl (err (X_id meth i (rs_id r)))
               else Inr r))"

definition exchange :: "'p pipe \<Rightarrow> (ext_msg \<Rightarrow> error) \<Rightarrow> string \<Rightarrow> nat \<Rightarrow> json \<Rightarrow> 'p \<Rightarrow> (error + (string + json) option) \<times> 'p" where
  "exchange pp err meth child line w =
     (case pp_write pp child line w of
        (Inl e, w1) \<Rightarrow> (Inl (err (X_write meth e)), w1)
      | (Inr _, w1) \<Rightarrow>
          (case pp_flush pp child w1 of
             (Inl e, w2) \<Rightarrow> (Inl (err (X_flush meth e)), w2)
           | (Inr _, w2) \<Rightarrow>
               (case pp_read pp child w2 of
                  (Inl e, w3) \<Rightarrow> (Inl (err (X_read meth e)), w3)
                | (Inr reply, w3) \<Rightarrow> (Inr reply, w3))))"

definition rpc_request ::
    "'p pipe \<Rightarrow> (ext_msg \<Rightarrow> error) \<Rightarrow> (json \<Rightarrow> serde_error + 'r) \<Rightarrow> string \<Rightarrow> nat \<Rightarrow> nat \<Rightarrow> json \<Rightarrow> ('p, 'r response) slot_action" where
  "rpc_request pp err dec meth child i params sl =
     (let (res, w) = exchange pp err meth child (rpc_json i meth params) (sl_world sl)
      in (rbind res (check_reply err dec meth i), sl\<lparr>sl_world := w, sl_sent := sl_sent sl @ [i]\<rparr>))"

definition take_result :: "(ext_msg \<Rightarrow> error) \<Rightarrow> string \<Rightarrow> string \<Rightarrow> 'r response \<Rightarrow> error + 'r" where
  "take_result err meth name r =
     (case rs_error r of
        Some (code, text) \<Rightarrow> Inl (err (X_failed name meth text code))
      | None \<Rightarrow> (case rs_result r of None \<Rightarrow> Inl (err (X_no_result name meth)) | Some x \<Rightarrow> Inr x))"

text \<open>A client takes the next id, sends the request and takes the result.\<close>

definition rpc_call ::
    "'p pipe \<Rightarrow> (ext_msg \<Rightarrow> error) \<Rightarrow> (json \<Rightarrow> serde_error + 'r) \<Rightarrow> string \<Rightarrow> string \<Rightarrow> json \<Rightarrow> client \<Rightarrow> ('p, 'r) slot_action" where
  "rpc_call pp err dec meth name params c sl =
     (let (res, sl1) = rpc_request pp err dec meth (cl_child c) (cl_next c) params
            (sl\<lparr>sl_client := Some (c\<lparr>cl_next := cl_next c + 1\<rparr>)\<rparr>)
      in (rbind res (take_result err meth name), sl1))"

section \<open>Starting and dropping a child\<close>

text \<open>Dropping a client kills its child (\<^verbatim>\<open>Drop\<close>, \<^verbatim>\<open>reset_async_client\<close>, \<^verbatim>\<open>reset_blocking_client\<close>).\<close>

definition reset_client :: "'p pipe \<Rightarrow> 'p slot \<Rightarrow> 'p slot" where
  "reset_client pp sl =
     (case sl_client sl of
        None \<Rightarrow> sl
      | Some c \<Rightarrow> sl\<lparr>sl_client := None, sl_world := pp_kill pp (cl_child c) (sl_world sl),
          sl_alive := remove1 (cl_child c) (sl_alive sl)\<rparr>)"

definition or_reset :: "'p pipe \<Rightarrow> ('p, 'a) slot_action \<Rightarrow> ('p, 'a) slot_action" where
  "or_reset pp m sl = (case m sl of (Inl e, sl1) \<Rightarrow> (Inl e, reset_client pp sl1) | (Inr x, sl1) \<Rightarrow> (Inr x, sl1))"

definition init_params :: "'a ext_base_scheme \<Rightarrow> json" where
  "init_params spec =
     JObject [(''protocol'', JString host_protocol),
       (''extension'', JObject [(''name'', JString (x_name spec)), (''version'', JString (x_version spec))])]"

definition set_caps :: "capabilities \<Rightarrow> 'p slot \<Rightarrow> 'p slot" where
  "set_caps caps sl = sl\<lparr>sl_client := map_option (\<lambda>c. c\<lparr>cl_caps := caps\<rparr>) (sl_client sl)\<rparr>"

definition initialize ::
    "'p pipe \<Rightarrow> (ext_msg \<Rightarrow> error) \<Rightarrow> (capabilities \<Rightarrow> bool) \<Rightarrow> string \<Rightarrow> 'a ext_base_scheme \<Rightarrow> client \<Rightarrow> ('p, unit) slot_action" where
  "initialize pp err supports kind spec c =
     sbind (rpc_call pp err decode_init ''initialize'' (x_name spec) (init_params spec) c) (\<lambda>(protocol, caps) sl.
       if protocol \<noteq> x_protocol spec then rpc_fail (err (X_protocol (x_name spec) (x_protocol spec) protocol)) sl
       else if supports caps then (Inr (), set_caps caps sl)
       else rpc_fail (err (X_capability (x_name spec) kind)) (set_caps caps sl))"

text \<open>\<^verbatim>\<open>spawn\<close>: a child whose handshake fails is dropped, and so killed.\<close>

definition spawn_client ::
    "'p pipe \<Rightarrow> (ext_msg \<Rightarrow> error) \<Rightarrow> (capabilities \<Rightarrow> bool) \<Rightarrow> string \<Rightarrow> 'a ext_base_scheme \<Rightarrow> ('p, unit) slot_action" where
  "spawn_client pp err supports kind spec sl =
     (case pp_spawn pp (ext_base.truncate spec) (sl_world sl) of
        (Inl e, w) \<Rightarrow> (Inl (err (X_spawn (x_name spec) (x_args spec) e)), sl\<lparr>sl_world := w\<rparr>)
      | (Inr child, w) \<Rightarrow>
          let c = \<lparr>cl_child = child, cl_next = 1, cl_caps = no_capabilities\<rparr>
          in or_reset pp (initialize pp err supports kind spec c)
               (sl\<lparr>sl_client := Some c, sl_alive := sl_alive sl @ [child], sl_sent := [], sl_world := w\<rparr>))"

definition ensure_client ::
    "'p pipe \<Rightarrow> (ext_msg \<Rightarrow> error) \<Rightarrow> (capabilities \<Rightarrow> bool) \<Rightarrow> string \<Rightarrow> 'a ext_base_scheme \<Rightarrow> ('p, client) slot_action" where
  "ensure_client pp err supports kind spec =
     sbind (\<lambda>sl. if sl_client sl = None then spawn_client pp err supports kind spec sl else (Inr (), sl))
       (\<lambda>_ sl. (Inr (the (sl_client sl)), sl))"

definition ensure_async_client :: "'p pipe \<Rightarrow> async_spec \<Rightarrow> ('p, client) slot_action" where
  "ensure_async_client pp spec =
     ensure_client pp (async_error pp spec) (\<lambda>caps. supports_async caps (ax_kind spec)) (async_kind_name (ax_kind spec)) spec"

definition ensure_blocking_client :: "'p pipe \<Rightarrow> blocking_spec \<Rightarrow> ('p, client) slot_action" where
  "ensure_blocking_client pp spec =
     ensure_client pp (blocking_error pp) (\<lambda>caps. supports_blocking caps (bx_kind spec)) (blocking_kind_name (bx_kind spec)) spec"

text \<open>What every operation of a step, store or bus does: get the client, call, drop it on an error.\<close>

definition async_op :: "'p pipe \<Rightarrow> async_spec \<Rightarrow> (client \<Rightarrow> ('p, 'a) slot_action) \<Rightarrow> ('p, 'a) slot_action" where
  "async_op pp spec f = sbind (ensure_async_client pp spec) (\<lambda>c. or_reset pp (f c))"

definition blocking_op :: "'p pipe \<Rightarrow> blocking_spec \<Rightarrow> (client \<Rightarrow> ('p, 'a) slot_action) \<Rightarrow> ('p, 'a) slot_action" where
  "blocking_op pp spec f = sbind (ensure_blocking_client pp spec) (\<lambda>c. or_reset pp (f c))"

section \<open>Calls\<close>

record trigger_meta =
  tm_id :: string
  tm_type :: string

definition step_json :: "step_meta \<Rightarrow> json" where
  "step_json m =
     JObject [(''id'', JString (sm_id m)), (''name'', JString (sm_name m)), (''kind'', JString (sm_kind m)),
       (''step_type'', JString (sm_type m))]"

definition trigger_json :: "trigger_meta \<Rightarrow> json" where
  "trigger_json m = JObject [(''id'', JString (tm_id m)), (''type'', JString (tm_type m))]"

definition type_json :: "'a ext_base_scheme \<Rightarrow> json" where
  "type_json spec = JObject [(''type'', JString (x_type spec))]"

definition step_params :: "step_meta \<Rightarrow> json \<Rightarrow> json" where
  "step_params m config = JObject [(''step'', step_json m), (''config'', config)]"

definition record_params :: "step_meta \<Rightarrow> json \<Rightarrow> rec \<Rightarrow> json" where
  "record_params m config r = JObject [(''step'', step_json m), (''config'', config), (''record'', rec_json r)]"

definition trigger_params :: "trigger_meta \<Rightarrow> json \<Rightarrow> json" where
  "trigger_params m config = JObject [(''trigger'', trigger_json m), (''config'', config)]"

definition key_params :: "blocking_spec \<Rightarrow> json \<Rightarrow> string \<Rightarrow> json" where
  "key_params spec config key = JObject [(''store'', type_json spec), (''config'', config), (''key'', JString key)]"

definition save_params :: "blocking_spec \<Rightarrow> json \<Rightarrow> string \<Rightarrow> json \<Rightarrow> json" where
  "save_params spec config key v =
     JObject [(''store'', type_json spec), (''config'', config), (''key'', JString key), (''value'', v)]"

definition publish_params :: "blocking_spec \<Rightarrow> json \<Rightarrow> string \<Rightarrow> json \<Rightarrow> json" where
  "publish_params spec config topic v =
     JObject [(''bus'', type_json spec), (''config'', config), (''topic'', JString topic), (''payload'', v)]"

definition source_pull :: "'p pipe \<Rightarrow> async_spec \<Rightarrow> step_meta \<Rightarrow> json \<Rightarrow> client \<Rightarrow> ('p, pulled) slot_action" where
  "source_pull pp spec m config =
     rpc_call pp (async_error pp spec) (decode_pull pp) ''source.pull'' (sm_type m) (step_params m config)"

definition transform_call :: "'p pipe \<Rightarrow> async_spec \<Rightarrow> step_meta \<Rightarrow> json \<Rightarrow> rec \<Rightarrow> client \<Rightarrow> ('p, outcome) slot_action" where
  "transform_call pp spec m config r =
     rpc_call pp (async_error pp spec) (decode_transform pp) ''transform'' (sm_type m) (record_params m config r)"

definition sink_send :: "'p pipe \<Rightarrow> async_spec \<Rightarrow> step_meta \<Rightarrow> json \<Rightarrow> rec \<Rightarrow> client \<Rightarrow> ('p, unit) slot_action" where
  "sink_send pp spec m config r =
     rpc_call pp (async_error pp spec) decode_empty ''sink.send'' (sm_type m) (record_params m config r)"

definition sink_flush :: "'p pipe \<Rightarrow> async_spec \<Rightarrow> step_meta \<Rightarrow> json \<Rightarrow> client \<Rightarrow> ('p, unit) slot_action" where
  "sink_flush pp spec m config =
     rpc_call pp (async_error pp spec) decode_empty ''sink.flush'' (sm_type m) (step_params m config)"

definition trigger_start :: "'p pipe \<Rightarrow> async_spec \<Rightarrow> trigger_meta \<Rightarrow> json \<Rightarrow> client \<Rightarrow> ('p, unit) slot_action" where
  "trigger_start pp spec m config =
     rpc_call pp (async_error pp spec) decode_empty ''trigger.start'' (tm_type m) (trigger_params m config)"

definition trigger_pull :: "'p pipe \<Rightarrow> async_spec \<Rightarrow> trigger_meta \<Rightarrow> json \<Rightarrow> client \<Rightarrow> ('p, pulled) slot_action" where
  "trigger_pull pp spec m config =
     rpc_call pp (async_error pp spec) (decode_pull pp) ''trigger.pull'' (tm_type m) (trigger_params m config)"

definition trigger_stop :: "'p pipe \<Rightarrow> async_spec \<Rightarrow> trigger_meta \<Rightarrow> json \<Rightarrow> client \<Rightarrow> ('p, unit) slot_action" where
  "trigger_stop pp spec m config =
     rpc_call pp (async_error pp spec) decode_empty ''trigger.stop'' (tm_type m) (trigger_params m config)"

definition state_load :: "'p pipe \<Rightarrow> blocking_spec \<Rightarrow> json \<Rightarrow> string \<Rightarrow> client \<Rightarrow> ('p, bool \<times> json option) slot_action" where
  "state_load pp spec config key =
     rpc_call pp (blocking_error pp) decode_load ''state.load'' (x_type spec) (key_params spec config key)"

definition state_save :: "'p pipe \<Rightarrow> blocking_spec \<Rightarrow> json \<Rightarrow> string \<Rightarrow> json \<Rightarrow> client \<Rightarrow> ('p, unit) slot_action" where
  "state_save pp spec config key v =
     rpc_call pp (blocking_error pp) decode_empty ''state.save'' (x_type spec) (save_params spec config key v)"

definition state_delete :: "'p pipe \<Rightarrow> blocking_spec \<Rightarrow> json \<Rightarrow> string \<Rightarrow> client \<Rightarrow> ('p, unit) slot_action" where
  "state_delete pp spec config key =
     rpc_call pp (blocking_error pp) decode_empty ''state.delete'' (x_type spec) (key_params spec config key)"

definition bus_publish :: "'p pipe \<Rightarrow> blocking_spec \<Rightarrow> json \<Rightarrow> string \<Rightarrow> json \<Rightarrow> client \<Rightarrow> ('p, unit) slot_action" where
  "bus_publish pp spec config topic v =
     rpc_call pp (blocking_error pp) decode_empty ''bus.publish'' (x_type spec) (publish_params spec config topic v)"

section \<open>Steps, stores and buses\<close>

definition stdio_transform :: "'p pipe \<Rightarrow> async_spec \<Rightarrow> step_meta \<Rightarrow> json \<Rightarrow> rec \<Rightarrow> ('p, outcome) slot_action" where
  "stdio_transform pp spec m config r = async_op pp spec (transform_call pp spec m config r)"

definition stdio_send :: "'p pipe \<Rightarrow> async_spec \<Rightarrow> step_meta \<Rightarrow> json \<Rightarrow> rec \<Rightarrow> ('p, unit) slot_action" where
  "stdio_send pp spec m config r = async_op pp spec (sink_send pp spec m config r)"

definition stdio_flush :: "'p pipe \<Rightarrow> async_spec \<Rightarrow> step_meta \<Rightarrow> json \<Rightarrow> ('p, unit) slot_action" where
  "stdio_flush pp spec m config = async_op pp spec (sink_flush pp spec m config)"

definition stdio_start :: "'p pipe \<Rightarrow> async_spec \<Rightarrow> trigger_meta \<Rightarrow> json \<Rightarrow> ('p, unit) slot_action" where
  "stdio_start pp spec m config = async_op pp spec (trigger_start pp spec m config)"

definition stdio_stop :: "'p pipe \<Rightarrow> async_spec \<Rightarrow> trigger_meta \<Rightarrow> json \<Rightarrow> ('p, unit) slot_action" where
  "stdio_stop pp spec m config sl =
     (case sl_client sl of None \<Rightarrow> (Inr (), sl) | Some c \<Rightarrow> or_reset pp (trigger_stop pp spec m config c) sl)"

definition stdio_load :: "'p pipe \<Rightarrow> blocking_spec \<Rightarrow> json \<Rightarrow> string \<Rightarrow> ('p, json option) slot_action" where
  "stdio_load pp spec config key =
     sbind (blocking_op pp spec (state_load pp spec config key))
       (\<lambda>(found, v) sl. (Inr (if found then v else None), sl))"

definition stdio_save :: "'p pipe \<Rightarrow> blocking_spec \<Rightarrow> json \<Rightarrow> string \<Rightarrow> json \<Rightarrow> ('p, unit) slot_action" where
  "stdio_save pp spec config key v = blocking_op pp spec (state_save pp spec config key v)"

definition stdio_delete :: "'p pipe \<Rightarrow> blocking_spec \<Rightarrow> json \<Rightarrow> string \<Rightarrow> ('p, unit) slot_action" where
  "stdio_delete pp spec config key = blocking_op pp spec (state_delete pp spec config key)"

definition stdio_publish :: "'p pipe \<Rightarrow> blocking_spec \<Rightarrow> json \<Rightarrow> string \<Rightarrow> json \<Rightarrow> ('p, unit) slot_action" where
  "stdio_publish pp spec config topic v = blocking_op pp spec (bus_publish pp spec config topic v)"

section \<open>Streams\<close>

record stream_state =
  ss_buffered :: "rec list"
  ss_finished :: bool

definition stream_start :: stream_state where
  "stream_start = \<lparr>ss_buffered = [], ss_finished = False\<rparr>"

text \<open>One pull of a source: no records without the end is an error.\<close>

definition pull_source :: "'p pipe \<Rightarrow> async_spec \<Rightarrow> step_meta \<Rightarrow> json \<Rightarrow> ('p, pulled) slot_action" where
  "pull_source pp spec m config =
     async_op pp spec (\<lambda>c. sbind (source_pull pp spec m config c) (\<lambda>p.
       if \<not> pu_done p \<and> pu_records p = [] then rpc_fail (async_error pp spec (X_no_records (x_name spec)))
       else (\<lambda>sl. (Inr p, sl))))"

definition pull_trigger :: "'p pipe \<Rightarrow> async_spec \<Rightarrow> trigger_meta \<Rightarrow> json \<Rightarrow> ('p, pulled) slot_action" where
  "pull_trigger pp spec m config = async_op pp spec (trigger_pull pp spec m config)"

text \<open>
  The loops of \<^verbatim>\<open>next_source_record\<close> and \<^verbatim>\<open>next_trigger_record\<close>; the bound is on their iterations and
  \<open>None\<close> means that it is used up.
\<close>

fun next_source_record ::
    "nat \<Rightarrow> 'p pipe \<Rightarrow> async_spec \<Rightarrow> step_meta \<Rightarrow> json \<Rightarrow> stream_state \<Rightarrow> 'p slot \<Rightarrow>
     ((error + (rec \<times> stream_state) option) \<times> 'p slot) option" where
  "next_source_record 0 pp spec m config st sl = None"
| "next_source_record (Suc n) pp spec m config st sl =
     (case ss_buffered st of
        r # rs \<Rightarrow> Some (Inr (Some (r, st\<lparr>ss_buffered := rs\<rparr>)), sl)
      | [] \<Rightarrow>
          if ss_finished st then Some (Inr None, sl)
          else
            (case pull_source pp spec m config sl of
               (Inl e, sl1) \<Rightarrow> Some (Inl e, sl1)
             | (Inr p, sl1) \<Rightarrow>
                 next_source_record n pp spec m config \<lparr>ss_buffered = pu_records p, ss_finished = pu_done p\<rparr> sl1))"

fun next_trigger_record ::
    "nat \<Rightarrow> 'p pipe \<Rightarrow> async_spec \<Rightarrow> trigger_meta \<Rightarrow> json \<Rightarrow> stream_state \<Rightarrow> 'p slot \<Rightarrow>
     ((error + (rec \<times> stream_state) option) \<times> 'p slot) option" where
  "next_trigger_record 0 pp spec m config st sl = None"
| "next_trigger_record (Suc n) pp spec m config st sl =
     (case ss_buffered st of
        r # rs \<Rightarrow> Some (Inr (Some (r, st\<lparr>ss_buffered := rs\<rparr>)), sl)
      | [] \<Rightarrow>
          if ss_finished st then Some (Inr None, sl)
          else
            (case pull_trigger pp spec m config sl of
               (Inl e, sl1) \<Rightarrow> Some (Inl e, sl1)
             | (Inr p, sl1) \<Rightarrow>
                 if \<not> pu_done p \<and> pu_records p = [] then next_trigger_record n pp spec m config st sl1
                 else next_trigger_record n pp spec m config
                   \<lparr>ss_buffered = pu_records p, ss_finished = pu_done p\<rparr> sl1))"

text \<open>\<^verbatim>\<open>try_unfold\<close>: the first items of a source's stream, which ends after an error.\<close>

fun source_items ::
    "nat \<Rightarrow> 'p pipe \<Rightarrow> async_spec \<Rightarrow> step_meta \<Rightarrow> json \<Rightarrow> stream_state \<Rightarrow> 'p slot \<Rightarrow> (error + rec) list \<times> 'p slot" where
  "source_items 0 pp spec m config st sl = ([], sl)"
| "source_items (Suc n) pp spec m config st sl =
     (case next_source_record 2 pp spec m config st sl of
        Some (Inr (Some (r, st1)), sl1) \<Rightarrow>
          (let (rs, sl2) = source_items n pp spec m config st1 sl1 in (Inr r # rs, sl2))
      | Some (Inr None, sl1) \<Rightarrow> ([], sl1)
      | Some (Inl e, sl1) \<Rightarrow> ([Inl e], sl1)
      | None \<Rightarrow> ([], sl))"

section \<open>Building steps\<close>

text \<open>Where a step finds its slot in the executor's outside world, by the id of the step.\<close>

record ('w, 'p) slots =
  sx_get :: "string \<Rightarrow> 'w \<Rightarrow> 'p slot"
  sx_put :: "string \<Rightarrow> 'p slot \<Rightarrow> 'w \<Rightarrow> 'w"

definition on_slot :: "('w, 'p) slots \<Rightarrow> string \<Rightarrow> ('p, 'a) slot_action \<Rightarrow> 'w \<Rightarrow> (error + 'a) \<times> 'w" where
  "on_slot sx i m w = (let (res, sl) = m (sx_get sx i w) in (res, sx_put sx i sl w))"

definition stdio_source :: "nat \<Rightarrow> 'p pipe \<Rightarrow> ('w, 'p) slots \<Rightarrow> async_spec \<Rightarrow> step_meta \<Rightarrow> json \<Rightarrow> 'w source" where
  "stdio_source n pp sx spec m config w =
     (let (items, sl) = source_items n pp spec m config stream_start (sx_get sx (sm_id m) w)
      in (Inr items, sx_put sx (sm_id m) sl w))"

definition stdio_factory :: "nat \<Rightarrow> 'p pipe \<Rightarrow> ('w, 'p) slots \<Rightarrow> async_spec \<Rightarrow> 'w factory" where
  "stdio_factory n pp sx spec config ctx =
     (case b_step ctx of
        None \<Rightarrow> Inl (Err_Config (C_stdio_step_metadata (x_type spec)))
      | Some m \<Rightarrow>
          (case ax_kind spec of
             Ak_Source \<Rightarrow> Inr (BSource (stdio_source n pp sx spec m config))
           | Ak_Transform \<Rightarrow> Inr (BTransform (\<lambda>r. on_slot sx (sm_id m) (stdio_transform pp spec m config r)))
           | Ak_Sink \<Rightarrow> Inr (BSink \<lparr>k_send = (\<lambda>r. on_slot sx (sm_id m) (stdio_send pp spec m config r)),
               k_flush = on_slot sx (sm_id m) (stdio_flush pp spec m config)\<rparr>)
           | Ak_Trigger \<Rightarrow> Inl (Err_Config (C_stdio_trigger_step (x_type spec)))))"

end
