(* ===== verification/Extension_Props.thy ===== *)
theory Extension_Props
  imports Extension_Client
begin

text \<open>
  Properties of the client side of extension processes: one child per slot, numbered requests, a
  child is dropped after every failure, and the stream of a source.
\<close>

section \<open>One child per slot\<close>

definition slot_ok :: "'p slot \<Rightarrow> bool" where
  "slot_ok sl \<longleftrightarrow>
     (case sl_client sl of
        None \<Rightarrow> sl_alive sl = []
      | Some c \<Rightarrow> sl_alive sl = [cl_child c] \<and> 1 \<le> cl_next c \<and> sl_sent sl = [1..<cl_next c])"

text \<open>An action that keeps a slot in order, and one that also leaves no child when it fails.\<close>

definition keeps_client :: "client \<Rightarrow> ('p, 'a) slot_action \<Rightarrow> bool" where
  "keeps_client c m \<longleftrightarrow>
     (\<forall>sl. slot_ok sl \<and> sl_client sl = Some c \<longrightarrow> slot_ok (snd (m sl)) \<and> sl_client (snd (m sl)) \<noteq> None)"

definition clean :: "('p, 'a) slot_action \<Rightarrow> bool" where
  "clean m \<longleftrightarrow>
     (\<forall>sl. slot_ok sl \<longrightarrow> slot_ok (snd (m sl)) \<and> (isl (fst (m sl)) \<longrightarrow> sl_client (snd (m sl)) = None))"

lemma slot_ok_fresh [simp]: "slot_ok (fresh_slot w)"
  by (simp add: slot_ok_def fresh_slot_def)

lemma slot_ok_reset: "slot_ok sl \<Longrightarrow> slot_ok (reset_client pp sl) \<and> sl_client (reset_client pp sl) = None"
  by (auto simp: slot_ok_def reset_client_def split: option.splits)

lemma slot_ok_rpc:
  assumes "slot_ok sl" "sl_client sl = Some c"
  shows "slot_ok (snd (rpc_call pp err dec meth name params c sl)) \<and>
    sl_client (snd (rpc_call pp err dec meth name params c sl)) = Some (c\<lparr>cl_next := cl_next c + 1\<rparr>)"
  using assms by (auto simp: slot_ok_def rpc_call_def rpc_request_def Let_def split: prod.splits)

lemma keeps_client_rpc [simp]: "keeps_client c (rpc_call pp err dec meth name params c)"
  using slot_ok_rpc by (fastforce simp: keeps_client_def)

lemma clean_or_reset:
  assumes "keeps_client c m" "slot_ok sl" "sl_client sl = Some c"
  shows "slot_ok (snd (or_reset pp m sl)) \<and>
    (isl (fst (or_reset pp m sl)) \<longrightarrow> sl_client (snd (or_reset pp m sl)) = None) \<and>
    (\<not> isl (fst (or_reset pp m sl)) \<longrightarrow> sl_client (snd (or_reset pp m sl)) \<noteq> None)"
proof (cases "m sl")
  case (Pair res sl1)
  with assms have "slot_ok sl1 \<and> sl_client sl1 \<noteq> None" by (fastforce simp: keeps_client_def)
  with Pair show ?thesis using slot_ok_reset [of sl1 pp] by (cases res) (auto simp: or_reset_def)
qed

lemma slot_ok_set_caps [simp]: "slot_ok (set_caps caps sl) = slot_ok sl"
  by (auto simp: slot_ok_def set_caps_def split: option.splits)

lemma sl_client_set_caps [simp]:
  "sl_client (set_caps caps sl) = map_option (\<lambda>c. c\<lparr>cl_caps := caps\<rparr>) (sl_client sl)"
  by (simp add: set_caps_def)

lemma keeps_client_initialize: "keeps_client c (initialize pp err supports kind spec c)"
  unfolding keeps_client_def
proof (intro allI impI)
  fix sl :: "'a slot" assume sl: "slot_ok sl \<and> sl_client sl = Some c"
  then show "slot_ok (snd (initialize pp err supports kind spec c sl)) \<and>
      sl_client (snd (initialize pp err supports kind spec c sl)) \<noteq> None"
    using slot_ok_rpc [of sl c pp err decode_init "''initialize''" "x_name spec" "init_params spec"]
    by (auto simp: initialize_def sbind_def rpc_fail_def split: prod.splits sum.splits)
qed

lemma slot_ok_spawn:
  assumes "slot_ok sl" "sl_client sl = None"
  shows "slot_ok (snd (spawn_client pp err supports kind spec sl)) \<and>
    (isl (fst (spawn_client pp err supports kind spec sl)) \<longleftrightarrow> sl_client (snd (spawn_client pp err supports kind spec sl)) = None)"
proof (cases "pp_spawn pp (ext_base.truncate spec) (sl_world sl)")
  case (Pair res w)
  show ?thesis
  proof (cases res)
    case (Inl e)
    with Pair assms show ?thesis by (simp add: spawn_client_def slot_ok_def)
  next
    case (Inr child)
    let ?c = "\<lparr>cl_child = child, cl_next = 1, cl_caps = no_capabilities\<rparr>"
    let ?sl = "sl\<lparr>sl_client := Some ?c, sl_alive := sl_alive sl @ [child], sl_sent := [], sl_world := w\<rparr>"
    have "slot_ok ?sl" using assms by (simp add: slot_ok_def)
    from clean_or_reset [OF keeps_client_initialize this, of ?c pp pp err supports kind spec] Pair Inr
    show ?thesis by (auto simp: spawn_client_def Let_def)
  qed
qed

lemma slot_ok_ensure:
  assumes "slot_ok sl" "ensure_client pp err supports kind spec sl = (res, sl1)"
  shows "slot_ok sl1 \<and> (case res of Inl _ \<Rightarrow> sl_client sl1 = None | Inr c \<Rightarrow> sl_client sl1 = Some c)"
proof (cases "sl_client sl")
  case None
  with assms show ?thesis using slot_ok_spawn [OF assms(1) None, of pp err supports kind spec]
    by (auto simp: ensure_client_def sbind_def split: prod.splits sum.splits)
next
  case (Some c)
  with assms show ?thesis by (auto simp: ensure_client_def sbind_def)
qed

lemma clean_op:
  assumes "\<And>c. keeps_client c (f c)"
  shows "clean (sbind (ensure_client pp err supports kind spec) (\<lambda>c. or_reset pp (f c)))"
  unfolding clean_def
proof (intro allI impI)
  fix sl :: "'a slot" assume sl: "slot_ok sl"
  obtain res sl1 where e: "ensure_client pp err supports kind spec sl = (res, sl1)" by fastforce
  from slot_ok_ensure [OF sl e] clean_or_reset [OF assms, of sl1 _ pp] e
  show "slot_ok (snd (sbind (ensure_client pp err supports kind spec) (\<lambda>c. or_reset pp (f c)) sl)) \<and>
    (isl (fst (sbind (ensure_client pp err supports kind spec) (\<lambda>c. or_reset pp (f c)) sl)) \<longrightarrow>
     sl_client (snd (sbind (ensure_client pp err supports kind spec) (\<lambda>c. or_reset pp (f c)) sl)) = None)"
    by (cases res) (auto simp: sbind_def)
qed

lemma clean_async_op: "(\<And>c. keeps_client c (f c)) \<Longrightarrow> clean (async_op pp spec f)"
  by (simp add: async_op_def ensure_async_client_def clean_op)

lemma clean_blocking_op: "(\<And>c. keeps_client c (f c)) \<Longrightarrow> clean (blocking_op pp spec f)"
  by (simp add: blocking_op_def ensure_blocking_client_def clean_op)

lemma clean_pure: "clean m \<Longrightarrow> clean (sbind m (\<lambda>x sl. (Inr (g x), sl)))"
  by (fastforce simp: clean_def sbind_def split: prod.splits sum.splits)

text \<open>The operations of steps, triggers, stores and buses on a slot.\<close>

datatype ext_op =
    Op_Pull | Op_Transform rec | Op_Send rec | Op_Flush
  | Op_Start | Op_Trigger_Pull | Op_Stop
  | Op_Load string | Op_Save string json | Op_Delete string | Op_Publish string json

record slot_owner =
  so_async :: async_spec
  so_blocking :: blocking_spec
  so_step :: step_meta
  so_trigger :: trigger_meta
  so_config :: json

definition void :: "('p, 'a) slot_action \<Rightarrow> ('p, unit) slot_action" where
  "void m = sbind m (\<lambda>_ sl. (Inr (), sl))"

fun slot_op :: "'p pipe \<Rightarrow> slot_owner \<Rightarrow> ext_op \<Rightarrow> ('p, unit) slot_action" where
  "slot_op pp so Op_Pull = void (pull_source pp (so_async so) (so_step so) (so_config so))"
| "slot_op pp so (Op_Transform r) = void (stdio_transform pp (so_async so) (so_step so) (so_config so) r)"
| "slot_op pp so (Op_Send r) = stdio_send pp (so_async so) (so_step so) (so_config so) r"
| "slot_op pp so Op_Flush = stdio_flush pp (so_async so) (so_step so) (so_config so)"
| "slot_op pp so Op_Start = stdio_start pp (so_async so) (so_trigger so) (so_config so)"
| "slot_op pp so Op_Trigger_Pull = void (pull_trigger pp (so_async so) (so_trigger so) (so_config so))"
| "slot_op pp so Op_Stop = stdio_stop pp (so_async so) (so_trigger so) (so_config so)"
| "slot_op pp so (Op_Load k) = void (stdio_load pp (so_blocking so) (so_config so) k)"
| "slot_op pp so (Op_Save k v) = stdio_save pp (so_blocking so) (so_config so) k v"
| "slot_op pp so (Op_Delete k) = stdio_delete pp (so_blocking so) (so_config so) k"
| "slot_op pp so (Op_Publish t v) = stdio_publish pp (so_blocking so) (so_config so) t v"

lemma keeps_client_calls:
  "keeps_client c (source_pull pp spec m config c)" "keeps_client c (transform_call pp spec m config r c)"
  "keeps_client c (sink_send pp spec m config r c)" "keeps_client c (sink_flush pp spec m config c)"
  "keeps_client c (trigger_start pp spec tm config c)" "keeps_client c (trigger_pull pp spec tm config c)"
  "keeps_client c (trigger_stop pp spec tm config c)" "keeps_client c (state_load pp bspec config k c)"
  "keeps_client c (state_save pp bspec config k v c)" "keeps_client c (state_delete pp bspec config k c)"
  "keeps_client c (bus_publish pp bspec config k v c)"
  by (simp_all add: source_pull_def transform_call_def sink_send_def sink_flush_def trigger_start_def trigger_pull_def
      trigger_stop_def state_load_def state_save_def state_delete_def bus_publish_def)

lemma keeps_client_pull:
  "keeps_client c (\<lambda>sl. sbind (source_pull pp spec m config c) (\<lambda>p.
     if \<not> pu_done p \<and> pu_records p = [] then rpc_fail e else (\<lambda>sl. (Inr p, sl))) sl)"
  using keeps_client_calls(1) [of c pp spec m config]
  by (fastforce simp: keeps_client_def sbind_def rpc_fail_def split: prod.splits sum.splits)

lemma clean_stop: "clean (stdio_stop pp spec tm config)"
  unfolding clean_def
proof (intro allI impI)
  fix sl :: "'a slot" assume sl: "slot_ok sl"
  show "slot_ok (snd (stdio_stop pp spec tm config sl)) \<and>
      (isl (fst (stdio_stop pp spec tm config sl)) \<longrightarrow> sl_client (snd (stdio_stop pp spec tm config sl)) = None)"
    using sl clean_or_reset [OF keeps_client_calls(7) sl, of _ pp pp spec tm config]
    by (cases "sl_client sl") (auto simp: stdio_stop_def)
qed

lemma clean_load: "clean (stdio_load pp spec config k)"
proof -
  have "clean (blocking_op pp spec (state_load pp spec config k))"
    by (intro clean_blocking_op keeps_client_calls)
  from clean_pure [OF this, of "\<lambda>(found, v). if found then v else None"] show ?thesis
    by (simp add: stdio_load_def split_def)
qed

lemma clean_slot_op: "clean (slot_op pp so op)"
  by (cases op)
    (auto simp: void_def pull_source_def pull_trigger_def stdio_transform_def stdio_send_def stdio_flush_def stdio_start_def
      stdio_save_def stdio_delete_def stdio_publish_def clean_stop clean_load
      intro!: clean_pure clean_async_op clean_blocking_op keeps_client_calls keeps_client_pull)

lemma slot_op_ok: "slot_ok sl \<Longrightarrow> slot_ok (snd (slot_op pp so op sl))"
  using clean_slot_op [of pp so op] by (simp add: clean_def)

text \<open>
  Extension processes do not leak.  After any sequence of operations on the slot of a step, a
  trigger, a store or a bus, whatever the operating system and the child answer: at most one
  child runs, one runs exactly when the slot has a client, the child was sent the request ids
  1, 2, 3 and so on in order, and after an operation that failed no child runs.
\<close>

theorem extension_one_child:
  fixes so w ops and pp :: "'p pipe"
  defines "sl \<equiv> fold (\<lambda>op sl. snd (slot_op pp so op sl)) ops (fresh_slot w)"
  shows "length (sl_alive sl) \<le> 1 \<and> (sl_client sl = None \<longleftrightarrow> sl_alive sl = []) \<and>
    (\<forall>c. sl_client sl = Some c \<longrightarrow> sl_alive sl = [cl_child c] \<and> sl_sent sl = [1..<cl_next c]) \<and>
    (\<forall>op. isl (fst (slot_op pp so op sl)) \<longrightarrow> sl_alive (snd (slot_op pp so op sl)) = [])"
proof -
  have "slot_ok sl' \<Longrightarrow> slot_ok (fold (\<lambda>op sl. snd (slot_op pp so op sl)) ops sl')" for sl'
    by (induction ops arbitrary: sl') (auto simp: slot_op_ok)
  then have ok: "slot_ok sl" by (simp add: sl_def)
  have "sl_alive (snd (slot_op pp so op sl)) = []" if "isl (fst (slot_op pp so op sl))" for op
    using clean_slot_op [of pp so op] ok that by (fastforce simp: clean_def slot_ok_def split: option.splits)
  with ok show ?thesis by (auto simp: slot_ok_def split: option.splits)
qed

section \<open>The stream of a source\<close>

text \<open>
  What a source's child answers from a slot on: batches of records, and then either the end (with
  the last batch) or an error.
\<close>

inductive pulls ::
    "'p pipe \<Rightarrow> async_spec \<Rightarrow> step_meta \<Rightarrow> json \<Rightarrow> 'p slot \<Rightarrow> rec list list \<Rightarrow> error option \<Rightarrow> 'p slot \<Rightarrow> bool"
  for pp spec m config where
  Last: "pull_source pp spec m config sl = (Inr p, sl1) \<Longrightarrow> pu_done p \<Longrightarrow>
    pulls pp spec m config sl [pu_records p] None sl1"
| More: "pull_source pp spec m config sl = (Inr p, sl1) \<Longrightarrow> \<not> pu_done p \<Longrightarrow> pulls pp spec m config sl1 bs e sl2 \<Longrightarrow>
    pulls pp spec m config sl (pu_records p # bs) e sl2"
| Failed: "pull_source pp spec m config sl = (Inl e, sl1) \<Longrightarrow> pulls pp spec m config sl [] (Some e) sl1"

lemma pull_source_progress:
  assumes "pull_source pp spec m config sl = (Inr p, sl1)" "\<not> pu_done p"
  shows "pu_records p \<noteq> []"
proof
  assume "pu_records p = []"
  with assms show False
    by (auto simp: pull_source_def async_op_def sbind_def or_reset_def rpc_fail_def split: prod.splits sum.splits if_splits)
qed

lemma next_source_buffered:
  "next_source_record (Suc n) pp spec m config \<lparr>ss_buffered = r # rs, ss_finished = f\<rparr> sl =
     Some (Inr (Some (r, \<lparr>ss_buffered = rs, ss_finished = f\<rparr>)), sl)"
  by simp

lemma source_items_pull:
  "source_items (Suc n) pp spec m config \<lparr>ss_buffered = [], ss_finished = False\<rparr> sl =
     (case pull_source pp spec m config sl of
        (Inl e, sl1) \<Rightarrow> ([Inl e], sl1)
      | (Inr p, sl1) \<Rightarrow> source_items (Suc n) pp spec m config \<lparr>ss_buffered = pu_records p, ss_finished = pu_done p\<rparr> sl1)"
  using pull_source_progress [of pp spec m config sl]
  by (auto simp: numeral_2_eq_2 split: prod.splits sum.splits list.splits)

lemma source_items_finished:
  "length rs < n \<Longrightarrow> source_items n pp spec m config \<lparr>ss_buffered = rs, ss_finished = True\<rparr> sl = (map Inr rs, sl)"
  by (induction rs arbitrary: n; case_tac n) (auto simp: numeral_2_eq_2)

lemma source_items_buffered:
  assumes "length rs < n"
  shows "source_items n pp spec m config \<lparr>ss_buffered = rs, ss_finished = False\<rparr> sl =
    (let (items, sl1) = source_items (n - length rs) pp spec m config \<lparr>ss_buffered = [], ss_finished = False\<rparr> sl
     in (map Inr rs @ items, sl1))"
  using assms
proof (induction rs arbitrary: n)
  case (Cons r rs)
  then obtain n' where n: "n = Suc n'" "length rs < n'" by (cases n) auto
  with Cons.IH [of n'] show ?case by (auto simp: numeral_2_eq_2 Let_def split: prod.splits)
qed simp

text \<open>
  C28. The stream of an extension source is what the child answered: all records of all batches,
  in order and each once, then the error if there was one, and nothing after it; every element
  of the stream takes at most one pull.
\<close>

theorem source_stream_exact:
  assumes "pulls pp spec m config sl bs e sl'" "length (concat bs) + 1 < n"
  shows "source_items n pp spec m config stream_start sl =
    (map Inr (concat bs) @ (case e of None \<Rightarrow> [] | Some e \<Rightarrow> [Inl e]), sl')"
  using assms
proof (induction arbitrary: n rule: pulls.induct)
  case (Last sl p sl1)
  then obtain n' where "n = Suc n'" by (cases n) auto
  with Last show ?case by (simp add: stream_start_def source_items_pull source_items_finished del: source_items.simps)
next
  case (More sl p sl1 bs e sl2)
  then obtain n' where n: "n = Suc n'" by (cases n) auto
  from More.prems have "length (concat bs) + 1 < n - length (pu_records p)" by simp
  note rest = More.IH [OF this]
  have "source_items n pp spec m config stream_start sl =
      source_items n pp spec m config \<lparr>ss_buffered = pu_records p, ss_finished = False\<rparr> sl1"
    using More.hyps by (simp add: n stream_start_def source_items_pull del: source_items.simps)
  also have "\<dots> = (let (items, sl2) = source_items (n - length (pu_records p)) pp spec m config
      \<lparr>ss_buffered = [], ss_finished = False\<rparr> sl1 in (map Inr (pu_records p) @ items, sl2))"
    by (rule source_items_buffered) (use More.prems in simp)
  finally show ?case using rest by (simp add: stream_start_def)
next
  case (Failed sl e sl1)
  then obtain n' where "n = Suc n'" by (cases n) auto
  with Failed show ?case by (simp add: stream_start_def source_items_pull del: source_items.simps)
qed

lemma next_source_total: "next_source_record (Suc (Suc n)) pp spec m config st sl \<noteq> None"
proof (cases "ss_buffered st")
  case Nil
  obtain res sl1 where p: "pull_source pp spec m config sl = (res, sl1)" by fastforce
  show ?thesis
  proof (cases res)
    case (Inl e)
    then show ?thesis by (simp add: Nil p)
  next
    case (Inr x)
    then have "\<not> pu_done x \<Longrightarrow> pu_records x \<noteq> []" using pull_source_progress p by blast
    then show ?thesis by (cases "pu_records x"; cases "pu_done x") (simp_all add: Nil p Inr)
  qed
next
  case (Cons r rs)
  then show ?thesis by simp
qed

end
