(* ===== verification/Extension_Server.thy ===== *)
theory Extension_Server
  imports Extension_Props
begin

text \<open>
  The extension programs that come with the repository (\<^verbatim>\<open>sohara-builtin-extensions/src/\<close>): the
  request loop (\<^verbatim>\<open>lib.rs\<close>), the SQLite store, bus and trigger and the Redis store and bus
  (\<^verbatim>\<open>bin/\<close>).  The SQL engine with its database files and the Redis server are the parameters \<open>'d sql\<close>
  and \<open>'d redis\<close>; the text of an error is what \<^verbatim>\<open>anyhow\<close> prints.
\<close>

section \<open>The request loop\<close>

type_synonym 's handler = "string \<Rightarrow> json \<Rightarrow> 's \<Rightarrow> (string + json) \<times> 's"

definition request_spec :: struct_spec where
  "request_spec = [(''id'', True, chk is_usize), (''method'', True, chk is_string), (''params'', False, chk_any)]"

definition success_json :: "nat \<Rightarrow> json \<Rightarrow> json" where
  "success_json i r = JObject [(''jsonrpc'', JString ''2.0''), (''id'', json_nat i), (''result'', r)]"

definition failure_json :: "nat \<Rightarrow> string \<Rightarrow> json" where
  "failure_json i text =
     JObject [(''jsonrpc'', JString ''2.0''), (''id'', json_nat i),
       (''error'', JObject [(''code'', JNumber (NegInt (- 32000))), (''message'', JString text)])]"

text \<open>One turn of \<^verbatim>\<open>run_loop\<close>: a line that is not a request ends the program.\<close>

definition serve_line :: "'s handler \<Rightarrow> json \<Rightarrow> 's \<Rightarrow> json option \<times> 's" where
  "serve_line handle v s =
     (case decode_open request_spec v of
        Inl _ \<Rightarrow> (None, s)
      | Inr m \<Rightarrow>
          (let i = req_field usize_of m ''id'';
               (res, s1) = handle (req_field str_of m ''method'') (req_field id m ''params'') s
           in (Some (case res of Inl text \<Rightarrow> failure_json i text | Inr r \<Rightarrow> success_json i r), s1)))"

definition capabilities_json :: "capabilities \<Rightarrow> json" where
  "capabilities_json c =
     JObject (map (\<lambda>f. (f, JBool True)) (map fst (filter snd (zip capability_fields
       [cap_source c, cap_transform c, cap_sink c, cap_trigger c, cap_state_store c, cap_event_bus c]))))"

definition initialize_result :: "capabilities \<Rightarrow> json" where
  "initialize_result c = JObject [(''protocol'', JString ''sohara.stdio/v1''), (''capabilities'', capabilities_json c)]"

section \<open>Parameters of a request\<close>

definition member :: "json \<Rightarrow> string \<Rightarrow> json option" where
  "member v k = (case v of JObject m \<Rightarrow> im_get m k | _ \<Rightarrow> None)"

definition member_str :: "json \<Rightarrow> string \<Rightarrow> string option" where
  "member_str v k = (case member v k of Some (JString s) \<Rightarrow> Some s | _ \<Rightarrow> None)"

definition member_nat :: "json \<Rightarrow> string \<Rightarrow> nat option" where
  "member_nat v k = (case member v k of Some n \<Rightarrow> if is_usize n then Some (usize_of n) else None | None \<Rightarrow> None)"

definition need :: "string \<Rightarrow> 'a option \<Rightarrow> string + 'a" where
  "need text v = (case v of None \<Rightarrow> Inl text | Some x \<Rightarrow> Inr x)"

definition param_config :: "json \<Rightarrow> string + json" where
  "param_config params =
     (case member params ''config'' of Some (JObject m) \<Rightarrow> Inr (JObject m) | _ \<Rightarrow> Inl ''missing config'')"

definition config_path :: "json \<Rightarrow> string + string" where
  "config_path config = need ''config.path is required'' (member_str config ''path'')"

definition empty_json :: json where
  "empty_json = JObject []"

fun load_json :: "json option \<Rightarrow> json" where
  "load_json (Some v) = JObject [(''found'', JBool True), (''value'', v)]"
| "load_json None = JObject [(''found'', JBool False), (''value'', JNull)]"

section \<open>SQLite\<close>

record 'd sql =
  sq_open :: "string \<Rightarrow> 'd \<Rightarrow> (string + unit) \<times> 'd"
  sq_table :: "string \<Rightarrow> string \<Rightarrow> 'd \<Rightarrow> (string + unit) \<times> 'd"
  sq_select :: "string \<Rightarrow> string \<Rightarrow> 'd \<Rightarrow> string + string option"
  sq_upsert :: "string \<Rightarrow> string \<Rightarrow> string \<Rightarrow> 'd \<Rightarrow> (string + unit) \<times> 'd"
  sq_delete :: "string \<Rightarrow> string \<Rightarrow> 'd \<Rightarrow> (string + unit) \<times> 'd"
  sq_insert :: "string \<Rightarrow> string \<Rightarrow> string \<Rightarrow> 'd \<Rightarrow> (string + unit) \<times> 'd"
  sq_events :: "string \<Rightarrow> int \<Rightarrow> string \<Rightarrow> nat \<Rightarrow> 'd \<Rightarrow> string + (int \<times> string \<times> string) list"
  sq_print :: "json \<Rightarrow> string"
  sq_parse :: "string \<Rightarrow> string + json"
  sq_show :: "int \<Rightarrow> string"

record sqlite_state =
  tr_last_id :: int
  tr_stopped :: bool

definition sqlite_start :: sqlite_state where
  "sqlite_start = \<lparr>tr_last_id = 0, tr_stopped = False\<rparr>"

text \<open>The database file with one of its tables: \<^verbatim>\<open>Connection::open\<close>, then \<^verbatim>\<open>create table if not exists\<close>.\<close>

definition with_table :: "'d sql \<Rightarrow> string \<Rightarrow> string \<Rightarrow> ('d \<Rightarrow> (string + json) \<times> 'd) \<Rightarrow> 'd \<Rightarrow> (string + json) \<times> 'd" where
  "with_table sq path table f d =
     (case sq_open sq path d of
        (Inl e, d1) \<Rightarrow> (Inl e, d1)
      | (Inr _, d1) \<Rightarrow> (case sq_table sq path table d1 of (Inl e, d2) \<Rightarrow> (Inl e, d2) | (Inr _, d2) \<Rightarrow> f d2))"

definition done_json :: "(string + unit) \<times> 'd \<Rightarrow> (string + json) \<times> 'd" where
  "done_json r = (rbind (fst r) (\<lambda>_. Inr empty_json), snd r)"

text \<open>What the requests on the store need: configuration, database path and key.\<close>

definition path_of :: "json \<Rightarrow> string + string" where
  "path_of params = rbind (param_config params) config_path"

definition path_and :: "json \<Rightarrow> string \<Rightarrow> string + string \<times> string" where
  "path_and params k =
     rbind (path_of params) (\<lambda>path. rbind (need (''missing '' @ k) (member_str params k)) (\<lambda>x. Inr (path, x)))"

definition sqlite_load :: "'d sql \<Rightarrow> json \<Rightarrow> 'd \<Rightarrow> (string + json) \<times> 'd" where
  "sqlite_load sq params d =
     (case path_and params ''key'' of
        Inl e \<Rightarrow> (Inl e, d)
      | Inr (path, key) \<Rightarrow>
          with_table sq path ''state_store'' (\<lambda>d.
            (rbind (sq_select sq path key d) (\<lambda>row.
               case row of
                 None \<Rightarrow> Inr (load_json None)
               | Some text \<Rightarrow> rbind (sq_parse sq text) (\<lambda>v. Inr (load_json (Some v)))), d)) d)"

definition sqlite_save :: "'d sql \<Rightarrow> json \<Rightarrow> 'd \<Rightarrow> (string + json) \<times> 'd" where
  "sqlite_save sq params d =
     (case path_and params ''key'' of
        Inl e \<Rightarrow> (Inl e, d)
      | Inr (path, key) \<Rightarrow>
          (case member params ''value'' of
             None \<Rightarrow> (Inl ''missing value'', d)
           | Some v \<Rightarrow> with_table sq path ''state_store'' (\<lambda>d. done_json (sq_upsert sq path key (sq_print sq v) d)) d))"

definition sqlite_delete :: "'d sql \<Rightarrow> json \<Rightarrow> 'd \<Rightarrow> (string + json) \<times> 'd" where
  "sqlite_delete sq params d =
     (case path_and params ''key'' of
        Inl e \<Rightarrow> (Inl e, d)
      | Inr (path, key) \<Rightarrow> with_table sq path ''state_store'' (\<lambda>d. done_json (sq_delete sq path key d)) d)"

definition sqlite_publish :: "'d sql \<Rightarrow> json \<Rightarrow> 'd \<Rightarrow> (string + json) \<times> 'd" where
  "sqlite_publish sq params d =
     (case path_and params ''topic'' of
        Inl e \<Rightarrow> (Inl e, d)
      | Inr (path, topic) \<Rightarrow>
          (case member params ''payload'' of
             None \<Rightarrow> (Inl ''missing payload'', d)
           | Some v \<Rightarrow> with_table sq path ''event_bus'' (\<lambda>d. done_json (sq_insert sq path topic (sq_print sq v) d)) d))"

definition sqlite_time :: "string \<Rightarrow> string" where
  "sqlite_time s = (if CHR ''T'' \<in> set s then s else map (\<lambda>c. if c = CHR '' '' then CHR ''T'' else c) s @ ''Z'')"

definition event_json :: "'d sql \<Rightarrow> int \<Rightarrow> string \<Rightarrow> json \<Rightarrow> json" where
  "event_json sq i time v =
     JObject [(''id'', JString (''sqlite-'' @ sq_show sq i)), (''timestamp'', JString (sqlite_time time)),
       (''payload'', v), (''metadata'', JObject [])]"

text \<open>The rows of a pull: the cursor moves before the payload is read.\<close>

fun pull_rows :: "'d sql \<Rightarrow> (int \<times> string \<times> string) list \<Rightarrow> sqlite_state \<Rightarrow> (string + json list) \<times> sqlite_state" where
  "pull_rows sq [] ts = (Inr [], ts)"
| "pull_rows sq ((i, text, time) # rows) ts =
     (case sq_parse sq text of
        Inl e \<Rightarrow> (Inl e, ts\<lparr>tr_last_id := i\<rparr>)
      | Inr v \<Rightarrow>
          (case pull_rows sq rows (ts\<lparr>tr_last_id := i\<rparr>) of
             (Inl e, ts1) \<Rightarrow> (Inl e, ts1)
           | (Inr vs, ts1) \<Rightarrow> (Inr (event_json sq i time v # vs), ts1)))"

definition pull_json :: "json list \<Rightarrow> bool \<Rightarrow> json" where
  "pull_json vs fin = JObject [(''records'', JArray vs), (''done'', JBool fin)]"

definition topic_of :: "json \<Rightarrow> string" where
  "topic_of config = (case member_str config ''topic'' of None \<Rightarrow> ''default'' | Some t \<Rightarrow> t)"

definition batch_size_of :: "json \<Rightarrow> nat" where
  "batch_size_of config = (case member_nat config ''batch_size'' of None \<Rightarrow> 64 | Some n \<Rightarrow> n)"

definition sqlite_pull :: "'d sql \<Rightarrow> json \<Rightarrow> sqlite_state \<times> 'd \<Rightarrow> (string + json) \<times> sqlite_state \<times> 'd" where
  "sqlite_pull sq params s =
     (let (ts, d) = s in
      if tr_stopped ts then (Inr (pull_json [] True), ts, d)
      else
        (case rbind (param_config params) (\<lambda>config. rbind (config_path config) (\<lambda>path. Inr (config, path))) of
           Inl e \<Rightarrow> (Inl e, ts, d)
         | Inr (config, path) \<Rightarrow>
             (case with_table sq path ''event_bus'' (\<lambda>d. (Inr JNull, d)) d of
                (Inl e, d1) \<Rightarrow> (Inl e, ts, d1)
              | (Inr _, d1) \<Rightarrow>
                  (case sq_events sq path (tr_last_id ts) (topic_of config) (batch_size_of config) d1 of
                     Inl e \<Rightarrow> (Inl e, ts, d1)
                   | Inr rows \<Rightarrow>
                       (let (res, ts1) = pull_rows sq rows ts in (rbind res (\<lambda>vs. Inr (pull_json vs False)), ts1, d1))))))"

definition on_data :: "('d \<Rightarrow> (string + json) \<times> 'd) \<Rightarrow> 's \<times> 'd \<Rightarrow> (string + json) \<times> 's \<times> 'd" where
  "on_data f s = (let (res, d) = f (snd s) in (res, fst s, d))"

definition sqlite_capabilities :: capabilities where
  "sqlite_capabilities = no_capabilities\<lparr>cap_trigger := True, cap_state_store := True, cap_event_bus := True\<rparr>"

definition sqlite_handle :: "'d sql \<Rightarrow> (sqlite_state \<times> 'd) handler" where
  "sqlite_handle sq meth params s =
     (if meth = ''initialize'' then (Inr (initialize_result sqlite_capabilities), s)
      else if meth = ''state.load'' then on_data (sqlite_load sq params) s
      else if meth = ''state.save'' then on_data (sqlite_save sq params) s
      else if meth = ''state.delete'' then on_data (sqlite_delete sq params) s
      else if meth = ''bus.publish'' then on_data (sqlite_publish sq params) s
      else if meth = ''trigger.start'' then (Inr empty_json, (fst s)\<lparr>tr_stopped := False\<rparr>, snd s)
      else if meth = ''trigger.pull'' then sqlite_pull sq params s
      else if meth = ''trigger.stop'' then (Inr empty_json, (fst s)\<lparr>tr_stopped := True\<rparr>, snd s)
      else (Inl (''unknown method: '' @ meth), s))"

section \<open>Redis\<close>

record 'd redis =
  rd_connect :: "string \<Rightarrow> 'd \<Rightarrow> (string + unit) \<times> 'd"
  rd_get :: "string \<Rightarrow> string \<Rightarrow> 'd \<Rightarrow> string + string option"
  rd_set :: "string \<Rightarrow> string \<Rightarrow> string \<Rightarrow> 'd \<Rightarrow> (string + unit) \<times> 'd"
  rd_del :: "string \<Rightarrow> string \<Rightarrow> 'd \<Rightarrow> (string + unit) \<times> 'd"
  rd_publish :: "string \<Rightarrow> string \<Rightarrow> string \<Rightarrow> 'd \<Rightarrow> (string + unit) \<times> 'd"
  rd_print :: "json \<Rightarrow> string"
  rd_parse :: "string \<Rightarrow> string + json"
  rd_show :: "nat \<Rightarrow> string"

definition or_default :: "'a \<Rightarrow> 'a option \<Rightarrow> 'a" where
  "or_default x v = (case v of None \<Rightarrow> x | Some y \<Rightarrow> y)"

definition redis_url :: "'d redis \<Rightarrow> json \<Rightarrow> string" where
  "redis_url rd config =
     (case member_str config ''url'' of
        Some url \<Rightarrow> url
      | None \<Rightarrow>
          ''redis://'' @ or_default ''127.0.0.1'' (member_str config ''host'') @ '':'' @
          rd_show rd (or_default 6379 (member_nat config ''port'')) @ ''/'' @
          rd_show rd (or_default 0 (member_nat config ''db'')))"

definition redis_key :: "json \<Rightarrow> json \<Rightarrow> string + string" where
  "redis_key config params =
     rbind (need ''missing key'' (member_str params ''key''))
       (\<lambda>k. Inr (or_default ''sohara:'' (member_str config ''prefix'') @ k))"

definition redis_topic :: "json \<Rightarrow> json \<Rightarrow> string + string" where
  "redis_topic config params =
     rbind (need ''missing topic'' (member_str params ''topic''))
       (\<lambda>t. Inr (or_default [] (member_str config ''channel_prefix'') @ t))"

definition config_and :: "json \<Rightarrow> (json \<Rightarrow> json \<Rightarrow> string + string) \<Rightarrow> string + json \<times> string" where
  "config_and params f = rbind (param_config params) (\<lambda>config. rbind (f config params) (\<lambda>x. Inr (config, x)))"

definition with_redis :: "'d redis \<Rightarrow> json \<Rightarrow> (string \<Rightarrow> 'd \<Rightarrow> (string + json) \<times> 'd) \<Rightarrow> 'd \<Rightarrow> (string + json) \<times> 'd" where
  "with_redis rd config f d =
     (let url = redis_url rd config in
      case rd_connect rd url d of (Inl e, d1) \<Rightarrow> (Inl e, d1) | (Inr _, d1) \<Rightarrow> f url d1)"

definition redis_load :: "'d redis \<Rightarrow> json \<Rightarrow> 'd \<Rightarrow> (string + json) \<times> 'd" where
  "redis_load rd params d =
     (case config_and params redis_key of
        Inl e \<Rightarrow> (Inl e, d)
      | Inr (config, key) \<Rightarrow>
          with_redis rd config (\<lambda>url d.
            (rbind (rd_get rd url key d) (\<lambda>row.
               case row of
                 None \<Rightarrow> Inr (load_json None)
               | Some text \<Rightarrow> rbind (rd_parse rd text) (\<lambda>v. Inr (load_json (Some v)))), d)) d)"

definition redis_save :: "'d redis \<Rightarrow> json \<Rightarrow> 'd \<Rightarrow> (string + json) \<times> 'd" where
  "redis_save rd params d =
     (case config_and params redis_key of
        Inl e \<Rightarrow> (Inl e, d)
      | Inr (config, key) \<Rightarrow>
          (case member params ''value'' of
             None \<Rightarrow> (Inl ''missing value'', d)
           | Some v \<Rightarrow> with_redis rd config (\<lambda>url d. done_json (rd_set rd url key (rd_print rd v) d)) d))"

definition redis_delete :: "'d redis \<Rightarrow> json \<Rightarrow> 'd \<Rightarrow> (string + json) \<times> 'd" where
  "redis_delete rd params d =
     (case config_and params redis_key of
        Inl e \<Rightarrow> (Inl e, d)
      | Inr (config, key) \<Rightarrow> with_redis rd config (\<lambda>url d. done_json (rd_del rd url key d)) d)"

definition redis_publish :: "'d redis \<Rightarrow> json \<Rightarrow> 'd \<Rightarrow> (string + json) \<times> 'd" where
  "redis_publish rd params d =
     (case config_and params redis_topic of
        Inl e \<Rightarrow> (Inl e, d)
      | Inr (config, topic) \<Rightarrow>
          (case member params ''payload'' of
             None \<Rightarrow> (Inl ''missing payload'', d)
           | Some v \<Rightarrow> with_redis rd config (\<lambda>url d. done_json (rd_publish rd url topic (rd_print rd v) d)) d))"

definition redis_capabilities :: capabilities where
  "redis_capabilities = no_capabilities\<lparr>cap_state_store := True, cap_event_bus := True\<rparr>"

definition redis_handle :: "'d redis \<Rightarrow> (unit \<times> 'd) handler" where
  "redis_handle rd meth params s =
     (if meth = ''initialize'' then (Inr (initialize_result redis_capabilities), s)
      else if meth = ''state.load'' then on_data (redis_load rd params) s
      else if meth = ''state.save'' then on_data (redis_save rd params) s
      else if meth = ''state.delete'' then on_data (redis_delete rd params) s
      else if meth = ''bus.publish'' then on_data (redis_publish rd params) s
      else (Inl (''unknown method: '' @ meth), s))"

section \<open>Programs as child processes\<close>

text \<open>
  The operating system with such programs: children by handle, each with its own state and perhaps
  a request line it has not read yet, around shared data.  A child that left its loop is gone.  Each
  call for a child has a number, \<open>ps_ops\<close>, and \<open>trouble\<close> says what befalls it: the program cannot be
  started, or the child dies before it has done its work, or after it but before its reply arrives.
\<close>

record 's child =
  ch_state :: 's
  ch_line :: "json option"

record ('s, 'd) processes =
  ps_children :: "nat \<Rightarrow> 's child option"
  ps_next :: nat
  ps_data :: 'd
  ps_ops :: nat

datatype trouble = Fine | Dies_Early | Dies_Late

definition program_read :: "('s \<times> 'd) handler \<Rightarrow> nat \<Rightarrow> ('s, 'd) processes \<Rightarrow> (string + (string + json) option) \<times> ('s, 'd) processes" where
  "program_read handle h w =
     (case ps_children w h of
        None \<Rightarrow> (Inr None, w)
      | Some ch \<Rightarrow>
          (case ch_line ch of
             None \<Rightarrow> (Inr None, w)
           | Some v \<Rightarrow>
               (case serve_line handle v (ch_state ch, ps_data w) of
                  (None, s, d) \<Rightarrow> (Inr None, w\<lparr>ps_children := (ps_children w)(h := None), ps_data := d\<rparr>)
                | (Some reply, s, d) \<Rightarrow>
                    (Inr (Some (Inr reply)),
                     w\<lparr>ps_children := (ps_children w)(h \<mapsto> \<lparr>ch_state = s, ch_line = None\<rparr>), ps_data := d\<rparr>))))"

definition bury :: "nat \<Rightarrow> ('s, 'd) processes \<Rightarrow> ('s, 'd) processes" where
  "bury h w = w\<lparr>ps_children := (ps_children w)(h := None)\<rparr>"

definition count_call :: "('s, 'd) processes \<Rightarrow> ('s, 'd) processes" where
  "count_call w = w\<lparr>ps_ops := ps_ops w + 1\<rparr>"

definition program_pipe ::
    "(nat \<Rightarrow> trouble) \<Rightarrow> ('s \<times> 'd) handler \<Rightarrow> 's \<Rightarrow> (ext_msg \<Rightarrow> string) \<Rightarrow> (string \<Rightarrow> string option) \<Rightarrow> ('s, 'd) processes pipe" where
  "program_pipe trouble handle init text time =
     \<lparr>pp_spawn = (\<lambda>spec w. case trouble (ps_ops w) of
          Fine \<Rightarrow> (Inr (ps_next w), count_call
            (w\<lparr>ps_children := (ps_children w)(ps_next w \<mapsto> \<lparr>ch_state = init, ch_line = None\<rparr>), ps_next := ps_next w + 1\<rparr>))
        | _ \<Rightarrow> (Inl ''cannot start'', count_call w)),
      pp_write = (\<lambda>h v w. case ps_children w h of
          None \<Rightarrow> (Inl ''broken pipe'', w)
        | Some ch \<Rightarrow>
            if trouble (ps_ops w) = Fine
            then (Inr (), count_call (w\<lparr>ps_children := (ps_children w)(h \<mapsto> ch\<lparr>ch_line := Some v\<rparr>)\<rparr>))
            else (Inl ''broken pipe'', count_call (bury h w))),
      pp_flush = (\<lambda>h w. (Inr (), w)),
      pp_read = (\<lambda>h w. case trouble (ps_ops w) of
          Fine \<Rightarrow> program_read handle h (count_call w)
        | Dies_Early \<Rightarrow> (Inr None, count_call (bury h w))
        | Dies_Late \<Rightarrow> (Inr None, bury h (snd (program_read handle h (count_call w))))),
      pp_kill = bury,
      pp_text = text, pp_time = time\<rparr>"

end
