(* ===== verification/Extension_Store.thy ===== *)
theory Extension_Store
  imports Extension_Server "HOL-Library.Sublist"
begin

text \<open>
  The host's store over an extension process, end to end: the contract between the host and a
  store extension as a locale, the client's refinement of a map proved from it, and the SQLite and
  Redis programs as providers.
\<close>

section \<open>Replies\<close>

lemma req_field_simps [simp]:
  "req_field f ((k, v) # m) k' = (if k = k' then f v else req_field f m k')"
  by (simp add: req_field_def)

lemma decode_request:
  assumes "int i \<le> u64_max"
  shows "serve_line handle (rpc_json i meth params) s =
    (let (res, s1) = handle meth params s
     in (Some (case res of Inl text \<Rightarrow> failure_json i text | Inr r \<Rightarrow> success_json i r), s1))"
  using assms
  by (simp add: serve_line_def rpc_json_def request_spec_def decode_open_def decode_struct_def missing_field_def chk_def
      chk_any_def json_nat_def im_contains_def)

lemma decode_success:
  assumes "int i \<le> u64_max" "r \<noteq> JNull"
  shows "decode_response dec (success_json i r) =
    (case dec r of Inl e \<Rightarrow> Inl e
     | Inr x \<Rightarrow> Inr \<lparr>rs_jsonrpc = ''2.0'', rs_id = i, rs_result = Some x, rs_error = None\<rparr>)"
  using assms
  by (simp add: decode_response_def success_json_def response_spec_def decode_open_def decode_struct_def missing_field_def
      chk_def chk_dec_def chk_opt_def json_nat_def im_contains_def opt_field_def split: sum.splits)

lemma decode_failure:
  assumes "int i \<le> u64_max"
  shows "decode_response dec (failure_json i text) =
    Inr \<lparr>rs_jsonrpc = ''2.0'', rs_id = i, rs_result = None, rs_error = Some (- 32000, text)\<rparr>"
  using assms
  by (simp add: decode_response_def failure_json_def response_spec_def decode_open_def decode_struct_def missing_field_def
      chk_def chk_dec_def chk_opt_def json_nat_def im_contains_def opt_field_def rpc_error_of_def rpc_error_spec_def)

text \<open>A null is not distinguished from an absent entry on the way back.\<close>

definition visible :: "json option \<Rightarrow> json option" where
  "visible v = (if v = Some JNull then None else v)"

lemma decode_load_json: "\<exists>found v. decode_load (load_json x) = Inr (found, v) \<and> (if found then v else None) = visible x"
  by (cases x) (auto simp: decode_load_def decode_open_def decode_struct_def missing_field_def chk_def chk_any_def
      im_contains_def opt_field_def visible_def)

lemma decode_empty_json [simp]: "decode_empty empty_json = Inr ()"
  by (simp add: decode_empty_def empty_json_def decode_open_def decode_struct_def missing_field_def)

lemma json_not_null [simp]: "load_json x \<noteq> JNull" "empty_json \<noteq> JNull" "initialize_result c \<noteq> JNull"
  by (cases x) (simp_all add: empty_json_def initialize_result_def)

section \<open>Contract\<close>

text \<open>
  \<open>answers\<close>: a running child answers the request with a result that \<open>ok\<close> relates to what is
  visible before and after, or with an error that changes nothing, and it keeps running; where processes
  are \<open>faulty\<close>, it may also die without a reply, before or after its work.
\<close>

definition answers ::
    "'p pipe \<Rightarrow> bool \<Rightarrow> (nat \<Rightarrow> 'p \<Rightarrow> bool) \<Rightarrow> ('p \<Rightarrow> 't) \<Rightarrow> string \<Rightarrow> json \<Rightarrow> ('t \<Rightarrow> json \<Rightarrow> 't \<Rightarrow> bool) \<Rightarrow> bool" where
  "answers pp faulty up view meth params ok \<longleftrightarrow>
     (\<forall>c w i err. up c w \<longrightarrow> int i \<le> u64_max \<longrightarrow>
        (\<exists>reply w1. exchange pp err meth c (rpc_json i meth params) w = (Inr (Some (Inr reply)), w1) \<and> up c w1 \<and>
           ((\<exists>r. reply = success_json i r \<and> ok (view w) r (view w1)) \<or>
            (\<exists>text. reply = failure_json i text \<and> view w1 = view w))) \<or>
        (faulty \<and> (\<exists>x w1. exchange pp err meth c (rpc_json i meth params) w = (x, w1) \<and> (\<forall>r. x \<noteq> Inr (Some r)) \<and>
           (view w1 = view w \<or> (\<exists>r. ok (view w) r (view w1))))))"

lemma rpc_answer:
  assumes "answers pp faulty up view meth params ok" "up (cl_child c) (sl_world sl)" "int (cl_next c) \<le> u64_max"
    and "\<And>t r t1. ok t r t1 \<Longrightarrow> r \<noteq> JNull"
    and "rpc_call pp err dec meth name params c sl = (res, sl1)"
  shows "sl_client sl1 = Some (c\<lparr>cl_next := cl_next c + 1\<rparr>) \<and> (isl res \<or> up (cl_child c) (sl_world sl1)) \<and>
    ((\<exists>r. ok (view (sl_world sl)) r (view (sl_world sl1)) \<and> (case dec r of Inl e \<Rightarrow> isl res | Inr x \<Rightarrow> res = Inr x)) \<or>
     isl res \<and> view (sl_world sl1) = view (sl_world sl) \<or>
     faulty \<and> isl res \<and> (\<exists>r. ok (view (sl_world sl)) r (view (sl_world sl1))))"
proof -
  let ?i = "cl_next c" and ?w = "sl_world sl"
  let ?x = "exchange pp err meth (cl_child c) (rpc_json ?i meth params) ?w"
  from assms(1) [unfolded answers_def, rule_format, OF assms(2,3), of err] show ?thesis
  proof (elim disjE exE conjE)
    fix reply w1 r assume x: "?x = (Inr (Some (Inr reply)), w1)" "up (cl_child c) w1"
      and r: "reply = success_json ?i r" "ok (view ?w) r (view w1)"
    have res: "res = rbind (check_reply err dec meth ?i (Some (Inr reply))) (take_result err meth name)"
      and sl1: "sl_world sl1 = w1" "sl_client sl1 = Some (c\<lparr>cl_next := cl_next c + 1\<rparr>)"
      using assms(5) x(1) by (auto simp: rpc_call_def rpc_request_def)
    have "case dec r of Inl e \<Rightarrow> isl res | Inr x \<Rightarrow> res = Inr x"
      using decode_success [OF assms(3) assms(4) [OF r(2)], of dec]
      by (cases "dec r") (simp_all add: res r(1) check_reply_def take_result_def)
    with r(2) sl1 x(2) show ?thesis by auto
  next
    fix reply w1 msg assume x: "?x = (Inr (Some (Inr reply)), w1)" "up (cl_child c) w1"
      and r: "reply = failure_json ?i msg" "view w1 = view ?w"
    then show ?thesis using assms(5) decode_failure [OF assms(3), of dec]
      by (auto simp: rpc_call_def rpc_request_def check_reply_def take_result_def)
  next
    fix x w1 assume "?x = (x, w1)" "\<forall>r. x \<noteq> Inr (Some r)" "view w1 = view ?w"
    with assms(5) show ?thesis by (cases x; cases "projr x") (auto simp: rpc_call_def rpc_request_def check_reply_def)
  next
    fix x w1 r assume "?x = (x, w1)" "\<forall>r. x \<noteq> Inr (Some r)" "faulty" "ok (view ?w) r (view w1)"
    with assms(5) show ?thesis by (cases x; cases "projr x") (auto simp: rpc_call_def rpc_request_def check_reply_def)
  qed
qed

locale store_extension =
  fixes pp :: "'p pipe" and spec :: blocking_spec and config :: json
    and up :: "nat \<Rightarrow> 'p \<Rightarrow> bool" and view :: "'p \<Rightarrow> string \<Rightarrow> json option" and good :: "json \<Rightarrow> bool"
    and faulty :: bool
  assumes spawns: "view (snd (pp_spawn pp (ext_base.truncate spec) w)) = view w"
    and running: "pp_spawn pp (ext_base.truncate spec) w = (Inr c, w1) \<Longrightarrow> up c w1"
    and kills: "view (pp_kill pp c w) = view w"
    and inits: "answers pp faulty up view ''initialize'' (init_params spec)
      (\<lambda>t r t1. t1 = t \<and> r \<noteq> JNull \<and> (\<exists>caps. decode_init r = Inr (x_protocol spec, caps) \<and> supports_blocking caps (bx_kind spec)))"
    and loads: "answers pp faulty up view ''state.load'' (key_params spec config k) (\<lambda>t r t1. t1 = t \<and> r = load_json (t k))"
    and saves: "good v \<Longrightarrow> answers pp faulty up view ''state.save'' (save_params spec config k v)
      (\<lambda>t r t1. r = empty_json \<and> t1 = t(k \<mapsto> v))"
    and deletes: "answers pp faulty up view ''state.delete'' (key_params spec config k)
      (\<lambda>t r t1. r = empty_json \<and> t1 = t(k := None))"
begin

text \<open>The child of the slot runs and has ids for \<open>n\<close> more requests.\<close>

definition live :: "nat \<Rightarrow> 'p slot \<Rightarrow> bool" where
  "live n sl \<longleftrightarrow>
     (\<forall>c. sl_client sl = Some c \<longrightarrow> up (cl_child c) (sl_world sl) \<and> int (cl_next c + n) \<le> u64_max)"

abbreviation entries_of :: "'p slot \<Rightarrow> string \<Rightarrow> json option" where
  "entries_of sl \<equiv> view (sl_world sl)"

lemma live_reset [simp]: "live n (reset_client pp sl)" "entries_of (reset_client pp sl) = entries_of sl"
  by (auto simp: reset_client_def live_def kills split: option.splits)

lemma live_less: "live (Suc n) sl \<Longrightarrow> live n sl"
  by (auto simp: live_def)

lemma spawn_client_live:
  assumes "spawn_client pp (blocking_error pp) (\<lambda>caps. supports_blocking caps (bx_kind spec)) kind spec sl = (res, sl1)"
    "sl_client sl = None" "int (n + 2) \<le> u64_max"
  shows "live n sl1 \<and> entries_of sl1 = entries_of sl"
proof (cases "pp_spawn pp (ext_base.truncate spec) (sl_world sl)")
  case (Pair r w)
  note w = spawns [of "sl_world sl"]
  show ?thesis
  proof (cases r)
    case (Inl e)
    with assms Pair w show ?thesis by (auto simp: spawn_client_def live_def)
  next
    case (Inr child)
    let ?c = "\<lparr>cl_child = child, cl_next = 1, cl_caps = no_capabilities\<rparr>"
    let ?s = "sl\<lparr>sl_client := Some ?c, sl_alive := sl_alive sl @ [child], sl_sent := [], sl_world := w\<rparr>"
    obtain q s1 where q: "rpc_call pp (blocking_error pp) decode_init ''initialize'' (x_name spec) (init_params spec) ?c ?s = (q, s1)"
      by fastforce
    have "up (cl_child ?c) (sl_world ?s)" using running Pair Inr by simp
    from rpc_answer [OF inits this _ _ q] assms(3)
    have s1: "sl_client s1 = Some (?c\<lparr>cl_next := 2\<rparr>)" "isl q \<or> up child (sl_world s1)" "entries_of s1 = view w"
      by (auto simp: numeral_2_eq_2)
    show ?thesis
    proof (cases q)
      case (Inl e)
      then show ?thesis using assms(1) Pair \<open>r = Inr child\<close> w s1(3) q
        by (auto simp: spawn_client_def Let_def or_reset_def initialize_def sbind_def)
    next
      case (Inr x)
      have "live n s1" "live n (set_caps caps s1)" for caps
        using s1(1,2) assms(3) Inr by (auto simp: live_def set_caps_def)
      then show ?thesis using assms(1) Pair \<open>r = Inr child\<close> Inr w s1(3) q
        by (auto simp: spawn_client_def Let_def or_reset_def initialize_def sbind_def rpc_fail_def set_caps_def
            split: sum.splits prod.splits if_splits)
    qed
  qed
qed

lemma ensure_live:
  assumes "ensure_blocking_client pp spec sl = (res, sl1)" "live n sl" "int (n + 2) \<le> u64_max"
  shows "live n sl1 \<and> entries_of sl1 = entries_of sl \<and> (\<forall>c. res = Inr c \<longrightarrow> sl_client sl1 = Some c)"
proof (cases "sl_client sl")
  case None
  obtain r s1 where s: "spawn_client pp (blocking_error pp) (\<lambda>caps. supports_blocking caps (bx_kind spec))
      (blocking_kind_name (bx_kind spec)) spec sl = (r, s1)" by fastforce
  have "\<not> isl r \<Longrightarrow> sl_client s1 \<noteq> None"
  proof -
    assume "\<not> isl r"
    then obtain child w where sp: "pp_spawn pp (ext_base.truncate spec) (sl_world sl) = (Inr child, w)"
      using s by (cases "pp_spawn pp (ext_base.truncate spec) (sl_world sl)") (auto simp: spawn_client_def split: sum.splits)
    show "sl_client s1 \<noteq> None"
      using s \<open>\<not> isl r\<close>
      by (auto simp: spawn_client_def sp Let_def or_reset_def initialize_def sbind_def rpc_fail_def set_caps_def
          rpc_call_def rpc_request_def split: sum.splits prod.splits if_splits)
  qed
  with spawn_client_live [OF s None assms(3)] assms(1) None s show ?thesis
    by (auto simp: ensure_blocking_client_def ensure_client_def sbind_def split: sum.splits)
next
  case (Some c)
  with assms show ?thesis by (auto simp: ensure_blocking_client_def ensure_client_def sbind_def)
qed

lemma blocking_op_answer:
  assumes "answers pp faulty up view meth params ok" "\<And>t r t1. ok t r t1 \<Longrightarrow> r \<noteq> JNull"
    and "live (Suc n) sl" "int (n + 3) \<le> u64_max"
    and "blocking_op pp spec (rpc_call pp (blocking_error pp) dec meth name params) sl = (res, sl1)"
  shows "live n sl1 \<and>
    ((\<exists>r. ok (entries_of sl) r (entries_of sl1) \<and> (case dec r of Inl e \<Rightarrow> isl res | Inr x \<Rightarrow> res = Inr x)) \<or>
     isl res \<and> entries_of sl1 = entries_of sl \<or>
     faulty \<and> isl res \<and> (\<exists>r. ok (entries_of sl) r (entries_of sl1)))"
proof -
  obtain q s1 where q: "ensure_blocking_client pp spec sl = (q, s1)" by fastforce
  from ensure_live [OF q assms(3)] assms(4)
  have s1: "live (Suc n) s1" "entries_of s1 = entries_of sl" "\<And>c. q = Inr c \<Longrightarrow> sl_client s1 = Some c" by auto
  show ?thesis
  proof (cases q)
    case (Inl e)
    with assms(5) q s1 show ?thesis by (auto simp: blocking_op_def sbind_def intro: live_less)
  next
    case (Inr c)
    obtain x s2 where x: "rpc_call pp (blocking_error pp) dec meth name params c s1 = (x, s2)" by fastforce
    have "up (cl_child c) (sl_world s1)" "int (cl_next c) \<le> u64_max" using s1 Inr by (auto simp: live_def)
    from rpc_answer [OF assms(1) this assms(2) x]
    have s2: "sl_client s2 = Some (c\<lparr>cl_next := cl_next c + 1\<rparr>)" "isl x \<or> up (cl_child c) (sl_world s2)"
      "(\<exists>r. ok (entries_of sl) r (entries_of s2) \<and> (case dec r of Inl e \<Rightarrow> isl x | Inr y \<Rightarrow> x = Inr y)) \<or>
       isl x \<and> entries_of s2 = entries_of sl \<or> faulty \<and> isl x \<and> (\<exists>r. ok (entries_of sl) r (entries_of s2))"
      using s1(2) by auto
    show ?thesis
    proof (cases x)
      case x: (Inl e)
      with s2(3) assms(5) q Inr \<open>rpc_call pp _ dec meth name params c s1 = (x, s2)\<close> show ?thesis
        by (auto simp: blocking_op_def sbind_def or_reset_def)
    next
      case x: (Inr y)
      have "live n s2" using s1 s2(1,2) Inr x by (auto simp: live_def)
      with s2(3) assms(5) q Inr x \<open>rpc_call pp _ dec meth name params c s1 = (x, s2)\<close> show ?thesis
        by (auto simp: blocking_op_def sbind_def or_reset_def)
    qed
  qed
qed

text \<open>The store's operations on the entries the extension holds.\<close>

lemma load_answer:
  assumes "live (Suc n) sl" "int (n + 3) \<le> u64_max" "stdio_load pp spec config k sl = (res, sl1)"
  shows "live n sl1 \<and> entries_of sl1 = entries_of sl \<and> (isl res \<or> res = Inr (visible (entries_of sl k)))"
proof -
  obtain q s1 where q: "blocking_op pp spec (state_load pp spec config k) sl = (q, s1)" by fastforce
  from blocking_op_answer [OF loads _ assms(1,2) q [unfolded state_load_def]]
  have "live n s1 \<and> entries_of s1 = entries_of sl \<and>
      ((case decode_load (load_json (entries_of sl k)) of Inl e \<Rightarrow> isl q | Inr x \<Rightarrow> q = Inr x) \<or> isl q)" by auto
  with decode_load_json [of "entries_of sl k"] assms(3) q show ?thesis
    by (auto simp: stdio_load_def sbind_def split: sum.splits)
qed

lemma save_answer:
  assumes "good v" "live (Suc n) sl" "int (n + 3) \<le> u64_max" "stdio_save pp spec config k v sl = (res, sl1)"
  shows "live n sl1 \<and>
    (res = Inr () \<and> entries_of sl1 = (entries_of sl)(k \<mapsto> v) \<or> isl res \<and> entries_of sl1 = entries_of sl \<or>
     faulty \<and> isl res \<and> entries_of sl1 = (entries_of sl)(k \<mapsto> v))"
  using blocking_op_answer [OF saves [OF assms(1)] _ assms(2,3) assms(4) [unfolded stdio_save_def state_save_def]]
  by auto

lemma delete_answer:
  assumes "live (Suc n) sl" "int (n + 3) \<le> u64_max" "stdio_delete pp spec config k sl = (res, sl1)"
  shows "live n sl1 \<and>
    (res = Inr () \<and> entries_of sl1 = (entries_of sl)(k := None) \<or> isl res \<and> entries_of sl1 = entries_of sl \<or>
     faulty \<and> isl res \<and> entries_of sl1 = (entries_of sl)(k := None))"
  using blocking_op_answer [OF deletes _ assms(1,2) assms(3) [unfolded stdio_delete_def state_delete_def]]
  by auto

end

section \<open>Refinement of a map\<close>

datatype store_op = Put string json | Remove string

fun run_store_op :: "'p pipe \<Rightarrow> blocking_spec \<Rightarrow> json \<Rightarrow> store_op \<Rightarrow> ('p, unit) slot_action" where
  "run_store_op pp spec config (Put k v) = stdio_save pp spec config k v"
| "run_store_op pp spec config (Remove k) = stdio_delete pp spec config k"

fun map_effect :: "store_op \<Rightarrow> (string \<Rightarrow> json option) \<Rightarrow> string \<Rightarrow> json option" where
  "map_effect (Put k v) t = t(k \<mapsto> v)"
| "map_effect (Remove k) t = t(k := None)"

text \<open>Run the operations and remember which of them reported success.\<close>

fun run_store_ops :: "'p pipe \<Rightarrow> blocking_spec \<Rightarrow> json \<Rightarrow> store_op list \<Rightarrow> 'p slot \<Rightarrow> store_op list \<times> 'p slot" where
  "run_store_ops pp spec config [] sl = ([], sl)"
| "run_store_ops pp spec config (op # ops) sl =
     (let (res, sl1) = run_store_op pp spec config op sl; (oks, sl2) = run_store_ops pp spec config ops sl1
      in (case res of Inl _ \<Rightarrow> oks | Inr _ \<Rightarrow> op # oks, sl2))"

fun good_op :: "(json \<Rightarrow> bool) \<Rightarrow> store_op \<Rightarrow> bool" where
  "good_op good (Put k v) = good v"
| "good_op good (Remove k) = True"

context store_extension
begin

lemma run_store_ops_entries:
  assumes "run_store_ops pp spec config ops sl = (oks, sl1)" "list_all (good_op good) ops"
    "live (length ops + n) sl" "int (length ops + n + 2) \<le> u64_max"
  shows "live n sl1 \<and> (\<exists>applied. subseq oks applied \<and> subseq applied ops \<and> (\<not> faulty \<longrightarrow> applied = oks) \<and>
    entries_of sl1 = fold map_effect applied (entries_of sl))"
  using assms
proof (induction ops arbitrary: sl oks)
  case (Cons op ops)
  obtain res s1 d where s: "run_store_op pp spec config op sl = (res, s1)"
    "run_store_ops pp spec config ops s1 = (d, sl1)" "oks = (case res of Inl _ \<Rightarrow> d | Inr _ \<Rightarrow> op # d)"
    using Cons.prems(1) by (auto simp: Let_def split: prod.splits)
  have one: "live (length ops + n) s1" "res = Inr () \<and> entries_of s1 = map_effect op (entries_of sl) \<or>
      isl res \<and> entries_of s1 = entries_of sl \<or> faulty \<and> isl res \<and> entries_of s1 = map_effect op (entries_of sl)"
    using Cons.prems(2-4) s(1) save_answer [of _ "length ops + n" sl _ res s1] delete_answer [of "length ops + n" sl _ res s1]
    by (cases op; auto)+
  from Cons.IH [OF s(2) _ one(1)] Cons.prems(2,4) obtain ap where ap: "live n sl1" "subseq d ap" "subseq ap ops"
    "\<not> faulty \<longrightarrow> ap = d" "entries_of sl1 = fold map_effect ap (entries_of s1)" by auto
  from one(2) show ?case
  proof (elim disjE conjE)
    assume "res = Inr ()" "entries_of s1 = map_effect op (entries_of sl)"
    then show ?thesis using ap s(3) by (intro conjI exI [of _ "op # ap"]) auto
  next
    assume "isl res" "entries_of s1 = entries_of sl"
    then show ?thesis using ap s(3) by (intro conjI exI [of _ ap]) (auto simp: isl_def)
  next
    assume "faulty" "isl res" "entries_of s1 = map_effect op (entries_of sl)"
    then show ?thesis using ap s(3) by (intro conjI exI [of _ "op # ap"]) (auto simp: isl_def)
  qed
qed auto

lemma run_refines:
  assumes "run_store_ops pp spec config ops (fresh_slot w) = (oks, sl)" "list_all (good_op good) ops"
    "int (length ops + 3) \<le> u64_max"
  shows "\<exists>applied. subseq oks applied \<and> subseq applied ops \<and> (\<not> faulty \<longrightarrow> applied = oks) \<and>
    view (sl_world sl) = fold map_effect applied (view w) \<and>
    (\<forall>k v sl1. stdio_load pp spec config k sl = (Inr v, sl1) \<longrightarrow> v = visible (fold map_effect applied (view w) k))"
proof -
  have "live (length ops + 1) (fresh_slot w)" by (simp add: live_def fresh_slot_def)
  from run_store_ops_entries [OF assms(1,2) this] assms(3) obtain ap where s: "live (Suc 0) sl"
    "subseq oks ap" "subseq ap ops" "\<not> faulty \<longrightarrow> ap = oks" "entries_of sl = fold map_effect ap (view w)"
    by (auto simp: fresh_slot_def)
  have "v = visible (entries_of sl k)" if "stdio_load pp spec config k sl = (Inr v, sl1)" for k v sl1
    using load_answer [OF s(1) _ that] assms(3) by auto
  with s(2-5) show ?thesis by metis
qed

end

end
