(* ===== verification/Extension_Providers.thy ===== *)
theory Extension_Providers
  imports Extension_Store
begin

text \<open>
  The SQLite and Redis programs satisfy the contract of a store extension, whatever the engine
  and the server behind them report and whenever their processes die.
\<close>

section \<open>Children\<close>

definition child_up :: "nat \<Rightarrow> ('s, 'd) processes \<Rightarrow> bool" where
  "child_up c w \<longleftrightarrow> ps_children w c \<noteq> None"

abbreviation faulty :: "(nat \<Rightarrow> trouble) \<Rightarrow> bool" where
  "faulty trouble \<equiv> \<exists>n. trouble n \<noteq> Fine"

lemma bury_simps [simp]: "ps_data (bury h w) = ps_data w" "ps_data (count_call w) = ps_data w"
    "ps_children (count_call w) = ps_children w"
  by (simp_all add: bury_def count_call_def)

text \<open>A request to a running child: the handler runs and its reply arrives, or the child dies before or after.\<close>

lemma exchange_program:
  assumes "child_up c w" "int i \<le> u64_max"
  shows "\<exists>s res s1 d1 x w1. handle meth params (s, ps_data w) = (res, s1, d1) \<and>
    exchange (program_pipe trouble handle init msg time) err meth c (rpc_json i meth params) w = (x, w1) \<and>
    (x = Inr (Some (Inr (case res of Inl t \<Rightarrow> failure_json i t | Inr r \<Rightarrow> success_json i r))) \<and> child_up c w1 \<and> ps_data w1 = d1 \<or>
     faulty trouble \<and> (\<forall>r. x \<noteq> Inr (Some r)) \<and> (ps_data w1 = ps_data w \<or> ps_data w1 = d1))"
proof -
  obtain ch where ch: "ps_children w c = Some ch" using assms(1) by (auto simp: child_up_def)
  let ?w = "count_call (w\<lparr>ps_children := (ps_children w)(c \<mapsto> ch\<lparr>ch_line := Some (rpc_json i meth params)\<rparr>)\<rparr>)"
  obtain res s1 d1 where h: "handle meth params (ch_state ch, ps_data w) = (res, s1, d1)" by (metis prod_cases3)
  have read: "program_read handle c (count_call ?w) =
      (Inr (Some (Inr (case res of Inl t \<Rightarrow> failure_json i t | Inr r \<Rightarrow> success_json i r))),
       (count_call ?w)\<lparr>ps_children := (ps_children ?w)(c \<mapsto> \<lparr>ch_state = s1, ch_line = None\<rparr>), ps_data := d1\<rparr>)"
    using assms(2) h by (simp add: program_read_def decode_request)
  show ?thesis
  proof (cases "trouble (ps_ops w)")
    case Fine
    with h read ch show ?thesis
      by (intro exI [of _ "ch_state ch"] exI [of _ res] exI [of _ s1] exI [of _ d1])
        (cases "trouble (ps_ops ?w)"; auto simp: exchange_def program_pipe_def child_up_def intro: exI [of _ "ps_ops ?w"])
  qed (use h ch in \<open>(intro exI [of _ "ch_state ch"] exI [of _ res] exI [of _ s1] exI [of _ d1],
      auto simp: exchange_def program_pipe_def intro: exI [of _ "ps_ops w"])+\<close>)
qed

text \<open>To satisfy the contract it is enough that the handler does, on the shared data.\<close>

lemma answers_program:
  assumes "\<And>s d res s1 d1. handle meth params (s, d) = (res, s1, d1) \<Longrightarrow>
      (case res of Inl _ \<Rightarrow> view d1 = view d | Inr r \<Rightarrow> ok (view d) r (view d1))"
  shows "answers (program_pipe trouble handle init msg time) (faulty trouble) child_up (view \<circ> ps_data) meth params ok"
  unfolding answers_def
proof (intro allI impI)
  fix c i err and w :: "('a, 'b) processes"
  let ?run = "exchange (program_pipe trouble handle init msg time) err meth c (rpc_json i meth params) w"
  assume w: "child_up c w" "int i \<le> u64_max"
  from exchange_program [OF w, of handle meth params trouble init msg time err] obtain s res s1 d1 x w1 where
    h: "handle meth params (s, ps_data w) = (res, s1, d1)" and x: "?run = (x, w1)" and
    c: "x = Inr (Some (Inr (case res of Inl t \<Rightarrow> failure_json i t | Inr r \<Rightarrow> success_json i r))) \<and> child_up c w1 \<and> ps_data w1 = d1 \<or>
     faulty trouble \<and> (\<forall>r. x \<noteq> Inr (Some r)) \<and> (ps_data w1 = ps_data w \<or> ps_data w1 = d1)" by blast
  from c assms [OF h] show "(\<exists>reply w1. ?run = (Inr (Some (Inr reply)), w1) \<and> child_up c w1 \<and>
        ((\<exists>r. reply = success_json i r \<and> ok ((view \<circ> ps_data) w) r ((view \<circ> ps_data) w1)) \<or>
         (\<exists>text. reply = failure_json i text \<and> (view \<circ> ps_data) w1 = (view \<circ> ps_data) w))) \<or>
      faulty trouble \<and> (\<exists>x w1. ?run = (x, w1) \<and> (\<forall>r. x \<noteq> Inr (Some r)) \<and>
        ((view \<circ> ps_data) w1 = (view \<circ> ps_data) w \<or> (\<exists>r. ok ((view \<circ> ps_data) w) r ((view \<circ> ps_data) w1))))"
    unfolding x by (cases res) (elim disjE conjE; simp; metis)+
qed

lemma decode_initialize_result:
  "decode_init (initialize_result sqlite_capabilities) = Inr (host_protocol, sqlite_capabilities)"
  "decode_init (initialize_result redis_capabilities) = Inr (host_protocol, redis_capabilities)"
  by (simp_all add: decode_init_def initialize_result_def decode_open_def decode_struct_def missing_field_def chk_def
      chk_dec_def decode_capabilities_def capabilities_spec_def capabilities_json_def capability_fields_def
      sqlite_capabilities_def redis_capabilities_def no_capabilities_def init_spec_def im_contains_def host_protocol_def
      req_field_def)

lemma params_simps [simp]:
  "param_config (key_params spec (JObject m) k) = Inr (JObject m)"
  "param_config (save_params spec (JObject m) k v) = Inr (JObject m)"
  "member_str (key_params spec config k) ''key'' = Some k"
  "member_str (save_params spec config k v) ''key'' = Some k"
  "member (save_params spec config k v) ''value'' = Some v"
  by (simp_all add: param_config_def member_str_def member_def key_params_def save_params_def)

text \<open>The entries whose text is JSON, as the host sees them.\<close>

definition decoded :: "(string \<Rightarrow> string + json) \<Rightarrow> (string \<Rightarrow> string option) \<Rightarrow> string \<Rightarrow> json option" where
  "decoded rd t k = (case t k of None \<Rightarrow> None | Some s \<Rightarrow> (case rd s of Inl _ \<Rightarrow> None | Inr v \<Rightarrow> Some v))"

lemma decoded_upd:
  "rd s = Inr v \<Longrightarrow> decoded rd (t(k \<mapsto> s)) = (decoded rd t)(k \<mapsto> v)"
  "decoded rd (t(k := None)) = (decoded rd t)(k := None)"
  by (auto simp: decoded_def fun_eq_iff)

section \<open>SQLite\<close>

text \<open>
  What the program relies on in the SQL engine: \<open>kv\<close> gives the rows of \<^verbatim>\<open>state_store\<close> in a database
  file and \<open>ev\<close> those of \<^verbatim>\<open>event_bus\<close> by increasing id.  A statement may fail and then changes nothing.
\<close>

locale sql_db =
  fixes sq :: "'d sql" and kv :: "'d \<Rightarrow> string \<Rightarrow> string \<Rightarrow> string option"
    and ev :: "'d \<Rightarrow> string \<Rightarrow> (int \<times> string \<times> string \<times> string) list"
  assumes opens: "kv (snd (sq_open sq p d)) = kv d \<and> ev (snd (sq_open sq p d)) = ev d"
    and tables: "kv (snd (sq_table sq p t d)) = kv d \<and> ev (snd (sq_table sq p t d)) = ev d"
    and selects: "sq_select sq p k d = Inr x \<Longrightarrow> x = kv d p k"
    and upserts: "sq_upsert sq p k t d = (res, d1) \<Longrightarrow>
      ev d1 = ev d \<and> kv d1 = (if isl res then kv d else (kv d)(p := (kv d p)(k \<mapsto> t)))"
    and deletes: "sq_delete sq p k d = (res, d1) \<Longrightarrow>
      ev d1 = ev d \<and> kv d1 = (if isl res then kv d else (kv d)(p := (kv d p)(k := None)))"
    and inserts: "sq_insert sq p t s d = (res, d1) \<Longrightarrow> kv d1 = kv d \<and>
      (if isl res then ev d1 = ev d
       else \<exists>i time. 0 < i \<and> (\<forall>e \<in> set (ev d p). fst e < i) \<and> ev d1 = (ev d)(p := ev d p @ [(i, t, s, time)]))"
    and selects_events: "sq_events sq p l t n d = Inr rows \<Longrightarrow>
      rows = take n (map (\<lambda>(i, _, s, time). (i, s, time)) (filter (\<lambda>e. l < fst e \<and> fst (snd e) = t) (ev d p)))"
begin

lemma with_table_frame:
  assumes "with_table sq p table f d = (res, d1)"
  shows "(isl res \<and> kv d1 = kv d \<and> ev d1 = ev d) \<or> (\<exists>d2. kv d2 = kv d \<and> ev d2 = ev d \<and> f d2 = (res, d1))"
proof -
  obtain r1 d2 where o1: "sq_open sq p d = (r1, d2)" by fastforce
  obtain r2 d3 where o2: "sq_table sq p table d2 = (r2, d3)" by fastforce
  have "kv d2 = kv d \<and> ev d2 = ev d" "kv d3 = kv d \<and> ev d3 = ev d"
    using opens [of p d] tables [of p table d2] o1 o2 by auto
  with assms o1 o2 show ?thesis by (auto simp: with_table_def split: sum.splits)
qed

end

locale sqlite_store = sql_db sq kv ev
  for sq :: "'d sql" and kv :: "'d \<Rightarrow> string \<Rightarrow> string \<Rightarrow> string option"
    and ev :: "'d \<Rightarrow> string \<Rightarrow> (int \<times> string \<times> string \<times> string) list" +
  fixes msg :: "ext_msg \<Rightarrow> string" and time :: "string \<Rightarrow> string option"
    and spec :: blocking_spec and m :: "json imap" and path :: string
    and trouble :: "nat \<Rightarrow> trouble"
  assumes kind: "bx_kind spec = Bk_State_Store" and protocol: "x_protocol spec = host_protocol"
    and path: "member_str (JObject m) ''path'' = Some path"
begin

definition rows :: "'d \<Rightarrow> string \<Rightarrow> json option" where
  "rows d = decoded (sq_parse sq) (kv d path)"

lemma path_and_simps [simp]:
  "path_and (key_params spec (JObject m) k) ''key'' = Inr (path, k)"
  "path_and (save_params spec (JObject m) k v) ''key'' = Inr (path, k)"
  by (simp_all add: path_and_def path_of_def config_path_def need_def path)

lemma load_ok:
  assumes "sqlite_handle sq ''state.load'' (key_params spec (JObject m) k) (s, d) = (res, s1, d1)"
  shows "rows d1 = rows d \<and> (\<forall>r. res = Inr r \<longrightarrow> r = load_json (rows d k))"
proof -
  have "sqlite_load sq (key_params spec (JObject m) k) d = (res, d1)"
    using assms by (simp add: sqlite_handle_def on_data_def split: prod.splits)
  then have "with_table sq path ''state_store'' (\<lambda>d.
      (rbind (sq_select sq path k d) (\<lambda>row. case row of None \<Rightarrow> Inr (load_json None)
         | Some text \<Rightarrow> rbind (sq_parse sq text) (\<lambda>v. Inr (load_json (Some v)))), d)) d = (res, d1)"
    by (simp add: sqlite_load_def del: load_json.simps)
  from with_table_frame [OF this] show ?thesis
    by (auto simp: rows_def decoded_def rbind_Inr_iff split: option.splits sum.splits dest!: selects)
qed

lemma save_ok:
  assumes "sqlite_handle sq ''state.save'' (save_params spec (JObject m) k v) (s, d) = (res, s1, d1)"
    "sq_parse sq (sq_print sq v) = Inr v"
  shows "case res of Inl _ \<Rightarrow> rows d1 = rows d | Inr r \<Rightarrow> r = empty_json \<and> rows d1 = (rows d)(k \<mapsto> v)"
proof -
  have "sqlite_save sq (save_params spec (JObject m) k v) d = (res, d1)"
    using assms(1) by (simp add: sqlite_handle_def on_data_def split: prod.splits)
  then have "with_table sq path ''state_store'' (\<lambda>d. done_json (sq_upsert sq path k (sq_print sq v) d)) d = (res, d1)"
    by (simp add: sqlite_save_def)
  from with_table_frame [OF this] show ?thesis
  proof
    assume "isl res \<and> kv d1 = kv d \<and> ev d1 = ev d"
    then show ?thesis by (cases res) (simp_all add: rows_def)
  next
    assume "\<exists>d2. kv d2 = kv d \<and> ev d2 = ev d \<and> done_json (sq_upsert sq path k (sq_print sq v) d2) = (res, d1)"
    then obtain d2 q where "kv d2 = kv d" "sq_upsert sq path k (sq_print sq v) d2 = (q, d1)"
      "res = rbind q (\<lambda>_. Inr empty_json)" by (auto simp: done_json_def prod_eq_iff)
    with upserts [of path k "sq_print sq v" d2 q d1] assms(2) show ?thesis
      by (cases q) (simp_all add: rows_def decoded_upd)
  qed
qed

lemma delete_ok:
  assumes "sqlite_handle sq ''state.delete'' (key_params spec (JObject m) k) (s, d) = (res, s1, d1)"
  shows "case res of Inl _ \<Rightarrow> rows d1 = rows d | Inr r \<Rightarrow> r = empty_json \<and> rows d1 = (rows d)(k := None)"
proof -
  have "sqlite_delete sq (key_params spec (JObject m) k) d = (res, d1)"
    using assms(1) by (simp add: sqlite_handle_def on_data_def split: prod.splits)
  then have "with_table sq path ''state_store'' (\<lambda>d. done_json (sq_delete sq path k d)) d = (res, d1)"
    by (simp add: sqlite_delete_def)
  from with_table_frame [OF this] show ?thesis
  proof
    assume "isl res \<and> kv d1 = kv d \<and> ev d1 = ev d"
    then show ?thesis by (cases res) (simp_all add: rows_def)
  next
    assume "\<exists>d2. kv d2 = kv d \<and> ev d2 = ev d \<and> done_json (sq_delete sq path k d2) = (res, d1)"
    then obtain d2 q where "kv d2 = kv d" "sq_delete sq path k d2 = (q, d1)"
      "res = rbind q (\<lambda>_. Inr empty_json)" by (auto simp: done_json_def prod_eq_iff)
    with deletes [of path k d2 q d1] show ?thesis by (cases q) (simp_all add: rows_def decoded_upd)
  qed
qed

end

sublocale sqlite_store \<subseteq> host: store_extension
  "program_pipe trouble (sqlite_handle sq) sqlite_start msg time" spec "JObject m" child_up "rows \<circ> ps_data"
  "\<lambda>v. sq_parse sq (sq_print sq v) = Inr v" "faulty trouble"
proof
  show "answers (program_pipe trouble (sqlite_handle sq) sqlite_start msg time) (faulty trouble) child_up (rows \<circ> ps_data) ''initialize''
      (init_params spec) (\<lambda>t r t1. t1 = t \<and> r \<noteq> JNull \<and>
        (\<exists>caps. decode_init r = Inr (x_protocol spec, caps) \<and> supports_blocking caps (bx_kind spec)))"
    by (rule answers_program)
      (auto simp: sqlite_handle_def decode_initialize_result kind protocol, simp add: sqlite_capabilities_def)
  show "answers (program_pipe trouble (sqlite_handle sq) sqlite_start msg time) (faulty trouble) child_up (rows \<circ> ps_data) ''state.load''
      (key_params spec (JObject m) k) (\<lambda>t r t1. t1 = t \<and> r = load_json (t k))" for k
    by (rule answers_program) (use load_ok in \<open>fastforce split: sum.splits\<close>)
  show "answers (program_pipe trouble (sqlite_handle sq) sqlite_start msg time) (faulty trouble) child_up (rows \<circ> ps_data) ''state.save''
      (save_params spec (JObject m) k v) (\<lambda>t r t1. r = empty_json \<and> t1 = t(k \<mapsto> v))"
    if "sq_parse sq (sq_print sq v) = Inr v" for k v
    by (rule answers_program) (use save_ok that in blast)
  show "answers (program_pipe trouble (sqlite_handle sq) sqlite_start msg time) (faulty trouble) child_up (rows \<circ> ps_data) ''state.delete''
      (key_params spec (JObject m) k) (\<lambda>t r t1. r = empty_json \<and> t1 = t(k := None))" for k
    by (rule answers_program) (use delete_ok in blast)
qed (auto simp: program_pipe_def child_up_def split: trouble.splits)

text \<open>What the host sees through a store over SQLite.\<close>

context sqlite_store
begin

lemma host_entries:
  assumes "run_store_ops (program_pipe trouble (sqlite_handle sq) sqlite_start msg time) spec (JObject m) ops (fresh_slot w) = (oks, sl)"
    "list_all (good_op (\<lambda>v. sq_parse sq (sq_print sq v) = Inr v)) ops" "int (length ops + 3) \<le> u64_max"
  shows "\<exists>applied. subseq oks applied \<and> subseq applied ops \<and> (\<not> faulty trouble \<longrightarrow> applied = oks) \<and>
    rows (ps_data (sl_world sl)) = fold map_effect applied (rows (ps_data w)) \<and>
    (\<forall>k v sl1. stdio_load (program_pipe trouble (sqlite_handle sq) sqlite_start msg time) spec (JObject m) k sl = (Inr v, sl1) \<longrightarrow>
      v = visible (fold map_effect applied (rows (ps_data w)) k))"
  using host.run_refines [OF assms] by simp

end

section \<open>Redis\<close>

locale redis_server =
  fixes rd :: "'d redis" and kv :: "'d \<Rightarrow> string \<Rightarrow> string \<Rightarrow> string option"
  assumes connects: "kv (snd (rd_connect rd u d)) = kv d"
    and gets: "rd_get rd u k d = Inr x \<Longrightarrow> x = kv d u k"
    and sets: "rd_set rd u k t d = (res, d1) \<Longrightarrow> kv d1 = (if isl res then kv d else (kv d)(u := (kv d u)(k \<mapsto> t)))"
    and dels: "rd_del rd u k d = (res, d1) \<Longrightarrow> kv d1 = (if isl res then kv d else (kv d)(u := (kv d u)(k := None)))"
begin

lemma with_redis_frame:
  assumes "with_redis rd config f d = (res, d1)"
  shows "(isl res \<and> kv d1 = kv d) \<or> (\<exists>d2. kv d2 = kv d \<and> f (redis_url rd config) d2 = (res, d1))"
proof -
  obtain r d2 where o: "rd_connect rd (redis_url rd config) d = (r, d2)" by fastforce
  have "kv d2 = kv d" using connects [of "redis_url rd config" d] o by simp
  with assms o show ?thesis by (auto simp: with_redis_def Let_def split: sum.splits)
qed

end

locale redis_store = redis_server rd kv
  for rd :: "'d redis" and kv :: "'d \<Rightarrow> string \<Rightarrow> string \<Rightarrow> string option" +
  fixes msg :: "ext_msg \<Rightarrow> string" and time :: "string \<Rightarrow> string option" and spec :: blocking_spec and m :: "json imap"
    and trouble :: "nat \<Rightarrow> trouble"
  assumes kind: "bx_kind spec = Bk_State_Store" and protocol: "x_protocol spec = host_protocol"
begin

abbreviation prefixed :: "string \<Rightarrow> string" where
  "prefixed k \<equiv> or_default ''sohara:'' (member_str (JObject m) ''prefix'') @ k"

definition rows :: "'d \<Rightarrow> string \<Rightarrow> json option" where
  "rows d = decoded (rd_parse rd) (\<lambda>k. kv d (redis_url rd (JObject m)) (prefixed k))"

lemma config_and_simps [simp]:
  "config_and (key_params spec (JObject m) k) redis_key = Inr (JObject m, prefixed k)"
  "config_and (save_params spec (JObject m) k v) redis_key = Inr (JObject m, prefixed k)"
  by (simp_all add: config_and_def redis_key_def need_def)

lemma prefixed_upd: "(\<lambda>k'. (t(u := (t u)(prefixed k := x))) u (prefixed k')) = (\<lambda>k'. t u (prefixed k'))(k := x)"
  by (auto simp: fun_eq_iff)

lemma load_ok:
  assumes "redis_handle rd ''state.load'' (key_params spec (JObject m) k) (s, d) = (res, s1, d1)"
  shows "rows d1 = rows d \<and> (\<forall>r. res = Inr r \<longrightarrow> r = load_json (rows d k))"
proof -
  have "redis_load rd (key_params spec (JObject m) k) d = (res, d1)"
    using assms by (simp add: redis_handle_def on_data_def split: prod.splits)
  then have "with_redis rd (JObject m) (\<lambda>url d.
      (rbind (rd_get rd url (prefixed k) d) (\<lambda>row. case row of None \<Rightarrow> Inr (load_json None)
         | Some text \<Rightarrow> rbind (rd_parse rd text) (\<lambda>v. Inr (load_json (Some v)))), d)) d = (res, d1)"
    by (simp add: redis_load_def del: load_json.simps)
  from with_redis_frame [OF this] show ?thesis
    by (auto simp: rows_def decoded_def rbind_Inr_iff split: option.splits sum.splits dest!: gets)
qed

text \<open>Saving and deleting both end in one command on the prefixed key.\<close>

lemma update_ok:
  assumes "with_redis rd (JObject m) (\<lambda>url d. done_json (f url d)) d = (res, d1)"
    and "\<And>u d2 q d3. f u d2 = (q, d3) \<Longrightarrow> kv d3 = (if isl q then kv d2 else (kv d2)(u := (kv d2 u)(prefixed k := x)))"
    and "\<And>t. decoded (rd_parse rd) (t(k := x)) = (decoded (rd_parse rd) t)(k := y)"
  shows "case res of Inl _ \<Rightarrow> rows d1 = rows d | Inr r \<Rightarrow> r = empty_json \<and> rows d1 = (rows d)(k := y)"
  using with_redis_frame [OF assms(1)]
proof
  assume "isl res \<and> kv d1 = kv d"
  then show ?thesis by (cases res) (simp_all add: rows_def)
next
  assume "\<exists>d2. kv d2 = kv d \<and> done_json (f (redis_url rd (JObject m)) d2) = (res, d1)"
  then obtain d2 q where q: "kv d2 = kv d" "f (redis_url rd (JObject m)) d2 = (q, d1)" "res = rbind q (\<lambda>_. Inr empty_json)"
    by (auto simp: done_json_def prod_eq_iff)
  note kv = assms(2) [OF q(2), unfolded q(1)]
  show ?thesis
  proof (cases q)
    case (Inl e)
    with kv q(3) show ?thesis by (simp add: rows_def)
  next
    case (Inr u)
    with kv have "kv d1 = (kv d)(redis_url rd (JObject m) := (kv d (redis_url rd (JObject m)))(prefixed k := x))"
      by simp
    then have "rows d1 = (rows d)(k := y)"
      unfolding rows_def by (simp only: prefixed_upd assms(3))
    with Inr q(3) show ?thesis by simp
  qed
qed

lemma save_ok:
  assumes "redis_handle rd ''state.save'' (save_params spec (JObject m) k v) (s, d) = (res, s1, d1)"
    "rd_parse rd (rd_print rd v) = Inr v"
  shows "case res of Inl _ \<Rightarrow> rows d1 = rows d | Inr r \<Rightarrow> r = empty_json \<and> rows d1 = (rows d)(k \<mapsto> v)"
proof (rule update_ok)
  have "redis_save rd (save_params spec (JObject m) k v) d = (res, d1)"
    using assms(1) by (simp add: redis_handle_def on_data_def split: prod.splits)
  then show "with_redis rd (JObject m) (\<lambda>url d. done_json (rd_set rd url (prefixed k) (rd_print rd v) d)) d = (res, d1)"
    by (simp add: redis_save_def)
qed (erule sets, rule decoded_upd(1), rule assms(2))

lemma delete_ok:
  assumes "redis_handle rd ''state.delete'' (key_params spec (JObject m) k) (s, d) = (res, s1, d1)"
  shows "case res of Inl _ \<Rightarrow> rows d1 = rows d | Inr r \<Rightarrow> r = empty_json \<and> rows d1 = (rows d)(k := None)"
proof (rule update_ok)
  have "redis_delete rd (key_params spec (JObject m) k) d = (res, d1)"
    using assms(1) by (simp add: redis_handle_def on_data_def split: prod.splits)
  then show "with_redis rd (JObject m) (\<lambda>url d. done_json (rd_del rd url (prefixed k) d)) d = (res, d1)"
    by (simp add: redis_delete_def)
qed (erule dels, rule decoded_upd(2))

end

sublocale redis_store \<subseteq> host: store_extension
  "program_pipe trouble (redis_handle rd) () msg time" spec "JObject m" child_up "rows \<circ> ps_data"
  "\<lambda>v. rd_parse rd (rd_print rd v) = Inr v" "faulty trouble"
proof
  show "answers (program_pipe trouble (redis_handle rd) () msg time) (faulty trouble) child_up (rows \<circ> ps_data) ''initialize''
      (init_params spec) (\<lambda>t r t1. t1 = t \<and> r \<noteq> JNull \<and>
        (\<exists>caps. decode_init r = Inr (x_protocol spec, caps) \<and> supports_blocking caps (bx_kind spec)))"
    by (rule answers_program)
      (auto simp: redis_handle_def decode_initialize_result kind protocol, simp add: redis_capabilities_def)
  show "answers (program_pipe trouble (redis_handle rd) () msg time) (faulty trouble) child_up (rows \<circ> ps_data) ''state.load''
      (key_params spec (JObject m) k) (\<lambda>t r t1. t1 = t \<and> r = load_json (t k))" for k
    by (rule answers_program) (use load_ok in \<open>fastforce split: sum.splits\<close>)
  show "answers (program_pipe trouble (redis_handle rd) () msg time) (faulty trouble) child_up (rows \<circ> ps_data) ''state.save''
      (save_params spec (JObject m) k v) (\<lambda>t r t1. r = empty_json \<and> t1 = t(k \<mapsto> v))"
    if "rd_parse rd (rd_print rd v) = Inr v" for k v
    by (rule answers_program) (use save_ok that in blast)
  show "answers (program_pipe trouble (redis_handle rd) () msg time) (faulty trouble) child_up (rows \<circ> ps_data) ''state.delete''
      (key_params spec (JObject m) k) (\<lambda>t r t1. r = empty_json \<and> t1 = t(k := None))" for k
    by (rule answers_program) (use delete_ok in blast)
qed (auto simp: program_pipe_def child_up_def split: trouble.splits)

text \<open>What the host sees through a store over Redis.\<close>

context redis_store
begin

lemma host_entries:
  assumes "run_store_ops (program_pipe trouble (redis_handle rd) () msg time) spec (JObject m) ops (fresh_slot w) = (oks, sl)"
    "list_all (good_op (\<lambda>v. rd_parse rd (rd_print rd v) = Inr v)) ops" "int (length ops + 3) \<le> u64_max"
  shows "\<exists>applied. subseq oks applied \<and> subseq applied ops \<and> (\<not> faulty trouble \<longrightarrow> applied = oks) \<and>
    rows (ps_data (sl_world sl)) = fold map_effect applied (rows (ps_data w)) \<and>
    (\<forall>k v sl1. stdio_load (program_pipe trouble (redis_handle rd) () msg time) spec (JObject m) k sl = (Inr v, sl1) \<longrightarrow>
      v = visible (fold map_effect applied (rows (ps_data w)) k))"
  using host.run_refines [OF assms] by simp

end

end
