(* ===== verification/Extension_Runs.thy ===== *)
theory Extension_Runs
  imports Extension_Providers
begin

text \<open>
  The host and the extension programs together: a store over SQLite or Redis is a map, also when
  processes fail, and the SQLite bus delivers what was published, in order and once per child.  A database and a server
  in memory make the contracts concrete.
\<close>

section \<open>In memory\<close>

record mem =
  me_rows :: "string \<Rightarrow> string \<Rightarrow> string option"
  me_events :: "string \<Rightarrow> (int \<times> string \<times> string \<times> string) list"
  me_next :: int

definition blank_mem :: mem where
  "blank_mem = \<lparr>me_rows = (\<lambda>_. Map.empty), me_events = (\<lambda>_. []), me_next = 0\<rparr>"

definition set_row :: "string \<Rightarrow> string \<Rightarrow> string option \<Rightarrow> mem \<Rightarrow> mem" where
  "set_row p k x d = d\<lparr>me_rows := (me_rows d)(p := (me_rows d p)(k := x))\<rparr>"

text \<open>Only strings are stored, each as itself; the empty path cannot be opened.\<close>

fun bare_print :: "json \<Rightarrow> string" where
  "bare_print (JString s) = s"
| "bare_print _ = []"

definition next_id :: "string \<Rightarrow> mem \<Rightarrow> int" where
  "next_id p d = fold max (map fst (me_events d p)) 0 + 1"

definition mem_sql :: "mem sql" where
  "mem_sql =
     \<lparr>sq_open = (\<lambda>p d. (if p = [] then Inl ''no path'' else Inr (), d)), sq_table = (\<lambda>p t d. (Inr (), d)),
      sq_select = (\<lambda>p k d. Inr (me_rows d p k)), sq_upsert = (\<lambda>p k t d. (Inr (), set_row p k (Some t) d)),
      sq_delete = (\<lambda>p k d. (Inr (), set_row p k None d)),
      sq_insert = (\<lambda>p t s d. (Inr (), d\<lparr>me_events := (me_events d)(p := me_events d p @ [(next_id p d, t, s, ''now'')])\<rparr>)),
      sq_events = (\<lambda>p l t n d. Inr (take n (map (\<lambda>(i, _, s, time). (i, s, time))
        (filter (\<lambda>e. l < fst e \<and> fst (snd e) = t) (me_events d p))))),
      sq_print = bare_print, sq_parse = (\<lambda>s. Inr (JString s)), sq_show = (\<lambda>i. replicate (nat i) (CHR ''1''))\<rparr>"

definition mem_redis :: "mem redis" where
  "mem_redis =
     \<lparr>rd_connect = (\<lambda>u d. (Inr (), d)), rd_get = (\<lambda>u k d. Inr (me_rows d u k)),
      rd_set = (\<lambda>u k t d. (Inr (), set_row u k (Some t) d)), rd_del = (\<lambda>u k d. (Inr (), set_row u k None d)),
      rd_publish = (\<lambda>u t s d. (Inr (), d)), rd_print = bare_print, rd_parse = (\<lambda>s. Inr (JString s)),
      rd_show = (\<lambda>n. replicate n (CHR ''1''))\<rparr>"

lemma fold_max: "(x :: int) \<le> fold max xs x \<and> (\<forall>y \<in> set xs. y \<le> fold max xs x)"
proof (induction xs arbitrary: x)
  case (Cons a xs)
  from Cons.IH [of "max a x"] show ?case by (auto simp: max.coboundedI2)
qed simp

lemma next_id_new: "0 < next_id p d \<and> (\<forall>e \<in> set (me_events d p). fst e < next_id p d)"
  using fold_max [of 0 "map fst (me_events d p)"] by (auto simp: next_id_def)

interpretation mem_db: sql_db mem_sql me_rows me_events
proof
  fix p t s d res and d1 :: mem
  assume "sq_insert mem_sql p t s d = (res, d1)"
  then show "me_rows d1 = me_rows d \<and>
      (if isl res then me_events d1 = me_events d
       else \<exists>i time. 0 < i \<and> (\<forall>e \<in> set (me_events d p). fst e < i) \<and>
          me_events d1 = (me_events d)(p := me_events d p @ [(i, t, s, time)]))"
    using next_id_new [of p d] by (auto simp: mem_sql_def intro!: exI [of _ "next_id p d"])
qed (auto simp: mem_sql_def set_row_def)

interpretation mem_server: redis_server mem_redis me_rows
  by unfold_locales (auto simp: mem_redis_def set_row_def)

definition demo_blocking :: blocking_spec where
  "demo_blocking =
     \<lparr>x_name = ''builtin'', x_version = ''1'', x_protocol = host_protocol, x_command = ''store'', x_cwd = None,
      x_args = [], x_type = ''builtin-store'', bx_kind = Bk_State_Store\<rparr>"

interpretation mem_store: sqlite_store mem_sql me_rows me_events "\<lambda>_. []" Some demo_blocking "[(''path'', JString ''db'')]" "''db''" "\<lambda>_. Fine"
  by unfold_locales (simp_all add: demo_blocking_def member_str_def member_def)

interpretation mem_redis_store: redis_store mem_redis me_rows "\<lambda>_. []" Some demo_blocking "[]" "\<lambda>_. Fine"
  by unfold_locales (simp_all add: demo_blocking_def)

section \<open>Stores\<close>

text \<open>
  C30. A state store over the SQLite extension is a map that no failure corrupts.  Statements may
  fail in the database, the program may not start, and its process may die in any request, before
  its work or between its work and its reply.  After any sequence of saves and deletes through the
  host, the entries in the database are those of the map after some of these operations, in order,
  among them each that reported success; a failed one took full effect (its process died after the
  commit) or none, and with processes that do not fail those that took effect are exactly those
  that reported success.  A load that succeeds returns the entry, except that a null entry reads as
  absent.  The values saved must be read back from their text as they are, and the request ids must
  not run out.
\<close>

theorem sqlite_store_refines:
  assumes "sqlite_store sq kv ev spec m path"
    and "run_store_ops (program_pipe trouble (sqlite_handle sq) sqlite_start msg time) spec (JObject m) ops (fresh_slot w) = (oks, sl)"
    and "list_all (good_op (\<lambda>v. sq_parse sq (sq_print sq v) = Inr v)) ops" "int (length ops + 3) \<le> u64_max"
  shows "\<exists>applied. subseq oks applied \<and> subseq applied ops \<and> ((\<forall>n. trouble n = Fine) \<longrightarrow> applied = oks) \<and>
    decoded (sq_parse sq) (kv (ps_data (sl_world sl)) path) =
      fold map_effect applied (decoded (sq_parse sq) (kv (ps_data w) path)) \<and>
    (\<forall>k v sl1. stdio_load (program_pipe trouble (sqlite_handle sq) sqlite_start msg time) spec (JObject m) k sl = (Inr v, sl1) \<longrightarrow>
      v = visible (fold map_effect applied (decoded (sq_parse sq) (kv (ps_data w) path)) k))"
  using sqlite_store.host_entries [OF assms] by (simp add: sqlite_store.rows_def [OF assms(1)])

definition empty_processes :: "('s, mem) processes" where
  "empty_processes = \<lparr>ps_children = Map.empty, ps_next = 0, ps_data = blank_mem, ps_ops = 0\<rparr>"

definition demo_ops :: "store_op list" where
  "demo_ops = [Put ''a'' (JString ''1''), Put ''b'' (JString ''2''), Remove ''b'']"

lemma demo_ops_good:
  "list_all (good_op (\<lambda>v. sq_parse mem_sql (sq_print mem_sql v) = Inr v)) demo_ops"
  "list_all (good_op (\<lambda>v. rd_parse mem_redis (rd_print mem_redis v) = Inr v)) demo_ops"
  "int (length demo_ops + 3) \<le> u64_max"
  by (simp_all add: demo_ops_def mem_sql_def mem_redis_def u64_max_def)

lemma empty_entries:
  "decoded rd (me_rows (ps_data (empty_processes :: ('s, mem) processes)) u) = Map.empty"
  "decoded rd (\<lambda>k. me_rows (ps_data (empty_processes :: ('s, mem) processes)) u (f k)) = Map.empty"
  by (simp_all add: decoded_def empty_processes_def blank_mem_def fun_eq_iff)

text \<open>The child dies after the first insertion, before its reply.\<close>

definition demo_trouble :: "nat \<Rightarrow> trouble" where
  "demo_trouble n = (if n = 4 then Dies_Late else Fine)"

lemma demo_trouble_run:
  "let (oks, sl) = run_store_ops (program_pipe demo_trouble (sqlite_handle mem_sql) sqlite_start (\<lambda>_. []) Some) demo_blocking
      (JObject [(''path'', JString ''db'')]) demo_ops (fresh_slot empty_processes)
   in oks = [Put ''b'' (JString ''2''), Remove ''b''] \<and> me_rows (ps_data (sl_world sl)) ''db'' ''a'' = Some ''1''"
  by code_simp

theorem sqlite_store_refines_witness:
  "let (oks, sl) = run_store_ops (program_pipe demo_trouble (sqlite_handle mem_sql) sqlite_start (\<lambda>_. []) Some) demo_blocking
      (JObject [(''path'', JString ''db'')]) demo_ops (fresh_slot empty_processes)
   in oks = [Put ''b'' (JString ''2''), Remove ''b''] \<and> me_rows (ps_data (sl_world sl)) ''db'' ''a'' = Some ''1'' \<and>
     (\<exists>applied. subseq oks applied \<and> subseq applied demo_ops \<and>
       decoded (sq_parse mem_sql) (me_rows (ps_data (sl_world sl)) ''db'') = fold map_effect applied Map.empty)"
proof -
  obtain oks sl where r: "run_store_ops (program_pipe demo_trouble (sqlite_handle mem_sql) sqlite_start (\<lambda>_. []) Some) demo_blocking
      (JObject [(''path'', JString ''db'')]) demo_ops (fresh_slot empty_processes) = (oks, sl)" by fastforce
  from sqlite_store_refines [OF mem_store.sqlite_store_axioms r demo_ops_good(1,3)] r demo_trouble_run show ?thesis
    by (auto simp: empty_entries)
qed

text \<open>A state store over the Redis extension is a map in the same sense, over the prefixed keys.\<close>

theorem redis_store_refines:
  assumes "redis_store rd kv spec"
    and "run_store_ops (program_pipe trouble (redis_handle rd) () msg time) spec (JObject m) ops (fresh_slot w) = (oks, sl)"
    and "list_all (good_op (\<lambda>v. rd_parse rd (rd_print rd v) = Inr v)) ops" "int (length ops + 3) \<le> u64_max"
  shows "\<exists>applied. subseq oks applied \<and> subseq applied ops \<and> ((\<forall>n. trouble n = Fine) \<longrightarrow> applied = oks) \<and>
    (\<forall>k v sl1. stdio_load (program_pipe trouble (redis_handle rd) () msg time) spec (JObject m) k sl = (Inr v, sl1) \<longrightarrow>
      v = visible (fold map_effect applied (decoded (rd_parse rd)
        (\<lambda>k. kv (ps_data w) (redis_url rd (JObject m)) (or_default ''sohara:'' (member_str (JObject m) ''prefix'') @ k))) k))"
  using redis_store.host_entries [OF assms] by (auto simp: redis_store.rows_def [OF assms(1)])

theorem redis_store_refines_witness:
  "let pp = program_pipe (\<lambda>_. Fine) (redis_handle mem_redis) () (\<lambda>_. []) Some;
       (oks, sl) = run_store_ops pp demo_blocking (JObject []) demo_ops (fresh_slot empty_processes)
   in case fst (stdio_load pp demo_blocking (JObject []) ''b'' sl) of
     Inl _ \<Rightarrow> True | Inr v \<Rightarrow> v = visible (fold map_effect oks Map.empty ''b'')"
proof -
  let ?pp = "program_pipe (\<lambda>_. Fine) (redis_handle mem_redis) () (\<lambda>_. []) Some"
  obtain oks sl where r: "run_store_ops ?pp demo_blocking (JObject []) demo_ops (fresh_slot empty_processes) = (oks, sl)"
    by fastforce
  obtain res sl1 where l: "stdio_load ?pp demo_blocking (JObject []) ''b'' sl = (res, sl1)" by fastforce
  from redis_store_refines [OF mem_redis_store.redis_store_axioms r demo_ops_good(2,3)] l r show ?thesis
    by (cases res) (auto simp: Let_def empty_entries)
qed

section \<open>The SQLite bus\<close>

text \<open>
  Publishers and the child of one trigger on the same database.  The host kills the child after
  an error and a new one starts; the list has what the current child has delivered.
\<close>

datatype bus_op = Bus_Publish string json | Bus_Pull

fun bus_step ::
    "'d sql \<Rightarrow> blocking_spec \<Rightarrow> trigger_meta \<Rightarrow> json \<Rightarrow> bus_op \<Rightarrow> (sqlite_state \<times> 'd) \<times> json list \<Rightarrow> (sqlite_state \<times> 'd) \<times> json list" where
  "bus_step sq spec tm config (Bus_Publish topic v) (s, out) =
     (snd (sqlite_handle sq ''bus.publish'' (publish_params spec config topic v) s), out)"
| "bus_step sq spec tm config Bus_Pull (s, out) =
     (case sqlite_handle sq ''trigger.pull'' (trigger_params tm config) s of
        (Inl _, s1) \<Rightarrow> ((sqlite_start, snd s1), [])
      | (Inr r, s1) \<Rightarrow> (s1, out @ list_of id (the (member r ''records''))))"

definition event_record :: "'d sql \<Rightarrow> int \<times> string \<times> string \<times> string \<Rightarrow> json" where
  "event_record sq e = event_json sq (fst e) (snd (snd (snd e))) (projr (sq_parse sq (fst (snd (snd e)))))"

lemma filter_below:
  assumes "sorted_wrt (<) (map fst es)"
  shows "filter (\<lambda>e. fst e \<le> l) es @ filter (\<lambda>e. l < fst e) es = (es :: ('k :: linorder \<times> 'v) list)"
  using assms
proof (induction es)
  case (Cons a es)
  show ?case
  proof (cases "fst a \<le> l")
    case False
    with Cons.prems have "\<forall>e \<in> set es. l < fst e" by fastforce
    then have "filter (\<lambda>e. fst e \<le> l) es = []" "filter (\<lambda>e. l < fst e) es = es"
      by (auto simp: filter_empty_conv filter_id_conv)
    with False show ?thesis by simp
  qed (use Cons in auto)
qed simp

lemma filter_upto_last:
  assumes "sorted_wrt (<) (map fst es)" "take n es \<noteq> []"
  shows "filter (\<lambda>e. fst e \<le> fst (last (take n es))) es = (take n es :: ('k :: linorder \<times> 'v) list)"
proof -
  from assms(2) obtain b z where bz: "take n es = b @ [z]" by (metis rev_exhaust)
  have es: "es = b @ z # drop n es" using append_take_drop_id [of n es] unfolding bz by simp
  have "sorted_wrt (<) (map fst (b @ z # drop n es))" using assms(1) es by simp
  then have "\<forall>x \<in> set b. fst x < fst z" "\<forall>x \<in> set (drop n es). fst z < fst x"
    by (auto simp: sorted_wrt_append)
  then have "filter (\<lambda>e. fst e \<le> fst z) (b @ z # drop n es) = b @ [z]"
    by (auto simp: filter_id_conv filter_empty_conv not_le less_imp_le)
  then show ?thesis using es bz by simp
qed

lemma pull_rows_Inr:
  "pull_rows sq rows ts = (Inr vs, ts1) \<Longrightarrow>
     vs = map (\<lambda>(i, s, time). event_json sq i time (projr (sq_parse sq s))) rows \<and>
     ts1 = (if rows = [] then ts else ts\<lparr>tr_last_id := fst (last rows)\<rparr>)"
  by (induction rows arbitrary: vs ts) (fastforce split: sum.splits prod.splits if_splits)+

lemma pull_rows_stopped: "pull_rows sq rows ts = (res, ts1) \<Longrightarrow> tr_stopped ts1 = tr_stopped ts"
  by (induction rows arbitrary: ts res) (fastforce split: sum.splits prod.splits)+

context sql_db
begin

text \<open>The events of the file are ordered and the child has delivered those of its topic up to its cursor.\<close>

definition bus_inv :: "string \<Rightarrow> string \<Rightarrow> (sqlite_state \<times> 'd) \<times> json list \<Rightarrow> bool" where
  "bus_inv path topic st \<longleftrightarrow>
     (let ((ts, d), out) = st; es = ev d path in
      sorted_wrt (<) (map fst es) \<and> (\<forall>e \<in> set es. 0 < fst e) \<and> \<not> tr_stopped ts \<and>
      (tr_last_id ts = 0 \<or> tr_last_id ts \<in> fst ` set es) \<and>
      out = map (event_record sq) (filter (\<lambda>e. fst e \<le> tr_last_id ts \<and> fst (snd e) = topic) es))"

lemma bus_inv_start: "sorted_wrt (<) (map fst (ev d path)) \<Longrightarrow> \<forall>e \<in> set (ev d path). 0 < fst e \<Longrightarrow>
    bus_inv path topic ((sqlite_start, d), [])"
  by (auto simp: bus_inv_def Let_def sqlite_start_def filter_empty_conv)

lemma publish_events:
  assumes "sqlite_publish sq params d = (res, d1)"
  shows "ev d1 = ev d \<or> (\<exists>p i t s time. 0 < i \<and> (\<forall>e \<in> set (ev d p). fst e < i) \<and> ev d1 = (ev d)(p := ev d p @ [(i, t, s, time)]))"
proof (cases "path_and params ''topic''")
  case (Inr pt)
  obtain p t where pt: "pt = (p, t)" by fastforce
  show ?thesis
  proof (cases "member params ''payload''")
    case (Some v)
    with assms Inr pt have "with_table sq p ''event_bus'' (\<lambda>d. done_json (sq_insert sq p t (sq_print sq v) d)) d = (res, d1)"
      by (simp add: sqlite_publish_def)
    from with_table_frame [OF this] show ?thesis
    proof
      assume "\<exists>d2. kv d2 = kv d \<and> ev d2 = ev d \<and> done_json (sq_insert sq p t (sq_print sq v) d2) = (res, d1)"
      then obtain d2 q where "ev d2 = ev d" "sq_insert sq p t (sq_print sq v) d2 = (q, d1)"
        by (auto simp: done_json_def prod_eq_iff)
      with inserts [of p t "sq_print sq v" d2 q d1] show ?thesis by (cases "isl q") (simp, simp, blast)
    qed simp
  qed (use assms Inr pt in \<open>simp add: sqlite_publish_def\<close>)
qed (use assms in \<open>simp add: sqlite_publish_def\<close>)

lemma bus_inv_publish:
  assumes "bus_inv path topic (s, out)"
  shows "bus_inv path topic (bus_step sq spec tm config (Bus_Publish t v) (s, out))"
proof -
  obtain ts d where s: "s = (ts, d)" by fastforce
  obtain res d1 where p: "sqlite_publish sq (publish_params spec config t v) d = (res, d1)" by fastforce
  have st: "bus_step sq spec tm config (Bus_Publish t v) (s, out) = ((ts, d1), out)"
    by (simp add: s sqlite_handle_def on_data_def p)
  from publish_events [OF p] show ?thesis
  proof
    assume "ev d1 = ev d"
    then show ?thesis unfolding st using assms by (simp add: s bus_inv_def Let_def)
  next
    assume "\<exists>p i t s time. 0 < i \<and> (\<forall>e \<in> set (ev d p). fst e < i) \<and> ev d1 = (ev d)(p := ev d p @ [(i, t, s, time)])"
    then obtain p i t' x time where i: "0 < i" "\<forall>e \<in> set (ev d p). fst e < i" "ev d1 = (ev d)(p := ev d p @ [(i, t', x, time)])"
      by blast
    have "tr_last_id ts < i" if "p = path" using assms i(1,2) that by (auto simp: s bus_inv_def Let_def)
    with i show ?thesis unfolding st using assms
      by (cases "p = path") (auto simp: s bus_inv_def Let_def sorted_wrt_append)
  qed
qed

lemma bus_inv_pull:
  assumes "bus_inv path (topic_of (JObject m)) (s, out)" "member_str (JObject m) ''path'' = Some path"
  shows "bus_inv path (topic_of (JObject m)) (bus_step sq spec tm (JObject m) Bus_Pull (s, out))"
proof -
  obtain ts d where s: "s = (ts, d)" by fastforce
  let ?topic = "topic_of (JObject m)" and ?n = "batch_size_of (JObject m)" and ?l = "tr_last_id ts"
  have c: "param_config (trigger_params tm (JObject m)) = Inr (JObject m)"
    by (simp add: param_config_def trigger_params_def member_def)
  have inv: "sorted_wrt (<) (map fst (ev d path))" "\<forall>e \<in> set (ev d path). 0 < fst e" "\<not> tr_stopped ts"
    "?l = 0 \<or> ?l \<in> fst ` set (ev d path)"
    "out = map (event_record sq) (filter (\<lambda>e. fst e \<le> ?l \<and> fst (snd e) = ?topic) (ev d path))"
    using assms(1) by (auto simp: bus_inv_def s Let_def)
  obtain r d1 where w: "with_table sq path ''event_bus'' (\<lambda>d. (Inr JNull, d)) d = (r, d1)" by fastforce
  have d1: "ev d1 = ev d" using with_table_frame [OF w] by auto
  have "\<exists>res ts1. sqlite_pull sq (trigger_params tm (JObject m)) s = (res, ts1, d1)"
    using inv(3) w by (cases r; cases "sq_events sq path ?l ?topic ?n d1")
      (auto simp: s sqlite_pull_def c config_path_def need_def assms(2) split: prod.splits)
  then obtain res ts1 where p: "sqlite_pull sq (trigger_params tm (JObject m)) s = (res, ts1, d1)" by blast
  have start: "bus_inv path ?topic ((sqlite_start, d1), [])" using inv(1,2) by (intro bus_inv_start) (simp_all add: d1)
  show ?thesis
  proof (cases res)
    case (Inl e)
    with p start show ?thesis by (simp add: sqlite_handle_def)
  next
    case (Inr j)
    with p w inv(3) obtain rows vs where ev: "sq_events sq path ?l ?topic ?n d1 = Inr rows" and vs: "pull_rows sq rows ts = (Inr vs, ts1)"
      and j: "j = pull_json vs False"
      by (auto simp: s sqlite_pull_def c config_path_def need_def assms(2) rbind_Inr_iff split: sum.splits prod.splits)
    define xs where "xs = filter (\<lambda>e. fst (snd e) = ?topic) (ev d path)"
    define ys where "ys = filter (\<lambda>e. ?l < fst e) xs"
    have sorted: "sorted_wrt (<) (map fst xs)" "sorted_wrt (<) (map fst ys)"
      using inv(1) by (auto simp: xs_def ys_def sorted_wrt_map intro!: sorted_wrt_filter)
    have rows: "rows = map (\<lambda>(i, _, s, time). (i, s, time)) (take ?n ys)"
      using selects_events [OF ev] by (simp add: d1 ys_def xs_def take_map conj_commute)
    have new: "vs = map (event_record sq) (take ?n ys)"
      using pull_rows_Inr [OF vs] by (auto simp: rows event_record_def)
    have stop: "\<not> tr_stopped ts1" using pull_rows_stopped [OF vs] inv(3) by simp
    have out: "out = map (event_record sq) (filter (\<lambda>e. fst e \<le> ?l) xs)"
      using inv(5) by (simp add: xs_def conj_commute)
    have st: "bus_step sq spec tm (JObject m) Bus_Pull (s, out) = ((ts1, d1), out @ vs)"
      by (simp add: sqlite_handle_def p Inr j pull_json_def member_def)
    have cur: "filter (\<lambda>e. fst e \<le> tr_last_id ts1) xs = filter (\<lambda>e. fst e \<le> ?l) xs @ take ?n ys \<and>
      (tr_last_id ts1 = 0 \<or> tr_last_id ts1 \<in> fst ` set (ev d path))"
    proof (cases "take ?n ys = []")
      case True
      with pull_rows_Inr [OF vs] inv(4) show ?thesis by (simp add: rows)
    next
      case False
      let ?k = "fst (last (take ?n ys))"
      have l: "tr_last_id ts1 = ?k" using pull_rows_Inr [OF vs] False by (simp add: rows last_map split_beta)
      have last: "last (take ?n ys) \<in> set ys" using last_in_set [OF False] set_take_subset [of ?n ys] by blast
      then have "?l < ?k" "?k \<in> fst ` set (ev d path)" by (auto simp: ys_def xs_def)
      have "filter (\<lambda>e. fst e \<le> ?k) (filter (\<lambda>e. fst e \<le> ?l) xs @ ys) = filter (\<lambda>e. fst e \<le> ?l) xs @ take ?n ys"
        using \<open>?l < ?k\<close> filter_upto_last [OF sorted(2) False] by (auto intro: filter_cong)
      then show ?thesis using filter_below [OF sorted(1), of ?l] \<open>?k \<in> fst ` set (ev d path)\<close> by (simp add: l ys_def)
    qed
    have "filter (\<lambda>e. fst e \<le> tr_last_id ts1 \<and> fst (snd e) = ?topic) (ev d path) = filter (\<lambda>e. fst e \<le> tr_last_id ts1) xs"
      by (simp add: xs_def conj_commute)
    then show ?thesis unfolding st using cur inv(1,2) stop by (simp add: bus_inv_def Let_def d1 out new)
  qed
qed

lemma bus_delivers:
  assumes "bus_inv path (topic_of (JObject m)) st" "member_str (JObject m) ''path'' = Some path"
  shows "bus_inv path (topic_of (JObject m)) (fold (bus_step sq spec tm (JObject m)) ops st)"
  using assms(1)
proof (induction ops arbitrary: st)
  case (Cons op ops)
  obtain s out where st: "st = (s, out)" by fastforce
  have "bus_inv path (topic_of (JObject m)) (bus_step sq spec tm (JObject m) op st)"
    using Cons.prems bus_inv_publish [of path "topic_of (JObject m)" s out spec tm "JObject m"]
      bus_inv_pull [OF _ assms(2), of s out spec tm]
    by (cases op) (simp_all add: st)
  from Cons.IH [OF this] show ?case by simp
qed simp

end

text \<open>
  C31. The SQLite bus delivers in order, and each message once per child.  However publishing (on any
  topic) and pulling interleave, and whatever fails in the database, what the current child of a
  trigger has delivered are exactly the messages of its topic with ids up to its cursor, in the
  order of publishing; so none was skipped and none came twice, and a child that was restarted
  begins again with the first.
\<close>

theorem sqlite_bus_in_order:
  assumes "sql_db sq kv ev" "member_str (JObject m) ''path'' = Some path" "ev d path = []"
    and "fold (bus_step sq spec tm (JObject m)) ops ((sqlite_start, d), []) = ((ts, d1), out)"
  shows "out = map (event_record sq)
      (filter (\<lambda>e. fst e \<le> tr_last_id ts \<and> fst (snd e) = topic_of (JObject m)) (ev d1 path)) \<and>
    sorted_wrt (<) (map fst (ev d1 path))"
proof -
  have "sql_db.bus_inv sq ev path (topic_of (JObject m)) ((sqlite_start, d), [])"
    by (rule sql_db.bus_inv_start [OF assms(1)]) (simp_all add: assms(3))
  from sql_db.bus_delivers [OF assms(1) this assms(2), of spec tm ops] show ?thesis
    by (simp add: assms(4) sql_db.bus_inv_def [OF assms(1)] Let_def)
qed

definition demo_trigger :: trigger_meta where
  "demo_trigger = \<lparr>tm_id = ''t'', tm_type = ''builtin-sqlite''\<rparr>"

definition demo_bus_config :: "json imap" where
  "demo_bus_config = [(''path'', JString ''db''), (''topic'', JString ''a''), (''batch_size'', json_nat 1)]"

theorem sqlite_bus_in_order_witness:
  "snd (fold (bus_step mem_sql demo_blocking demo_trigger (JObject demo_bus_config))
     [Bus_Publish ''a'' (JString ''1''), Bus_Publish ''b'' (JString ''2''), Bus_Publish ''a'' (JString ''3''), Bus_Pull, Bus_Pull]
     ((sqlite_start, blank_mem), [])) =
   [event_json mem_sql 1 ''now'' (JString ''1''), event_json mem_sql 3 ''now'' (JString ''3'')]"
proof -
  let ?ops = "[Bus_Publish ''a'' (JString ''1''), Bus_Publish ''b'' (JString ''2''), Bus_Publish ''a'' (JString ''3''), Bus_Pull, Bus_Pull]"
  let ?run = "fold (bus_step mem_sql demo_blocking demo_trigger (JObject demo_bus_config)) ?ops ((sqlite_start, blank_mem), [])"
  obtain ts d1 out where r: "?run = ((ts, d1), out)" by (metis prod.exhaust)
  have run: "tr_last_id ts = 3 \<and> me_events d1 ''db'' = [(1, ''a'', ''1'', ''now''), (2, ''b'', ''2'', ''now''), (3, ''a'', ''3'', ''now'')]"
    using r
    by (auto simp: sqlite_handle_def on_data_def sqlite_publish_def path_and_def path_of_def param_config_def publish_params_def
        trigger_params_def config_path_def need_def member_str_def member_nat_def member_def demo_bus_config_def rbind_def
        with_table_def done_json_def mem_sql_def sqlite_pull_def sqlite_start_def topic_of_def batch_size_of_def json_nat_def
        u64_max_def blank_mem_def next_id_def pull_json_def)
  have "me_events blank_mem ''db'' = []" "member_str (JObject demo_bus_config) ''path'' = Some ''db''"
    "topic_of (JObject demo_bus_config) = ''a''"
    by (simp_all add: blank_mem_def demo_bus_config_def member_str_def member_def topic_of_def)
  with sqlite_bus_in_order [OF mem_db.sql_db_axioms _ _ r] run r show ?thesis
    by (simp add: event_record_def) (simp add: mem_sql_def)
qed

section \<open>Children\<close>

definition demo_async :: "async_kind \<Rightarrow> async_spec" where
  "demo_async k =
     \<lparr>x_name = ''builtin'', x_version = ''1'', x_protocol = host_protocol, x_command = ''store'', x_cwd = None,
      x_args = [], x_type = ''builtin-store'', ax_kind = k\<rparr>"

definition demo_meta :: step_meta where
  "demo_meta = \<lparr>sm_id = ''s'', sm_name = ''s'', sm_kind = ''source'', sm_type = ''builtin-store''\<rparr>"

text \<open>The SQLite program is not a source: the handshake fails and no child is left.\<close>

definition demo_owner :: slot_owner where
  "demo_owner = \<lparr>so_async = demo_async Ak_Source, so_blocking = demo_blocking, so_step = demo_meta,
     so_trigger = demo_trigger, so_config = JObject demo_bus_config\<rparr>"

theorem extension_one_child_witness:
  "let pp = program_pipe (\<lambda>_. Fine) (sqlite_handle mem_sql) sqlite_start (\<lambda>_. []) Some;
       sl = fold (\<lambda>op sl. snd (slot_op pp demo_owner op sl)) [Op_Save ''a'' (JString ''1''), Op_Publish ''a'' JNull, Op_Pull]
         (fresh_slot empty_processes)
   in length (sl_alive sl) \<le> 1 \<and> (sl_client sl = None \<longleftrightarrow> sl_alive sl = [])"
  using extension_one_child [of "program_pipe (\<lambda>_. Fine) (sqlite_handle mem_sql) sqlite_start (\<lambda>_. []) Some" demo_owner
    "[Op_Save ''a'' (JString ''1''), Op_Publish ''a'' JNull, Op_Pull]" empty_processes] by (simp only: Let_def)

text \<open>A child that answers from a script.\<close>

definition script_pipe :: "json list pipe" where
  "script_pipe =
     \<lparr>pp_spawn = (\<lambda>spec w. (Inr 0, w)), pp_write = (\<lambda>h v w. (Inr (), w)), pp_flush = (\<lambda>h w. (Inr (), w)),
      pp_read = (\<lambda>h w. case w of [] \<Rightarrow> (Inr None, []) | v # vs \<Rightarrow> (Inr (Some (Inr v)), vs)),
      pp_kill = (\<lambda>h w. w), pp_text = (\<lambda>_. ''failed''), pp_time = Some\<rparr>"

definition demo_record :: "string \<Rightarrow> rec" where
  "demo_record i = \<lparr>rid = i, timestamp = ''t'', payload = JNull, metadata = []\<rparr>"

definition demo_script :: "json list" where
  "demo_script =
     [success_json 1 (initialize_result (no_capabilities\<lparr>cap_source := True\<rparr>)),
      success_json 2 (pull_json [rec_json (demo_record ''a''), rec_json (demo_record ''b'')] True)]"

lemma demo_pull:
  "pull_source script_pipe (demo_async Ak_Source) demo_meta JNull (fresh_slot demo_script) =
     (Inr \<lparr>pu_records = [demo_record ''a'', demo_record ''b''], pu_done = True\<rparr>,
      \<lparr>sl_client = Some \<lparr>cl_child = 0, cl_next = 3, cl_caps = no_capabilities\<lparr>cap_source := True\<rparr>\<rparr>, sl_alive = [0],
       sl_sent = [1, 2], sl_world = []\<rparr>)"
proof -
  let ?caps = "no_capabilities\<lparr>cap_source := True\<rparr>"
  have init: "decode_init (initialize_result ?caps) = Inr (host_protocol, ?caps)"
    by (simp add: decode_init_def initialize_result_def decode_open_def decode_struct_def missing_field_def chk_def
      chk_dec_def decode_capabilities_def capabilities_spec_def capabilities_json_def capability_fields_def
      no_capabilities_def init_spec_def im_contains_def host_protocol_def req_field_def)
  have rec: "decode_rec script_pipe (rec_json (demo_record i)) = Inr (demo_record i)" for i
    by (simp add: decode_rec_def rec_json_def rec_spec_def demo_record_def decode_open_def decode_struct_def missing_field_def
      chk_def chk_any_def chk_map_def im_contains_def script_pipe_def)
  have pull: "decode_pull script_pipe (pull_json [rec_json (demo_record ''a''), rec_json (demo_record ''b'')] True) =
      Inr \<lparr>pu_records = [demo_record ''a'', demo_record ''b''], pu_done = True\<rparr>"
    by (simp add: decode_pull_def pull_json_def decode_open_def decode_struct_def missing_field_def chk_def chk_list_def
      chk_dec_def rec records_of_def im_contains_def)
  have small: "int 1 \<le> u64_max" "int 2 \<le> u64_max" "pull_json vs fin \<noteq> JNull" for vs fin
    by (simp_all add: u64_max_def pull_json_def)
  have ops: "pp_spawn script_pipe = (\<lambda>spec w. (Inr 0, w))" "pp_write script_pipe = (\<lambda>h v w. (Inr (), w))"
    "pp_flush script_pipe = (\<lambda>h w. (Inr (), w))"
    "pp_read script_pipe = (\<lambda>h w. case w of [] \<Rightarrow> (Inr None, []) | v # vs \<Rightarrow> (Inr (Some (Inr v)), vs))"
    by (simp_all add: script_pipe_def)
  show ?thesis
    using decode_success [OF small(1) json_not_null(3), of decode_init ?caps]
      decode_success [OF small(2) small(3), of "decode_pull script_pipe" "[rec_json (demo_record ''a''), rec_json (demo_record ''b'')]" True]
    by (simp add: pull_source_def async_op_def ensure_async_client_def ensure_client_def spawn_client_def sbind_def fresh_slot_def
      or_reset_def initialize_def source_pull_def rpc_call_def rpc_request_def exchange_def demo_script_def demo_async_def
      check_reply_def take_result_def init pull set_caps_def ops)
qed

theorem source_stream_exact_witness:
  "\<exists>sl. source_items 4 script_pipe (demo_async Ak_Source) demo_meta JNull stream_start (fresh_slot demo_script) =
     ([Inr (demo_record ''a''), Inr (demo_record ''b'')], sl)"
  using source_stream_exact [OF pulls.Last [OF demo_pull], of 4] by simp

end
