(* ===== verification/Extension_Host.thy ===== *)
theory Extension_Host
  imports Extension_Client "HOL-Library.Product_Lexorder"
begin

text \<open>
  Extension manifests (\<^verbatim>\<open>sohara-runtime/src/stdio_extensions.rs\<close>): finding and reading them,
  validation, and registration of their steps in the component registry and of their triggers,
  stores and buses in the host.  The file system and the JSON and YAML readers are the parameter
  \<open>manifest_env\<close>.  The factory of a step is \<open>mk\<close> (\<open>stdio_factory\<close> in the program).
\<close>

section \<open>Manifests\<close>

record manifest =
  mf_name :: string
  mf_version :: string
  mf_builtin :: bool
  mf_protocol :: string
  mf_command :: string
  mf_cwd :: "string option"
  mf_args :: "string list"
  mf_steps :: "(step_kind \<times> string) list"
  mf_triggers :: "string list"
  mf_stores :: "string list"
  mf_buses :: "string list"

definition kind_names :: "string list" where
  "kind_names = [''source'', ''transform'', ''sink'', ''control'']"

definition step_registration_spec :: struct_spec where
  "step_registration_spec = [(''kind'', True, chk (is_variant kind_names)), (''type'', True, chk is_string)]"

definition named_registration_spec :: struct_spec where
  "named_registration_spec = [(''type'', True, chk is_string)]"

definition manifest_spec :: struct_spec where
  "manifest_spec =
     [(''name'', True, chk is_string), (''version'', True, chk is_string), (''builtin'', False, chk is_bool),
      (''protocol'', False, chk is_string), (''command'', True, chk is_string), (''cwd'', False, chk_opt (chk is_string)),
      (''args'', False, chk_list (chk is_string)), (''steps'', False, chk_list (chk_struct step_registration_spec)),
      (''triggers'', False, chk_list (chk_struct named_registration_spec)),
      (''state_stores'', False, chk_list (chk_struct named_registration_spec)),
      (''event_buses'', False, chk_list (chk_struct named_registration_spec))]"

definition kind_of :: "string \<Rightarrow> step_kind" where
  "kind_of s = (if s = ''source'' then KSource else if s = ''transform'' then KTransform
     else if s = ''sink'' then KSink else KControl)"

definition step_registration_of :: "json \<Rightarrow> step_kind \<times> string" where
  "step_registration_of v =
     (let m = struct_of step_registration_spec v
      in (kind_of (req_field variant_of m ''kind''), req_field str_of m ''type''))"

definition named_registration_of :: "json \<Rightarrow> string" where
  "named_registration_of v = req_field str_of (struct_of named_registration_spec v) ''type''"

definition decode_manifest :: "json \<Rightarrow> serde_error + manifest" where
  "decode_manifest v =
     rbind (decode_struct manifest_spec v) (\<lambda>m. Inr
       \<lparr>mf_name = req_field str_of m ''name'', mf_version = req_field str_of m ''version'',
        mf_builtin = req_field bool_of m ''builtin'',
        mf_protocol = (case im_get m ''protocol'' of None \<Rightarrow> host_protocol | Some p \<Rightarrow> str_of p),
        mf_command = req_field str_of m ''command'', mf_cwd = opt_field str_of m ''cwd'',
        mf_args = req_field (list_of str_of) m ''args'',
        mf_steps = req_field (list_of step_registration_of) m ''steps'',
        mf_triggers = req_field (list_of named_registration_of) m ''triggers'',
        mf_stores = req_field (list_of named_registration_of) m ''state_stores'',
        mf_buses = req_field (list_of named_registration_of) m ''event_buses''\<rparr>)"

section \<open>Paths\<close>

text \<open>
  The components of a Unix path: the root is 1, a leading current directory 2, a parent directory
  3 and a name 4; this is also the order in which paths are compared.
\<close>

definition path_components :: "string \<Rightarrow> (nat \<times> string) list" where
  "path_components p =
     (let parts = split_on (CHR ''/'') p in
      (if is_absolute p then [(1, [])] else if hd parts = ''.'' then [(2, [])] else []) @
      map (\<lambda>s. if s = ''..'' then (3, []) else (4, s)) (filter (\<lambda>s. s \<noteq> [] \<and> s \<noteq> ''.'') parts))"

definition path_file_name :: "string \<Rightarrow> string option" where
  "path_file_name p =
     (case rev (path_components p) of [] \<Rightarrow> None | (n, s) # _ \<Rightarrow> if n = 4 then Some s else None)"

definition path_extension :: "string \<Rightarrow> string option" where
  "path_extension p =
     (case path_file_name p of
        None \<Rightarrow> None
      | Some s \<Rightarrow>
          (let ps = split_on (CHR ''.'') s
           in if length ps < 2 \<or> length ps = 2 \<and> hd ps = [] then None else Some (last ps)))"

definition strip_slashes :: "string \<Rightarrow> string" where
  "strip_slashes p = rev (dropWhile (\<lambda>c. c = CHR ''/'') (rev p))"

text \<open>\<^verbatim>\<open>Path::parent\<close> of the path of a file.\<close>

definition path_parent :: "string \<Rightarrow> string" where
  "path_parent p =
     (let up = rev (dropWhile (\<lambda>c. c \<noteq> CHR ''/'') (rev (strip_slashes p)))
      in if up = [] then [] else if strip_slashes up = [] then ''/'' else strip_slashes up)"

definition resolve_command :: "string \<Rightarrow> string \<Rightarrow> string" where
  "resolve_command manifest_path command =
     (if is_absolute command \<or> length (path_components command) = 1 then command
      else path_join (path_parent manifest_path) command)"

section \<open>Finding and reading manifests\<close>

record manifest_env =
  mv_is_dir :: "string \<Rightarrow> bool"
  mv_is_file :: "string \<Rightarrow> bool"
  mv_list :: "string \<Rightarrow> string + string list"
  mv_read :: "string \<Rightarrow> string + string"
  mv_json :: "string \<Rightarrow> string + json"
  mv_yaml :: "string \<Rightarrow> string + json"

definition supported_manifest :: "string \<Rightarrow> bool" where
  "supported_manifest p = (path_extension p \<in> {Some ''json'', Some ''yaml'', Some ''yml''})"

definition sort_paths :: "string list \<Rightarrow> string list" where
  "sort_paths = sort_key path_components"

definition manifests_at :: "manifest_env \<Rightarrow> string \<Rightarrow> error + string list" where
  "manifests_at env p =
     (if mv_is_dir env p then
        (case mv_list env p of
           Inl e \<Rightarrow> Inl (Err_Config (C_extension_dir p e))
         | Inr entries \<Rightarrow> Inr (filter (\<lambda>e. mv_is_file env e \<and> supported_manifest e) (sort_paths entries)))
      else if mv_is_file env p then
        (if supported_manifest p then Inr [p] else Inl (Err_Config (C_manifest_suffix p)))
      else Inl (Err_Config (C_extension_missing p)))"

definition manifest_paths :: "manifest_env \<Rightarrow> string list \<Rightarrow> error + string list" where
  "manifest_paths env paths =
     rbind (collect_res (map (manifests_at env) paths)) (\<lambda>ps. Inr (sort_paths (concat ps)))"

definition manifest_of_text :: "string \<Rightarrow> (string \<Rightarrow> string + json) \<Rightarrow> string \<Rightarrow> error + manifest" where
  "manifest_of_text p rd text =
     (case rd text of
        Inl e \<Rightarrow> Inl (Err_Config (C_manifest_parse p (Sd_Text e)))
      | Inr v \<Rightarrow>
          (case decode_manifest v of Inl e \<Rightarrow> Inl (Err_Config (C_manifest_parse p e)) | Inr m \<Rightarrow> Inr m))"

definition parse_manifest :: "manifest_env \<Rightarrow> string \<Rightarrow> error + manifest" where
  "parse_manifest env p =
     (case mv_read env p of
        Inl e \<Rightarrow> Inl (Err_Config (C_manifest_read p e))
      | Inr text \<Rightarrow>
          if path_extension p = Some ''json'' then manifest_of_text p (mv_json env) text
          else if path_extension p \<in> {Some ''yaml'', Some ''yml''} then manifest_of_text p (mv_yaml env) text
          else Inl (Err_Config (C_manifest_suffix p)))"

section \<open>The host\<close>

record loaded_extension =
  le_name :: string
  le_version :: string
  le_registrations :: "string list"

record ext_host =
  eh_loaded :: "loaded_extension list"
  eh_triggers :: "(string \<times> async_spec) list"
  eh_stores :: "(string \<times> blocking_spec) list"
  eh_buses :: "(string \<times> blocking_spec) list"

definition empty_host :: ext_host where
  "empty_host = \<lparr>eh_loaded = [], eh_triggers = [], eh_stores = [], eh_buses = []\<rparr>"

definition step_registration :: "step_kind \<times> string \<Rightarrow> string" where
  "step_registration s = kind_str (fst s) @ '':'' @ snd s"

definition trigger_registration :: "string \<Rightarrow> string" where
  "trigger_registration t = ''trigger:'' @ t"

definition store_registration :: "string \<Rightarrow> string" where
  "store_registration t = ''state_store:'' @ t"

definition bus_registration :: "string \<Rightarrow> string" where
  "bus_registration t = ''event_bus:'' @ t"

definition manifest_registrations :: "manifest \<Rightarrow> string list" where
  "manifest_registrations mf =
     map step_registration (mf_steps mf) @ map trigger_registration (mf_triggers mf) @
     map store_registration (mf_stores mf) @ map bus_registration (mf_buses mf)"

text \<open>The part after the last colon decides whether a registration is reserved.\<close>

definition reserved_registration :: "string \<Rightarrow> bool" where
  "reserved_registration r = (take 8 (last (split_on (CHR '':'') r)) = ''builtin-'')"

definition invalid_manifest :: "manifest \<Rightarrow> manifest_msg \<Rightarrow> error + 'a" where
  "invalid_manifest mf msg = Inl (Err_Config (C_extension (mf_name mf) msg))"

definition validate_builtin_prefixes :: "manifest \<Rightarrow> bool \<Rightarrow> error + unit" where
  "validate_builtin_prefixes mf trusted =
     (case find reserved_registration (manifest_registrations mf) of
        None \<Rightarrow> Inr ()
      | Some r \<Rightarrow> if \<not> trusted \<or> \<not> mf_builtin mf then Inl (Err_Config (C_reserved_registration r)) else Inr ())"

fun validate_steps_new :: "manifest \<Rightarrow> 'w registry \<Rightarrow> (step_kind \<times> string) list \<Rightarrow> (step_kind \<times> string) list \<Rightarrow> error + unit" where
  "validate_steps_new mf reg seen [] = Inr ()"
| "validate_steps_new mf reg seen ((kind, ty) # steps) =
     (if (kind, ty) \<in> set seen then invalid_manifest mf (M_duplicate_step kind ty)
      else if registry_contains reg kind ty then invalid_manifest mf (M_existing_step kind ty)
      else validate_steps_new mf reg ((kind, ty) # seen) steps)"

fun validate_named_duplicates :: "manifest \<Rightarrow> string \<Rightarrow> (string \<Rightarrow> bool) \<Rightarrow> string list \<Rightarrow> string list \<Rightarrow> error + unit" where
  "validate_named_duplicates mf kind exists seen [] = Inr ()"
| "validate_named_duplicates mf kind exists seen (ty # tys) =
     (if ty \<in> set seen then invalid_manifest mf (M_duplicate_named kind ty)
      else if exists ty then invalid_manifest mf (M_existing_named kind ty)
      else validate_named_duplicates mf kind exists (ty # seen) tys)"

definition validate_manifest :: "manifest \<Rightarrow> 'w registry \<Rightarrow> ext_host \<Rightarrow> bool \<Rightarrow> error + unit" where
  "validate_manifest mf reg h trusted =
     (if mf_builtin mf \<and> \<not> trusted then invalid_manifest mf M_untrusted_builtin
      else if mf_protocol mf \<noteq> host_protocol then invalid_manifest mf (M_protocol (mf_protocol mf) host_protocol)
      else if mf_steps mf = [] \<and> mf_triggers mf = [] \<and> mf_stores mf = [] \<and> mf_buses mf = [] then invalid_manifest mf M_empty
      else
        rbind (validate_builtin_prefixes mf trusted) (\<lambda>_.
        rbind (validate_steps_new mf reg [] (mf_steps mf)) (\<lambda>_.
        rbind (validate_named_duplicates mf ''trigger'' (im_contains (eh_triggers h)) [] (mf_triggers mf)) (\<lambda>_.
        rbind (validate_named_duplicates mf ''state_store'' (im_contains (eh_stores h)) [] (mf_stores mf)) (\<lambda>_.
        validate_named_duplicates mf ''event_bus'' (im_contains (eh_buses h)) [] (mf_buses mf))))))"

section \<open>Registration\<close>

definition manifest_base :: "string \<Rightarrow> manifest \<Rightarrow> string \<Rightarrow> ext_base" where
  "manifest_base path mf ty =
     \<lparr>x_name = mf_name mf, x_version = mf_version mf, x_protocol = mf_protocol mf,
      x_command = resolve_command path (mf_command mf), x_cwd = map_option (resolve_command path) (mf_cwd mf),
      x_args = mf_args mf, x_type = ty\<rparr>"

definition manifest_async :: "string \<Rightarrow> manifest \<Rightarrow> async_kind \<Rightarrow> string \<Rightarrow> async_spec" where
  "manifest_async path mf kind ty = ext_base.extend (manifest_base path mf ty) \<lparr>ax_kind = kind\<rparr>"

definition manifest_blocking :: "string \<Rightarrow> manifest \<Rightarrow> blocking_kind \<Rightarrow> string \<Rightarrow> blocking_spec" where
  "manifest_blocking path mf kind ty = ext_base.extend (manifest_base path mf ty) \<lparr>bx_kind = kind\<rparr>"

fun async_kind_of :: "step_kind \<Rightarrow> async_kind option" where
  "async_kind_of KSource = Some Ak_Source"
| "async_kind_of KTransform = Some Ak_Transform"
| "async_kind_of KSink = Some Ak_Sink"
| "async_kind_of KControl = None"

fun register_steps ::
    "(async_spec \<Rightarrow> 'w factory) \<Rightarrow> string \<Rightarrow> manifest \<Rightarrow> (step_kind \<times> string) list \<Rightarrow> 'w registry \<Rightarrow> (error + unit) \<times> 'w registry" where
  "register_steps mk path mf [] reg = (Inr (), reg)"
| "register_steps mk path mf ((kind, ty) # steps) reg =
     (case async_kind_of kind of
        None \<Rightarrow> (invalid_manifest mf (M_control_step ty), reg)
      | Some ak \<Rightarrow> register_steps mk path mf steps (register kind ty (mk (manifest_async path mf ak ty)) reg))"

definition insert_all :: "(string \<Rightarrow> 'v) \<Rightarrow> string list \<Rightarrow> (string \<times> 'v) list \<Rightarrow> (string \<times> 'v) list" where
  "insert_all f tys m = fold (\<lambda>ty. im_insert ty (f ty)) tys m"

definition register_manifest ::
    "(async_spec \<Rightarrow> 'w factory) \<Rightarrow> string \<Rightarrow> manifest \<Rightarrow> 'w registry \<times> ext_host \<Rightarrow> (error + unit) \<times> 'w registry \<times> ext_host" where
  "register_manifest mk path mf s =
     (case register_steps mk path mf (mf_steps mf) (fst s) of
        (Inl e, reg) \<Rightarrow> (Inl e, reg, snd s)
      | (Inr _, reg) \<Rightarrow>
          (Inr (), reg,
           \<lparr>eh_loaded = eh_loaded (snd s) @ [\<lparr>le_name = mf_name mf, le_version = mf_version mf,
              le_registrations = manifest_registrations mf\<rparr>],
            eh_triggers = insert_all (manifest_async path mf Ak_Trigger) (mf_triggers mf) (eh_triggers (snd s)),
            eh_stores = insert_all (manifest_blocking path mf Bk_State_Store) (mf_stores mf) (eh_stores (snd s)),
            eh_buses = insert_all (manifest_blocking path mf Bk_Event_Bus) (mf_buses mf) (eh_buses (snd s))\<rparr>))"

fun load_manifests ::
    "(async_spec \<Rightarrow> 'w factory) \<Rightarrow> manifest_env \<Rightarrow> bool \<Rightarrow> string list \<Rightarrow> 'w registry \<times> ext_host \<Rightarrow>
     (error + unit) \<times> 'w registry \<times> ext_host" where
  "load_manifests mk env trusted [] s = (Inr (), s)"
| "load_manifests mk env trusted (p # ps) s =
     (case rbind (parse_manifest env p) (\<lambda>mf. rbind (validate_manifest mf (fst s) (snd s) trusted) (\<lambda>_. Inr mf)) of
        Inl e \<Rightarrow> (Inl e, s)
      | Inr mf \<Rightarrow>
          (case register_manifest mk p mf s of
             (Inl e, s1) \<Rightarrow> (Inl e, s1)
           | (Inr _, s1) \<Rightarrow> load_manifests mk env trusted ps s1))"

definition load_paths ::
    "(async_spec \<Rightarrow> 'w factory) \<Rightarrow> manifest_env \<Rightarrow> bool \<Rightarrow> string list \<Rightarrow> 'w registry \<times> ext_host \<Rightarrow>
     (error + unit) \<times> 'w registry \<times> ext_host" where
  "load_paths mk env trusted paths s =
     (case manifest_paths env paths of Inl e \<Rightarrow> (Inl e, s) | Inr ps \<Rightarrow> load_manifests mk env trusted ps s)"

text \<open>\<^verbatim>\<open>load_stdio_extensions_with_trusted\<close>; the registry is the caller's and stays changed after an error.\<close>

definition load_stdio_extensions ::
    "(async_spec \<Rightarrow> 'w factory) \<Rightarrow> manifest_env \<Rightarrow> string list \<Rightarrow> string list \<Rightarrow> 'w registry \<Rightarrow> (error + ext_host) \<times> 'w registry" where
  "load_stdio_extensions mk env trusted_paths paths reg =
     (case load_paths mk env True trusted_paths (reg, empty_host) of
        (Inl e, s) \<Rightarrow> (Inl e, fst s)
      | (Inr _, s) \<Rightarrow>
          (case load_paths mk env False paths s of
             (Inl e, s1) \<Rightarrow> (Inl e, fst s1)
           | (Inr _, s1) \<Rightarrow> (Inr (snd s1), fst s1)))"

section \<open>Building from the host\<close>

definition config_error_res :: "config_error + json imap \<Rightarrow> error + json" where
  "config_error_res r = (case r of Inl e \<Rightarrow> Inl (Err_Config (C_config e)) | Inr m \<Rightarrow> Inr (JObject m))"

definition build_trigger :: "ext_host \<Rightarrow> trigger_config \<Rightarrow> error + (async_spec \<times> trigger_meta \<times> json) option" where
  "build_trigger h t =
     (case im_get (eh_triggers h) (t_type t) of
        None \<Rightarrow> Inr None
      | Some spec \<Rightarrow>
          rbind (config_error_res (trigger_type_config t)) (\<lambda>config.
            Inr (Some (spec, \<lparr>tm_id = t_id t, tm_type = t_type t\<rparr>, config))))"

definition build_component ::
    "(string \<times> blocking_spec) list \<Rightarrow> component_config \<Rightarrow> error + (blocking_spec \<times> json) option" where
  "build_component table c =
     (case im_get table (component_type c) of
        None \<Rightarrow> Inr None
      | Some spec \<Rightarrow> rbind (config_error_res (component_type_config c)) (\<lambda>config. Inr (Some (spec, config))))"

definition build_state_store :: "ext_host \<Rightarrow> store_config \<Rightarrow> error + (blocking_spec \<times> json) option" where
  "build_state_store h s = (case s of SPath _ \<Rightarrow> Inr None | SComponent c \<Rightarrow> build_component (eh_stores h) c)"

definition build_event_bus :: "ext_host \<Rightarrow> component_config \<Rightarrow> error + (blocking_spec \<times> json) option" where
  "build_event_bus h c = build_component (eh_buses h) c"

end
