(* ===== verification/Extension_Manifests.thy ===== *)
theory Extension_Manifests
  imports Extension_Host
begin

text \<open>
  What loading extension manifests guarantees: which manifests are accepted, that nothing already
  registered is replaced, and which \<^verbatim>\<open>builtin-\<close> names only trusted manifests register.
\<close>

section \<open>Validation\<close>

lemma reserved_check_iff:
  "validate_builtin_prefixes mf trusted = Inr () \<longleftrightarrow>
     trusted \<and> mf_builtin mf \<or> (\<forall>r \<in> set (manifest_registrations mf). \<not> reserved_registration r)"
  by (auto simp: validate_builtin_prefixes_def find_None_iff find_Some_iff split: option.splits)

lemma steps_check_iff:
  "validate_steps_new mf reg seen steps = Inr () \<longleftrightarrow>
     distinct steps \<and> set steps \<inter> set seen = {} \<and> (\<forall>(kind, ty) \<in> set steps. \<not> registry_contains reg kind ty)"
  by (induction mf reg seen steps rule: validate_steps_new.induct) (auto simp: invalid_manifest_def)

lemma named_check_iff:
  "validate_named_duplicates mf kind ex seen tys = Inr () \<longleftrightarrow>
     distinct tys \<and> set tys \<inter> set seen = {} \<and> (\<forall>ty \<in> set tys. \<not> ex ty)"
  by (induction mf kind ex seen tys rule: validate_named_duplicates.induct) (auto simp: invalid_manifest_def)

lemma rbind_unit_iff: "rbind r (\<lambda>_. m) = Inr () \<longleftrightarrow> r = Inr () \<and> m = Inr ()"
  by (cases r) auto

text \<open>Registration names tell what they name.\<close>

lemma registration_inj [simp]:
  "step_registration s = step_registration s' \<longleftrightarrow> s = s'" "trigger_registration t = trigger_registration t' \<longleftrightarrow> t = t'"
  "store_registration t = store_registration t' \<longleftrightarrow> t = t'" "bus_registration t = bus_registration t' \<longleftrightarrow> t = t'"
  by (cases s; cases s'; cases "fst s"; cases "fst s'";
      simp add: step_registration_def trigger_registration_def store_registration_def bus_registration_def)+

lemma step_registration_other:
  "step_registration s \<noteq> trigger_registration t" "step_registration s \<noteq> store_registration t"
  "step_registration s \<noteq> bus_registration t"
  by (cases s; cases "fst s"; simp add: step_registration_def trigger_registration_def store_registration_def bus_registration_def)+

lemma registration_other:
  "trigger_registration t \<noteq> store_registration t'" "trigger_registration t \<noteq> bus_registration t'"
  "store_registration t \<noteq> bus_registration t'"
  by (simp_all add: trigger_registration_def store_registration_def bus_registration_def)

lemmas registration_distinct [simp] =
  step_registration_other registration_other step_registration_other [symmetric] registration_other [symmetric]

lemma distinct_registrations:
  "distinct (manifest_registrations mf) \<longleftrightarrow>
     distinct (mf_steps mf) \<and> distinct (mf_triggers mf) \<and> distinct (mf_stores mf) \<and> distinct (mf_buses mf)"
  by (auto simp: manifest_registrations_def distinct_map inj_on_def)

text \<open>What a host and a registry already have, as registration names.\<close>

definition taken :: "'w registry \<Rightarrow> ext_host \<Rightarrow> string set" where
  "taken reg h =
     {step_registration s | s. registry_contains reg (fst s) (snd s)} \<union>
     {trigger_registration t | t. im_contains (eh_triggers h) t} \<union> {store_registration t | t. im_contains (eh_stores h) t} \<union>
     {bus_registration t | t. im_contains (eh_buses h) t}"

lemma taken_iff [simp]:
  "step_registration s \<in> taken reg h \<longleftrightarrow> registry_contains reg (fst s) (snd s)"
  "trigger_registration t \<in> taken reg h \<longleftrightarrow> im_contains (eh_triggers h) t"
  "store_registration t \<in> taken reg h \<longleftrightarrow> im_contains (eh_stores h) t"
  "bus_registration t \<in> taken reg h \<longleftrightarrow> im_contains (eh_buses h) t"
  by (cases s, auto simp: taken_def)

definition acceptable :: "manifest \<Rightarrow> string set \<Rightarrow> bool \<Rightarrow> bool" where
  "acceptable mf names trusted \<longleftrightarrow>
     (mf_builtin mf \<longrightarrow> trusted) \<and> mf_protocol mf = host_protocol \<and> manifest_registrations mf \<noteq> [] \<and>
     distinct (manifest_registrations mf) \<and> set (manifest_registrations mf) \<inter> names = {} \<and>
     ((\<exists>r \<in> set (manifest_registrations mf). reserved_registration r) \<longrightarrow> mf_builtin mf)"

lemma free_registrations:
  "set (manifest_registrations mf) \<inter> taken reg h = {} \<longleftrightarrow>
     (\<forall>(kind, ty) \<in> set (mf_steps mf). \<not> registry_contains reg kind ty) \<and>
     (\<forall>t \<in> set (mf_triggers mf). \<not> im_contains (eh_triggers h) t) \<and>
     (\<forall>t \<in> set (mf_stores mf). \<not> im_contains (eh_stores h) t) \<and>
     (\<forall>t \<in> set (mf_buses mf). \<not> im_contains (eh_buses h) t)"
proof -
  have "x \<notin> taken reg h \<longleftrightarrow> \<not> x \<in> taken reg h" for x by simp
  then show ?thesis by (simp add: manifest_registrations_def Int_Un_distrib2 disjoint_iff ball_Un image_Un)
      (auto simp: split_beta)
qed

lemma validate_manifest_acceptable:
  "validate_manifest mf reg h trusted = Inr () \<longleftrightarrow> acceptable mf (taken reg h) trusted"
proof -
  have "manifest_registrations mf = [] \<longleftrightarrow> mf_steps mf = [] \<and> mf_triggers mf = [] \<and> mf_stores mf = [] \<and> mf_buses mf = []"
    by (simp add: manifest_registrations_def)
  then show ?thesis
    unfolding acceptable_def free_registrations distinct_registrations validate_manifest_def
    by (auto simp: invalid_manifest_def rbind_unit_iff reserved_check_iff steps_check_iff named_check_iff)
qed

text \<open>
  A manifest is accepted exactly when it speaks the host's protocol, registers something, and its
  registrations are distinct from one another and from all steps, triggers, stores and buses that
  exist; it may call itself builtin only on the trusted path, and only then use reserved names.
\<close>

theorem manifest_valid_iff:
  "validate_manifest mf reg h trusted = Inr () \<longleftrightarrow> acceptable mf (taken reg h) trusted"
  by (rule validate_manifest_acceptable)

section \<open>Registration\<close>

lemma register_steps_get:
  assumes "register_steps mk path mf steps reg = (Inr (), reg1)"
  shows "(\<forall>s \<in> set steps. im_get reg1 s \<noteq> None) \<and> (\<forall>s. s \<notin> set steps \<longrightarrow> im_get reg1 s = im_get reg s)"
  using assms
proof (induction steps arbitrary: reg)
  case (Cons s steps)
  obtain kind ty where s: "s = (kind, ty)" by fastforce
  with Cons.prems obtain ak where "async_kind_of kind = Some ak"
    "register_steps mk path mf steps (register kind ty (mk (manifest_async path mf ak ty)) reg) = (Inr (), reg1)"
    by (auto simp: invalid_manifest_def split: option.splits)
  from Cons.IH [OF this(2)] show ?case
    by (auto simp: s register_def)
qed simp

lemma im_contains_insert_all: "im_contains (insert_all f tys m) k \<longleftrightarrow> k \<in> set tys \<or> im_contains m k"
proof -
  have "im_contains (fold (\<lambda>ty. im_insert ty (f ty)) tys m) k \<longleftrightarrow> k \<in> set tys \<or> im_contains m k"
    by (induction tys arbitrary: m) (auto simp: im_contains_def)
  then show ?thesis by (simp add: insert_all_def)
qed

text \<open>What holds between the loading of manifests, from the registry \<open>reg0\<close> on.\<close>

definition names_of :: "ext_host \<Rightarrow> string list" where
  "names_of h = concat (map le_registrations (eh_loaded h))"

definition load_inv :: "'w registry \<Rightarrow> 'w registry \<times> ext_host \<Rightarrow> bool" where
  "load_inv reg0 s \<longleftrightarrow>
     (\<forall>k f. im_get reg0 k = Some f \<longrightarrow> im_get (fst s) k = Some f) \<and> distinct (names_of (snd s)) \<and>
     taken (fst s) (snd s) = taken reg0 empty_host \<union> set (names_of (snd s)) \<and>
     taken reg0 empty_host \<inter> set (names_of (snd s)) = {}"

lemma load_inv_start: "load_inv reg (reg, empty_host)"
  by (simp add: load_inv_def names_of_def) (simp add: empty_host_def)

lemma taken_register:
  assumes "register_manifest mk path mf s = (Inr (), s1)"
  shows "taken (fst s1) (snd s1) = taken (fst s) (snd s) \<union> set (manifest_registrations mf)"
proof -
  obtain reg1 where r: "register_steps mk path mf (mf_steps mf) (fst s) = (Inr (), reg1)" "fst s1 = reg1"
    using assms by (auto simp: register_manifest_def split: prod.splits sum.splits)
  have "registry_contains reg1 kind ty \<longleftrightarrow> (kind, ty) \<in> set (mf_steps mf) \<or> registry_contains (fst s) kind ty" for kind ty
    using register_steps_get [OF r(1)] by (cases "(kind, ty) \<in> set (mf_steps mf)") (auto simp: registry_contains_def im_contains_def)
  moreover have "snd s1 = \<lparr>eh_loaded = eh_loaded (snd s) @ [\<lparr>le_name = mf_name mf, le_version = mf_version mf,
              le_registrations = manifest_registrations mf\<rparr>],
            eh_triggers = insert_all (manifest_async path mf Ak_Trigger) (mf_triggers mf) (eh_triggers (snd s)),
            eh_stores = insert_all (manifest_blocking path mf Bk_State_Store) (mf_stores mf) (eh_stores (snd s)),
            eh_buses = insert_all (manifest_blocking path mf Bk_Event_Bus) (mf_buses mf) (eh_buses (snd s))\<rparr>"
    using assms r by (auto simp: register_manifest_def)
  ultimately show ?thesis
    by (auto simp: taken_def r(2) im_contains_insert_all manifest_registrations_def)
qed

lemma load_inv_register:
  assumes "load_inv reg0 s" "acceptable mf (taken (fst s) (snd s)) trusted" "register_manifest mk path mf s = (Inr (), s1)"
  shows "load_inv reg0 s1 \<and> names_of (snd s1) = names_of (snd s) @ manifest_registrations mf"
proof -
  obtain reg1 where r: "register_steps mk path mf (mf_steps mf) (fst s) = (Inr (), reg1)" "fst s1 = reg1"
    using assms(3) by (auto simp: register_manifest_def split: prod.splits sum.splits)
  have names: "names_of (snd s1) = names_of (snd s) @ manifest_registrations mf"
    using assms(3) r by (auto simp: register_manifest_def names_of_def)
  have free: "set (manifest_registrations mf) \<inter> taken (fst s) (snd s) = {}" "distinct (manifest_registrations mf)"
    using assms(2) by (auto simp: acceptable_def)
  have "im_get reg1 k = Some f" if "im_get reg0 k = Some f" for k f
  proof -
    have "im_get (fst s) k = Some f" using assms(1) that unfolding load_inv_def by blast
    then have "k \<notin> set (mf_steps mf)"
      using free(1) by (auto simp: free_registrations registry_contains_def im_contains_def)
    with register_steps_get [OF r(1)] \<open>im_get (fst s) k = Some f\<close> show ?thesis by (cases k) simp
  qed
  with assms(1) free taken_register [OF assms(3)] names r(2) show ?thesis
    by (auto simp: load_inv_def)
qed

lemma load_manifests_inv:
  assumes "load_manifests mk env trusted ps s = (Inr (), s1)" "load_inv reg0 s"
  shows "load_inv reg0 s1 \<and>
    (\<exists>new. eh_loaded (snd s1) = eh_loaded (snd s) @ new \<and> length new = length ps \<and>
      (\<not> trusted \<longrightarrow> (\<forall>le \<in> set new. \<forall>r \<in> set (le_registrations le). \<not> reserved_registration r)))"
  using assms
proof (induction ps arbitrary: s)
  case (Cons p ps)
  from Cons.prems(1) obtain mf s2 where mf: "validate_manifest mf (fst s) (snd s) trusted = Inr ()"
    "register_manifest mk p mf s = (Inr (), s2)" "load_manifests mk env trusted ps s2 = (Inr (), s1)"
    by (auto simp: rbind_Inr_iff split: sum.splits prod.splits)
  have ok: "acceptable mf (taken (fst s) (snd s)) trusted" using mf(1) by (simp add: validate_manifest_acceptable)
  from Cons.IH [OF mf(3)] load_inv_register [OF Cons.prems(2) ok mf(2)] obtain new where
    n: "load_inv reg0 s1" "eh_loaded (snd s1) = eh_loaded (snd s2) @ new" "length new = length ps"
    "\<not> trusted \<longrightarrow> (\<forall>le \<in> set new. \<forall>r \<in> set (le_registrations le). \<not> reserved_registration r)" by blast
  have "eh_loaded (snd s2) = eh_loaded (snd s) @
      [\<lparr>le_name = mf_name mf, le_version = mf_version mf, le_registrations = manifest_registrations mf\<rparr>]"
    using mf(2) by (auto simp: register_manifest_def split: prod.splits sum.splits)
  then show ?case using n ok by (auto simp: acceptable_def intro!: exI)
qed simp

text \<open>
  A registration is a kind, a colon and a type name.  The names meant for the shipped extensions are
  those that begin with \<^verbatim>\<open>builtin-\<close>; the loader's check finds them when they have no colon of their own.
\<close>

definition builtin_name :: "string \<Rightarrow> bool" where
  "builtin_name t \<longleftrightarrow> (\<exists>rest. t = ''builtin-'' @ rest)"

lemma last_split_on: "last (split_on c (p @ c # s)) = last (split_on c s)"
  by (simp add: split_on_sep)

lemma reserved_if_builtin_name:
  assumes "builtin_name t" "CHR '':'' \<notin> set t"
  shows "reserved_registration (kind @ '':'' @ t)"
  using assms by (auto simp: reserved_registration_def builtin_name_def last_split_on split_on_no_sep)

text \<open>
  C29. Loading extensions only adds.  After loading succeeded: every step factory that was registered
  before is still the one registered; the registrations of all loaded manifests are distinct, none
  existed before, and together with what existed they are all there is; and no manifest outside the
  trusted paths registered, under any kind, a name that begins with \<^verbatim>\<open>builtin-\<close> and has no colon of
  its own.  A name such as \<^verbatim>\<open>builtin-x:y\<close> is not stopped (\<open>reserved_name_escapes\<close>), although
  docs/design/next-roadmap.md (OD-6) reserves every name that begins so.
\<close>

theorem load_extensions_sound:
  assumes "load_stdio_extensions mk env trusted_paths paths reg = (Inr h, reg1)"
    and "manifest_paths env trusted_paths = Inr ps"
  shows "(\<forall>k f. im_get reg k = Some f \<longrightarrow> im_get reg1 k = Some f) \<and>
    distinct (names_of h) \<and> taken reg empty_host \<inter> set (names_of h) = {} \<and>
    taken reg1 h = taken reg empty_host \<union> set (names_of h) \<and>
    (\<forall>le \<in> set (drop (length ps) (eh_loaded h)). \<forall>kind t. kind @ '':'' @ t \<in> set (le_registrations le) \<longrightarrow>
      builtin_name t \<longrightarrow> CHR '':'' \<in> set t)"
proof -
  from assms obtain s qs where s: "load_manifests mk env True ps (reg, empty_host) = (Inr (), s)"
    "load_manifests mk env False qs s = (Inr (), reg1, h)"
    by (auto simp: load_stdio_extensions_def load_paths_def split: sum.splits prod.splits)
  from load_manifests_inv [OF s(1) load_inv_start] have inv: "load_inv reg s" and l: "length (eh_loaded (snd s)) = length ps"
    by (auto simp: empty_host_def)
  from load_manifests_inv [OF s(2) inv] l have "load_inv reg (reg1, h)"
    "\<forall>le \<in> set (drop (length ps) (eh_loaded h)). \<forall>r \<in> set (le_registrations le). \<not> reserved_registration r" by auto
  then show ?thesis using reserved_if_builtin_name by (fastforce simp: load_inv_def)
qed

definition demo_manifest :: "string \<Rightarrow> json" where
  "demo_manifest t = JObject [(''name'', JString ''demo''), (''version'', JString ''1''), (''command'', JString ''run''),
     (''steps'', JArray [JObject [(''kind'', JString ''sink''), (''type'', JString ''x'')]]),
     (''triggers'', JArray [JObject [(''type'', JString t)]])]"

definition demo_env :: "string \<Rightarrow> manifest_env" where
  "demo_env t = \<lparr>mv_is_dir = (\<lambda>_. False), mv_is_file = (\<lambda>_. True), mv_list = (\<lambda>_. Inr []), mv_read = (\<lambda>_. Inr []),
     mv_json = (\<lambda>_. Inr (demo_manifest t)), mv_yaml = (\<lambda>_. Inl ''yaml'')\<rparr>"

lemma demo_decode:
  "decode_manifest (demo_manifest t) = Inr \<lparr>mf_name = ''demo'', mf_version = ''1'', mf_builtin = False,
     mf_protocol = host_protocol, mf_command = ''run'', mf_cwd = None, mf_args = [], mf_steps = [(KSink, ''x'')],
     mf_triggers = [t], mf_stores = [], mf_buses = []\<rparr>"
  by (simp add: decode_manifest_def demo_manifest_def decode_struct_def manifest_spec_def missing_field_def chk_def chk_list_def
      chk_struct_def step_registration_spec_def named_registration_spec_def kind_names_def im_contains_def req_field_def
      opt_field_def step_registration_of_def named_registration_of_def struct_of_def kind_of_def)

lemma demo_load:
  assumes "\<not> reserved_registration (''trigger:'' @ t)"
  shows "\<exists>h reg1. load_stdio_extensions mk (demo_env t) [] [''a.json''] [] = (Inr h, reg1) \<and>
     names_of h = [''sink:x'', ''trigger:'' @ t]"
  using assms
  by (simp add: load_stdio_extensions_def load_paths_def manifest_paths_def manifests_at_def demo_env_def supported_manifest_def
      path_extension_def path_file_name_def path_components_def is_absolute_def sort_paths_def parse_manifest_def
      manifest_of_text_def demo_decode validate_manifest_def validate_builtin_prefixes_def manifest_registrations_def
      reserved_registration_def step_registration_def trigger_registration_def registry_contains_def im_contains_def
      empty_host_def register_manifest_def names_of_def)

text \<open>An untrusted manifest gets a name that begins with \<^verbatim>\<open>builtin-\<close> when the name has a colon.\<close>

lemma reserved_name_escapes:
  "builtin_name ''builtin-x:y'' \<and>
   (\<exists>h reg1. load_stdio_extensions mk (demo_env ''builtin-x:y'') [] [''a.json''] [] = (Inr h, reg1) \<and>
     names_of h = [''sink:x'', ''trigger:builtin-x:y''])"
  using demo_load [of "''builtin-x:y''" mk] by (simp add: builtin_name_def reserved_registration_def)

theorem load_extensions_sound_witness:
  "\<exists>h reg1. load_stdio_extensions (\<lambda>_ _ _. Inr (BControl (Delay 0)) :: error + unit built_step) (demo_env ''x'') [] [''a.json''] [] = (Inr h, reg1) \<and>
     taken reg1 h = {''sink:x'', ''trigger:x''}"
proof -
  let ?mk = "\<lambda>_ _ _. Inr (BControl (Delay 0)) :: error + unit built_step"
  obtain h reg1 where l: "load_stdio_extensions ?mk (demo_env ''x'') [] [''a.json''] [] = (Inr h, reg1)" "names_of h = [''sink:x'', ''trigger:x'']"
    using demo_load [of "''x''" ?mk] by (auto simp: reserved_registration_def)
  have "taken ([] :: unit registry) empty_host = {}" by (simp add: taken_def empty_host_def registry_contains_def im_contains_def)
  moreover have "manifest_paths (demo_env ''x'') [] = Inr []" by (simp add: manifest_paths_def sort_paths_def)
  ultimately have "taken reg1 h = set (names_of h)" using load_extensions_sound [OF l(1)] by simp
  then have "taken reg1 h = {''sink:x'', ''trigger:x''}" by (simp only: l(2) list.set)
  with l(1) show ?thesis by blast
qed

end
