(* ===== verification/Run_History.thy ===== *)
theory Run_History
  imports Exec_State File_Steps
begin

text \<open>
  The run history (\<^verbatim>\<open>sohara-runtime/src/history.rs\<close> and \<^verbatim>\<open>sohara-cli/src/history.rs\<close>): a JSON-lines
  file with one entry per run.  The file is its text, or \<open>None\<close> while it does not exist; the faults of
  the file system and the JSON printer and reader are parameters.
\<close>

section \<open>Entries\<close>

definition num :: "nat \<Rightarrow> json" where
  "num n = JNumber (PosInt (int n))"

definition stats_json :: "stats_snapshot \<Rightarrow> json" where
  "stats_json s = JObject [(''processed'', num (st_processed s)), (''filtered'', num (st_filtered s)),
     (''errors'', num (st_errors s)), (''waiting'', num (st_waiting s)), (''duplicates'', num (st_duplicates s))]"

definition step_stat_json :: "step_stat \<Rightarrow> json" where
  "step_stat_json s = JObject [(''processed'', num (ss_processed s)), (''filtered'', num (ss_filtered s)),
     (''errors'', num (ss_errors s)), (''nanos'', num (ss_nanos s))]"

definition report_json :: "run_report \<Rightarrow> json" where
  "report_json r = JObject [(''run_id'', JString (rr_run_id r)), (''flow'', JString (rr_flow r)),
     (''started_at'', JString (rr_started_at r)), (''stats'', stats_json (rr_stats r)),
     (''steps'', JObject (map (\<lambda>(i, s). (i, step_stat_json s)) (rr_steps r)))]"

definition entry_json :: "run_report \<Rightarrow> string \<Rightarrow> string \<Rightarrow> string option \<Rightarrow> json" where
  "entry_json r finished_at status err =
     JObject ([(''run_id'', JString (rr_run_id r)), (''flow'', JString (rr_flow r)),
       (''started_at'', JString (rr_started_at r)), (''finished_at'', JString finished_at), (''status'', JString status)]
       @ (case err of None \<Rightarrow> [] | Some e \<Rightarrow> [(''error'', JString e)])
       @ [(''stats'', stats_json (rr_stats r)),
          (''steps'', JArray (map (\<lambda>(i, s). JArray [JString i, step_stat_json s]) (rr_steps r)))])"

section \<open>File\<close>

text \<open>A failing write leaves the given prefix of its text behind.\<close>

record history_io =
  hi_mkdir :: "string option"
  hi_open :: "string option"
  hi_write :: "(string \<times> nat) option"
  hi_read :: "string option"
  hi_now :: string
  hi_print :: "json \<Rightarrow> string"
  hi_parse :: "string \<Rightarrow> json option"

type_synonym history_file = "string option"

definition file_text :: "history_file \<Rightarrow> string" where
  "file_text f = (case f of None \<Rightarrow> [] | Some t \<Rightarrow> t)"

definition append_line :: "history_io \<Rightarrow> json \<Rightarrow> history_file \<Rightarrow> (error + unit) \<times> history_file" where
  "append_line io entry f =
     (case hi_mkdir io of
        Some e \<Rightarrow> (Inl (Err_Io e), f)
      | None \<Rightarrow>
          (case hi_open io of
             Some e \<Rightarrow> (Inl (Err_Io e), f)
           | None \<Rightarrow>
               (let text = hi_print io entry @ [newline] in
                case hi_write io of
                  Some (e, n) \<Rightarrow> (Inl (Err_Io e), Some (file_text f @ take n text))
                | None \<Rightarrow> (Inr (), Some (file_text f @ text)))))"

definition history_append ::
    "history_io \<Rightarrow> run_report \<Rightarrow> string \<Rightarrow> string option \<Rightarrow> history_file \<Rightarrow> (error + unit) \<times> history_file" where
  "history_append io r status err f = append_line io (entry_json r (hi_now io) status err) f"

definition read_recent :: "history_io \<Rightarrow> history_file \<Rightarrow> nat \<Rightarrow> error + json list" where
  "read_recent io f limit =
     (case f of
        None \<Rightarrow> Inr []
      | Some text \<Rightarrow>
          (case hi_read io of
             Some e \<Rightarrow> Inl (Err_Io e)
           | None \<Rightarrow> Inr (take limit (rev (List.map_filter (hi_parse io) (text_lines text))))))"

section \<open>Command line\<close>

definition failed_report :: "string \<Rightarrow> string \<Rightarrow> string \<Rightarrow> run_report" where
  "failed_report uuid flow started_at =
     \<lparr>rr_run_id = ''failed-'' @ uuid, rr_flow = flow, rr_started_at = started_at,
      rr_stats = \<lparr>st_processed = 0, st_filtered = 0, st_errors = 0, st_waiting = 0, st_duplicates = 0\<rparr>, rr_steps = []\<rparr>"

definition append_history :: "history_io \<Rightarrow> run_report \<Rightarrow> string option \<Rightarrow> history_file \<Rightarrow> (error + unit) \<times> history_file" where
  "append_history io r err f =
     append_line io (entry_json r (hi_now io) (if err \<noteq> None then ''error'' else ''ok'') err) f"

text \<open>A row of the table, before padding: status, flow, run id, day, and the two counters as they are.\<close>

definition text_field :: "json \<Rightarrow> string \<Rightarrow> string" where
  "text_field v k = (case v of JObject m \<Rightarrow> (case im_get m k of Some (JString s) \<Rightarrow> s | _ \<Rightarrow> ''?'') | _ \<Rightarrow> ''?'')"

definition index :: "json \<Rightarrow> string \<Rightarrow> json" where
  "index v k = (case v of JObject m \<Rightarrow> (case im_get m k of Some x \<Rightarrow> x | None \<Rightarrow> JNull) | _ \<Rightarrow> JNull)"

definition history_row :: "json \<Rightarrow> string list \<times> json list" where
  "history_row v =
     ([text_field v ''status'', text_field v ''flow'', text_field v ''run_id'', take 10 (text_field v ''finished_at'')],
      [index (index v ''stats'') ''processed'', index (index v ''stats'') ''errors''])"

text \<open>The rows printed, and whether a line that is no JSON ended the listing with an error.\<close>

fun history_rows :: "history_io \<Rightarrow> string list \<Rightarrow> (string list \<times> json list) list \<times> bool" where
  "history_rows io [] = ([], True)"
| "history_rows io (l # ls) =
     (case hi_parse io l of
        None \<Rightarrow> ([], False)
      | Some v \<Rightarrow> (let (rows, fine) = history_rows io ls in (history_row v # rows, fine)))"

definition show_history :: "history_io \<Rightarrow> history_file \<Rightarrow> nat \<Rightarrow> ((string list \<times> json list) list \<times> bool) option" where
  "show_history io f limit =
     (case f of
        None \<Rightarrow> None
      | Some text \<Rightarrow>
          (case hi_read io of
             Some _ \<Rightarrow> None
           | None \<Rightarrow> Some (history_rows io (rev (take limit (rev (text_lines text)))))))"

section \<open>Lines\<close>

text \<open>A value that is printed on a single line and read back.\<close>

definition prints_line :: "history_io \<Rightarrow> json \<Rightarrow> bool" where
  "prints_line io v \<longleftrightarrow> hi_parse io (hi_print io v) = Some v \<and>
     hi_print io v \<noteq> [] \<and> newline \<notin> set (hi_print io v) \<and> last (hi_print io v) \<noteq> CHR 0x0D"

definition io_healthy :: "history_io \<Rightarrow> bool" where
  "io_healthy io \<longleftrightarrow> hi_mkdir io = None \<and> hi_open io = None \<and> hi_write io = None \<and> hi_read io = None"

text \<open>A file that consists of complete lines.\<close>

definition whole_lines :: "history_file \<Rightarrow> bool" where
  "whole_lines f \<longleftrightarrow> file_text f = [] \<or> last (file_text f) = newline"

lemma text_lines_nl: "text_lines (t @ [newline]) = map strip_cr (split_on newline t)"
  using split_on_sep [of newline t "[]"] by (simp add: text_lines_def Let_def)

lemma text_lines_append:
  assumes "t = [] \<or> last t = newline" "newline \<notin> set p" "p \<noteq> []" "last p \<noteq> CHR 0x0D"
  shows "text_lines (t @ p @ [newline]) = text_lines t @ [p]"
proof -
  have p: "strip_cr p = p" using assms(3,4) by (simp add: strip_cr_def)
  show ?thesis
  proof (cases "t = []")
    case True
    then show ?thesis using text_lines_nl [of p] p by (simp add: split_on_no_sep [OF assms(2)] text_lines_def)
  next
    case False
    with assms(1) obtain t0 where t: "t = t0 @ [newline]" by (metis append_butlast_last_id)
    have "text_lines (t @ p @ [newline]) = map strip_cr (split_on newline (t0 @ newline # p))"
      using text_lines_nl [of "t0 @ newline # p"] by (simp add: t)
    also have "\<dots> = text_lines t @ [p]"
      by (simp add: split_on_sep split_on_no_sep [OF assms(2)] p t text_lines_nl)
    finally show ?thesis .
  qed
qed

text \<open>The entries of a file, oldest first.\<close>

definition entries :: "history_io \<Rightarrow> history_file \<Rightarrow> json list" where
  "entries io f = List.map_filter (hi_parse io) (text_lines (file_text f))"

lemma text_lines_Nil [simp]: "text_lines [] = []"
  by (simp add: text_lines_def)

lemma append_line_ok:
  assumes "prints_line io v" "io_healthy io" "whole_lines f"
  shows "fst (append_line io v f) = Inr ()" "whole_lines (snd (append_line io v f))"
    and "entries io (snd (append_line io v f)) = entries io f @ [v]"
proof -
  have eq: "append_line io v f = (Inr (), Some (file_text f @ hi_print io v @ [newline]))"
    using assms(2) by (simp add: append_line_def io_healthy_def Let_def)
  then show "fst (append_line io v f) = Inr ()" "whole_lines (snd (append_line io v f))"
    by (simp_all add: whole_lines_def file_text_def)
  have "text_lines (file_text f @ hi_print io v @ [newline]) = text_lines (file_text f) @ [hi_print io v]"
    using assms(1,3) by (intro text_lines_append) (auto simp: whole_lines_def prints_line_def)
  then show "entries io (snd (append_line io v f)) = entries io f @ [v]"
    using assms(1) by (simp add: eq entries_def file_text_def prints_line_def List.map_filter_def)
qed

definition append_all :: "history_io \<Rightarrow> (run_report \<times> string \<times> string option) list \<Rightarrow> history_file \<Rightarrow> history_file" where
  "append_all io = fold (\<lambda>(r, status, err) f. snd (history_append io r status err f))"

definition entry_of :: "history_io \<Rightarrow> run_report \<times> string \<times> string option \<Rightarrow> json" where
  "entry_of io e = (case e of (r, status, err) \<Rightarrow> entry_json r (hi_now io) status err)"

lemma append_all_entries:
  assumes "io_healthy io"
  shows "\<lbrakk>whole_lines f; \<forall>e \<in> set es. prints_line io (entry_of io e)\<rbrakk> \<Longrightarrow>
    whole_lines (append_all io es f) \<and> entries io (append_all io es f) = entries io f @ map (entry_of io) es"
proof (induction es arbitrary: f)
  case (Cons e es)
  obtain r status err where e: "e = (r, status, err)" by (cases e)
  have p: "prints_line io (entry_json r (hi_now io) status err)" using Cons.prems(2) by (simp add: e entry_of_def)
  have "append_all io (e # es) f = append_all io es (snd (append_line io (entry_json r (hi_now io) status err) f))"
    by (simp add: append_all_def e history_append_def)
  with Cons.IH [OF append_line_ok(2) [OF p assms Cons.prems(1)]] Cons.prems(2) append_line_ok(3) [OF p assms Cons.prems(1)]
  show ?case by (simp add: e entry_of_def)
qed (simp add: append_all_def)

lemma read_recent_entries:
  "io_healthy io \<Longrightarrow> read_recent io f limit = Inr (take limit (rev (entries io f)))"
  by (cases f) (simp_all add: read_recent_def io_healthy_def entries_def file_text_def List.map_filter_def)

lemma history_rows_all:
  "\<forall>l \<in> set ls. hi_parse io l \<noteq> None \<Longrightarrow> history_rows io ls = (map history_row (List.map_filter (hi_parse io) ls), True)"
  by (induction ls) (auto simp: List.map_filter_simps split: option.splits)

section \<open>Properties\<close>

text \<open>
  The run history is read back as it was written.  When no file operation fails and the entries
  are printed on single lines that parse back: after they are appended to a missing file or to one of
  complete lines, the most recent \<open>limit\<close> entries are those appended last, newest first, then the
  older ones of the file.
\<close>

theorem history_roundtrip:
  assumes "io_healthy io" "whole_lines f" "\<forall>e \<in> set es. prints_line io (entry_of io e)"
  shows "read_recent io (append_all io es f) limit = Inr (take limit (rev (map (entry_of io) es) @ rev (entries io f)))"
  using append_all_entries [OF assms] by (simp add: read_recent_entries [OF assms(1)])

definition demo_report :: run_report where
  "demo_report = failed_report ''u'' ''flow'' ''t0''"

definition demo_io :: history_io where
  "demo_io = \<lparr>hi_mkdir = None, hi_open = None, hi_write = None, hi_read = None, hi_now = ''t1'',
     hi_print = (\<lambda>_. ''e''), hi_parse = (\<lambda>s. if s = ''e'' then Some (entry_json demo_report ''t1'' ''ok'' None) else None)\<rparr>"

theorem history_roundtrip_witness:
  "read_recent demo_io (append_all demo_io [(demo_report, ''ok'', None)] None) 50
   = Inr [entry_json demo_report ''t1'' ''ok'' None]"
proof -
  have "io_healthy demo_io" "whole_lines None"
    "\<forall>e \<in> set [(demo_report, ''ok'', None)]. prints_line demo_io (entry_of demo_io e)"
    by (simp_all add: io_healthy_def whole_lines_def file_text_def prints_line_def demo_io_def entry_of_def newline_def)
  from history_roundtrip [OF this, of 50] show ?thesis
    by (simp add: entries_def file_text_def List.map_filter_def entry_of_def demo_io_def)
qed

end
