(* ===== verification/Admin_Api.thy ===== *)
theory Admin_Api
  imports Run_History Executor Gateway
begin

text \<open>
  The admin interface of a served flow (\<^verbatim>\<open>sohara-runtime/src/admin.rs\<close>): its routes, the token check
  around all of them, and the handlers over the executor's state.  Of an executor the interface reads
  counters, errors and parked queues and writes the pause flag.  The dashboard page and the printing of
  error messages are parameters.
\<close>

section \<open>State\<close>

record trigger_info =
  ti_id :: string
  ti_kind :: string

record ('w, 's) admin_state =
  ad_env :: "('w, 's) xenv"
  ad_exec :: "('w, 's) xstate"
  ad_paused :: bool
  ad_triggers :: "trigger_info list"
  ad_token :: "string option"
  ad_history :: "history_file option"

record admin_env =
  ae_io :: history_io
  ae_show :: "ring_msg \<Rightarrow> string"
  ae_page :: string

datatype admin_body = B_Json json | B_Text string

record admin_reply =
  ar_status :: nat
  ar_body :: admin_body

record admin_request =
  aq_method :: string
  aq_path :: string
  aq_headers :: "string \<Rightarrow> string option"

definition ok_json :: "json \<Rightarrow> admin_reply" where
  "ok_json v = \<lparr>ar_status = 200, ar_body = B_Json v\<rparr>"

section \<open>Token\<close>

definition admin_bearer :: "(string \<Rightarrow> string option) \<Rightarrow> string \<Rightarrow> bool" where
  "admin_bearer headers token =
     (case headers ''authorization'' of
        None \<Rightarrow> False
      | Some v \<Rightarrow> starts_with v ''Bearer '' \<and> drop (length ''Bearer '') v = token)"

definition admin_auth ::
    "('w, 's) admin_state \<Rightarrow> admin_request \<Rightarrow> (('w, 's) admin_state \<Rightarrow> admin_reply \<times> ('w, 's) admin_state) \<Rightarrow>
     admin_reply \<times> ('w, 's) admin_state" where
  "admin_auth st rq next =
     (if (case ad_token st of None \<Rightarrow> True | Some token \<Rightarrow> admin_bearer (aq_headers rq) token)
      then next st else (\<lparr>ar_status = 401, ar_body = B_Text ''unauthorized''\<rparr>, st))"

section \<open>Handlers\<close>

definition admin_health :: "('w, 's) admin_state \<Rightarrow> admin_reply" where
  "admin_health st = ok_json (JObject [(''status'', JString ''running''), (''paused'', JBool (ad_paused st))])"

definition admin_metrics :: "('w, 's) admin_state \<Rightarrow> admin_reply" where
  "admin_metrics st = ok_json (report_json (report (ad_env st) (ad_exec st)))"

definition admin_pause :: "('w, 's) admin_state \<Rightarrow> admin_reply \<times> ('w, 's) admin_state" where
  "admin_pause st = (ok_json (JObject [(''paused'', JBool True)]), st\<lparr>ad_paused := True\<rparr>)"

definition admin_resume :: "('w, 's) admin_state \<Rightarrow> admin_reply \<times> ('w, 's) admin_state" where
  "admin_resume st = (ok_json (JObject [(''paused'', JBool False)]), st\<lparr>ad_paused := False\<rparr>)"

definition trigger_info_json :: "trigger_info \<Rightarrow> json" where
  "trigger_info_json t = JObject [(''id'', JString (ti_id t)), (''kind'', JString (ti_kind t))]"

definition admin_status :: "('w, 's) admin_state \<Rightarrow> admin_reply" where
  "admin_status st =
     ok_json (case report_json (report (ad_env st) (ad_exec st)) of
        JObject m \<Rightarrow> JObject (im_insert ''triggers'' (JArray (map trigger_info_json (ad_triggers st)))
          (im_insert ''paused'' (JBool (ad_paused st)) m))
      | v \<Rightarrow> v)"

definition admin_history :: "admin_env \<Rightarrow> ('w, 's) admin_state \<Rightarrow> admin_reply" where
  "admin_history ae st =
     ok_json (JArray (case ad_history st of
        None \<Rightarrow> []
      | Some f \<Rightarrow> (case read_recent (ae_io ae) f 50 of Inl _ \<Rightarrow> [] | Inr vs \<Rightarrow> vs)))"

definition queue_info_json :: "approve_queue_info \<Rightarrow> json" where
  "queue_info_json q = JObject [(''step'', JString (aq_step q)), (''count'', num (aq_count q)), (''sample'', aq_sample q)]"

definition admin_approvals :: "('w, 's) admin_state \<Rightarrow> admin_reply" where
  "admin_approvals st =
     ok_json (JArray (case list_approve_queues (ad_env st) (ad_exec st) of
        Inl _ \<Rightarrow> [] | Inr qs \<Rightarrow> map queue_info_json qs))"

definition error_event_json :: "admin_env \<Rightarrow> error_event \<Rightarrow> json" where
  "error_event_json ae ev = JObject [(''time'', JString (ev_time ev)), (''step'', JString (ev_step ev)),
     (''kind'', JString (ev_kind ev)), (''message'', JString (ae_show ae (ev_message ev)))]"

definition admin_errors :: "admin_env \<Rightarrow> ('w, 's) admin_state \<Rightarrow> admin_reply" where
  "admin_errors ae st = ok_json (JArray (map (error_event_json ae) (ring_events (x_ring (ad_exec st)))))"

definition admin_ui :: "admin_env \<Rightarrow> admin_reply" where
  "admin_ui ae = \<lparr>ar_status = 200, ar_body = B_Text (ae_page ae)\<rparr>"

section \<open>Router\<close>

definition admin_get_route :: "admin_env \<Rightarrow> string \<Rightarrow> (('w, 's) admin_state \<Rightarrow> admin_reply) option" where
  "admin_get_route ae path =
     (if path = ''/admin/health'' then Some admin_health
      else if path = ''/admin/metrics'' then Some admin_metrics
      else if path = ''/admin/status'' then Some admin_status
      else if path = ''/admin/history'' then Some (admin_history ae)
      else if path = ''/admin/approvals'' then Some admin_approvals
      else if path = ''/admin/errors'' then Some (admin_errors ae)
      else if path = ''/admin/ui'' then Some (\<lambda>_. admin_ui ae)
      else None)"

definition admin_post_route :: "string \<Rightarrow> (('w, 's) admin_state \<Rightarrow> admin_reply \<times> ('w, 's) admin_state) option" where
  "admin_post_route path =
     (if path = ''/admin/pause'' then Some admin_pause
      else if path = ''/admin/resume'' then Some admin_resume
      else None)"

definition empty_reply :: "nat \<Rightarrow> admin_reply" where
  "empty_reply code = \<lparr>ar_status = code, ar_body = B_Text []\<rparr>"

text \<open>A route of the wrong method answers 405, an unknown path 404; a \<^verbatim>\<open>HEAD\<close> request is a \<^verbatim>\<open>GET\<close>.\<close>

definition admin_dispatch :: "admin_env \<Rightarrow> admin_request \<Rightarrow> ('w, 's) admin_state \<Rightarrow> admin_reply \<times> ('w, 's) admin_state" where
  "admin_dispatch ae rq st =
     (case admin_get_route ae (aq_path rq) of
        Some h \<Rightarrow> (if aq_method rq = ''GET'' \<or> aq_method rq = ''HEAD'' then h st else empty_reply 405, st)
      | None \<Rightarrow>
          (case admin_post_route (aq_path rq) of
             Some h \<Rightarrow> (if aq_method rq = ''POST'' then h st else (empty_reply 405, st))
           | None \<Rightarrow> (empty_reply 404, st)))"

definition admin_handle :: "admin_env \<Rightarrow> admin_request \<Rightarrow> ('w, 's) admin_state \<Rightarrow> admin_reply \<times> ('w, 's) admin_state" where
  "admin_handle ae rq st = admin_auth st rq (admin_dispatch ae rq)"

fun admin_session ::
    "admin_env \<Rightarrow> admin_request list \<Rightarrow> ('w, 's) admin_state \<Rightarrow> admin_reply list \<times> ('w, 's) admin_state" where
  "admin_session ae [] st = ([], st)"
| "admin_session ae (rq # rqs) st =
     (let (r, st1) = admin_handle ae rq st; (rs, st2) = admin_session ae rqs st1 in (r # rs, st2))"

section \<open>Lemmas\<close>

definition toggles :: "string \<Rightarrow> bool" where
  "toggles path \<longleftrightarrow> path = ''/admin/pause'' \<or> path = ''/admin/resume''"

lemma admin_post_cases:
  "admin_post_route path = Some h \<Longrightarrow> toggles path \<and> (h = admin_pause \<or> h = admin_resume)"
proof -
  assume h: "admin_post_route path = Some h"
  show ?thesis
  proof (cases "path = ''/admin/pause''")
    case True
    with h show ?thesis unfolding admin_post_route_def toggles_def by (simp only: if_True option.inject simp_thms)
  next
    case a: False
    show ?thesis
    proof (cases "path = ''/admin/resume''")
      case True
      with h a show ?thesis unfolding admin_post_route_def toggles_def by (simp only: if_True if_False option.inject simp_thms)
    next
      case False
      with h a show ?thesis unfolding admin_post_route_def by (simp only: if_False option.distinct)
    qed
  qed
qed

lemma admin_dispatch_frame:
  assumes "admin_dispatch ae rq st = (r, st')"
  shows "\<exists>b. st' = st\<lparr>ad_paused := b\<rparr>" "st' \<noteq> st \<Longrightarrow> aq_method rq = ''POST'' \<and> toggles (aq_path rq)"
proof -
  have "st' = st \<or> (aq_method rq = ''POST'' \<and> toggles (aq_path rq) \<and> (\<exists>b. st' = st\<lparr>ad_paused := b\<rparr>))"
  proof (cases "admin_get_route ae (aq_path rq) :: (('a, 'b) admin_state \<Rightarrow> admin_reply) option")
    case None
    show ?thesis
    proof (cases "admin_post_route (aq_path rq) :: (('a, 'b) admin_state \<Rightarrow> admin_reply \<times> ('a, 'b) admin_state) option")
      case (Some h)
      have eq: "(if aq_method rq = ''POST'' then h st else (empty_reply 405, st)) = (r, st')"
        using assms unfolding admin_dispatch_def None Some option.case .
      have b: "\<exists>b. snd (h st) = st\<lparr>ad_paused := b\<rparr>"
        using admin_post_cases [OF Some] by (auto simp only: admin_pause_def admin_resume_def snd_conv)
      show ?thesis
      proof (cases "aq_method rq = ''POST''")
        case True
        with eq have "h st = (r, st')" by (simp only: if_True simp_thms)
        then have "\<exists>b. st' = st\<lparr>ad_paused := b\<rparr>" using b by (simp only: snd_conv)
        with True admin_post_cases [OF Some] show ?thesis by blast
      next
        case False
        with eq show ?thesis by (simp only: if_False prod.inject simp_thms)
      qed
    qed (use assms None in \<open>simp add: admin_dispatch_def\<close>)
  next
    case (Some h)
    with assms show ?thesis unfolding admin_dispatch_def by (simp add: prod_eq_iff)
  qed
  moreover have "st = st\<lparr>ad_paused := ad_paused st\<rparr>" by simp
  ultimately show "\<exists>b. st' = st\<lparr>ad_paused := b\<rparr>" "st' \<noteq> st \<Longrightarrow> aq_method rq = ''POST'' \<and> toggles (aq_path rq)"
    by blast+
qed

definition authorized :: "string option \<Rightarrow> admin_request \<Rightarrow> bool" where
  "authorized token rq \<longleftrightarrow> (\<forall>t. token = Some t \<longrightarrow> aq_headers rq ''authorization'' = Some (''Bearer '' @ t))"

lemma admin_bearer_iff: "admin_bearer headers t \<longleftrightarrow> headers ''authorization'' = Some (''Bearer '' @ t)"
proof -
  have strip: "starts_with v p \<and> drop (length p) v = t \<longleftrightarrow> v = p @ t" for v p
    by (auto simp: starts_with_iff)
  show ?thesis unfolding admin_bearer_def strip by (cases "headers ''authorization''") simp_all
qed

lemma admin_handle_cases:
  "admin_handle ae rq st =
     (if authorized (ad_token st) rq then admin_dispatch ae rq st
      else (\<lparr>ar_status = 401, ar_body = B_Text ''unauthorized''\<rparr>, st))"
  by (cases "ad_token st") (simp_all add: admin_handle_def admin_auth_def authorized_def admin_bearer_iff)

lemma admin_session_frame:
  "admin_session ae rqs st = (rs, st') \<Longrightarrow> \<exists>b. st' = st\<lparr>ad_paused := b\<rparr>"
proof (induction rqs arbitrary: st rs)
  case Nil
  then have "st' = st\<lparr>ad_paused := ad_paused st\<rparr>" by simp
  then show ?case by blast
next
  case (Cons rq rqs)
  obtain r st1 where h: "admin_handle ae rq st = (r, st1)" by fastforce
  obtain rs1 where s: "admin_session ae rqs st1 = (rs1, st')" using Cons.prems h by (auto split: prod.splits)
  have "\<exists>b. st1 = st\<lparr>ad_paused := b\<rparr>"
  proof (cases "authorized (ad_token st) rq")
    case True
    with h show ?thesis unfolding admin_handle_cases by (intro admin_dispatch_frame(1)) simp
  next
    case False
    with h have "st1 = st\<lparr>ad_paused := ad_paused st\<rparr>" unfolding admin_handle_cases by simp
    then show ?thesis by blast
  qed
  with Cons.IH [OF s] show ?case by auto
qed

section \<open>Properties\<close>

text \<open>
  C35. The admin interface is guarded and cannot touch a run.  When a token is set, a request without
  exactly this bearer token is answered 401 and changes nothing, whatever its path; a request that
  changes anything is an authorised \<^verbatim>\<open>POST\<close> to pause or resume; and after any session only the
  pause flag can differ.
\<close>

theorem admin_guarded:
  "(\<not> authorized (ad_token st) rq \<longrightarrow>
      ar_status (fst (admin_handle ae rq st)) = 401 \<and> snd (admin_handle ae rq st) = st) \<and>
   (snd (admin_handle ae rq st) \<noteq> st \<longrightarrow>
      authorized (ad_token st) rq \<and> aq_method rq = ''POST'' \<and> toggles (aq_path rq)) \<and>
   (\<exists>b. snd (admin_session ae rqs st) = st\<lparr>ad_paused := b\<rparr>)"
proof (intro conjI impI)
  show "\<exists>b. snd (admin_session ae rqs st) = st\<lparr>ad_paused := b\<rparr>"
    by (rule admin_session_frame) (rule prod.collapse [symmetric])
qed (use admin_dispatch_frame(2) [of ae rq st, OF prod.collapse [symmetric]] in
    \<open>simp_all add: admin_handle_cases split: if_splits\<close>)

theorem admin_guarded_witness:
  "\<forall>ae st. ar_status (fst (admin_handle ae
     \<lparr>aq_method = ''POST'', aq_path = ''/admin/pause'', aq_headers = (\<lambda>_. None)\<rparr>
     (st\<lparr>ad_token := Some ''secret''\<rparr>))) = 401"
proof (intro allI)
  fix ae and st :: "('a, 'b) admin_state"
  let ?rq = "\<lparr>aq_method = ''POST'', aq_path = ''/admin/pause'', aq_headers = (\<lambda>_. None)\<rparr>"
  have "\<not> authorized (ad_token (st\<lparr>ad_token := Some ''secret''\<rparr>)) ?rq"
    by (simp add: authorized_def)
  then show "ar_status (fst (admin_handle ae ?rq (st\<lparr>ad_token := Some ''secret''\<rparr>))) = 401"
    using admin_guarded [of "st\<lparr>ad_token := Some ''secret''\<rparr>"] by blast
qed

end
