(* ===== verification/Triggers.thy ===== *)
theory Triggers
  imports Config_Decode Flow_Config Flow_Record
begin

text \<open>
  The triggers of serve mode (\<^verbatim>\<open>sohara-triggers/src/\<close>): the in-process event bus (\<^verbatim>\<open>bus.rs\<close>), the
  sources of records that listen on it (\<^verbatim>\<open>queue.rs\<close>), on HTTP (\<^verbatim>\<open>http.rs\<close>) and on the clock
  (\<^verbatim>\<open>cron.rs\<close>), and their construction from a flow's declarations (\<^verbatim>\<open>lib.rs\<close>).  A bounded
  channel of \<^verbatim>\<open>tokio\<close> is the list of the values it holds.  The sources run beside what feeds
  them, so each is a step relation; the HTTP server, its request parser, the cron schedule and
  the clock are parameters.
\<close>

section \<open>Event bus\<close>

record channel =
  ch_cap :: nat
  ch_queue :: "json list"
  ch_closed :: bool

datatype send_result = Sent | Full | Closed

text \<open>\<^verbatim>\<open>try_send\<close>; a channel is closed once its receiver is gone.\<close>

definition try_send :: "json \<Rightarrow> channel \<Rightarrow> send_result \<times> channel" where
  "try_send v ch =
     (if ch_closed ch then (Closed, ch)
      else if length (ch_queue ch) \<ge> ch_cap ch then (Full, ch)
      else (Sent, ch\<lparr>ch_queue := ch_queue ch @ [v]\<rparr>))"

definition channel_close :: "channel \<Rightarrow> channel" where
  "channel_close ch = ch\<lparr>ch_queue := [], ch_closed := True\<rparr>"

text \<open>The senders of a topic are indices into the channels that the receivers share with them.\<close>

record bus =
  ib_capacity :: nat
  ib_topics :: "nat list imap"
  ib_channels :: "channel list"

definition bus_new :: "nat \<Rightarrow> bus" where
  "bus_new capacity = \<lparr>ib_capacity = max capacity 1, ib_topics = [], ib_channels = []\<rparr>"

definition bus_senders :: "bus \<Rightarrow> string \<Rightarrow> nat list" where
  "bus_senders b topic = (case im_get (ib_topics b) topic of None \<Rightarrow> [] | Some is \<Rightarrow> is)"

definition bus_subscribe :: "string \<Rightarrow> bus \<Rightarrow> nat \<times> bus" where
  "bus_subscribe topic b =
     (let i = length (ib_channels b)
      in (i, b\<lparr>ib_topics := im_insert topic (bus_senders b topic @ [i]) (ib_topics b),
               ib_channels := ib_channels b @ [\<lparr>ch_cap = ib_capacity b, ch_queue = [], ch_closed = False\<rparr>]\<rparr>))"

definition send_to :: "json \<Rightarrow> nat \<Rightarrow> channel list \<Rightarrow> channel list" where
  "send_to v i chs = chs[i := snd (try_send v (chs ! i))]"

definition inproc_publish :: "string \<Rightarrow> json \<Rightarrow> bus \<Rightarrow> (error + unit) \<times> bus" where
  "inproc_publish topic v b = (Inr (), b\<lparr>ib_channels := fold (send_to v) (bus_senders b topic) (ib_channels b)\<rparr>)"

text \<open>The receiving half: taking the oldest value, and being dropped.\<close>

definition bus_recv :: "nat \<Rightarrow> bus \<Rightarrow> json option \<times> bus" where
  "bus_recv i b =
     (case ch_queue (ib_channels b ! i) of
        [] \<Rightarrow> (None, b)
      | v # vs \<Rightarrow> (Some v, b\<lparr>ib_channels := (ib_channels b)[i := (ib_channels b ! i)\<lparr>ch_queue := vs\<rparr>]\<rparr>))"

definition bus_close :: "nat \<Rightarrow> bus \<Rightarrow> bus" where
  "bus_close i b = b\<lparr>ib_channels := (ib_channels b)[i := channel_close (ib_channels b ! i)]\<rparr>"

section \<open>Declared triggers\<close>

text \<open>
  Other crates: the request method of a name, the parser of cron expressions, whose schedule
  gives the first hit after a time (in nanoseconds), if there is one.
\<close>

type_synonym schedule = "nat \<Rightarrow> nat option"

record trigger_env =
  te_method :: "string \<Rightarrow> string option"
  te_cron :: "string \<Rightarrow> string + schedule"

text \<open>An interpolation between single quotes in a message.\<close>

definition in_quotes :: "string \<Rightarrow> string" where
  "in_quotes s = CHR 0x27 # s @ [CHR 0x27]"

record http_trigger =
  ht_name :: string
  ht_method :: string
  ht_path :: string
  ht_host :: string
  ht_port :: nat

definition http_new :: "trigger_env \<Rightarrow> string \<Rightarrow> string \<Rightarrow> string \<Rightarrow> nat \<Rightarrow> http_trigger" where
  "http_new te meth path host port =
     \<lparr>ht_name = ''http:'' @ meth @ '' '' @ path,
      ht_method = (case te_method te meth of None \<Rightarrow> ''GET'' | Some m \<Rightarrow> m),
      ht_path = path, ht_host = host, ht_port = port\<rparr>"

datatype trigger =
    T_Http http_trigger
  | T_Cron string schedule
  | T_Queue string nat

fun trigger_name :: "trigger \<Rightarrow> string" where
  "trigger_name (T_Http t) = ht_name t"
| "trigger_name (T_Cron expression _) = ''cron:'' @ expression"
| "trigger_name (T_Queue topic _) = ''queue:'' @ topic"

definition cron_new :: "trigger_env \<Rightarrow> string \<Rightarrow> error + trigger" where
  "cron_new te expression =
     (case te_cron te expression of
        Inl e \<Rightarrow> Inl (Err_Config (C_text (''invalid cron expression '' @ in_quotes expression @ '': '' @ e)))
      | Inr s \<Rightarrow> Inr (T_Cron expression s))"

definition queue_new :: "string \<Rightarrow> bus \<Rightarrow> trigger \<times> bus" where
  "queue_new topic b = (let (i, b1) = bus_subscribe topic b in (T_Queue topic i, b1))"

fun is_u16 :: "json \<Rightarrow> bool" where
  "is_u16 (JNumber (PosInt n)) = (0 \<le> n \<and> n \<le> 65535)"
| "is_u16 _ = False"

definition http_trigger_spec :: struct_spec where
  "http_trigger_spec = [(''method'', True, chk is_string), (''path'', True, chk is_string),
     (''host'', False, chk_opt (chk is_string)), (''port'', False, chk_opt (chk is_u16))]"

definition cron_trigger_spec :: struct_spec where
  "cron_trigger_spec = [(''expression'', True, chk is_string)]"

definition queue_trigger_spec :: struct_spec where
  "queue_trigger_spec = [(''topic'', True, chk is_string)]"

definition build_builtin_trigger ::
    "trigger_env \<Rightarrow> trigger_config \<Rightarrow> bus option \<Rightarrow> (error + trigger) \<times> bus option" where
  "build_builtin_trigger te config bus =
     (case trigger_type_config config of
        Inl e \<Rightarrow> (Inl (Err_Config (C_config e)), bus)
      | Inr raw \<Rightarrow>
          if t_type config = ''http'' then
            (rbind (parse_config ''http trigger'' http_trigger_spec (JObject raw)) (\<lambda>m.
               Inr (T_Http (http_new te (req_field str_of m ''method'') (req_field str_of m ''path'')
                 (case opt_field str_of m ''host'' of None \<Rightarrow> ''127.0.0.1'' | Some h \<Rightarrow> h)
                 (case opt_field usize_of m ''port'' of None \<Rightarrow> 9527 | Some p \<Rightarrow> p)))), bus)
          else if t_type config = ''cron'' then
            (rbind (parse_config ''cron trigger'' cron_trigger_spec (JObject raw)) (\<lambda>m.
               cron_new te (req_field str_of m ''expression'')), bus)
          else if t_type config = ''queue'' then
            (case parse_config ''queue trigger'' queue_trigger_spec (JObject raw) of
               Inl e \<Rightarrow> (Inl e, bus)
             | Inr m \<Rightarrow>
                 (case bus of
                    None \<Rightarrow> (Inl (Err_Config (C_text ''queue trigger needs an event bus (serve mode)'')), None)
                  | Some b \<Rightarrow> (let (t, b1) = queue_new (req_field str_of m ''topic'') b in (Inr t, Some b1))))
          else (Inl (Err_Config (C_text (''unknown trigger type '' @ in_quotes (t_type config) @
            '' (supported: http | cron | queue)''))), bus))"

section \<open>Cron\<close>

text \<open>
  One turn of \<^verbatim>\<open>poll_once\<close>: the clock is read for the next hit and again for the time to sleep.  A
  schedule with no further hit panics.  What ends the turn is the timer or the stop signal.
\<close>

datatype cron_turn = Wait nat nat | Panic

definition sleep_until :: "nat \<Rightarrow> nat \<Rightarrow> nat" where
  "sleep_until nxt now = nxt - now"

definition cron_wait :: "schedule \<Rightarrow> nat \<Rightarrow> nat \<Rightarrow> cron_turn" where
  "cron_wait s now1 now2 = (case s now1 of None \<Rightarrow> Panic | Some nxt \<Rightarrow> Wait nxt (sleep_until nxt now2))"

datatype cron_status = Live | Stopped_Cron | Panicked

record cron_state =
  cs_clock :: nat
  cs_stop :: bool
  cs_fired :: "nat list"
  cs_status :: cron_status

definition cron_start :: "nat \<Rightarrow> cron_state" where
  "cron_start t = \<lparr>cs_clock = t, cs_stop = False, cs_fired = [], cs_status = Live\<rparr>"

text \<open>
  The clock passes, the trigger is stopped, or a turn ends: \<^verbatim>\<open>now1\<close> and \<^verbatim>\<open>now2\<close> are its two readings of
  the clock, and a timer is not early.
\<close>

inductive cron_step :: "schedule \<Rightarrow> cron_state \<Rightarrow> cron_state \<Rightarrow> bool" for s where
  Tick: "cs_clock st \<le> t \<Longrightarrow> cron_step s st (st\<lparr>cs_clock := t\<rparr>)"
| Stop: "cron_step s st (st\<lparr>cs_stop := True\<rparr>)"
| Fire: "cs_status st = Live \<Longrightarrow> cs_clock st \<le> now1 \<Longrightarrow> now1 \<le> now2 \<Longrightarrow> cron_wait s now1 now2 = Wait nxt d \<Longrightarrow>
    now2 + d \<le> t \<Longrightarrow> cron_step s st (st\<lparr>cs_clock := t, cs_fired := cs_fired st @ [nxt]\<rparr>)"
| Shutdown: "cs_status st = Live \<Longrightarrow> cs_stop st \<Longrightarrow> cron_wait s now1 now2 = Wait nxt d \<Longrightarrow>
    cron_step s st (st\<lparr>cs_status := Stopped_Cron\<rparr>)"
| No_Next: "cs_status st = Live \<Longrightarrow> cs_clock st \<le> now1 \<Longrightarrow> cron_wait s now1 now2 = Panic \<Longrightarrow>
    cron_step s st (st\<lparr>cs_clock := now1, cs_status := Panicked\<rparr>)"

definition cron_record :: "host \<Rightarrow> (nat \<Rightarrow> string) \<Rightarrow> nat \<Rightarrow> nat \<Rightarrow> rec" where
  "cron_record h rfc3339 tick nxt =
     record_new (h_uuid h tick) (h_now h tick) (JObject [(''scheduled_at'', JString (rfc3339 nxt))])"

section \<open>Queue source\<close>

text \<open>
  A queue source over the bus.  \<open>qs_stream\<close> follows the receiver: held by the source, moved into the
  stream, gone when the stream ends, or dropped with a stream its consumer gave up.  Other tasks publish and subscribe at any time.  When a value and the
  stop signal are both there, \<^verbatim>\<open>select!\<close> takes either.  The last two fields are the history.
\<close>

datatype stream_status = Idle | Streaming | Ended | Abandoned

record queue_source =
  qs_bus :: bus
  qs_chan :: nat
  qs_topic :: string
  qs_stop :: bool
  qs_stream :: stream_status
  qs_accepted :: "json list"
  qs_yielded :: "json list"

definition queue_source_new :: "string \<Rightarrow> bus \<Rightarrow> queue_source" where
  "queue_source_new topic b =
     (let (i, b1) = bus_subscribe topic b
      in \<lparr>qs_bus = b1, qs_chan = i, qs_topic = topic, qs_stop = False, qs_stream = Idle,
          qs_accepted = [], qs_yielded = []\<rparr>)"

definition queue_of :: "queue_source \<Rightarrow> json list" where
  "queue_of q = ch_queue (ib_channels (qs_bus q) ! qs_chan q)"

definition queue_stream :: "queue_source \<Rightarrow> (error + unit) \<times> queue_source" where
  "queue_stream q =
     (case qs_stream q of
        Idle \<Rightarrow> (Inr (), q\<lparr>qs_stream := Streaming\<rparr>)
      | _ \<Rightarrow> (Inl (Err_Source (''queue source '' @ in_quotes (''queue:'' @ qs_topic q) @ '' already consumed'')), q))"

definition queue_publish :: "string \<Rightarrow> json \<Rightarrow> queue_source \<Rightarrow> queue_source" where
  "queue_publish topic v q =
     (let q1 = q\<lparr>qs_bus := snd (inproc_publish topic v (qs_bus q))\<rparr>
      in q1\<lparr>qs_accepted := qs_accepted q @ drop (length (queue_of q)) (queue_of q1)\<rparr>)"

inductive queue_step :: "queue_source \<Rightarrow> queue_source \<Rightarrow> bool" where
  Publish: "queue_step q (queue_publish topic v q)"
| Subscribe: "queue_step q (q\<lparr>qs_bus := snd (bus_subscribe topic (qs_bus q))\<rparr>)"
| Stream: "queue_step q (snd (queue_stream q))"
| Stop: "queue_step q (q\<lparr>qs_stop := True\<rparr>)"
| Recv: "qs_stream q = Streaming \<Longrightarrow> bus_recv (qs_chan q) (qs_bus q) = (Some v, b) \<Longrightarrow>
    queue_step q (q\<lparr>qs_bus := b, qs_yielded := qs_yielded q @ [v]\<rparr>)"
| Drop: "qs_stream q = Streaming \<Longrightarrow>
    queue_step q (q\<lparr>qs_bus := bus_close (qs_chan q) (qs_bus q), qs_stream := Abandoned\<rparr>)"
| Shutdown: "qs_stream q = Streaming \<Longrightarrow> qs_stop q \<Longrightarrow>
    queue_step q (q\<lparr>qs_bus := bus_close (qs_chan q) (qs_bus q), qs_stream := Ended\<rparr>)"

section \<open>HTTP source\<close>

text \<open>
  A request as the handler sees it: its method, its \<^verbatim>\<open>content-type\<close> where that is readable, and its
  body, \<open>None\<close> when \<^verbatim>\<open>to_bytes\<close> fails.  Parsing JSON and decoding UTF-8 are parameters.
\<close>

record http_request =
  hq_method :: string
  hq_content_type :: "string option"
  hq_body :: "string option"

record http_codec =
  hc_json :: "string \<Rightarrow> json option"
  hc_lossy :: "string \<Rightarrow> string"

definition default_limit :: nat where
  "default_limit = 1024 * 1024"

datatype http_action = Respond nat | Offer json

definition handle_request :: "http_codec \<Rightarrow> string \<Rightarrow> http_request \<Rightarrow> http_action" where
  "handle_request hc meth rq =
     (if hq_method rq \<noteq> meth then Respond 405
      else
        (case hq_body rq of
           None \<Rightarrow> Respond 413
         | Some bytes \<Rightarrow>
             if length bytes > default_limit then Respond 413
             else if str_contains (case hq_content_type rq of None \<Rightarrow> [] | Some t \<Rightarrow> t) ''json'' then
               (case hc_json hc bytes of None \<Rightarrow> Respond 400 | Some v \<Rightarrow> Offer v)
             else Offer (JString (hc_lossy hc bytes))))"

text \<open>
  The running source: the sender it keeps, the servers it has started (each with a sender of its
  own), the handlers that read their request (\<open>hp_reading\<close>: how many) and those that wait for room
  in the channel, and the stream.  A stopped server takes no further request, but the handlers it has
  go on reading; a handler whose client goes away is dropped; a stopped server ends when it has no
  handler left.  \<open>hp_accepted\<close> lists the
  payloads answered with 202, \<open>hp_yielded\<close> the records of the stream.
\<close>

record http_state =
  hp_sender :: bool
  hp_servers :: nat
  hp_stopping :: bool
  hp_reading :: nat
  hp_waiting :: "json list"
  hp_queue :: "json list"
  hp_stream :: stream_status
  hp_replies :: "nat list"
  hp_accepted :: "json list"
  hp_yielded :: "json list"

definition http_idle :: http_state where
  "http_idle = \<lparr>hp_sender = True, hp_servers = 0, hp_stopping = False, hp_reading = 0, hp_waiting = [], hp_queue = [],
     hp_stream = Idle, hp_replies = [], hp_accepted = [], hp_yielded = []\<rparr>"

definition http_capacity :: nat where
  "http_capacity = 128"

text \<open>\<^verbatim>\<open>start\<close>: the first argument is how binding the listener went.\<close>

definition http_start :: "string option \<Rightarrow> http_trigger \<Rightarrow> http_state \<Rightarrow> (error + unit) \<times> http_state" where
  "http_start bind t st =
     (if \<not> hp_sender st then (Inl (Err_Source (''http source '' @ in_quotes (ht_name t) @ '' already started'')), st)
      else
        (case bind of
           Some e \<Rightarrow> (Inl (Err_Io e), st)
         | None \<Rightarrow> (Inr (), st\<lparr>hp_servers := hp_servers st + 1\<rparr>)))"

definition http_stop :: "http_state \<Rightarrow> http_state" where
  "http_stop st = st\<lparr>hp_stopping := True, hp_sender := False\<rparr>"

definition http_stream :: "http_trigger \<Rightarrow> http_state \<Rightarrow> (error + unit) \<times> http_state" where
  "http_stream t st =
     (case hp_stream st of
        Idle \<Rightarrow> (Inr (), st\<lparr>hp_stream := Streaming\<rparr>)
      | _ \<Rightarrow> (Inl (Err_Source (''http source '' @ in_quotes (ht_name t) @ '' already consumed'')), st))"

inductive http_step :: "http_codec \<Rightarrow> http_trigger \<Rightarrow> http_state \<Rightarrow> http_state \<Rightarrow> bool" for hc t where
  Start: "http_step hc t st (snd (http_start bind t st))"
| Stop: "http_step hc t st (http_stop st)"
| Stream: "http_step hc t st (snd (http_stream t st))"
| Connect: "hp_servers st > 0 \<Longrightarrow> \<not> hp_stopping st \<Longrightarrow> http_step hc t st (st\<lparr>hp_reading := hp_reading st + 1\<rparr>)"
| Answer: "hp_reading st > 0 \<Longrightarrow> handle_request hc (ht_method t) rq = Respond code \<Longrightarrow>
    http_step hc t st (st\<lparr>hp_reading := hp_reading st - 1, hp_replies := hp_replies st @ [code]\<rparr>)"
| Arrive: "hp_reading st > 0 \<Longrightarrow> handle_request hc (ht_method t) rq = Offer v \<Longrightarrow>
    http_step hc t st (st\<lparr>hp_reading := hp_reading st - 1, hp_waiting := hp_waiting st @ [v]\<rparr>)"
| Accept: "hp_waiting st = vs @ v # vs' \<Longrightarrow> hp_stream st \<in> {Idle, Streaming} \<Longrightarrow> length (hp_queue st) < http_capacity \<Longrightarrow>
    http_step hc t st (st\<lparr>hp_waiting := vs @ vs', hp_queue := hp_queue st @ [v],
      hp_replies := hp_replies st @ [202], hp_accepted := hp_accepted st @ [v]\<rparr>)"
| Refuse: "hp_waiting st = vs @ v # vs' \<Longrightarrow> hp_stream st \<in> {Ended, Abandoned} \<Longrightarrow>
    http_step hc t st (st\<lparr>hp_waiting := vs @ vs', hp_replies := hp_replies st @ [503]\<rparr>)"
| Disconnect: "hp_waiting st = vs @ v # vs' \<Longrightarrow> http_step hc t st (st\<lparr>hp_waiting := vs @ vs'\<rparr>)"
| Hang_Up: "hp_reading st > 0 \<Longrightarrow> http_step hc t st (st\<lparr>hp_reading := hp_reading st - 1\<rparr>)"
| Exit: "hp_stopping st \<Longrightarrow> hp_reading st = 0 \<Longrightarrow> hp_waiting st = [] \<Longrightarrow> http_step hc t st (st\<lparr>hp_servers := 0\<rparr>)"
| Recv: "hp_stream st = Streaming \<Longrightarrow> hp_queue st = v # vs \<Longrightarrow>
    http_step hc t st (st\<lparr>hp_queue := vs, hp_yielded := hp_yielded st @ [v]\<rparr>)"
| Drop: "hp_stream st = Streaming \<Longrightarrow> http_step hc t st (st\<lparr>hp_queue := [], hp_stream := Abandoned\<rparr>)"
| End: "hp_stream st = Streaming \<Longrightarrow> hp_queue st = [] \<Longrightarrow> \<not> hp_sender st \<Longrightarrow> hp_servers st = 0 \<Longrightarrow>
    hp_reading st = 0 \<Longrightarrow> hp_waiting st = [] \<Longrightarrow> http_step hc t st (st\<lparr>hp_stream := Ended\<rparr>)"

end
