(* ===== verification/Trigger_Props.thy ===== *)
theory Trigger_Props
  imports Triggers "HOL-Library.Sublist"
begin

text \<open>
  What the triggers promise: the bus is one bounded queue per subscriber, each fed with its topic
  and none disturbed by another; a queue source yields what its queue accepted, in order, and may
  drop the rest when it is stopped; an HTTP source yields every payload it has answered with 202,
  unless its stream is dropped;
  a cron source fires each hit at most once and never early.
\<close>

section \<open>Event bus\<close>

definition chan_ok :: "nat \<Rightarrow> channel \<Rightarrow> bool" where
  "chan_ok cap ch \<longleftrightarrow> ch_cap ch = cap \<and> length (ch_queue ch) \<le> cap"

definition bus_wf :: "bus \<Rightarrow> bool" where
  "bus_wf b \<longleftrightarrow> 1 \<le> ib_capacity b \<and>
     (\<forall>t. distinct (bus_senders b t) \<and> (\<forall>i \<in> set (bus_senders b t). i < length (ib_channels b))) \<and>
     (\<forall>t t'. t \<noteq> t' \<longrightarrow> set (bus_senders b t) \<inter> set (bus_senders b t') = {}) \<and>
     (\<forall>ch \<in> set (ib_channels b). chan_ok (ib_capacity b) ch)"

datatype bus_event = Ev_Subscribe string | Ev_Publish string json | Ev_Recv nat | Ev_Close nat

fun bus_do :: "bus_event \<Rightarrow> bus \<Rightarrow> (nat \<times> json) list \<times> bus" where
  "bus_do (Ev_Subscribe t) b = ([], snd (bus_subscribe t b))"
| "bus_do (Ev_Publish t v) b = ([], snd (inproc_publish t v b))"
| "bus_do (Ev_Recv i) b =
     (if i < length (ib_channels b)
      then (case bus_recv i b of (None, b1) \<Rightarrow> ([], b1) | (Some v, b1) \<Rightarrow> ([(i, v)], b1)) else ([], b))"
| "bus_do (Ev_Close i) b = ([], if i < length (ib_channels b) then bus_close i b else b)"

fun bus_run :: "bus_event list \<Rightarrow> bus \<Rightarrow> (nat \<times> json) list \<times> bus" where
  "bus_run [] b = ([], b)"
| "bus_run (e # es) b = (let (out, b1) = bus_do e b; (out', b2) = bus_run es b1 in (out @ out', b2))"

text \<open>One subscriber on its own: a bounded queue fed with the publications of its topic.\<close>

fun chan_do :: "string \<Rightarrow> nat \<Rightarrow> bus_event \<Rightarrow> channel \<Rightarrow> json list \<times> channel" where
  "chan_do topic i (Ev_Subscribe t) ch = ([], ch)"
| "chan_do topic i (Ev_Publish t v) ch = ([], if t = topic then snd (try_send v ch) else ch)"
| "chan_do topic i (Ev_Recv j) ch =
     (if i = j then (case ch_queue ch of [] \<Rightarrow> ([], ch) | v # vs \<Rightarrow> ([v], ch\<lparr>ch_queue := vs\<rparr>)) else ([], ch))"
| "chan_do topic i (Ev_Close j) ch = ([], if i = j then channel_close ch else ch)"

fun chan_run :: "string \<Rightarrow> nat \<Rightarrow> bus_event list \<Rightarrow> channel \<Rightarrow> json list \<times> channel" where
  "chan_run topic i [] ch = ([], ch)"
| "chan_run topic i (e # es) ch =
     (let (out, ch1) = chan_do topic i e ch; (out', ch2) = chan_run topic i es ch1 in (out @ out', ch2))"

definition received_by :: "nat \<Rightarrow> (nat \<times> json) list \<Rightarrow> json list" where
  "received_by i out = map snd (filter (\<lambda>p. fst p = i) out)"

definition published_to :: "string \<Rightarrow> bus_event list \<Rightarrow> json list" where
  "published_to topic evs =
     List.map_filter (\<lambda>e. case e of Ev_Publish t v \<Rightarrow> if t = topic then Some v else None | _ \<Rightarrow> None) evs"

lemma published_to_simps [simp]:
  "published_to topic [] = []"
  "published_to topic (e # evs) =
     (case e of Ev_Publish t v \<Rightarrow> if t = topic then [v] else [] | _ \<Rightarrow> []) @ published_to topic evs"
  by (auto simp: published_to_def List.map_filter_simps split: bus_event.splits)

lemma received_by_simps [simp]:
  "received_by i [] = []" "received_by i (out @ out') = received_by i out @ received_by i out'"
  "received_by i [(j, v)] = (if j = i then [v] else [])"
  by (auto simp: received_by_def)

lemma try_send_fields [simp]:
  "ch_cap (snd (try_send v ch)) = ch_cap ch" "ch_closed (snd (try_send v ch)) = ch_closed ch"
  by (simp_all add: try_send_def)

lemma chan_ok_try_send: "chan_ok cap ch \<Longrightarrow> chan_ok cap (snd (try_send v ch))"
  by (auto simp: try_send_def chan_ok_def)

lemma send_to_length [simp]: "length (send_to v i chs) = length chs"
  by (simp add: send_to_def)

lemma fold_send_length [simp]: "length (fold (send_to v) is chs) = length chs"
  by (induction "is" arbitrary: chs) auto

lemma fold_send_nth:
  "\<lbrakk>distinct is; i < length chs\<rbrakk> \<Longrightarrow>
   fold (send_to v) is chs ! i = (if i \<in> set is then snd (try_send v (chs ! i)) else chs ! i)"
proof (induction "is" arbitrary: chs)
  case (Cons a "is")
  from Cons.prems have "i \<noteq> a" if "i \<in> set is" using that by auto
  with Cons show ?case by (auto simp: send_to_def nth_list_update)
qed simp

lemma bus_senders_publish [simp]: "bus_senders (snd (inproc_publish t v b)) = bus_senders b"
  by (simp add: inproc_publish_def bus_senders_def fun_eq_iff)

lemma bus_senders_subscribe:
  "bus_senders (snd (bus_subscribe t b)) t' = (if t' = t then bus_senders b t @ [length (ib_channels b)] else bus_senders b t')"
  by (simp add: bus_subscribe_def bus_senders_def Let_def)

lemma bus_new_wf: "bus_wf (bus_new n)"
  by (simp add: bus_wf_def bus_new_def bus_senders_def)

lemma bus_subscribe_wf:
  assumes "bus_wf b"
  shows "bus_wf (snd (bus_subscribe t b))"
proof -
  have new: "length (ib_channels b) \<notin> set (bus_senders b t')" for t'
    using assms by (auto simp: bus_wf_def)
  have "ib_channels (snd (bus_subscribe t b)) =
      ib_channels b @ [\<lparr>ch_cap = ib_capacity b, ch_queue = [], ch_closed = False\<rparr>]"
    "ib_capacity (snd (bus_subscribe t b)) = ib_capacity b"
    by (simp_all add: bus_subscribe_def Let_def)
  with assms new show ?thesis
    by (auto simp: bus_wf_def bus_senders_subscribe chan_ok_def less_Suc_eq)
qed

lemma channels_ok_update:
  "\<forall>ch \<in> set chs. chan_ok cap ch \<Longrightarrow> chan_ok cap ch' \<Longrightarrow> \<forall>ch \<in> set (chs[i := ch']). chan_ok cap ch"
  by (auto dest: set_update_subset_insert [THEN subsetD])

lemma fold_send_ok:
  "\<forall>ch \<in> set chs. chan_ok cap ch \<Longrightarrow> \<forall>i \<in> set is. i < length chs \<Longrightarrow>
   \<forall>ch \<in> set (fold (send_to v) is chs). chan_ok cap ch"
proof (induction "is" arbitrary: chs)
  case (Cons i "is")
  then have "\<forall>ch \<in> set (send_to v i chs). chan_ok cap ch"
    unfolding send_to_def by (intro channels_ok_update) (auto intro: chan_ok_try_send)
  with Cons show ?case by simp
qed simp

lemma bus_wf_channels:
  "\<lbrakk>bus_wf b; length chs = length (ib_channels b); \<forall>ch \<in> set chs. chan_ok (ib_capacity b) ch\<rbrakk>
   \<Longrightarrow> bus_wf (b\<lparr>ib_channels := chs\<rparr>)"
  by (simp add: bus_wf_def bus_senders_def)

lemma bus_wf_channels_ok: "bus_wf b \<Longrightarrow> \<forall>ch \<in> set (ib_channels b). chan_ok (ib_capacity b) ch"
  by (simp add: bus_wf_def)

lemma inproc_publish_wf:
  assumes "bus_wf b"
  shows "bus_wf (snd (inproc_publish t v b))"
proof -
  have "\<forall>i \<in> set (bus_senders b t). i < length (ib_channels b)" using assms by (simp add: bus_wf_def)
  from fold_send_ok [OF bus_wf_channels_ok [OF assms] this] show ?thesis
    unfolding inproc_publish_def snd_conv by (intro bus_wf_channels [OF assms]) simp_all
qed

lemma bus_channel_ok: "bus_wf b \<Longrightarrow> i < length (ib_channels b) \<Longrightarrow> chan_ok (ib_capacity b) (ib_channels b ! i)"
  by (simp add: bus_wf_def)

lemma bus_recv_wf:
  assumes "bus_wf b" "i < length (ib_channels b)"
  shows "bus_wf (snd (bus_recv i b))"
proof (cases "ch_queue (ib_channels b ! i)")
  case (Cons v vs)
  have "chan_ok (ib_capacity b) ((ib_channels b ! i)\<lparr>ch_queue := vs\<rparr>)"
    using bus_channel_ok [OF assms] Cons by (simp add: chan_ok_def)
  from channels_ok_update [OF bus_wf_channels_ok [OF assms(1)] this] show ?thesis
    using Cons by (simp add: bus_recv_def bus_wf_channels [OF assms(1)])
qed (simp add: bus_recv_def assms)

lemma bus_close_wf:
  assumes "bus_wf b" "i < length (ib_channels b)"
  shows "bus_wf (bus_close i b)"
proof -
  have "chan_ok (ib_capacity b) (channel_close (ib_channels b ! i))"
    using bus_channel_ok [OF assms] by (simp add: channel_close_def chan_ok_def)
  from channels_ok_update [OF bus_wf_channels_ok [OF assms(1)] this] show ?thesis
    unfolding bus_close_def by (simp add: bus_wf_channels [OF assms(1)])
qed

lemma bus_do_wf: "bus_wf b \<Longrightarrow> bus_wf (snd (bus_do e b))"
  using bus_recv_wf [of b]
  by (cases e) (force simp: bus_subscribe_wf inproc_publish_wf bus_close_wf split: prod.splits option.splits)+

section \<open>Isolation\<close>

lemma bus_do_channel:
  assumes "bus_wf b" "i \<in> set (bus_senders b topic)"
  shows "(received_by i (fst (bus_do e b)), ib_channels (snd (bus_do e b)) ! i) = chan_do topic i e (ib_channels b ! i)
    \<and> i \<in> set (bus_senders (snd (bus_do e b)) topic)"
proof -
  have i: "i < length (ib_channels b)" using assms by (simp add: bus_wf_def)
  show ?thesis
  proof (cases e)
    case (Ev_Subscribe t)
    with assms(2) i show ?thesis
      by (cases "t = topic") (simp_all add: bus_senders_subscribe, simp_all add: bus_subscribe_def nth_append Let_def)
  next
    case (Ev_Publish t v)
    have "i \<notin> set (bus_senders b t)" if "t \<noteq> topic"
      using assms that unfolding bus_wf_def by blast
    moreover have "distinct (bus_senders b t)" using assms(1) by (simp add: bus_wf_def)
    ultimately show ?thesis using Ev_Publish assms(2) i by (auto simp: inproc_publish_def bus_senders_def fold_send_nth)
  next
    case (Ev_Recv j)
    with assms(2) i show ?thesis
      by (auto simp: bus_recv_def bus_senders_def nth_list_update split: list.splits)
  next
    case (Ev_Close j)
    with assms(2) i show ?thesis by (auto simp: bus_close_def bus_senders_def nth_list_update)
  qed
qed

lemma bus_run_channel:
  "\<lbrakk>bus_wf b; i \<in> set (bus_senders b topic); bus_run evs b = (out, b')\<rbrakk> \<Longrightarrow>
   (received_by i out, ib_channels b' ! i) = chan_run topic i evs (ib_channels b ! i) \<and> bus_wf b' \<and>
   i \<in> set (bus_senders b' topic)"
proof (induction evs arbitrary: b out)
  case (Cons e evs)
  obtain out1 b1 where d: "bus_do e b = (out1, b1)" by fastforce
  obtain out2 where r: "bus_run evs b1 = (out2, b')" and out: "out = out1 @ out2"
    using Cons.prems(3) d by (auto split: prod.splits)
  have "bus_wf b1" using bus_do_wf [OF Cons.prems(1), of e] d by simp
  then show ?case
    using bus_do_channel [OF Cons.prems(1,2), of e] Cons.IH [of b1 out2] r d
    by (auto simp: out split: prod.splits)
qed auto

text \<open>What a step does to the values handed out and still queued, and when it loses none.\<close>

lemma chan_do_queue:
  assumes "chan_ok cap ch" "chan_do topic i e ch = (out, ch')"
  shows "chan_ok cap ch'" "subseq (out @ ch_queue ch') (ch_queue ch @ published_to topic [e])"
    and "\<lbrakk>\<not> ch_closed ch; e \<noteq> Ev_Close i; length (ch_queue ch @ published_to topic [e]) \<le> cap\<rbrakk> \<Longrightarrow>
      out @ ch_queue ch' = ch_queue ch @ published_to topic [e] \<and> \<not> ch_closed ch'"
  using assms
  by (cases e; auto simp: chan_ok_def try_send_def channel_close_def split: list.splits if_splits)+

lemma chan_run_queue:
  "\<lbrakk>chan_ok cap ch; chan_run topic i evs ch = (out, ch')\<rbrakk> \<Longrightarrow>
   chan_ok cap ch' \<and> subseq (out @ ch_queue ch') (ch_queue ch @ published_to topic evs) \<and>
   (\<not> ch_closed ch \<and> Ev_Close i \<notin> set evs \<and> length (ch_queue ch @ published_to topic evs) \<le> cap \<longrightarrow>
    out @ ch_queue ch' = ch_queue ch @ published_to topic evs)"
proof (induction evs arbitrary: ch out)
  case (Cons e evs)
  obtain out1 ch1 where d: "chan_do topic i e ch = (out1, ch1)" by fastforce
  obtain out2 where r: "chan_run topic i evs ch1 = (out2, ch')" and out: "out = out1 @ out2"
    using Cons.prems(2) d by (auto split: prod.splits)
  note one = chan_do_queue [OF Cons.prems(1) d]
  have cons: "published_to topic (e # evs) = published_to topic [e] @ published_to topic evs" by simp
  from Cons.IH [OF one(1) r] have IH: "chan_ok cap ch'"
    "subseq (out2 @ ch_queue ch') (ch_queue ch1 @ published_to topic evs)"
    "\<lbrakk>\<not> ch_closed ch1; Ev_Close i \<notin> set evs; length (ch_queue ch1 @ published_to topic evs) \<le> cap\<rbrakk> \<Longrightarrow>
      out2 @ ch_queue ch' = ch_queue ch1 @ published_to topic evs" by blast+
  have "subseq (out1 @ out2 @ ch_queue ch') (out1 @ ch_queue ch1 @ published_to topic evs)"
    using IH(2) by (simp add: list_emb_append_mono)
  also have "subseq \<dots> ((ch_queue ch @ published_to topic [e]) @ published_to topic evs)"
    using list_emb_append_mono [OF one(2) subseq_order.refl] by simp
  finally have s: "subseq (out @ ch_queue ch') (ch_queue ch @ published_to topic (e # evs))"
    by (simp add: out cons del: published_to_simps)
  have "out @ ch_queue ch' = ch_queue ch @ published_to topic (e # evs)"
    if "\<not> ch_closed ch" "Ev_Close i \<notin> set (e # evs)" "length (ch_queue ch @ published_to topic (e # evs)) \<le> cap"
  proof -
    have a: "out1 @ ch_queue ch1 = ch_queue ch @ published_to topic [e]" "\<not> ch_closed ch1"
      using one(3) that unfolding cons by auto
    from a(1) have "length (ch_queue ch1) \<le> length (ch_queue ch @ published_to topic [e])"
      by (metis length_append le_add2)
    then have "length (ch_queue ch1 @ published_to topic evs) \<le> cap" using that(3) unfolding cons by simp
    then have "out @ ch_queue ch' = out1 @ ch_queue ch1 @ published_to topic evs"
      using IH(3) a(2) that(2) by (simp add: out)
    then show ?thesis using a(1) unfolding cons by (metis append.assoc)
  qed
  then show ?case using IH(1) s by blast
qed auto

section \<open>Properties of the bus\<close>

text \<open>
  C32. The event bus is one bounded queue per subscriber.  Whatever happens on a bus after a
  subscription (other subscriptions, publications, receivers taking values or going away), the
  subscriber's queue never exceeds the capacity; what it received and still holds is, in order, a
  subsequence of what was published to its topic since, whatever the other receivers do; and
  nothing is missing as long as it is not dropped and no more is published than fits.
\<close>

theorem bus_delivery:
  assumes "bus_wf b" "bus_subscribe topic b = (i, b1)" "bus_run evs b1 = (out, b2)"
  shows "let held = ch_queue (ib_channels b2 ! i); sent = published_to topic evs in
    length held \<le> ib_capacity b \<and>
    subseq (received_by i out @ held) sent \<and>
    (received_by i out, ib_channels b2 ! i) =
      chan_run topic i evs \<lparr>ch_cap = ib_capacity b, ch_queue = [], ch_closed = False\<rparr> \<and>
    (Ev_Close i \<notin> set evs \<and> length sent \<le> ib_capacity b \<longrightarrow> received_by i out @ held = sent)"
proof -
  let ?ch = "\<lparr>ch_cap = ib_capacity b, ch_queue = [], ch_closed = False\<rparr>"
  have b1: "b1 = snd (bus_subscribe topic b)" "i = length (ib_channels b)"
    using assms(2) by (auto simp: bus_subscribe_def Let_def)
  have "bus_wf b1" "i \<in> set (bus_senders b1 topic)" "ib_channels b1 ! i = ?ch"
    using bus_subscribe_wf [OF assms(1)] by (auto simp: b1 bus_senders_subscribe) (simp add: bus_subscribe_def Let_def)
  then have r: "(received_by i out, ib_channels b2 ! i) = chan_run topic i evs ?ch"
    using bus_run_channel [OF _ _ assms(3)] by metis
  have "chan_ok (ib_capacity b) ?ch" by (simp add: chan_ok_def)
  from chan_run_queue [OF this r [symmetric]] r show ?thesis by (auto simp: Let_def chan_ok_def)
qed

theorem bus_delivery_witness:
  "let r = bus_run [Ev_Publish ''t'' JNull, Ev_Publish ''t'' (JBool True), Ev_Recv 0] (snd (bus_subscribe ''t'' (bus_new 1)))
   in received_by 0 (fst r) = [JNull] \<and> ch_queue (ib_channels (snd r) ! 0) = [] \<and> subseq [JNull] [JNull, JBool True]"
proof -
  let ?b1 = "snd (bus_subscribe ''t'' (bus_new 1))"
  let ?r = "bus_run [Ev_Publish ''t'' JNull, Ev_Publish ''t'' (JBool True), Ev_Recv 0] ?b1"
  have s: "bus_subscribe ''t'' (bus_new 1) = (0, ?b1)" by (simp add: bus_subscribe_def bus_new_def Let_def)
  have v: "received_by 0 (fst ?r) = [JNull] \<and> ch_queue (ib_channels (snd ?r) ! 0) = []"
    by code_simp
  have "subseq (received_by 0 (fst ?r) @ ch_queue (ib_channels (snd ?r) ! 0))
      (published_to ''t'' [Ev_Publish ''t'' JNull, Ev_Publish ''t'' (JBool True), Ev_Recv 0])"
    using bus_delivery [OF bus_new_wf s prod.collapse [symmetric]] by (simp only: Let_def)
  then have "subseq [JNull] [JNull, JBool True]" unfolding v [THEN conjunct1] v [THEN conjunct2] by simp
  with v show ?thesis unfolding Let_def by (intro conjI) (simp_all only:)
qed

section \<open>Queue source\<close>

text \<open>The queue of a source belongs to its topic and holds what it accepted and has not yielded.\<close>

definition queue_inv :: "queue_source \<Rightarrow> bool" where
  "queue_inv q \<longleftrightarrow> bus_wf (qs_bus q) \<and> qs_chan q < length (ib_channels (qs_bus q)) \<and>
     (if qs_stream q \<in> {Idle, Streaming}
      then \<not> ch_closed (ib_channels (qs_bus q) ! qs_chan q) \<and> qs_accepted q = qs_yielded q @ queue_of q
      else ch_closed (ib_channels (qs_bus q) ! qs_chan q) \<and> queue_of q = [] \<and> (\<exists>lost. qs_accepted q = qs_yielded q @ lost)) \<and>
     (qs_stream q = Ended \<longrightarrow> qs_stop q)"

lemma fold_send_at:
  assumes "bus_wf b" "i < length (ib_channels b)"
  shows "ib_channels (snd (inproc_publish t v b)) ! i = ib_channels b ! i \<or>
    ib_channels (snd (inproc_publish t v b)) ! i = snd (try_send v (ib_channels b ! i))"
  using assms by (simp add: inproc_publish_def fold_send_nth bus_wf_def)

lemma queue_inv_new:
  assumes "bus_wf b"
  shows "queue_inv (queue_source_new topic b)"
  using bus_subscribe_wf [OF assms, of topic]
  by (simp add: queue_inv_def queue_source_new_def queue_of_def bus_subscribe_def Let_def)

lemma queue_inv_publish:
  assumes "queue_inv q"
  shows "queue_inv (queue_publish t v q)"
proof -
  let ?ch = "ib_channels (qs_bus q) ! qs_chan q"
  let ?ch' = "ib_channels (snd (inproc_publish t v (qs_bus q))) ! qs_chan q"
  have q: "bus_wf (qs_bus q)" "qs_chan q < length (ib_channels (qs_bus q))" using assms by (simp_all add: queue_inv_def)
  have l: "length (ib_channels (snd (inproc_publish t v (qs_bus q)))) = length (ib_channels (qs_bus q))"
    by (simp add: inproc_publish_def)
  have "?ch' = ?ch \<or> ?ch' = snd (try_send v ?ch)" by (rule fold_send_at [OF q])
  then have "ch_closed ?ch' = ch_closed ?ch" "ch_closed ?ch \<Longrightarrow> ?ch' = ?ch"
    "\<exists>vs. ch_queue ?ch' = ch_queue ?ch @ vs"
    by (auto simp: try_send_def split: if_splits)
  then show ?thesis
    using assms inproc_publish_wf [OF q(1), of t v] l by (auto simp: queue_inv_def queue_publish_def queue_of_def Let_def)
qed

lemma queue_step_inv:
  assumes "queue_step q q'" "queue_inv q"
  shows "queue_inv q'"
  using assms
proof cases
  case (Subscribe topic)
  have "length (ib_channels (snd (bus_subscribe topic (qs_bus q)))) = Suc (length (ib_channels (qs_bus q)))"
    "j < length (ib_channels (qs_bus q)) \<Longrightarrow> ib_channels (snd (bus_subscribe topic (qs_bus q))) ! j = ib_channels (qs_bus q) ! j" for j
    by (simp_all add: bus_subscribe_def Let_def nth_append)
  then show ?thesis
    using assms(2) Subscribe bus_subscribe_wf by (auto simp: queue_inv_def queue_of_def)
next
  case (Recv v b)
  have q: "bus_wf (qs_bus q)" "qs_chan q < length (ib_channels (qs_bus q))" using assms(2) by (simp_all add: queue_inv_def)
  obtain vs where vs: "ch_queue (ib_channels (qs_bus q) ! qs_chan q) = v # vs"
    and b: "b = (qs_bus q)\<lparr>ib_channels := (ib_channels (qs_bus q))[qs_chan q := (ib_channels (qs_bus q) ! qs_chan q)\<lparr>ch_queue := vs\<rparr>]\<rparr>"
    using Recv(3) by (auto simp: bus_recv_def split: list.splits)
  have "bus_wf b" using bus_recv_wf [OF q] Recv(3) by simp
  then show ?thesis using assms(2) Recv vs q by (simp add: queue_inv_def queue_of_def) (simp add: b)
next
  case Drop
  then show ?thesis using assms(2) bus_close_wf
    by (auto simp: queue_inv_def queue_of_def) (auto simp: bus_close_def channel_close_def)
next
  case Shutdown
  then show ?thesis using assms(2) bus_close_wf
    by (auto simp: queue_inv_def queue_of_def) (auto simp: bus_close_def channel_close_def)
next
  case (Publish topic v)
  then show ?thesis using queue_inv_publish [OF assms(2)] by simp
qed (auto simp: queue_inv_def queue_stream_def queue_of_def split: stream_status.splits if_splits)

lemma queue_reach_inv: "queue_step\<^sup>*\<^sup>* q q' \<Longrightarrow> queue_inv q \<Longrightarrow> queue_inv q'"
  by (induction rule: rtranclp_induct) (auto intro: queue_step_inv)

text \<open>
  A queue source yields what its queue accepted, each payload once and in order, and holds on
  to the rest as long as it has not been stopped: the stream does not end by itself.
\<close>

theorem queue_source_order:
  assumes "bus_wf b" "queue_step\<^sup>*\<^sup>* (queue_source_new topic b) q"
  shows "(\<exists>rest. qs_accepted q = qs_yielded q @ rest \<and>
      (qs_stream q = Idle \<or> qs_stream q = Streaming \<longrightarrow> rest = queue_of q)) \<and>
    (qs_stream q = Ended \<longrightarrow> qs_stop q)"
  using queue_reach_inv [OF assms(2) queue_inv_new [OF assms(1)]] by (auto simp: queue_inv_def split: if_splits)

text \<open>The run of the witnesses: a payload is accepted, and the source is stopped while it is read.\<close>

lemma bus_senders_old: "bus_wf b \<Longrightarrow> length (ib_channels b) \<notin> set (bus_senders b t)"
  unfolding bus_wf_def by blast

lemma queue_publish_new:
  fixes topic v
  assumes "bus_wf b"
  defines "q \<equiv> queue_publish topic v (queue_source_new topic b)"
  shows "qs_accepted q = [v]" "qs_yielded q = []" "qs_stream q = Idle" "qs_stop q = False" "queue_of q = [v]"
proof -
  let ?n = "length (ib_channels b)"
  let ?b1 = "snd (bus_subscribe topic b)"
  have s: "bus_senders ?b1 topic = bus_senders b topic @ [?n]" by (simp add: bus_senders_subscribe)
  have c: "ib_channels ?b1 = ib_channels b @ [\<lparr>ch_cap = ib_capacity b, ch_queue = [], ch_closed = False\<rparr>]"
    by (simp add: bus_subscribe_def Let_def)
  have b1: "bus_wf ?b1" by (rule bus_subscribe_wf [OF assms(1)])
  have "distinct (bus_senders ?b1 topic)" using b1 by (simp add: bus_wf_def)
  then have "ib_channels (snd (inproc_publish topic v ?b1)) ! ?n =
      snd (try_send v \<lparr>ch_cap = ib_capacity b, ch_queue = [], ch_closed = False\<rparr>)"
    by (simp add: inproc_publish_def fold_send_nth c s del: fold_append)
  moreover have "1 \<le> ib_capacity b" using assms(1) by (simp add: bus_wf_def)
  ultimately show "qs_accepted q = [v]" "qs_yielded q = []" "qs_stream q = Idle" "qs_stop q = False" "queue_of q = [v]"
    by (simp_all add: q_def queue_publish_def queue_source_new_def queue_of_def Let_def case_prod_unfold
        bus_subscribe_def try_send_def)
qed

theorem queue_source_order_witness:
  "let q = queue_publish ''t'' JNull (queue_source_new ''t'' (bus_new 4))
   in qs_accepted q = qs_yielded q @ queue_of q \<and> queue_of q = [JNull]"
proof -
  let ?q = "queue_publish ''t'' JNull (queue_source_new ''t'' (bus_new 4))"
  have "queue_step\<^sup>*\<^sup>* (queue_source_new ''t'' (bus_new 4)) ?q" by (rule r_into_rtranclp) (rule queue_step.Publish)
  from queue_source_order [OF bus_new_wf this] queue_publish_new [OF bus_new_wf, of "''t''" JNull 4]
  show ?thesis by (auto simp: Let_def)
qed

text \<open>
  Stopping a queue source can lose what its queue has accepted: for every topic and payload
  there is a run in which the payload is accepted before the stop signal, and the stream ends
  without ever yielding it, whatever happens afterwards.
\<close>

theorem queue_stop_loses:
  assumes "bus_wf b"
  shows "\<exists>q. queue_step\<^sup>*\<^sup>* (queue_source_new topic b) q \<and> qs_accepted q = [v] \<and> qs_stream q = Ended \<and>
    (\<forall>q'. queue_step\<^sup>*\<^sup>* q q' \<longrightarrow> qs_stream q' = Ended \<and> qs_yielded q' = [])"
proof -
  let ?q0 = "queue_source_new topic b"
  let ?q1 = "queue_publish topic v ?q0"
  let ?q2 = "?q1\<lparr>qs_stream := Streaming\<rparr>"
  let ?q3 = "?q2\<lparr>qs_stop := True\<rparr>"
  let ?q4 = "?q3\<lparr>qs_bus := bus_close (qs_chan ?q3) (qs_bus ?q3), qs_stream := Ended\<rparr>"
  note new = queue_publish_new [OF assms, of topic v]
  have "queue_step ?q0 ?q1" by (rule queue_step.Publish)
  moreover have "queue_step ?q1 ?q2"
    using queue_step.Stream [of ?q1] by (simp add: queue_stream_def new)
  moreover have "queue_step ?q2 ?q3" by (rule queue_step.Stop)
  moreover have "queue_step ?q3 ?q4" by (rule queue_step.Shutdown) simp_all
  ultimately have r: "queue_step\<^sup>*\<^sup>* ?q0 ?q4"
    by (meson rtranclp.rtrancl_into_rtrancl rtranclp.rtrancl_refl)
  have fin: "qs_stream q' = Ended \<and> qs_yielded q' = []" if "queue_step\<^sup>*\<^sup>* ?q4 q'" for q'
    using that
  proof (induction rule: rtranclp_induct)
    case (step q' q'')
    from step.hyps(2) step.IH show ?case
      by cases (auto simp: queue_publish_def queue_stream_def Let_def)
  qed (simp add: new)
  show ?thesis by (rule exI [of _ ?q4]) (use r fin in \<open>simp add: new\<close>)
qed

theorem queue_stop_loses_witness:
  "\<exists>q. queue_step\<^sup>*\<^sup>* (queue_source_new ''orders'' (bus_new 4)) q \<and> qs_accepted q = [JBool True] \<and> qs_yielded q = []"
  using queue_stop_loses [OF bus_new_wf, of "''orders''" 4 "JBool True"] by blast

section \<open>HTTP source\<close>

definition http_inv :: "http_state \<Rightarrow> bool" where
  "http_inv st \<longleftrightarrow>
     (hp_stream st \<in> {Idle, Streaming} \<longrightarrow> hp_accepted st = hp_yielded st @ hp_queue st) \<and>
     (hp_stream st = Ended \<longrightarrow> hp_accepted st = hp_yielded st \<and> hp_servers st = 0 \<and> \<not> hp_sender st) \<and>
     (hp_stream st = Abandoned \<longrightarrow> (\<exists>lost. hp_accepted st = hp_yielded st @ lost)) \<and>
     length (hp_queue st) \<le> http_capacity \<and> (hp_servers st = 0 \<longrightarrow> hp_reading st = 0 \<and> hp_waiting st = []) \<and>
     (hp_stopping st \<longleftrightarrow> \<not> hp_sender st) \<and>
     length (filter ((=) 202) (hp_replies st)) = length (hp_accepted st)"

lemma http_inv_idle: "http_inv http_idle"
  by (simp add: http_inv_def http_idle_def)

lemma handle_request_codes: "handle_request hc m rq = Respond code \<Longrightarrow> code \<in> {400, 405, 413}"
  by (auto simp: handle_request_def split: if_splits option.splits)

lemma http_step_inv:
  assumes "http_step hc t st st'" "http_inv st"
  shows "http_inv st'"
  using assms
proof cases
  case (Answer rq code)
  with assms(2) show ?thesis using handle_request_codes [OF Answer(3)] by (auto simp: http_inv_def)
next
  case (Start bind)
  with assms(2) show ?thesis by (auto simp: http_inv_def http_start_def split: option.splits)
next
  case Stream
  with assms(2) show ?thesis by (auto simp: http_inv_def http_stream_def split: stream_status.splits)
qed (auto simp: http_inv_def http_stop_def)

lemma http_reach_inv: "(http_step hc t)\<^sup>*\<^sup>* st st' \<Longrightarrow> http_inv st \<Longrightarrow> http_inv st'"
  by (induction rule: rtranclp_induct) (auto intro: http_step_inv)

text \<open>A stopped source that is being read can get rid of its handlers, empty its queue and end.\<close>

lemma http_drop_waiting:
  "\<exists>st'. (http_step hc t)\<^sup>*\<^sup>* st st' \<and> st' = st\<lparr>hp_waiting := []\<rparr>"
proof (induction "hp_waiting st" arbitrary: st)
  case (Cons v vs)
  have "http_step hc t st (st\<lparr>hp_waiting := [] @ vs\<rparr>)"
    by (rule http_step.Disconnect) (simp add: Cons.hyps(2) [symmetric])
  then have "http_step hc t st (st\<lparr>hp_waiting := vs\<rparr>)" by simp
  with Cons.hyps(1) [of "st\<lparr>hp_waiting := vs\<rparr>"] show ?case
    by (auto intro: converse_rtranclp_into_rtranclp)
next
  case Nil
  then have "st\<lparr>hp_waiting := []\<rparr> = st" by simp
  then show ?case by auto
qed

lemma http_drop_reading: "(http_step hc t)\<^sup>*\<^sup>* st (st\<lparr>hp_reading := 0\<rparr>)"
proof (induction "hp_reading st" arbitrary: st)
  case 0
  then have "st\<lparr>hp_reading := 0\<rparr> = st" by simp
  then show ?case by simp
next
  case (Suc n)
  have "http_step hc t st (st\<lparr>hp_reading := hp_reading st - 1\<rparr>)"
    by (rule http_step.Hang_Up) (simp add: Suc.hyps(2) [symmetric])
  with Suc.hyps(1) [of "st\<lparr>hp_reading := n\<rparr>"] Suc.hyps(2) [symmetric] show ?case
    by (auto intro: converse_rtranclp_into_rtranclp)
qed

lemma http_drain:
  "hp_stream st = Streaming \<Longrightarrow>
   (http_step hc t)\<^sup>*\<^sup>* st (st\<lparr>hp_queue := [], hp_yielded := hp_yielded st @ hp_queue st\<rparr>)"
proof (induction "hp_queue st" arbitrary: st)
  case (Cons v vs)
  let ?st = "st\<lparr>hp_queue := vs, hp_yielded := hp_yielded st @ [v]\<rparr>"
  have "http_step hc t st ?st" by (rule http_step.Recv) (simp_all add: Cons)
  moreover have "(http_step hc t)\<^sup>*\<^sup>* ?st (?st\<lparr>hp_queue := [], hp_yielded := hp_yielded ?st @ hp_queue ?st\<rparr>)"
    by (rule Cons.hyps(1)) (simp_all add: Cons.prems)
  ultimately show ?case using Cons.hyps(2) [symmetric] by (simp add: converse_rtranclp_into_rtranclp)
next
  case Nil
  then have "st\<lparr>hp_queue := [], hp_yielded := hp_yielded st @ hp_queue st\<rparr> = st" by simp
  then show ?case by simp
qed

lemma http_can_end:
  assumes "http_inv st" "hp_stream st = Streaming" "hp_stopping st"
  shows "\<exists>st'. (http_step hc t)\<^sup>*\<^sup>* st st' \<and> hp_stream st' = Ended \<and> hp_accepted st' = hp_accepted st"
proof -
  let ?st0 = "st\<lparr>hp_reading := 0\<rparr>"
  let ?st1 = "?st0\<lparr>hp_waiting := []\<rparr>"
  let ?st2 = "?st1\<lparr>hp_servers := 0\<rparr>"
  let ?st3 = "?st2\<lparr>hp_queue := [], hp_yielded := hp_yielded ?st2 @ hp_queue ?st2\<rparr>"
  let ?st4 = "?st3\<lparr>hp_stream := Ended\<rparr>"
  have "(http_step hc t)\<^sup>*\<^sup>* st ?st0" by (rule http_drop_reading)
  also have "(http_step hc t)\<^sup>*\<^sup>* ?st0 ?st1" using http_drop_waiting by blast
  also have "http_step hc t ?st1 ?st2" by (rule http_step.Exit) (simp_all add: assms)
  also have "(http_step hc t)\<^sup>*\<^sup>* ?st2 ?st3" by (rule http_drain) (simp add: assms)
  also have "http_step hc t ?st3 ?st4"
    by (rule http_step.End) (use assms in \<open>simp_all add: http_inv_def\<close>)
  finally show ?thesis by (intro exI [of _ ?st4]) simp
qed

text \<open>
  C33. No accepted HTTP request is lost, unless the stream is given up.  From a fresh source on: every
  payload answered with 202 (there are as many as such answers) has been yielded, in the order of
  acceptance, or is still in the queue of at most 128; when the stream ends all of them have been
  yielded, the source has been stopped and no server runs; a stopped source that is being read can
  always come to that end; and when the consumer drops the stream, what has been yielded is a first
  part of what was accepted, and the rest is lost.
\<close>

theorem http_accepted_delivered:
  assumes "(http_step hc t)\<^sup>*\<^sup>* http_idle st"
  shows "length (filter ((=) 202) (hp_replies st)) = length (hp_accepted st) \<and>
    length (hp_queue st) \<le> 128 \<and>
    (hp_stream st \<in> {Idle, Streaming} \<longrightarrow> hp_accepted st = hp_yielded st @ hp_queue st) \<and>
    (hp_stream st = Ended \<longrightarrow> hp_accepted st = hp_yielded st \<and> hp_stopping st \<and> hp_servers st = 0) \<and>
    (hp_stream st = Abandoned \<longrightarrow> (\<exists>lost. hp_accepted st = hp_yielded st @ lost)) \<and>
    (hp_stream st = Streaming \<and> hp_stopping st \<longrightarrow>
      (\<exists>st'. (http_step hc t)\<^sup>*\<^sup>* st st' \<and> hp_stream st' = Ended \<and> hp_accepted st' = hp_accepted st))"
proof -
  have inv: "http_inv st" by (rule http_reach_inv [OF assms http_inv_idle])
  then show ?thesis
    using http_can_end [OF inv] by (cases "hp_stream st") (auto simp: http_inv_def http_capacity_def)
qed

theorem http_accepted_delivered_witness:
  "\<exists>hc t st. (http_step hc t)\<^sup>*\<^sup>* http_idle st \<and> hp_stopping st \<and> hp_replies st = [202, 202] \<and>
     hp_yielded st = [JNull] \<and> hp_queue st = [JBool True] \<and>
     (\<exists>st'. (http_step hc t)\<^sup>*\<^sup>* st st' \<and> hp_stream st' = Ended \<and> hp_accepted st' = [JNull, JBool True])"
proof -
  define t where "t = \<lparr>ht_name = ''http:POST /in'', ht_method = ''POST'', ht_path = ''/in'', ht_host = ''h'', ht_port = 1\<rparr>"
  define hc where "hc = \<lparr>hc_json = (\<lambda>s. if s = ''null'' then Some JNull else Some (JBool True)), hc_lossy = id\<rparr>"
  define rq where "rq b = \<lparr>hq_method = ''POST'', hq_content_type = Some ''application/json'', hq_body = Some b\<rparr>" for b
  have a: "handle_request hc (ht_method t) (rq ''null'') = Offer JNull"
    "handle_request hc (ht_method t) (rq ''true'') = Offer (JBool True)"
    by (simp_all add: handle_request_def hc_def t_def rq_def default_limit_def)
  let ?s1 = "http_idle\<lparr>hp_servers := 1\<rparr>"
  let ?s2 = "?s1\<lparr>hp_reading := 1\<rparr>"
  let ?s3 = "?s2\<lparr>hp_reading := 2\<rparr>"
  let ?s4 = "?s3\<lparr>hp_reading := 1, hp_waiting := [JNull]\<rparr>"
  let ?s5 = "?s4\<lparr>hp_waiting := [], hp_queue := [JNull], hp_replies := [202], hp_accepted := [JNull]\<rparr>"
  let ?s6 = "?s5\<lparr>hp_stream := Streaming\<rparr>"
  let ?s7 = "?s6\<lparr>hp_queue := [], hp_yielded := [JNull]\<rparr>"
  let ?s8 = "http_stop ?s7"
  let ?s9 = "?s8\<lparr>hp_reading := 0, hp_waiting := [JBool True]\<rparr>"
  let ?st = "?s9\<lparr>hp_waiting := [], hp_queue := [JBool True], hp_replies := [202, 202], hp_accepted := [JNull, JBool True]\<rparr>"
  have "http_step hc t http_idle ?s1"
    using http_step.Start [of hc t http_idle None] by (simp add: http_start_def http_idle_def)
  moreover have "http_step hc t ?s1 ?s2" using http_step.Connect [of ?s1 hc t] by (simp add: http_idle_def)
  moreover have "http_step hc t ?s2 ?s3" using http_step.Connect [of ?s2 hc t] by (simp add: http_idle_def numeral_2_eq_2)
  moreover have "http_step hc t ?s3 ?s4" using http_step.Arrive [OF _ a(1), of ?s3] by (simp add: http_idle_def)
  moreover have "http_step hc t ?s4 ?s5"
    using http_step.Accept [of ?s4 "[]" JNull "[]" hc t] by (simp add: http_idle_def http_capacity_def)
  moreover have "http_step hc t ?s5 ?s6"
    using http_step.Stream [of hc t ?s5] by (simp add: http_stream_def http_idle_def)
  moreover have "http_step hc t ?s6 ?s7" using http_step.Recv [of ?s6 JNull "[]" hc t] by (simp add: http_idle_def)
  moreover have "http_step hc t ?s7 ?s8" by (rule http_step.Stop)
  moreover have "http_step hc t ?s8 ?s9"
    using http_step.Arrive [OF _ a(2), of ?s8] by (simp add: http_idle_def http_stop_def)
  moreover have "http_step hc t ?s9 ?st"
    using http_step.Accept [of ?s9 "[]" "JBool True" "[]" hc t]
    by (simp add: http_idle_def http_capacity_def http_stop_def)
  ultimately have r: "(http_step hc t)\<^sup>*\<^sup>* http_idle ?st" by (meson rtranclp.intros)
  have f: "hp_stream ?st = Streaming" "hp_stopping ?st" "hp_replies ?st = [202, 202]" "hp_yielded ?st = [JNull]"
    "hp_queue ?st = [JBool True]" "hp_accepted ?st = [JNull, JBool True]"
    by (simp_all add: http_stop_def http_idle_def)
  with http_accepted_delivered [OF r] r show ?thesis by metis
qed

section \<open>Cron source\<close>

text \<open>Schedules look strictly ahead, as \<^verbatim>\<open>Schedule::upcoming\<close> does.\<close>

definition looks_ahead :: "schedule \<Rightarrow> bool" where
  "looks_ahead s \<longleftrightarrow> (\<forall>t nxt. s t = Some nxt \<longrightarrow> t < nxt)"

definition cron_inv :: "schedule \<Rightarrow> cron_state \<Rightarrow> bool" where
  "cron_inv s st \<longleftrightarrow> sorted_wrt (<) (cs_fired st) \<and>
     (\<forall>n \<in> set (cs_fired st). n \<le> cs_clock st \<and> (\<exists>t. s t = Some n)) \<and>
     (cs_status st = Panicked \<longrightarrow> s (cs_clock st) = None \<or> (\<exists>t \<le> cs_clock st. s t = None)) \<and>
     (cs_status st = Stopped_Cron \<longrightarrow> cs_stop st)"

lemma cron_step_inv:
  assumes "looks_ahead s" "cron_step s st st'" "cron_inv s st"
  shows "cron_inv s st'"
  using assms(2)
proof cases
  case (Fire now1 now2 nxt d t)
  have n: "s now1 = Some nxt" "d = nxt - now2"
    using Fire(5) by (auto simp: cron_wait_def sleep_until_def split: option.splits)
  then have "now1 < nxt" using assms(1) by (simp add: looks_ahead_def)
  then have "\<forall>n \<in> set (cs_fired st). n < nxt" "nxt \<le> t" "cs_clock st \<le> t"
    using assms(3) Fire n by (fastforce simp: cron_inv_def)+
  then show ?thesis using assms(3) n Fire(1,2)
    by (auto simp: cron_inv_def sorted_wrt_append intro: order_trans)
next
  case (No_Next now1 now2)
  then show ?thesis using assms(3)
    by (auto simp: cron_inv_def cron_wait_def split: option.splits intro: order_trans)
next
  case (Tick t)
  then show ?thesis using assms(3) by (auto simp: cron_inv_def intro: order_trans)
qed (use assms(3) in \<open>auto simp: cron_inv_def\<close>)

text \<open>
  A cron source fires each hit of its schedule at most once and never early.  For schedules
  that look strictly ahead, whatever the clock readings, delays and stop signals: the hits of its
  records are strictly increasing, each is a hit of the schedule and none lies ahead of the clock;
  the stream ends only after a stop signal; and the task panics only on a schedule that has run out
  of hits.
\<close>

theorem cron_hits_once:
  assumes "looks_ahead s" "(cron_step s)\<^sup>*\<^sup>* (cron_start t0) st"
  shows "sorted_wrt (<) (cs_fired st) \<and>
    (\<forall>n \<in> set (cs_fired st). n \<le> cs_clock st \<and> (\<exists>t. s t = Some n)) \<and>
    (cs_status st = Stopped_Cron \<longrightarrow> cs_stop st) \<and>
    (cs_status st = Panicked \<longrightarrow> (\<exists>t \<le> cs_clock st. s t = None))"
proof -
  have "cron_inv s (cron_start t0)" by (simp add: cron_inv_def cron_start_def)
  with assms(2) have "cron_inv s st"
    by (induction rule: rtranclp_induct) (auto intro: cron_step_inv [OF assms(1)])
  then show ?thesis by (auto simp: cron_inv_def)
qed

definition minutely :: schedule where
  "minutely t = Some ((t div 60 + 1) * 60)"

theorem cron_hits_once_witness:
  "looks_ahead minutely \<and> sorted_wrt (<) [60, 180::nat] \<and>
   (cron_step minutely)\<^sup>*\<^sup>* (cron_start 5) \<lparr>cs_clock = 181, cs_stop = False, cs_fired = [60, 180], cs_status = Live\<rparr>"
proof -
  let ?st1 = "\<lparr>cs_clock = 130, cs_stop = False, cs_fired = [60], cs_status = Live\<rparr>"
  let ?st2 = "\<lparr>cs_clock = 181, cs_stop = False, cs_fired = [60, 180], cs_status = Live\<rparr>"
  have a: "looks_ahead minutely"
    unfolding looks_ahead_def minutely_def using div_mult_mod_eq [of _ 60] by (auto simp: algebra_simps)
  have "cron_step minutely (cron_start 5) ((cron_start 5)\<lparr>cs_clock := 130, cs_fired := cs_fired (cron_start 5) @ [60]\<rparr>)"
    by (rule cron_step.Fire [where ?now1.0 = 5 and ?now2.0 = 6 and d = 54])
      (simp_all add: cron_start_def cron_wait_def minutely_def sleep_until_def)
  then have "cron_step minutely (cron_start 5) ?st1" by (simp add: cron_start_def)
  moreover have "cron_step minutely ?st1 (?st1\<lparr>cs_clock := 181, cs_fired := cs_fired ?st1 @ [180]\<rparr>)"
    by (rule cron_step.Fire [where ?now1.0 = 130 and ?now2.0 = 131 and d = 49])
      (simp_all add: cron_wait_def minutely_def sleep_until_def)
  ultimately have r: "(cron_step minutely)\<^sup>*\<^sup>* (cron_start 5) ?st2"
    by (auto intro: converse_rtranclp_into_rtranclp)
  from cron_hits_once [OF a r] a r show ?thesis by simp
qed

end
