(* ===== verification/Relay_Bridge.thy ===== *)
theory Relay_Bridge
  imports Trigger_Props Plane_Relay
begin

text \<open>
  The relay seen from the instances (\<^verbatim>\<open>sohara-triggers/src/relay.rs\<close>): a bridge publishes on the bus
  of its process and posts the payload to the plane, and a loop pulls the messages of its topics from
  the plane and publishes them locally.  The bridges are put together with the plane's mailboxes of
  \<open>Plane_Relay\<close>; posts arrive in any order or get lost, and so do the answers to pulls.
\<close>

section \<open>Bridge\<close>

record bridge =
  br_local :: bus
  br_subscriber :: string
  br_named :: "string option"
  br_topics :: "string list"
  br_cursors :: "nat imap"

text \<open>
  The subscriber id is the instance's admin address, and a fresh UUID when it has none; \<open>br_named\<close>
  remembers which (a restarted process is spawned with the same options).
\<close>

definition bridge_new :: "bus \<Rightarrow> string list \<Rightarrow> string option \<Rightarrow> string \<Rightarrow> bridge" where
  "bridge_new b topics subscriber uuid =
     \<lparr>br_local = b, br_subscriber = (case subscriber of None \<Rightarrow> uuid | Some u \<Rightarrow> u), br_named = subscriber,
      br_topics = topics, br_cursors = []\<rparr>"

definition upd_local :: "(bus \<Rightarrow> bus) \<Rightarrow> bridge \<Rightarrow> bridge" where
  "upd_local f br = br\<lparr>br_local := f (br_local br)\<rparr>"

text \<open>The post to the plane is a task of its own; the result is its body.\<close>

definition bridge_publish :: "string \<Rightarrow> json \<Rightarrow> bridge \<Rightarrow> (string \<times> json) \<times> bridge" where
  "bridge_publish topic v br = ((topic, v), upd_local (snd \<circ> inproc_publish topic v) br)"

definition pull_subscriptions :: "bridge \<Rightarrow> (string \<times> nat) list" where
  "pull_subscriptions br =
     map (\<lambda>t. (t, case im_get (br_cursors br) t of None \<Rightarrow> 0 | Some c \<Rightarrow> c)) (br_topics br)"

definition apply_response :: "relay_message list \<Rightarrow> pull_subscription list \<Rightarrow> bridge \<Rightarrow> bridge" where
  "apply_response msgs next br =
     (upd_local (fold (\<lambda>m. snd \<circ> inproc_publish (rm_topic m) (rm_payload m)) msgs) br)
       \<lparr>br_cursors := fold (\<lambda>n. im_insert (pb_topic n) (pb_after n)) next (br_cursors br)\<rparr>"

definition pull_once :: "bridge \<Rightarrow> inner \<Rightarrow> relay_message list \<times> bridge \<times> inner" where
  "pull_once br s =
     (let (msgs, next, s1) = relay_pull (br_subscriber br) (pull_subscriptions br) s
      in (msgs, apply_response msgs next br, s1))"

section \<open>Network\<close>

record network =
  nw_plane :: inner
  nw_bridges :: "bridge list"
  nw_posts :: "(string \<times> json) list"

datatype net_event =
    Net_Publish nat string json
  | Net_Arrive nat
  | Net_Post_Lost nat
  | Net_Pull nat
  | Net_Answer_Lost nat
  | Net_Process_Restart nat bus string

definition forget :: "nat \<Rightarrow> 'a list \<Rightarrow> 'a list" where
  "forget k xs = take k xs @ drop (Suc k) xs"

text \<open>
  One event, with the messages that a bridge injects into its bus.  A restarted process has a new
  bus and no cursors; it keeps its subscriber id when it is named, and has a fresh one otherwise (the
  last component of the event).
\<close>

fun net_do :: "net_event \<Rightarrow> network \<Rightarrow> (string \<times> relay_message) list \<times> network" where
  "net_do (Net_Publish i t v) nw =
     (if i < length (nw_bridges nw)
      then (let (post, br) = bridge_publish t v (nw_bridges nw ! i)
            in ([], nw\<lparr>nw_bridges := (nw_bridges nw)[i := br], nw_posts := nw_posts nw @ [post]\<rparr>))
      else ([], nw))"
| "net_do (Net_Arrive k) nw =
     (if k < length (nw_posts nw)
      then (let (t, v) = nw_posts nw ! k
            in ([], nw\<lparr>nw_plane := relay_publish t v (nw_plane nw), nw_posts := forget k (nw_posts nw)\<rparr>))
      else ([], nw))"
| "net_do (Net_Post_Lost k) nw = ([], nw\<lparr>nw_posts := forget k (nw_posts nw)\<rparr>)"
| "net_do (Net_Pull i) nw =
     (if i < length (nw_bridges nw)
      then (let (msgs, br, s) = pull_once (nw_bridges nw ! i) (nw_plane nw)
            in (map (Pair (br_subscriber br)) msgs, nw\<lparr>nw_bridges := (nw_bridges nw)[i := br], nw_plane := s\<rparr>))
      else ([], nw))"
| "net_do (Net_Answer_Lost i) nw =
     (if i < length (nw_bridges nw)
      then (let (msgs, br, s) = pull_once (nw_bridges nw ! i) (nw_plane nw) in ([], nw\<lparr>nw_plane := s\<rparr>))
      else ([], nw))"
| "net_do (Net_Process_Restart i b uuid) nw =
     (if i < length (nw_bridges nw)
      then (let br = nw_bridges nw ! i
            in ([], nw\<lparr>nw_bridges := (nw_bridges nw)[i := bridge_new b (br_topics br) (br_named br) uuid]\<rparr>))
      else ([], nw))"

fun net_run :: "net_event list \<Rightarrow> network \<Rightarrow> (string \<times> relay_message) list \<times> network" where
  "net_run [] nw = ([], nw)"
| "net_run (e # es) nw = (let (out, nw1) = net_do e nw; (out', nw2) = net_run es nw1 in (out @ out', nw2))"

section \<open>Bridges and mailboxes\<close>

text \<open>What happens to the plane is a run of the relay, and what is injected is part of what it hands out.\<close>

lemma relay_run_append:
  "relay_run (evs @ evs') s = (let (out, s1) = relay_run evs s; (out', s2) = relay_run evs' s1 in (out @ out', s2))"
  by (induction evs s rule: relay_run.induct) (auto split: prod.splits)

lemma net_do_relay:
  assumes "net_do e nw = (out, nw')"
  shows "\<exists>evs handed. relay_run evs (nw_plane nw) = (handed, nw_plane nw') \<and> subseq out handed"
proof (cases e)
  case (Net_Publish i t v)
  with assms have "relay_run [] (nw_plane nw) = (out, nw_plane nw')"
    by (auto simp: bridge_publish_def split: if_splits)
  then show ?thesis by blast
next
  case (Net_Arrive k)
  show ?thesis
  proof (cases "k < length (nw_posts nw)")
    case True
    obtain t v where "nw_posts nw ! k = (t, v)" by fastforce
    with assms Net_Arrive True have "relay_run [Publish t v] (nw_plane nw) = (out, nw_plane nw')" by auto
    then show ?thesis by blast
  next
    case False
    with assms Net_Arrive have "relay_run [] (nw_plane nw) = (out, nw_plane nw')" by auto
    then show ?thesis by blast
  qed
next
  case (Net_Pull i)
  show ?thesis
  proof (cases "i < length (nw_bridges nw)")
    case True
    let ?br = "nw_bridges nw ! i"
    obtain msgs nxt s where p: "relay_pull (br_subscriber ?br) (pull_subscriptions ?br) (nw_plane nw) = (msgs, nxt, s)"
      by (cases "relay_pull (br_subscriber ?br) (pull_subscriptions ?br) (nw_plane nw)")
    with assms Net_Pull True
    have "relay_run [Pull (br_subscriber ?br) (pull_subscriptions ?br)] (nw_plane nw) = (out, nw_plane nw')"
      by (auto simp: pull_once_def apply_response_def upd_local_def)
    then show ?thesis by blast
  next
    case False
    with assms Net_Pull have "relay_run [] (nw_plane nw) = (out, nw_plane nw')" by auto
    then show ?thesis by blast
  qed
next
  case (Net_Answer_Lost i)
  show ?thesis
  proof (cases "i < length (nw_bridges nw)")
    case True
    let ?br = "nw_bridges nw ! i"
    obtain msgs nxt s where p: "relay_pull (br_subscriber ?br) (pull_subscriptions ?br) (nw_plane nw) = (msgs, nxt, s)"
      by (cases "relay_pull (br_subscriber ?br) (pull_subscriptions ?br) (nw_plane nw)")
    with assms Net_Answer_Lost True
    have "relay_run [Pull (br_subscriber ?br) (pull_subscriptions ?br)] (nw_plane nw) =
        (map (Pair (br_subscriber ?br)) msgs, nw_plane nw') \<and> out = []"
      by (auto simp: pull_once_def)
    then show ?thesis by fastforce
  next
    case False
    with assms Net_Answer_Lost have "relay_run [] (nw_plane nw) = (out, nw_plane nw')" by auto
    then show ?thesis by blast
  qed
qed (use assms in \<open>auto split: if_splits intro!: exI [of _ "[]"] simp: Let_def\<close>)

lemma net_run_relay:
  "net_run es nw = (out, nw') \<Longrightarrow>
   \<exists>evs handed. relay_run evs (nw_plane nw) = (handed, nw_plane nw') \<and> subseq out handed"
proof (induction es arbitrary: nw out)
  case Nil
  then have "relay_run [] (nw_plane nw) = (out, nw_plane nw')" by simp
  then show ?case by blast
next
  case (Cons e es)
  obtain out1 nw1 where d: "net_do e nw = (out1, nw1)" by fastforce
  obtain out2 where r: "net_run es nw1 = (out2, nw')" and out: "out = out1 @ out2"
    using Cons.prems d by (auto split: prod.splits)
  obtain evs1 handed1 where 1: "relay_run evs1 (nw_plane nw) = (handed1, nw_plane nw1)" "subseq out1 handed1"
    using net_do_relay [OF d] by blast
  obtain evs2 handed2 where 2: "relay_run evs2 (nw_plane nw1) = (handed2, nw_plane nw')" "subseq out2 handed2"
    using Cons.IH [OF r] by blast
  have "relay_run (evs1 @ evs2) (nw_plane nw) = (handed1 @ handed2, nw_plane nw')"
    using 1 2 by (simp add: relay_run_append)
  moreover have "subseq out (handed1 @ handed2)" using 1 2 by (simp add: out list_emb_append_mono)
  ultimately show ?case by blast
qed

lemma subseq_received: "subseq out handed \<Longrightarrow> subseq (received u t out) (received u t handed)"
  by (simp add: received_def subseq_map subseq_filter)

lemma subseq_sorted: "subseq xs ys \<Longrightarrow> sorted_wrt (<) (map fst ys) \<Longrightarrow> sorted_wrt (<) (map fst xs)"
proof -
  assume "subseq xs ys" and s: "sorted_wrt (<) (map fst ys)"
  then have "subseq (map fst xs) (map fst ys)" by (simp add: subseq_map)
  then show ?thesis using s
  proof (induction rule: list_emb.induct)
    case (list_emb_Cons2 x y xs ys)
    then show ?case by (auto dest: list_emb_set)
  qed auto
qed

section \<open>A plane that starts over\<close>

text \<open>The number of the last message of a topic, and cursors that are ahead of it.\<close>

definition mailbox_seq :: "inner \<Rightarrow> string \<Rightarrow> nat" where
  "mailbox_seq s t = (case im_get (pi_relay s) t of None \<Rightarrow> 0 | Some q \<Rightarrow> rq_seq q)"

definition mailbox_ok :: "inner \<Rightarrow> string \<Rightarrow> bool" where
  "mailbox_ok s t \<longleftrightarrow> (\<forall>q. im_get (pi_relay s) t = Some q \<longrightarrow> (\<forall>p \<in> set (rq_buffer q). fst p \<le> rq_seq q))"

lemma relay_publish_mailbox:
  "mailbox_ok s t \<Longrightarrow> mailbox_ok (relay_publish t' v s) t \<and> mailbox_seq s t \<le> mailbox_seq (relay_publish t' v s) t"
  by (auto simp: mailbox_ok_def mailbox_seq_def relay_publish_def Let_def split: option.splits if_splits
      dest!: list.set_sel(2) [rotated]) fastforce+

lemma deliver_none: "\<forall>p \<in> set b. fst p \<le> c \<Longrightarrow> deliver_batch b c d = ([], c)"
  by (induction b) auto

lemma cursor_of_insert:
  "cursor_of (s\<lparr>pi_relay_cursors := im_insert u (im_insert t c (cursors_of s u)) (pi_relay_cursors s)\<rparr>) u' t' =
   (if u' = u \<and> t' = t then c else cursor_of s u' t')"
  by (auto simp: cursor_of_def cursors_of_def)

lemma relay_pull_ahead:
  "\<lbrakk>relay_pull u subs s = (msgs, nxt, s'); mailbox_ok s t; mailbox_seq s t \<le> N; cursor_of s u t \<le> N;
    \<forall>(t', after) \<in> set subs. t' = t \<longrightarrow> after = N\<rbrakk> \<Longrightarrow>
   (\<forall>m \<in> set msgs. rm_topic m \<noteq> t) \<and> (\<forall>n \<in> set nxt. pb_topic n = t \<longrightarrow> pb_after n = N) \<and>
   cursor_of s' u t \<le> N \<and> pi_relay s' = pi_relay s"
proof (induction subs arbitrary: s msgs nxt)
  case (Cons p subs)
  obtain t' after where p: "p = (t', after)" by fastforce
  show ?case
  proof (cases "im_get (pi_relay s) t'")
    case None
    with Cons p show ?thesis by auto
  next
    case (Some q)
    obtain batch cursor where b: "deliver_batch (rq_buffer q) (max after (cursor_of s u t')) 0 = (batch, cursor)"
      by fastforce
    let ?s1 = "s\<lparr>pi_relay_cursors := im_insert u (im_insert t' cursor (cursors_of s u)) (pi_relay_cursors s)\<rparr>"
    obtain msgs1 nxt1 where r: "relay_pull u subs ?s1 = (msgs1, nxt1, s')"
      and eq: "msgs = map (\<lambda>(seq, payload). \<lparr>rm_topic = t', rm_seq = seq, rm_payload = payload\<rparr>) batch @ msgs1"
        "nxt = \<lparr>pb_topic = t', pb_after = cursor\<rparr> # nxt1"
      using Cons.prems(1) p Some b by (auto simp: Let_def split: prod.splits)
    have "max after (cursor_of s u t) = N" if "t' = t" using Cons.prems(4,5) p that by auto
    moreover have "\<forall>p \<in> set (rq_buffer q). fst p \<le> N" if "t' = t"
      using Cons.prems(2,3) Some that by (fastforce simp: mailbox_ok_def mailbox_seq_def)
    ultimately have none: "batch = [] \<and> cursor = N" if "t' = t"
      using b that deliver_none [of "rq_buffer q" N 0] by auto
    have "mailbox_ok ?s1 t" "mailbox_seq ?s1 t \<le> N" using Cons.prems(2,3) by (simp_all add: mailbox_ok_def mailbox_seq_def)
    moreover have "cursor_of ?s1 u t \<le> N" using none Cons.prems(4) by (simp add: cursor_of_insert)
    ultimately have "(\<forall>m \<in> set msgs1. rm_topic m \<noteq> t) \<and> (\<forall>n \<in> set nxt1. pb_topic n = t \<longrightarrow> pb_after n = N) \<and>
        cursor_of s' u t \<le> N \<and> pi_relay s' = pi_relay ?s1"
      using Cons.IH [OF r] Cons.prems(5) by auto
    then show ?thesis using none by (auto simp: eq)
  qed
qed auto

lemma relay_pull_other:
  "\<lbrakk>relay_pull u' subs s = (msgs, nxt, s'); u \<noteq> u'\<rbrakk> \<Longrightarrow> cursor_of s' u t = cursor_of s u t \<and> pi_relay s' = pi_relay s"
proof (induction u' subs s arbitrary: msgs nxt rule: relay_pull.induct)
  case (2 u' t' after subs s)
  show ?case
  proof (cases "im_get (pi_relay s) t'")
    case (Some q)
    then show ?thesis using "2.prems" "2.IH"(2) [OF Some]
      by (auto simp: Let_def cursor_of_insert split: prod.splits)
  qed (use 2 in auto)
qed simp

text \<open>
  The situation after a restart of the plane: a bridge whose cursor is ahead of the new mailbox,
  and which is the only one under its subscriber id.
\<close>

definition ahead :: "nat \<Rightarrow> string \<Rightarrow> nat \<Rightarrow> network \<Rightarrow> bool" where
  "ahead i t N nw \<longleftrightarrow> i < length (nw_bridges nw) \<and> mailbox_ok (nw_plane nw) t \<and>
     im_get (br_cursors (nw_bridges nw ! i)) t = Some N \<and>
     cursor_of (nw_plane nw) (br_subscriber (nw_bridges nw ! i)) t \<le> N \<and>
     (\<forall>j < length (nw_bridges nw). j \<noteq> i \<longrightarrow>
        br_subscriber (nw_bridges nw ! j) \<noteq> br_subscriber (nw_bridges nw ! i) \<and>
        br_named (nw_bridges nw ! j) \<noteq> Some (br_subscriber (nw_bridges nw ! i)))"

lemma fold_cursors:
  "\<forall>n \<in> set nxt. pb_topic n = t \<longrightarrow> pb_after n = N \<Longrightarrow> im_get m t = Some N \<Longrightarrow>
   im_get (fold (\<lambda>n. im_insert (pb_topic n) (pb_after n)) nxt m) t = Some N"
  by (induction nxt arbitrary: m) auto

lemma upd_local_fields [simp]:
  "br_subscriber (upd_local f br) = br_subscriber br" "br_cursors (upd_local f br) = br_cursors br"
  "br_topics (upd_local f br) = br_topics br"
  "br_named (upd_local f br) = br_named br"
  by (simp_all add: upd_local_def)

lemma apply_response_subscriber [simp]:
  "br_subscriber (apply_response msgs nxt br) = br_subscriber br" "br_named (apply_response msgs nxt br) = br_named br"
  by (simp_all add: apply_response_def)

lemma mailbox_ok_cong: "pi_relay s' = pi_relay s \<Longrightarrow> mailbox_ok s' t = mailbox_ok s t \<and> mailbox_seq s' t = mailbox_seq s t"
  by (simp add: mailbox_ok_def mailbox_seq_def)

lemma cursor_of_publish [simp]: "cursor_of (relay_publish t' v s) u t = cursor_of s u t"
  by (simp add: relay_publish_def Let_def cursor_of_def cursors_of_def)

lemma pull_once_cases:
  obtains msgs nxt s where "relay_pull (br_subscriber br) (pull_subscriptions br) s0 = (msgs, nxt, s)"
    "pull_once br s0 = (msgs, apply_response msgs nxt br, s)"
  by (cases "relay_pull (br_subscriber br) (pull_subscriptions br) s0") (auto simp: pull_once_def)

lemma received_none: "\<forall>m \<in> set msgs. rm_topic m \<noteq> t \<Longrightarrow> received u t (map (Pair u') msgs) = []"
  by (auto simp: received_def filter_empty_conv)

lemma received_other: "u \<noteq> u' \<Longrightarrow> received u t (map (Pair u') msgs) = []"
  by (auto simp: received_def filter_empty_conv)

lemma mailbox_seq_mono: "net_do e nw = (out, nw') \<Longrightarrow> mailbox_ok (nw_plane nw) t \<Longrightarrow>
    mailbox_ok (nw_plane nw') t \<and> mailbox_seq (nw_plane nw) t \<le> mailbox_seq (nw_plane nw') t"
proof (cases e)
  case (Net_Pull j)
  moreover assume "net_do e nw = (out, nw')" "mailbox_ok (nw_plane nw) t"
  moreover obtain msgs nxt s where "relay_pull (br_subscriber (nw_bridges nw ! j)) (pull_subscriptions (nw_bridges nw ! j))
      (nw_plane nw) = (msgs, nxt, s)" "pull_once (nw_bridges nw ! j) (nw_plane nw) = (msgs, apply_response msgs nxt (nw_bridges nw ! j), s)"
    by (rule pull_once_cases)
  ultimately show ?thesis
    using relay_pull_other [where u = "br_subscriber (nw_bridges nw ! j) @ ''x''"] mailbox_ok_cong [of s "nw_plane nw"]
    by (fastforce split: if_splits)
next
  case (Net_Answer_Lost j)
  moreover assume "net_do e nw = (out, nw')" "mailbox_ok (nw_plane nw) t"
  moreover obtain msgs nxt s where "relay_pull (br_subscriber (nw_bridges nw ! j)) (pull_subscriptions (nw_bridges nw ! j))
      (nw_plane nw) = (msgs, nxt, s)" "pull_once (nw_bridges nw ! j) (nw_plane nw) = (msgs, apply_response msgs nxt (nw_bridges nw ! j), s)"
    by (rule pull_once_cases)
  ultimately show ?thesis
    using relay_pull_other [where u = "br_subscriber (nw_bridges nw ! j) @ ''x''"] mailbox_ok_cong [of s "nw_plane nw"]
    by (fastforce split: if_splits)
qed (use relay_publish_mailbox in \<open>auto simp: Let_def bridge_publish_def split: if_splits prod.splits\<close>)

text \<open>No restart of the bridge itself, and none that takes its subscriber id or name.\<close>

definition steady :: "nat \<Rightarrow> string \<Rightarrow> net_event \<Rightarrow> bool" where
  "steady i u e \<longleftrightarrow> (case e of Net_Process_Restart j b uuid \<Rightarrow> j \<noteq> i \<and> uuid \<noteq> u | _ \<Rightarrow> True)"

lemma ahead_step:
  assumes "net_do e nw = (out, nw')" "ahead i t N nw" "mailbox_seq (nw_plane nw') t \<le> N" "steady i (br_subscriber (nw_bridges nw ! i)) e"
  shows "received (br_subscriber (nw_bridges nw ! i)) t out = [] \<and> ahead i t N nw' \<and>
    br_subscriber (nw_bridges nw' ! i) = br_subscriber (nw_bridges nw ! i)"
proof -
  let ?u = "br_subscriber (nw_bridges nw ! i)"
  have i: "i < length (nw_bridges nw)" "im_get (br_cursors (nw_bridges nw ! i)) t = Some N"
    "cursor_of (nw_plane nw) ?u t \<le> N" "mailbox_ok (nw_plane nw) t" using assms(2) by (auto simp: ahead_def)
  have m: "mailbox_ok (nw_plane nw') t" "mailbox_seq (nw_plane nw) t \<le> N"
    using mailbox_seq_mono [OF assms(1) i(4)] assms(3) by auto
  have own: "(\<forall>m \<in> set msgs. rm_topic m \<noteq> t) \<and> (\<forall>n \<in> set nxt. pb_topic n = t \<longrightarrow> pb_after n = N) \<and> cursor_of s ?u t \<le> N"
    if "relay_pull ?u (pull_subscriptions (nw_bridges nw ! i)) (nw_plane nw) = (msgs, nxt, s)" for msgs nxt s
    using relay_pull_ahead [OF that i(4) m(2) i(3)] i(2) by (auto simp: pull_subscriptions_def)
  have other: "cursor_of s ?u t \<le> N" if "relay_pull u' subs (nw_plane nw) = (msgs, nxt, s)" "?u \<noteq> u'" for u' subs msgs nxt s
    using relay_pull_other [OF that] i(3) by simp
  have uniq: "br_subscriber (nw_bridges nw ! j) \<noteq> ?u" if "j < length (nw_bridges nw)" "j \<noteq> i" for j
    using assms(2) that by (simp add: ahead_def)
  show ?thesis
  proof (cases e)
    case (Net_Pull j)
    obtain msgs nxt s where p: "relay_pull (br_subscriber (nw_bridges nw ! j)) (pull_subscriptions (nw_bridges nw ! j)) (nw_plane nw)
        = (msgs, nxt, s)" "pull_once (nw_bridges nw ! j) (nw_plane nw) = (msgs, apply_response msgs nxt (nw_bridges nw ! j), s)"
      by (rule pull_once_cases)
    show ?thesis
    proof (cases "j = i")
      case True
      note o = own [OF p(1) [unfolded True]]
      have "im_get (br_cursors (apply_response msgs nxt (nw_bridges nw ! i))) t = Some N"
        unfolding apply_response_def using fold_cursors [of nxt t N] o i(2) by simp
      then show ?thesis using assms(1,2) Net_Pull p True o m i(1) received_none [of msgs t]
        by (auto simp: ahead_def nth_list_update)
    next
      case False
      show ?thesis
      proof (cases "j < length (nw_bridges nw)")
        case True
        have u: "?u \<noteq> br_subscriber (nw_bridges nw ! j)" using uniq [OF True False] by simp
        have eq: "out = map (Pair (br_subscriber (nw_bridges nw ! j))) msgs"
          "nw' = nw\<lparr>nw_bridges := (nw_bridges nw)[j := apply_response msgs nxt (nw_bridges nw ! j)], nw_plane := s\<rparr>"
          using assms(1) Net_Pull p True by auto
        show ?thesis
          using assms(2) m i False True other [OF p(1) u] received_other [OF u]
          by (auto simp: ahead_def nth_list_update eq)
      qed (use assms(1,2) Net_Pull in \<open>simp add: received_def\<close>)
    qed
  next
    case (Net_Answer_Lost j)
    obtain msgs nxt s where p: "relay_pull (br_subscriber (nw_bridges nw ! j)) (pull_subscriptions (nw_bridges nw ! j)) (nw_plane nw)
        = (msgs, nxt, s)" "pull_once (nw_bridges nw ! j) (nw_plane nw) = (msgs, apply_response msgs nxt (nw_bridges nw ! j), s)"
      by (rule pull_once_cases)
    have "cursor_of s ?u t \<le> N" if "j < length (nw_bridges nw)"
      using own [of msgs nxt s] other [OF p(1)] p(1) uniq [OF that] by (cases "j = i") auto
    then show ?thesis using assms(1,2) Net_Answer_Lost p m i by (auto simp: ahead_def split: if_splits)
  qed (use assms i m in \<open>auto simp: ahead_def nth_list_update bridge_publish_def bridge_new_def steady_def Let_def split: if_splits prod.splits option.splits\<close>)
qed

lemma ahead_run:
  "\<lbrakk>net_run es nw = (out, nw'); ahead i t N nw; mailbox_seq (nw_plane nw') t \<le> N;
    \<forall>e \<in> set es. steady i (br_subscriber (nw_bridges nw ! i)) e\<rbrakk> \<Longrightarrow>
   received (br_subscriber (nw_bridges nw ! i)) t out = [] \<and> mailbox_seq (nw_plane nw) t \<le> N"
proof (induction es arbitrary: nw out)
  case (Cons e es)
  obtain out1 nw1 where d: "net_do e nw = (out1, nw1)" by fastforce
  obtain out2 where r: "net_run es nw1 = (out2, nw')" and out: "out = out1 @ out2"
    using Cons.prems(1) d by (auto split: prod.splits)
  have mb: "mailbox_ok (nw_plane nw) t" using Cons.prems(2) by (simp add: ahead_def)
  have mono: "mailbox_seq (nw_plane nw1) t \<le> mailbox_seq (nw_plane nw') t"
    using r mailbox_seq_mono [OF d mb]
  proof (induction es arbitrary: nw1 out2)
    case (Cons e es)
    obtain out3 nw2 where d: "net_do e nw1 = (out3, nw2)" by fastforce
    then obtain out4 where "net_run es nw2 = (out4, nw')" using Cons.prems by (auto split: prod.splits)
    with Cons mailbox_seq_mono [OF d, of t] show ?case by fastforce
  qed simp
  have "mailbox_seq (nw_plane nw1) t \<le> N" using mono Cons.prems(3) by simp
  from ahead_step [OF d Cons.prems(2) this] Cons.prems(4)
  have a: "received (br_subscriber (nw_bridges nw ! i)) t out1 = []" "ahead i t N nw1"
    "br_subscriber (nw_bridges nw1 ! i) = br_subscriber (nw_bridges nw ! i)" by auto
  from Cons.IH [OF r a(2) Cons.prems(3)] Cons.prems(4) a show ?case
    using mailbox_seq_mono [OF d mb] by (auto simp: out)
qed (simp add: received_def)

section \<open>Properties\<close>

text \<open>Named processes keep their subscriber id.\<close>

definition well_named :: "bridge \<Rightarrow> bool" where
  "well_named br \<longleftrightarrow> (case br_named br of None \<Rightarrow> True | Some u \<Rightarrow> br_subscriber br = u)"

lemma bridge_new_named [simp]: "br_named (bridge_new b ts n u) = n" "well_named (bridge_new b ts n u)"
  by (simp_all add: bridge_new_def well_named_def split: option.split)

lemma well_named_frame [simp]:
  "well_named (upd_local f br) = well_named br" "well_named (apply_response msgs nxt br) = well_named br"
  by (simp_all add: well_named_def split: option.split)

lemma map_named_update: "br_named br = br_named (xs ! k) \<Longrightarrow> map br_named (xs[k := br]) = map br_named xs"
  by (simp add: map_update list_update_same_conv) (metis list_update_beyond list_update_id map_update not_less)

lemma net_do_named:
  assumes "net_do e nw = (out, nw')" "list_all well_named (nw_bridges nw)"
  shows "map br_named (nw_bridges nw') = map br_named (nw_bridges nw) \<and> list_all well_named (nw_bridges nw')"
  using assms
  by (cases e)
    (auto simp: bridge_publish_def pull_once_def map_named_update list_all_length nth_list_update Let_def
      split: if_splits prod.splits)

lemma net_run_named:
  "\<lbrakk>net_run es nw = (out, nw'); list_all well_named (nw_bridges nw)\<rbrakk> \<Longrightarrow>
   map br_named (nw_bridges nw') = map br_named (nw_bridges nw) \<and> list_all well_named (nw_bridges nw')"
proof (induction es arbitrary: nw out)
  case (Cons e es)
  obtain out1 nw1 where d: "net_do e nw = (out1, nw1)" by fastforce
  then obtain out2 where "net_run es nw1 = (out2, nw')" using Cons.prems by (auto split: prod.splits)
  with Cons.IH net_do_named [OF d Cons.prems(2)] show ?case by auto
qed simp

lemma named_subscriber:
  assumes "net_run es nw = (out, nw')" "list_all well_named (nw_bridges nw)"
    and "i < length (nw_bridges nw)" "br_named (nw_bridges nw ! i) = Some w"
  shows "br_subscriber (nw_bridges nw' ! i) = w"
proof -
  note n = net_run_named [OF assms(1,2)]
  then have "br_named (nw_bridges nw' ! i) = Some w" "i < length (nw_bridges nw')"
    using assms(3,4) map_eq_imp_length_eq [of br_named "nw_bridges nw'"] by (metis nth_map, metis length_map)
  with n show ?thesis by (auto simp: list_all_length well_named_def)
qed

text \<open>
  C34. Bridges inject each relayed message at most once per subscriber id, in order.  From an empty
  relay on and as long as the plane runs, whatever the bridges publish and pull, in whatever order
  posts arrive, and whichever posts and answers get lost or processes restart: the messages of one
  topic that the bridges under one subscriber id inject into their buses have strictly increasing
  sequence numbers, and a process that is named by its admin address keeps its id over restarts.  (A
  process without one is restarted under a fresh id, and the mailbox is delivered to it again.)
\<close>

theorem relay_bridge_at_most_once:
  assumes "pi_relay (nw_plane nw) = []" "pi_relay_cursors (nw_plane nw) = []" "list_all well_named (nw_bridges nw)"
    and "net_run es nw = (out, nw')"
  shows "sorted_wrt (<) (map fst (received u t out)) \<and>
    (\<forall>i w. i < length (nw_bridges nw) \<and> br_named (nw_bridges nw ! i) = Some w \<longrightarrow> br_subscriber (nw_bridges nw' ! i) = w)"
proof -
  obtain evs handed where r: "relay_run evs (nw_plane nw) = (handed, nw_plane nw')" "subseq out handed"
    using net_run_relay [OF assms(4)] by blast
  obtain hi where "in_window (rs_log relay_start t @ published t evs) (rs_cursor relay_start u t) hi (received u t handed)"
    using relay_run_window [OF relay_refines_start [OF assms(1,2)] r(1)] by blast
  then have "sorted_wrt (<) (map fst (received u t handed))" by (simp add: in_window_def)
  with subseq_received [OF r(2)] have "sorted_wrt (<) (map fst (received u t out))" by (rule subseq_sorted)
  with named_subscriber [OF assms(4,3)] show ?thesis by blast
qed

definition demo_net :: network where
  "demo_net = \<lparr>nw_plane = default_inner,
     nw_bridges = [bridge_new (snd (bus_subscribe ''t'' (bus_new 4))) [''t''] (Some ''a'') []], nw_posts = []\<rparr>"

theorem relay_bridge_at_most_once_witness:
  "let es = [Net_Publish 0 ''t'' JNull, Net_Arrive 0, Net_Pull 0, Net_Process_Restart 0 (bus_new 4) ''x'',
      Net_Publish 0 ''t'' (JBool True), Net_Arrive 0, Net_Pull 0];
       r = net_run es demo_net
   in received ''a'' ''t'' (fst r) = [(1, JNull), (2, JBool True)] \<and> sorted_wrt (<) [1, 2::nat] \<and>
     br_subscriber (nw_bridges (snd r) ! 0) = ''a''"
proof -
  let ?es = "[Net_Publish 0 ''t'' JNull, Net_Arrive 0, Net_Pull 0, Net_Process_Restart 0 (bus_new 4) ''x'',
      Net_Publish 0 ''t'' (JBool True), Net_Arrive 0, Net_Pull 0]"
  let ?r = "net_run ?es demo_net"
  have v: "received ''a'' ''t'' (fst ?r) = [(1, JNull), (2, JBool True)]" by code_simp
  have "pi_relay (nw_plane demo_net) = []" "pi_relay_cursors (nw_plane demo_net) = []"
    "list_all well_named (nw_bridges demo_net)"
    by (simp_all add: demo_net_def default_inner_def)
  note r = relay_bridge_at_most_once [OF this prod.collapse [symmetric], where es = ?es and u = "''a''" and t = "''t''"]
  have "sorted_wrt (<) (map fst (received ''a'' ''t'' (fst ?r)))" by (rule conjunct1 [OF r])
  then have "sorted_wrt (<) [1, 2::nat]" unfolding v by simp
  moreover have "br_named (nw_bridges demo_net ! 0) = Some ''a''" "0 < length (nw_bridges demo_net)"
    by (simp_all add: demo_net_def)
  then have "br_subscriber (nw_bridges (snd ?r) ! 0) = ''a''" using conjunct2 [OF r] by blast
  ultimately show ?thesis using v unfolding Let_def by blast
qed

text \<open>
  A restarted plane is not heard by the bridges that kept running.  When the plane starts over
  (its mailboxes and cursors are not saved) while a bridge, the only one under its subscriber id, has
  reached cursor \<open>N\<close> in a topic, then, whatever happens, none of the first \<open>N\<close> messages that the new
  plane numbers in this topic is injected by that bridge.
\<close>

theorem relay_restart_skips:
  assumes "i < length (nw_bridges nw)" "im_get (br_cursors (nw_bridges nw ! i)) t = Some N"
    and "\<forall>j < length (nw_bridges nw). j \<noteq> i \<longrightarrow> br_subscriber (nw_bridges nw ! j) \<noteq> br_subscriber (nw_bridges nw ! i) \<and>
      br_named (nw_bridges nw ! j) \<noteq> Some (br_subscriber (nw_bridges nw ! i))"
    and "nw_plane nw = rg_inner (registry_load env path disk k)"
    and "net_run es nw = (out, nw')" "\<forall>e \<in> set es. steady i (br_subscriber (nw_bridges nw ! i)) e"
    and "mailbox_seq (nw_plane nw') t \<le> N"
  shows "received (br_subscriber (nw_bridges nw ! i)) t out = []"
proof -
  have "pi_relay (nw_plane nw) = []" "pi_relay_cursors (nw_plane nw) = []"
    by (simp_all add: assms(4) registry_load_def default_inner_def Let_def)
  then have "ahead i t N nw"
    using assms(1-3) by (simp add: ahead_def mailbox_ok_def cursor_of_def cursors_of_def)
  with ahead_run [OF assms(5) _ assms(7,6)] show ?thesis by blast
qed

definition restart_net :: "plane_env \<Rightarrow> network" where
  "restart_net env = \<lparr>nw_plane = rg_inner (registry_load env None [] 0),
     nw_bridges = [(bridge_new (bus_new 4) [''t''] (Some ''a'') [])\<lparr>br_cursors := [(''t'', 7)]\<rparr>,
       bridge_new (bus_new 4) [] (Some ''b'') []], nw_posts = []\<rparr>"

theorem relay_restart_skips_witness:
  "\<forall>env. let r = net_run [Net_Publish 1 ''t'' JNull, Net_Arrive 0, Net_Pull 0] (restart_net env)
     in mailbox_seq (nw_plane (snd r)) ''t'' = 1 \<and> received ''a'' ''t'' (fst r) = []"
proof
  fix env
  let ?nw = "restart_net env"
  let ?es = "[Net_Publish 1 ''t'' JNull, Net_Arrive 0, Net_Pull 0]"
  let ?r = "net_run ?es ?nw"
  have s: "mailbox_seq (nw_plane (snd ?r)) ''t'' = 1"
    by (simp add: restart_net_def registry_load_def default_inner_def bridge_new_def bridge_publish_def upd_local_def
        inproc_publish_def bus_senders_def bus_new_def relay_publish_def relay_cap_def forget_def mailbox_seq_def pull_once_def
        pull_subscriptions_def apply_response_def cursor_of_def cursors_of_def)
  have "received (br_subscriber (nw_bridges ?nw ! 0)) ''t'' (fst ?r) = []"
  proof (rule relay_restart_skips [where N = 7])
    show "nw_plane ?nw = rg_inner (registry_load env None [] 0)" by (simp add: restart_net_def)
    show "net_run ?es ?nw = (fst ?r, snd ?r)" by simp
    show "\<forall>j < length (nw_bridges ?nw). j \<noteq> 0 \<longrightarrow> br_subscriber (nw_bridges ?nw ! j) \<noteq> br_subscriber (nw_bridges ?nw ! 0) \<and>
        br_named (nw_bridges ?nw ! j) \<noteq> Some (br_subscriber (nw_bridges ?nw ! 0))"
      by (auto simp: restart_net_def bridge_new_def less_Suc_eq)
  qed (simp_all only: s, auto simp: restart_net_def steady_def)
  moreover have "br_subscriber (nw_bridges ?nw ! 0) = ''a''" by (simp add: restart_net_def bridge_new_def)
  ultimately show "let r = ?r in mailbox_seq (nw_plane (snd r)) ''t'' = 1 \<and> received ''a'' ''t'' (fst r) = []"
    unfolding Let_def by (simp only: s simp_thms)
qed

text \<open>
  A process that listens on a relayed topic and publishes to it hears itself twice: with room
  in the queue, one publication that reaches the plane, followed by one pull, leaves the payload twice
  in the queue of every local subscriber of the topic.
\<close>

theorem relay_echo:
  assumes "nw_bridges nw = [br]" "br_topics br = [t]" "br_cursors br = []" "nw_posts nw = []"
    and "pi_relay (nw_plane nw) = []" "pi_relay_cursors (nw_plane nw) = []"
    and "bus_wf (br_local br)" "i \<in> set (bus_senders (br_local br) t)"
    and "ib_channels (br_local br) ! i = \<lparr>ch_cap = cap, ch_queue = [], ch_closed = False\<rparr>" "2 \<le> cap"
  shows "let nw' = snd (net_run [Net_Publish 0 t v, Net_Arrive 0, Net_Pull 0] nw)
    in ch_queue (ib_channels (br_local (nw_bridges nw' ! 0)) ! i) = [v, v]"
proof -
  have i: "distinct (bus_senders (br_local br) t)" "i < length (ib_channels (br_local br))"
    using assms(7,8) by (auto simp: bus_wf_def)
  have two: "ch_queue (ib_channels (snd (inproc_publish t v (snd (inproc_publish t v (br_local br))))) ! i) = [v, v]"
    using i assms(8-10) unfolding inproc_publish_def snd_conv
    by (simp add: bus_senders_def fold_send_nth) (simp add: try_send_def)
  have "relay_pull u [(t, 0)] (relay_publish t v (nw_plane nw)) = ([\<lparr>rm_topic = t, rm_seq = 1, rm_payload = v\<rparr>],
      [\<lparr>pb_topic = t, pb_after = 1\<rparr>], snd (snd (relay_pull u [(t, 0)] (relay_publish t v (nw_plane nw)))))" for u
    using assms(5,6) by (simp add: relay_publish_def relay_cap_def relay_batch_def cursor_of_def cursors_of_def Let_def)
  then have "\<exists>s. relay_pull u [(t, 0)] (relay_publish t v (nw_plane nw)) =
      ([\<lparr>rm_topic = t, rm_seq = 1, rm_payload = v\<rparr>], [\<lparr>pb_topic = t, pb_after = 1\<rparr>], s)" for u by metis
  then obtain s where "relay_pull (br_subscriber br) [(t, 0)] (relay_publish t v (nw_plane nw)) =
      ([\<lparr>rm_topic = t, rm_seq = 1, rm_payload = v\<rparr>], [\<lparr>pb_topic = t, pb_after = 1\<rparr>], s)" by blast
  then show ?thesis
    using two assms(1-4)
    by (simp add: bridge_publish_def pull_once_def pull_subscriptions_def apply_response_def upd_local_def forget_def Let_def)
qed

theorem relay_echo_witness:
  "let nw' = snd (net_run [Net_Publish 0 ''t'' JNull, Net_Arrive 0, Net_Pull 0] demo_net)
   in ch_queue (ib_channels (br_local (nw_bridges nw' ! 0)) ! 0) = [JNull, JNull]"
proof (rule relay_echo [where cap = 4])
  show "bus_wf (br_local (bridge_new (snd (bus_subscribe ''t'' (bus_new 4))) [''t''] (Some ''a'') []))"
    using bus_subscribe_wf [OF bus_new_wf] by (simp add: bridge_new_def)
qed (auto simp: demo_net_def bridge_new_def default_inner_def bus_subscribe_def bus_new_def bus_senders_def Let_def)

end
