(* ===== verification/Serve.thy ===== *)
theory Serve
  imports Admin_Api Relay_Bridge Extension_Host Executor_Props
begin

text \<open>
  Run mode and serve mode (\<^verbatim>\<open>sohara-runtime/src/lib.rs\<close>, \<^verbatim>\<open>serve.rs\<close>): how a flow, a registry and a
  store become an executor, and what happens around its run.  What the triggers do is a parameter
  (\<open>Triggers\<close> and \<open>Extension_Client\<close> model it); the records that their streams deliver over the
  life of the served flow are the list their source returns.  The effects of serve mode are recorded
  in the order they happen.
\<close>

section \<open>Run mode\<close>

definition flow_every :: "flow_config \<Rightarrow> nat option" where
  "flow_every flow = Option.bind (f_checkpoint flow) cp_every"

definition run_flow_with_store_report ::
    "flow_config \<Rightarrow> 'w registry \<Rightarrow> ('w, 's) run_config \<Rightarrow> 's \<Rightarrow> 'w \<Rightarrow> nat \<Rightarrow>
     ((error + run_report) \<times> ('w, 's) xstate option) option" where
  "run_flow_with_store_report flow reg cfg s w n =
     (let ctx = flow_context flow None in
      case graph_build (rc_order cfg) flow reg ctx of
        None \<Rightarrow> None
      | Some (Inl e) \<Rightarrow> Some (Inl e, None)
      | Some (Inr g) \<Rightarrow>
          (let (env, st) = executor_new g (b_vars ctx) (cfg\<lparr>rc_every := flow_every flow\<rparr>) s w in
           case run env n st of
             None \<Rightarrow> None
           | Some (Inl e, st') \<Rightarrow> Some (Inl e, Some st')
           | Some (Inr _, st') \<Rightarrow> Some (Inr (report env st'), Some st')))"

definition run_flow_with_store ::
    "flow_config \<Rightarrow> 'w registry \<Rightarrow> ('w, 's) run_config \<Rightarrow> 's \<Rightarrow> 'w \<Rightarrow> nat \<Rightarrow>
     ((error + stats_snapshot) \<times> ('w, 's) xstate option) option" where
  "run_flow_with_store flow reg cfg s w n =
     map_option (map_prod (map_sum id rr_stats) id) (run_flow_with_store_report flow reg cfg s w n)"

definition run_flow ::
    "flow_config \<Rightarrow> 'w registry \<Rightarrow> ('w, 's) run_config \<Rightarrow> 's \<Rightarrow> 'w \<Rightarrow> nat \<Rightarrow>
     ((error + stats_snapshot) \<times> ('w, 's) xstate option) option" where
  "run_flow flow reg cfg = run_flow_with_store flow reg (cfg\<lparr>rc_store := None, rc_resume := False\<rparr>)"

section \<open>Triggers of a flow\<close>

datatype live_trigger =
    L_Extension async_spec trigger_meta json
  | L_Builtin trigger

definition try_extension :: "ext_host option \<Rightarrow> trigger_config \<Rightarrow> error + live_trigger option" where
  "try_extension host config =
     (case host of
        None \<Rightarrow> Inr None
      | Some h \<Rightarrow>
          rbind (build_trigger h config) (\<lambda>r.
            Inr (case r of None \<Rightarrow> None | Some (spec, m, c) \<Rightarrow> Some (L_Extension spec m c))))"

text \<open>An extension's trigger type takes precedence over a built-in one.\<close>

definition build_one :: "trigger_env \<Rightarrow> ext_host option \<Rightarrow> trigger_config \<Rightarrow> bus \<Rightarrow> (error + live_trigger) \<times> bus" where
  "build_one te host config b =
     (case try_extension host config of
        Inl e \<Rightarrow> (Inl e, b)
      | Inr (Some t) \<Rightarrow> (Inr t, b)
      | Inr None \<Rightarrow>
          (let (r, b1) = build_builtin_trigger te config (Some b)
           in (rbind r (\<lambda>t. Inr (L_Builtin t)), case b1 of None \<Rightarrow> b | Some x \<Rightarrow> x)))"

fun build_triggers ::
    "trigger_env \<Rightarrow> ext_host option \<Rightarrow> trigger_config list \<Rightarrow> bus \<Rightarrow> (error + live_trigger list) \<times> bus" where
  "build_triggers te host [] b = (Inr [], b)"
| "build_triggers te host (c # cs) b =
     (case build_one te host c b of
        (Inl e, b1) \<Rightarrow> (Inl e, b1)
      | (Inr t, b1) \<Rightarrow>
          (let (r, b2) = build_triggers te host cs b1 in (rbind r (\<lambda>ts. Inr (t # ts)), b2)))"

definition queue_topic :: "trigger_config \<Rightarrow> string option" where
  "queue_topic t =
     (if t_type t \<noteq> ''queue'' then None
      else
        (case trigger_type_config t of
           Inl _ \<Rightarrow> None
         | Inr m \<Rightarrow> (case im_get m ''topic'' of Some (JString s) \<Rightarrow> Some s | _ \<Rightarrow> None)))"

definition queue_topics :: "flow_config \<Rightarrow> string list" where
  "queue_topics flow = List.map_filter queue_topic (f_triggers flow)"

section \<open>Serve mode\<close>

record 'w serve_env =
  sv_triggers :: trigger_env
  sv_start :: "live_trigger \<Rightarrow> 'w \<Rightarrow> (error + unit) \<times> 'w"
  sv_stop :: "live_trigger \<Rightarrow> 'w \<Rightarrow> (error + unit) \<times> 'w"
  sv_source :: "live_trigger \<Rightarrow> 'w source"
  sv_bind :: "string option"
  sv_io :: history_io
  sv_show :: "error \<Rightarrow> string"

record serve_options =
  so_admin :: "string option"
  so_history :: "history_file option"
  so_relay :: "string option"
  so_shared_bus :: "nat option"
  so_extension_host :: "ext_host option"

datatype serve_effect =
    S_Relay_Spawn "string list"
  | S_Admin_Spawn
  | S_Start live_trigger bool
  | S_Stop live_trigger bool
  | S_Run_Ended
  | S_Admin_Abort
  | S_Relay_Stop
  | S_History string

text \<open>The bus that steps publish to: 0 is the local one, 1 its bridge to the plane.\<close>

definition serve_bus :: "serve_options \<Rightarrow> nat" where
  "serve_bus opts =
     (case so_shared_bus opts of Some b \<Rightarrow> b | None \<Rightarrow> (if so_relay opts \<noteq> None then 1 else 0))"

text \<open>The loops \<^verbatim>\<open>for trigger in &triggers { ...?; }\<close>, with the operation and the effect it is recorded as.\<close>

fun each_trigger ::
    "(live_trigger \<Rightarrow> 'w \<Rightarrow> (error + unit) \<times> 'w) \<Rightarrow> (live_trigger \<Rightarrow> bool \<Rightarrow> serve_effect) \<Rightarrow> live_trigger list \<Rightarrow> 'w \<Rightarrow>
     (error + unit) \<times> serve_effect list \<times> 'w" where
  "each_trigger f mk [] w = (Inr (), [], w)"
| "each_trigger f mk (t # ts) w =
     (case f t w of
        (Inl e, w1) \<Rightarrow> (Inl e, [mk t False], w1)
      | (Inr _, w1) \<Rightarrow> (let (r, eff, w2) = each_trigger f mk ts w1 in (r, mk t True # eff, w2)))"

definition start_triggers ::
    "'w serve_env \<Rightarrow> live_trigger list \<Rightarrow> 'w \<Rightarrow> (error + unit) \<times> serve_effect list \<times> 'w" where
  "start_triggers sv = each_trigger (sv_start sv) S_Start"

definition stop_triggers ::
    "'w serve_env \<Rightarrow> live_trigger list \<Rightarrow> 'w \<Rightarrow> (error + unit) \<times> serve_effect list \<times> 'w" where
  "stop_triggers sv = each_trigger (sv_stop sv) S_Stop"

definition status_of :: "'w serve_env \<Rightarrow> error + stats_snapshot \<Rightarrow> string \<times> string option" where
  "status_of sv res = (case res of Inr _ \<Rightarrow> (''ok'', None) | Inl e \<Rightarrow> (''error'', Some (sv_show sv e)))"

text \<open>After the run: the admin server and the bridge are stopped and the history is written.\<close>

definition serve_finish ::
    "'w serve_env \<Rightarrow> serve_options \<Rightarrow> ('w, 's) xenv \<Rightarrow> error + stats_snapshot \<Rightarrow> ('w, 's) xstate \<Rightarrow>
     serve_effect list \<times> history_file option" where
  "serve_finish sv opts env res st =
     ([S_Run_Ended] @ (if so_admin opts \<noteq> None then [S_Admin_Abort] else [])
       @ (if so_relay opts \<noteq> None then [S_Relay_Stop] else [])
       @ (if so_history opts \<noteq> None then [S_History (fst (status_of sv res))] else []),
      map_option (\<lambda>f. snd (history_append (sv_io sv) (report env st) (fst (status_of sv res)) (snd (status_of sv res)) f))
        (so_history opts))"

record ('w, 's) serve_result =
  sr_outcome :: "error + stats_snapshot"
  sr_effects :: "serve_effect list"
  sr_history :: "history_file option"
  sr_final :: "('w, 's) xstate option"

definition serve_fail ::
    "serve_options \<Rightarrow> error \<Rightarrow> serve_effect list \<Rightarrow> ('w, 's) xstate option \<Rightarrow> ('w, 's) serve_result" where
  "serve_fail opts e eff fin =
     \<lparr>sr_outcome = Inl e, sr_effects = eff, sr_history = so_history opts, sr_final = fin\<rparr>"

text \<open>
  From the start of the triggers on.  \<open>stopping\<close> says whether the shutdown future resolves before the
  run ends.  When stopping a trigger fails, the task of the run is left behind, and its final state is
  not known.
\<close>

definition serve_live ::
    "'w serve_env \<Rightarrow> serve_options \<Rightarrow> bool \<Rightarrow> live_trigger list \<Rightarrow> serve_effect list \<Rightarrow> ('w, 's) xenv \<Rightarrow>
     ('w, 's) xstate \<Rightarrow> nat \<Rightarrow> ('w, 's) serve_result option" where
  "serve_live sv opts stopping ts before env st n =
     (case start_triggers sv ts (x_world st) of
        (Inl e, eff, w1) \<Rightarrow> Some (serve_fail opts e (before @ eff) (Some (set_world w1 st)))
      | (Inr _, eff, w1) \<Rightarrow>
          (case (if stopping then stop_triggers sv ts w1 else (Inr (), [], w1)) of
             (Inl e, eff2, w2) \<Rightarrow> Some (serve_fail opts e (before @ eff @ eff2) None)
           | (Inr _, eff2, w2) \<Rightarrow>
               (case run env n (set_world w2 st) of
                  None \<Rightarrow> None
                | Some (res, st') \<Rightarrow>
                    (let (eff3, hist) = serve_finish sv opts env res st'
                     in Some \<lparr>sr_outcome = res, sr_effects = before @ eff @ eff2 @ eff3,
                          sr_history = hist, sr_final = Some st'\<rparr>))))"

definition serve_with_shutdown_opts ::
    "'w serve_env \<Rightarrow> flow_config \<Rightarrow> 'w registry \<Rightarrow> bus \<Rightarrow> bool \<Rightarrow> serve_options \<Rightarrow> ('w, 's) run_config \<Rightarrow>
     's \<Rightarrow> 'w \<Rightarrow> nat \<Rightarrow> ('w, 's) serve_result option" where
  "serve_with_shutdown_opts sv flow reg b stopping opts cfg s w n =
     (case fst (build_triggers (sv_triggers sv) (so_extension_host opts) (f_triggers flow) b) of
        Inl e \<Rightarrow> Some (serve_fail opts e [] None)
      | Inr ts \<Rightarrow>
          (let relay = (if so_relay opts \<noteq> None then [S_Relay_Spawn (queue_topics flow)] else []);
               ctx = flow_context flow (Some (serve_bus opts)) in
           case graph_build_with_triggers (rc_order cfg) flow reg ctx (map (sv_source sv) ts) of
             None \<Rightarrow> None
           | Some (Inl e) \<Rightarrow> Some (serve_fail opts e relay None)
           | Some (Inr g) \<Rightarrow>
               (let (env, st) = executor_new g (b_vars ctx) (cfg\<lparr>rc_every := flow_every flow\<rparr>) s w in
                case (if so_admin opts \<noteq> None then sv_bind sv else None) of
                  Some e \<Rightarrow> Some (serve_fail opts (Err_Io e) relay (Some st))
                | None \<Rightarrow>
                    serve_live sv opts stopping ts
                      (relay @ (if so_admin opts \<noteq> None then [S_Admin_Spawn] else [])) env st n)))"

section \<open>Lemmas\<close>

text \<open>A run of a built graph always returns, and how deep it may recurse does not matter.\<close>

lemma run_total:
  assumes "graph_wf (e_graph env)"
  shows "\<exists>N r. \<forall>n > N. run env n st = Some r"
proof -
  let ?N = "length (g_nodes (e_graph env))"
  have "\<exists>r. run env (Suc ?N) st = Some r"
    using same_run [OF walk_enough [OF assms lessI], of st] by auto
  then obtain r where "run env (Suc ?N) st = Some r" by blast
  then have "\<forall>n > ?N. run env n st = Some r"
    using same_run [OF walk_enough [OF assms]] by metis
  then show ?thesis by blast
qed

definition steps_total :: "(step_stat \<Rightarrow> nat) \<Rightarrow> run_report \<Rightarrow> nat" where
  "steps_total f rep = sum_list (map (f \<circ> snd) (rr_steps rep))"

lemma report_totals:
  assumes "graph_wf g" "executor_new g vars cfg s w = (env, st)" "run env n st' = Some (res, st'')"
    and "st' = set_world w' st"
  shows "st_filtered (rr_stats (report env st'')) = steps_total ss_filtered (report env st'')"
proof -
  have env: "graph_wf (e_graph env)" using assms(1,2) executor_new_env [of g vars cfg s w] by simp
  have "filtered_balanced st'" using balanced_new [OF assms(2)] by (simp add: assms(4) filtered_balanced_def set_world_def step_sum_def)
  then have "filtered_balanced st''" using filtering.run_respects [OF env assms(3)] by simp
  then show ?thesis
    by (simp add: filtered_balanced_def step_sum_def report_def snapshot_def steps_total_def case_prod_unfold comp_def)
qed

lemma run_report_ends:
  assumes "hash_order (rc_order cfg)" "typed_flow flow"
  shows "\<exists>N r. (\<forall>n > N. run_flow_with_store_report flow reg cfg s w n = Some r) \<and>
    (\<forall>rep st. r = (Inr rep, st) \<longrightarrow>
       st_filtered (rr_stats rep) = steps_total ss_filtered rep \<and> st \<noteq> None)"
proof -
  let ?ctx = "flow_context flow None"
  have "graph_build (rc_order cfg) flow reg ?ctx \<noteq> None" by (rule graph_build_total [OF assms])
  then obtain b where b: "graph_build (rc_order cfg) flow reg ?ctx = Some b" by blast
  show ?thesis
  proof (cases b)
    case (Inl e)
    with b have "run_flow_with_store_report flow reg cfg s w n = Some (Inl e, None)" for n
      by (simp add: run_flow_with_store_report_def Let_def)
    then show ?thesis by auto
  next
    case (Inr g)
    obtain env st where x: "executor_new g (b_vars ?ctx) (cfg\<lparr>rc_every := flow_every flow\<rparr>) s w = (env, st)" by fastforce
    have wf: "graph_wf g" using graph_build_wf [OF assms(1)] b Inr by blast
    then have "graph_wf (e_graph env)" using executor_new_env [of g "b_vars ?ctx" "cfg\<lparr>rc_every := flow_every flow\<rparr>" s w] x by simp
    from run_total [OF this, of st] obtain N res st' where r: "\<forall>n > N. run env n st = Some (res, st')" by auto
    let ?r = "case res of Inl e \<Rightarrow> (Inl e, Some st') | Inr _ \<Rightarrow> (Inr (report env st'), Some st')"
    have "run_flow_with_store_report flow reg cfg s w n = Some ?r" if "n > N" for n
      using that b Inr x r by (cases res) (simp_all add: run_flow_with_store_report_def Let_def)
    moreover have "st_filtered (rr_stats (report env st')) = steps_total ss_filtered (report env st')"
      using report_totals [OF wf x, of "Suc N" st res st' "x_world st"] r by (simp add: set_world_def)
    then have "\<forall>rep fin. ?r = (Inr rep, fin) \<longrightarrow> st_filtered (rr_stats rep) = steps_total ss_filtered rep \<and> fin \<noteq> None"
      by (cases res) auto
    ultimately show ?thesis by blast
  qed
qed

section \<open>Properties\<close>

text \<open>
  Run mode always comes to an end.  Whatever the flow (its steps with kind and type), the registry, the store and the outside
  world: loading aside, building and running the flow returns, independently of the depth bound, an
  error or a report, and never panics; in a report the records counted as filtered are those of its
  steps, and it belongs to the flow.
\<close>

theorem run_mode_returns:
  assumes "hash_order (rc_order cfg)" "typed_flow flow"
  shows "\<exists>N r. (\<forall>n > N. run_flow_with_store_report flow reg cfg s w n = Some r) \<and>
    (\<forall>rep st. r = (Inr rep, st) \<longrightarrow>
       st_filtered (rr_stats rep) = steps_total ss_filtered rep \<and> st \<noteq> None)"
  by (rule run_report_ends [OF assms])

theorem run_mode_returns_witness:
  "\<exists>N r. (\<forall>n > N. run_flow_with_store_report
      (demo_flow [demo_step ''in'' KSource ''vec'', demo_step ''out'' KSink ''vec''] [])
      demo_registry (sample_config None) () [] n = Some r)"
proof -
  have h: "hash_order (rc_order (sample_config None :: (rec list, unit) run_config))"
    using hash_order_rev by (simp add: sample_config_def)
  have t: "typed_flow (demo_flow [demo_step ''in'' KSource ''vec'', demo_step ''out'' KSink ''vec''] [])"
    by (simp add: typed_flow_def demo_flow_def demo_step_def)
  note r = run_mode_returns [OF h t, of demo_registry "()" "[]"]
  show ?thesis by (rule exE [OF r], erule exE, drule conjunct1, rule exI, rule exI)
qed

text \<open>
  The effects of a loop over the triggers: all succeed, or one fails and the later ones are not
  reached.
\<close>

fun loop_effects :: "(live_trigger \<Rightarrow> bool \<Rightarrow> serve_effect) \<Rightarrow> live_trigger list \<Rightarrow> error + 'a \<Rightarrow> serve_effect list" where
  "loop_effects mk ts (Inr _) = map (\<lambda>t. mk t True) ts"
| "loop_effects mk ts (Inl _) = (if ts = [] then [] else map (\<lambda>t. mk t True) (butlast ts) @ [mk (last ts) False])"

lemma each_trigger_effects:
  "each_trigger f mk ts w = (r, eff, w') \<Longrightarrow>
   \<exists>us vs. ts = us @ vs \<and> eff = loop_effects mk us r \<and> (case r of Inr _ \<Rightarrow> vs = [] | Inl _ \<Rightarrow> us \<noteq> [])"
proof (induction ts arbitrary: w r eff w')
  case (Cons t ts)
  obtain q w1 where q: "f t w = (q, w1)" by fastforce
  show ?case
  proof (cases q)
    case (Inl e)
    then have "r = Inl e" "eff = loop_effects mk [t] r" "t # ts = [t] @ ts" using Cons.prems q by auto
    then show ?thesis by (intro exI [of _ "[t]"] exI [of _ ts]) simp
  next
    case (Inr u)
    obtain r1 eff1 w2 where s: "each_trigger f mk ts w1 = (r1, eff1, w2)" by (cases "each_trigger f mk ts w1")
    have eq: "r = r1" "eff = mk t True # eff1" using Cons.prems q Inr s by auto
    obtain us vs where "ts = us @ vs" "eff1 = loop_effects mk us r1" "case r1 of Inr _ \<Rightarrow> vs = [] | Inl _ \<Rightarrow> us \<noteq> []"
      using Cons.IH [OF s] by blast
    then show ?thesis
      by (intro exI [of _ "t # us"] exI [of _ vs]) (cases r1; simp add: eq)
  qed
qed auto

text \<open>The ways serve mode can go: an error before the run has ended, or a run that ended.\<close>

definition serve_failed :: "serve_options \<Rightarrow> serve_effect list \<Rightarrow> ('w, 's) serve_result \<Rightarrow> bool" where
  "serve_failed opts eff r \<longleftrightarrow> isl (sr_outcome r) \<and> sr_effects r = eff \<and> sr_history r = so_history opts"

definition preamble :: "serve_options \<Rightarrow> flow_config \<Rightarrow> serve_effect list" where
  "preamble opts flow =
     (if so_relay opts \<noteq> None then [S_Relay_Spawn (queue_topics flow)] else []) @
     (if so_admin opts \<noteq> None then [S_Admin_Spawn] else [])"

definition closing :: "serve_options \<Rightarrow> string \<Rightarrow> serve_effect list" where
  "closing opts status = (if so_admin opts \<noteq> None then [S_Admin_Abort] else [])
       @ (if so_relay opts \<noteq> None then [S_Relay_Stop] else []) @ (if so_history opts \<noteq> None then [S_History status] else [])"

lemma serve_live_cases:
  assumes "serve_live sv opts stopping ts before env st n = Some r"
  obtains (start) us vs where "ts = us @ vs" "us \<noteq> []"
      "serve_failed opts (before @ loop_effects S_Start us (sr_outcome r)) r"
  | (stop) us vs where "ts = us @ vs" "us \<noteq> []" "stopping" "sr_final r = None"
      "serve_failed opts (before @ map (\<lambda>t. S_Start t True) ts @ loop_effects S_Stop us (sr_outcome r)) r"
  | (ended) w' st' where "run env n (set_world w' st) = Some (sr_outcome r, st')" "sr_final r = Some st'"
      "sr_history r = snd (serve_finish sv opts env (sr_outcome r) st')"
      "sr_effects r = before @ map (\<lambda>t. S_Start t True) ts @
        (if stopping then map (\<lambda>t. S_Stop t True) ts else []) @ [S_Run_Ended] @ closing opts (fst (status_of sv (sr_outcome r)))"
proof -
  obtain r1 eff1 w1 where s1: "start_triggers sv ts (x_world st) = (r1, eff1, w1)"
    by (cases "start_triggers sv ts (x_world st)")
  obtain us vs where e1: "ts = us @ vs" "eff1 = loop_effects S_Start us r1" "case r1 of Inr _ \<Rightarrow> vs = [] | Inl _ \<Rightarrow> us \<noteq> []"
    using each_trigger_effects [OF s1 [unfolded start_triggers_def]] by blast
  show thesis
  proof (cases r1)
    case (Inl e)
    then show thesis
      by (intro start [of us vs]) (use assms s1 e1 in \<open>auto simp: serve_live_def serve_fail_def serve_failed_def\<close>)
  next
    case r1: (Inr u)
    then have eff1: "eff1 = map (\<lambda>t. S_Start t True) ts" using e1 by simp
    obtain r2 eff2 w2 where s2: "(if stopping then stop_triggers sv ts w1 else (Inr (), [], w1)) = (r2, eff2, w2)"
      by (cases "if stopping then stop_triggers sv ts w1 else (Inr (), [], w1)")
    note step = assms [unfolded serve_live_def s1 r1 s2 prod.case sum.case]
    show thesis
    proof (cases r2)
      case (Inl e)
      then have stopping: "stopping" using s2 by (auto split: if_splits)
      then obtain us vs where e2: "ts = us @ vs" "eff2 = loop_effects S_Stop us r2" "us \<noteq> []"
        using each_trigger_effects [of "sv_stop sv" S_Stop ts w1 r2 eff2 w2] s2 Inl by (auto simp: stop_triggers_def)
      then show thesis
        using stopping step Inl eff1 by (intro stop [of us vs]) (auto simp: serve_fail_def serve_failed_def)
    next
      case r2: (Inr u)
      then have eff2: "eff2 = (if stopping then map (\<lambda>t. S_Stop t True) ts else [])"
        using each_trigger_effects [of "sv_stop sv" S_Stop ts w1 r2 eff2 w2] s2 by (auto simp: stop_triggers_def split: if_splits)
      obtain res st' where run: "run env n (set_world w2 st) = Some (res, st')" using step r2 by (auto split: option.splits)
      have "r = \<lparr>sr_outcome = res, sr_effects = before @ eff1 @ eff2 @ fst (serve_finish sv opts env res st'),
          sr_history = snd (serve_finish sv opts env res st'), sr_final = Some st'\<rparr>"
        using step r2 run by (auto simp: case_prod_unfold Let_def)
      then show thesis using run eff1 eff2 by (intro ended [of w2 st']) (simp_all add: serve_finish_def closing_def)
    qed
  qed
qed

abbreviation (input) serve_built :: "'w serve_env \<Rightarrow> flow_config \<Rightarrow> bus \<Rightarrow> serve_options \<Rightarrow> live_trigger list \<Rightarrow> bool" where
  "serve_built sv flow b opts ts \<equiv>
     fst (build_triggers (sv_triggers sv) (so_extension_host opts) (f_triggers flow) b) = Inr ts"

lemma serve_cases:
  assumes "serve_with_shutdown_opts sv flow reg b stopping opts cfg s w n = Some r"
  obtains (early) eff where "serve_failed opts eff r" "eff = [] \<or> eff = [S_Relay_Spawn (queue_topics flow)]"
  | (live) ts g env st where "serve_built sv flow b opts ts"
      "graph_build_with_triggers (rc_order cfg) flow reg (flow_context flow (Some (serve_bus opts))) (map (sv_source sv) ts)
         = Some (Inr g)"
      "executor_new g (f_vars flow) (cfg\<lparr>rc_every := flow_every flow\<rparr>) s w = (env, st)"
      "serve_live sv opts stopping ts (preamble opts flow) env st n = Some r"
proof -
  let ?ctx = "flow_context flow (Some (serve_bus opts))"
  show thesis
  proof (cases "fst (build_triggers (sv_triggers sv) (so_extension_host opts) (f_triggers flow) b)")
    case (Inl e)
    then show thesis
      using assms by (intro early [of "[]"]) (auto simp: serve_with_shutdown_opts_def serve_failed_def serve_fail_def)
  next
    case bt: (Inr ts)
    let ?build = "graph_build_with_triggers (rc_order cfg) flow reg ?ctx (map (sv_source sv) ts)"
    note step = assms [unfolded serve_with_shutdown_opts_def Let_def bt sum.case]
    from step consider e where "?build = Some (Inl e)" | g where "?build = Some (Inr g)"
      by (cases ?build; cases "the ?build") auto
    then show thesis
    proof cases
      case 1
      with step show thesis by (intro early [of "sr_effects r"]) (auto simp: serve_failed_def serve_fail_def split: if_splits)
    next
      case 2
      obtain env st where x: "executor_new g (b_vars ?ctx) (cfg\<lparr>rc_every := flow_every flow\<rparr>) s w = (env, st)" by fastforce
      show thesis
      proof (cases "if so_admin opts \<noteq> None then sv_bind sv else None")
        case (Some e)
        then show thesis
          using step [unfolded 2 x option.case sum.case prod.case Some]
          by (intro early [of "sr_effects r"]) (auto simp: serve_failed_def serve_fail_def split: if_splits)
      next
        case None
        then show thesis
          using step [unfolded 2 x option.case sum.case prod.case None] x
          by (intro live [OF bt 2]) (simp_all add: preamble_def flow_context_def)
      qed
    qed
  qed
qed

text \<open>
  C36. The life of a served flow.  Whenever serve mode returns: if the run ended, all triggers had been
  started before, in the order of the flow, and, on shutdown, all stopped in this order; the admin
  server and the relay bridge are stopped afterwards, and one entry with the outcome of the run is
  appended to the history.  If the run did not end, the outcome is an error and the history is
  untouched; in particular, when stopping one trigger fails, no later trigger is stopped, the run is
  not waited for, and neither admin server nor bridge is stopped.
\<close>

theorem serve_lifecycle:
  assumes "serve_with_shutdown_opts sv flow reg b stopping opts cfg s w n = Some r"
  shows "(S_Run_Ended \<in> set (sr_effects r) \<longrightarrow>
      (\<exists>ts st rep. fst (build_triggers (sv_triggers sv) (so_extension_host opts) (f_triggers flow) b) = Inr ts \<and>
        sr_effects r = preamble opts flow @ map (\<lambda>t. S_Start t True) ts @
          (if stopping then map (\<lambda>t. S_Stop t True) ts else []) @ [S_Run_Ended] @
          closing opts (fst (status_of sv (sr_outcome r))) \<and>
        sr_final r = Some st \<and> rr_stats rep = snapshot st \<and>
        sr_history r = map_option (\<lambda>f. snd (history_append (sv_io sv) rep (fst (status_of sv (sr_outcome r)))
          (snd (status_of sv (sr_outcome r))) f)) (so_history opts))) \<and>
    (S_Run_Ended \<notin> set (sr_effects r) \<longrightarrow>
      isl (sr_outcome r) \<and> sr_history r = so_history opts \<and>
      S_Admin_Abort \<notin> set (sr_effects r) \<and> S_Relay_Stop \<notin> set (sr_effects r)) \<and>
    (\<forall>t. S_Stop t False \<in> set (sr_effects r) \<longrightarrow>
      S_Run_Ended \<notin> set (sr_effects r) \<and> last (sr_effects r) = S_Stop t False \<and> sr_final r = None)"
  using assms
proof (cases rule: serve_cases)
  case (early eff)
  then show ?thesis by (auto simp: serve_failed_def)
next
  case (live ts g env st)
  have quiet: "S_Run_Ended \<notin> set (preamble opts flow)" "S_Admin_Abort \<notin> set (preamble opts flow)"
    "S_Relay_Stop \<notin> set (preamble opts flow)" "S_Stop t ok \<notin> set (preamble opts flow)"
    "S_Stop t ok \<notin> set (closing opts status)" for t ok status
    by (auto simp: preamble_def closing_def)
  from live(4) show ?thesis
  proof (cases rule: serve_live_cases)
    case (start us vs)
    then obtain e where "sr_outcome r = Inl e" by (auto simp: serve_failed_def isl_def)
    with start quiet show ?thesis by (auto simp: serve_failed_def)
  next
    case (stop us vs)
    then obtain e where e: "sr_outcome r = Inl e" by (auto simp: serve_failed_def isl_def)
    with stop quiet show ?thesis by (auto simp: serve_failed_def)
  next
    case (ended w' st')
    have "rr_stats (report env st') = snapshot st'" by (simp add: report_def)
    then show ?thesis using ended live(1) quiet
      by (auto simp: serve_finish_def intro!: exI [of _ "report env st'"])
  qed
qed

definition demo_serve :: "rec list serve_env" where
  "demo_serve = \<lparr>sv_triggers = \<lparr>te_method = Some, te_cron = (\<lambda>_. Inl [])\<rparr>, sv_start = (\<lambda>_ w. (Inr (), w)),
     sv_stop = (\<lambda>_ w. (Inl Err_Timeout, w)), sv_source = (\<lambda>_. vec_source []), sv_bind = None, sv_io = demo_io,
     sv_show = (\<lambda>_. [])\<rparr>"

definition demo_options :: serve_options where
  "demo_options = \<lparr>so_admin = None, so_history = Some None, so_relay = None, so_shared_bus = None, so_extension_host = None\<rparr>"

definition queue_flow :: flow_config where
  "queue_flow = (demo_flow [demo_step ''out'' KSink ''vec''] [EPair ''q'' ''out''])
     \<lparr>f_triggers := [\<lparr>t_id = ''q'', t_type = ''queue'', t_extra = [(''topic'', JString ''t'')]\<rparr>]\<rparr>"

fun stop_failed :: "serve_effect \<Rightarrow> bool" where
  "stop_failed (S_Stop _ ok) = (\<not> ok)"
| "stop_failed _ = False"

theorem serve_lifecycle_witness:
  "\<exists>r. serve_with_shutdown_opts demo_serve queue_flow demo_registry (bus_new 4) True demo_options (sample_config None) () [] 9
       = Some r \<and>
     (\<exists>t. S_Stop t False \<in> set (sr_effects r)) \<and> S_Run_Ended \<notin> set (sr_effects r) \<and> sr_history r = Some None"
proof -
  let ?r = "serve_with_shutdown_opts demo_serve queue_flow demo_registry (bus_new 4) True demo_options
    (sample_config None :: (rec list, unit) run_config) () [] 9"
  have "map_option (\<lambda>r. list_ex stop_failed (sr_effects r)) ?r = Some True"
    by code_simp
  then obtain r e where r: "?r = Some r" "e \<in> set (sr_effects r)" "stop_failed e" by (auto simp: list_ex_iff)
  from r(3) obtain t where e: "e = S_Stop t False" by (cases e) auto
  from serve_lifecycle [OF r(1)] r(2) have "S_Run_Ended \<notin> set (sr_effects r)" "sr_history r = Some None"
    unfolding e by (auto simp: demo_options_def)
  with r(1,2) show ?thesis unfolding e by blast
qed

end
