(* ===== verification/Js_Value.thy ===== *)
theory Js_Value
  imports Json "HOL-Library.Multiset"
begin

text \<open>
  The values of the JavaScript engine (\<^verbatim>\<open>quick_js::JsValue\<close>) and their conversion from and to JSON
  (\<^verbatim>\<open>sohara-js/src/convert.rs\<close>).  An object of the engine is a hash map: the order in which its
  entries are visited is a parameter.
\<close>

section \<open>Values\<close>

text \<open>\<open>Js_Opaque\<close> stands for the engine's values that are neither JSON nor undefined.\<close>

datatype jsval =
    Js_Undefined
  | Js_Null
  | Js_Bool bool
  | Js_Int int
  | Js_Float f64
  | Js_String string
  | Js_Array "jsval list"
  | Js_Object "(string \<times> jsval) list"
  | Js_Opaque

definition is_i32 :: "int \<Rightarrow> bool" where
  "is_i32 n = (- (2 ^ 31) \<le> n \<and> n < 2 ^ 31)"

fun num_as_i64 :: "number \<Rightarrow> int option" where
  "num_as_i64 (PosInt n) = (if n \<le> i64_max then Some n else None)"
| "num_as_i64 (NegInt n) = Some n"
| "num_as_i64 (FloatN _) = None"

definition number_to_js :: "number \<Rightarrow> jsval" where
  "number_to_js n =
     (case num_as_i64 n of
        Some i \<Rightarrow> if is_i32 i then Js_Int i else Js_Float (num_as_f64 n)
      | None \<Rightarrow> Js_Float (num_as_f64 n))"

fun value_to_js :: "json \<Rightarrow> jsval" where
  "value_to_js JNull = Js_Null"
| "value_to_js (JBool b) = Js_Bool b"
| "value_to_js (JNumber n) = number_to_js n"
| "value_to_js (JString s) = Js_String s"
| "value_to_js (JArray vs) = Js_Array (map value_to_js vs)"
| "value_to_js (JObject m) = Js_Object (map (\<lambda>p. (fst p, value_to_js (snd p))) m)"

type_synonym entry_order = "(string \<times> json) list \<Rightarrow> (string \<times> json) list"

fun js_to_value :: "entry_order \<Rightarrow> jsval \<Rightarrow> json" where
  "js_to_value ord Js_Undefined = JNull"
| "js_to_value ord Js_Null = JNull"
| "js_to_value ord (Js_Bool b) = JBool b"
| "js_to_value ord (Js_Int n) = value_of_int n"
| "js_to_value ord (Js_Float x) = value_of_f64 x"
| "js_to_value ord (Js_String s) = JString s"
| "js_to_value ord (Js_Array vs) = JArray (map (js_to_value ord) vs)"
| "js_to_value ord (Js_Object m) = JObject (ord (map (\<lambda>p. (fst p, js_to_value ord (snd p))) m))"
| "js_to_value ord Js_Opaque = JNull"

section \<open>What survives the conversion\<close>

definition permutes_entries :: "entry_order \<Rightarrow> bool" where
  "permutes_entries ord \<longleftrightarrow> (\<forall>m. mset (ord m) = mset m)"

fun int_fits :: "number \<Rightarrow> bool" where
  "int_fits (PosInt n) = is_i32 n"
| "int_fits (NegInt n) = is_i32 n"
| "int_fits (FloatN _) = True"

fun ints_fit :: "json \<Rightarrow> bool" where
  "ints_fit (JNumber n) = int_fits n"
| "ints_fit (JArray vs) = (\<forall>v \<in> set vs. ints_fit v)"
| "ints_fit (JObject m) = (\<forall>p \<in> set m. ints_fit (snd p))"
| "ints_fit _ = True"

text \<open>The value a script sees: integers outside 32 bits are floats.\<close>

fun float_wide :: "number \<Rightarrow> number" where
  "float_wide n = (if int_fits n then n else FloatN (num_as_f64 n))"

fun floated :: "json \<Rightarrow> json" where
  "floated (JNumber n) = JNumber (float_wide n)"
| "floated (JArray vs) = JArray (map floated vs)"
| "floated (JObject m) = JObject (map (\<lambda>p. (fst p, floated (snd p))) m)"
| "floated v = v"

lemma f_of_int_finite:
  assumes "\<bar>n\<bar> < 2 ^ 64"
  shows "f_is_finite (f_of_int n)"
proof -
  have a: "\<bar>of_int n :: rat\<bar> = of_int \<bar>n\<bar>" by simp
  have "ilog2 (of_int \<bar>n\<bar>) \<le> 63" using ilog2_of_int_le [of "\<bar>n\<bar>" 64] assms by simp
  define e where "e = max (ilog2 \<bar>of_int n :: rat\<bar> - 52) (- 1074)"
  have "e < 971" using \<open>ilog2 (of_int \<bar>n\<bar>) \<le> 63\<close> unfolding e_def a by simp
  then show ?thesis unfolding f_of_int_def f_round_def Let_def e_def [symmetric] by simp
qed

lemma wf_number_finite: "wf_number n \<Longrightarrow> f_is_finite (num_as_f64 n)"
  by (cases n) (auto intro!: f_of_int_finite simp: u64_max_def i64_min_def)

lemma number_roundtrip:
  assumes "wf_number n"
  shows "js_to_value ord (number_to_js n) = JNumber (float_wide n)"
  using assms wf_number_finite [OF assms]
  by (cases n) (auto simp: number_to_js_def value_of_int_def num_of_int_def value_of_f64_def is_i32_def
      i64_max_def)

lemma wf_floated: "wf_json v \<Longrightarrow> wf_json (floated v)"
  by (induction v rule: wf_json.induct) (auto simp: comp_def dest: wf_number_finite)

lemma map_of_permuted:
  assumes "mset m' = mset m" "distinct (map fst m)"
  shows "map_of m' = map_of m"
proof -
  have "distinct (map fst m')" using assms by (metis mset_eq_imp_distinct_iff mset_map)
  moreover have "set m' = set m" using assms(1) by (metis set_mset_mset)
  ultimately show ?thesis using assms(2) by (simp add: map_of_inject_set)
qed

lemma map_of_mapped: "map_of (map (\<lambda>p. (fst p, g (snd p))) m) k = map_option g (map_of m k)"
  by (induction m) auto

text \<open>Comparison of objects with the same keys, one of them in any order.\<close>

lemma json_eq_mapped:
  assumes "distinct (map fst m)" "mset m' = mset (map (\<lambda>p. (fst p, f (snd p))) m)"
  shows "json_eq (JObject m') (JObject (map (\<lambda>p. (fst p, g (snd p))) m))
     \<longleftrightarrow> (\<forall>p \<in> set m. json_eq (f (snd p)) (g (snd p)))"
proof -
  have len: "length m' = length m" using assms(2) by (metis length_map size_mset)
  have "set m' = (\<lambda>p. (fst p, f (snd p))) ` set m" using assms(2) by (metis list.set_map set_mset_mset)
  moreover have "map_of m (fst p) = Some (snd p)" if "p \<in> set m" for p
    using that assms(1) by (metis map_of_is_SomeI prod.collapse)
  ultimately show ?thesis using len by (simp add: map_of_mapped split_beta)
qed

lemma js_sees_floats:
  assumes "permutes_entries ord" "wf_json v"
  shows "json_eq (js_to_value ord (value_to_js v)) (floated v)"
  using assms(2)
proof (induction v rule: wf_json.induct)
  case (3 n)
  have "wf_json (floated (JNumber n))" using 3 by (rule wf_floated)
  with 3 show ?case using json_eq_refl [of "JNumber (float_wide n)"]
    by (simp only: value_to_js.simps number_roundtrip wf_json.simps floated.simps)
next
  case (5 vs)
  then show ?case by (simp add: list_all2_map1 list_all2_map2 list_all2_same)
next
  case (6 m)
  then show ?case using assms(1)
    by (simp add: json_eq_mapped permutes_entries_def comp_def del: json_eq.simps)
qed auto

lemma num_eq_float_wide: "wf_number n \<Longrightarrow> num_eq (float_wide n) n = int_fits n"
  using num_eq_refl [of n] by (cases n) auto

lemma js_exact_iff:
  assumes "permutes_entries ord" "wf_json v"
  shows "json_eq (js_to_value ord (value_to_js v)) v \<longleftrightarrow> ints_fit v"
  using assms(2)
proof (induction v rule: wf_json.induct)
  case (3 n)
  then show ?case by (simp add: number_roundtrip num_eq_float_wide del: float_wide.simps)
next
  case (5 vs)
  then show ?case by (simp add: list_all2_map1 list_all2_same)
next
  case (6 m)
  then show ?case using assms(1) json_eq_mapped [of m _ _ id]
    by (auto simp add: permutes_entries_def comp_def simp del: json_eq.simps)
qed auto

text \<open>
  C37. Scripts see every value faithfully except wide integers.  Passing a value to a script and reading
  it back gives an equal value exactly when all its integers fit in 32 bits; otherwise every wider
  integer comes back as the nearest float and the rest is unchanged, in whatever order the engine visits
  the entries of its objects.
\<close>

theorem js_roundtrip:
  assumes "permutes_entries ord" "wf_json v"
  shows "json_eq (js_to_value ord (value_to_js v)) (floated v) \<and>
    (json_eq (js_to_value ord (value_to_js v)) v \<longleftrightarrow> ints_fit v)"
  using js_sees_floats [OF assms] js_exact_iff [OF assms] by blast

text \<open>An order number of 3000000000 comes back as the float 3000000000.0, which is not equal to it.\<close>

theorem js_roundtrip_witness:
  "\<not> json_eq (js_to_value rev (value_to_js (JObject [(''id'', JNumber (PosInt 3000000000)), (''n'', JNumber (NegInt (- 5)))])))
      (JObject [(''id'', JNumber (PosInt 3000000000)), (''n'', JNumber (NegInt (- 5)))])"
  using js_roundtrip [of rev "JObject [(''id'', JNumber (PosInt 3000000000)), (''n'', JNumber (NegInt (- 5)))]"]
  by (simp add: permutes_entries_def u64_max_def i64_min_def is_i32_def del: json_eq.simps)

end
