(* ===== verification/Sql_Values.thy ===== *)
theory Sql_Values
  imports Core_Error
begin

text \<open>
  Values and rows of a SQLite database as \<^verbatim>\<open>rusqlite\<close> hands them out, shared by the database steps
  (\<^verbatim>\<open>sohara-io/src/db.rs\<close>) and the script bridge (\<^verbatim>\<open>sohara-js/src/host.rs\<close>), and decimal
  numerals.  The database itself is the parameter \<open>'w db\<close>; a connection is the path it was opened on.
\<close>

section \<open>Numerals\<close>

fun decimal :: "nat \<Rightarrow> string" where
  "decimal n = (if n < 10 then [char_of (48 + n)] else decimal (n div 10) @ [char_of (48 + n mod 10)])"

declare decimal.simps [simp del]

text \<open>\<^verbatim>\<open>str::parse\<close> of an unsigned integer with the given largest value.\<close>

definition parse_unsigned :: "nat \<Rightarrow> string \<Rightarrow> nat option" where
  "parse_unsigned hi s =
     (let ds = (case s of c # r \<Rightarrow> if c = CHR ''+'' then r else s | [] \<Rightarrow> [])
      in if ds = [] \<or> \<not> list_all is_digit ds \<or> digits_val ds > int hi then None else Some (nat (digits_val ds)))"

lemma digit_char [simp]: "d < 10 \<Longrightarrow> is_digit (char_of (48 + d))" "d < 10 \<Longrightarrow> digit_val (char_of (48 + d)) = int d"
proof -
  assume d: "d < 10"
  then have n: "(of_char (char_of (48 + d) :: char) :: nat) = 48 + d" by simp
  have "(of_char (char_of (48 + d) :: char) :: int) = int (48 + d)"
    using of_nat_of_char [of "char_of (48 + d)", where 'a = int] n by simp
  then show "is_digit (char_of (48 + d))" "digit_val (char_of (48 + d)) = int d"
    using d by (simp_all add: is_digit_def digit_val_def Let_def)
qed

lemma digits_val_snoc: "digits_val (ds @ [c]) = 10 * digits_val ds + digit_val c"
  by (simp add: digits_val_def)

lemma decimal_digits [simp]: "list_all is_digit (decimal n)" "decimal n \<noteq> []"
  by (induction n rule: decimal.induct; subst decimal.simps; simp)+

lemma digits_val_decimal [simp]: "digits_val (decimal n) = int n"
proof (induction n rule: decimal.induct)
  case (1 n)
  show ?case
  proof (cases "n < 10")
    case True
    then show ?thesis by (subst decimal.simps) (simp add: digits_val_def)
  next
    case False
    then have "digits_val (decimal n) = 10 * int (n div 10) + int (n mod 10)"
      using 1 by (subst decimal.simps) (simp add: digits_val_snoc)
    then show ?thesis by presburger
  qed
qed

lemma decimal_no_sep: "\<not> is_digit c \<Longrightarrow> c \<notin> set (decimal n)"
  using decimal_digits(1) [of n] by (auto simp: list_all_iff)

lemma parse_decimal_nat: "n \<le> hi \<Longrightarrow> parse_unsigned hi (decimal n) = Some n"
proof -
  assume n: "n \<le> hi"
  obtain c cs where c: "decimal n = c # cs" by (cases "decimal n") auto
  have "c \<noteq> CHR ''+''" using decimal_no_sep [of "CHR ''+''" n] c by (auto simp: is_digit_def)
  then show ?thesis using n c decimal_digits(1) [of n] digits_val_decimal [of n]
    by (simp add: parse_unsigned_def del: digits_val_decimal)
qed

section \<open>Values and rows\<close>

text \<open>Of a blob only its length is ever used.\<close>

datatype sqlval = Sql_Null | Sql_Integer int | Sql_Real f64 | Sql_Text string | Sql_Blob nat

type_synonym sql_row = "(string \<times> sqlval) list"

fun column_json :: "sqlval \<Rightarrow> json" where
  "column_json Sql_Null = JNull"
| "column_json (Sql_Integer n) = value_of_int n"
| "column_json (Sql_Real x) = value_of_f64 x"
| "column_json (Sql_Text s) = JString s"
| "column_json (Sql_Blob n) = JString (''blob:'' @ decimal n @ ''bytes'')"

definition row_json :: "sql_row \<Rightarrow> json" where
  "row_json row = JObject (fold (\<lambda>(name, v). im_insert name (column_json v)) row [])"

record 'w db =
  db_open :: "string \<Rightarrow> 'w \<Rightarrow> (string + unit) \<times> 'w"
  db_prepare :: "string \<Rightarrow> string \<Rightarrow> 'w \<Rightarrow> string + unit"
  db_rows :: "string \<Rightarrow> string \<Rightarrow> sqlval list \<Rightarrow> 'w \<Rightarrow> (string + (string + sql_row) list) \<times> 'w"
  db_execute :: "string \<Rightarrow> string \<Rightarrow> string list \<Rightarrow> 'w \<Rightarrow> (string + unit) \<times> 'w"

lemma row_json_object [simp]: "is_object (row_json row)"
  by (simp add: row_json_def)

lemma wf_row_json:
  assumes "\<forall>(k, v) \<in> set row. case v of Sql_Integer n \<Rightarrow> i64_min \<le> n \<and> n \<le> i64_max | _ \<Rightarrow> True"
  shows "wf_json (row_json row)"
proof -
  have "wf_json (JObject (fold (\<lambda>(name, v). im_insert name (column_json v)) row m))" if "wf_json (JObject m)" for m
    using that assms
  proof (induction row arbitrary: m)
    case (Cons kv row)
    have "wf_json (column_json (snd kv))"
      using Cons.prems(2) by (cases "snd kv") (auto simp: split_beta i64_max_def u64_max_def)
    then have "wf_json (JObject (im_insert (fst kv) (column_json (snd kv)) m))"
      using Cons.prems(1) by (rule wf_json_im_insert [rotated])
    with Cons show ?case by (simp add: split_beta)
  qed simp
  from this [of "[]"] show ?thesis by (simp add: row_json_def)
qed

end
