(* ===== verification/Js_Host.thy ===== *)
theory Js_Host
  imports Js_Value Sql_Values Extension_Host
begin

text \<open>
  What a script can ask of its host: the environment of a script step (\<^verbatim>\<open>sohara-js/src/env.rs\<close>), the
  host functions (\<^verbatim>\<open>host.rs\<close>) and their registration in a context (\<^verbatim>\<open>callbacks.rs\<close>).  The world
  outside is the parameter \<open>'w js_world\<close>, the JavaScript engine the parameter \<open>'c engine\<close>.  The state
  a script step keeps between its invocations is part of the world, under the name of its step.
\<close>

section \<open>Environment\<close>

record http_options =
  ho_url :: string
  ho_method :: string
  ho_headers :: "(string \<times> string) list"
  ho_timeout :: int
  ho_body :: "json option"

text \<open>A reply: its status, its headers (\<^verbatim>\<open>None\<close> for a value that is no text) and its body.\<close>

datatype http_reply =
    Http_Panic
  | Http_Fails string
  | Http_Reply nat "(string \<times> string option) list" "string + string"

record 'w js_world =
  jw_log :: "string \<Rightarrow> string \<Rightarrow> 'w \<Rightarrow> 'w"
  jw_env :: "string \<Rightarrow> 'w \<Rightarrow> string option"
  jw_now :: "'w \<Rightarrow> string \<times> 'w"
  jw_uuid :: "'w \<Rightarrow> string \<times> 'w"
  jw_sleep :: "int \<Rightarrow> 'w \<Rightarrow> 'w"
  jw_publish :: "nat \<Rightarrow> string \<Rightarrow> json \<Rightarrow> 'w \<Rightarrow> (string + unit) \<times> 'w"
  jw_is_file :: "string \<Rightarrow> 'w \<Rightarrow> bool"
  jw_read :: "string \<Rightarrow> 'w \<Rightarrow> string + string"
  jw_write :: "string \<Rightarrow> string \<Rightarrow> 'w \<Rightarrow> (string + unit) \<times> 'w"
  jw_http :: "http_options \<Rightarrow> 'w \<Rightarrow> http_reply \<times> 'w"
  jw_db :: "'w db"
  jw_state :: "string \<Rightarrow> 'w \<Rightarrow> json"
  jw_set_state :: "string \<Rightarrow> json \<Rightarrow> 'w \<Rightarrow> 'w"
  jw_print :: "json \<Rightarrow> string"
  jw_parse :: "string \<Rightarrow> json option"
  jw_order :: entry_order

record step_env =
  sv_name :: string
  sv_script_dir :: "string option"
  sv_vars :: "json imap"
  sv_flow :: string
  sv_step :: step_meta
  sv_bus :: "nat option"
  sv_permissions :: "string list"
  sv_db :: "string option"
  sv_correlation :: string

definition perm_file_write :: string where "perm_file_write = ''file.write''"
definition perm_db :: string where "perm_db = ''db''"
definition perm_http :: string where "perm_http = ''http''"
definition perm_notify :: string where "perm_notify = ''notify''"
definition perm_all :: string where "perm_all = ''all''"

definition squote :: "string \<Rightarrow> string" where
  "squote s = CHR 0x27 # s @ [CHR 0x27]"

definition require_permission :: "step_env \<Rightarrow> string \<Rightarrow> string + unit" where
  "require_permission env p =
     (if list_ex (\<lambda>q. q = p \<or> q = perm_all) (sv_permissions env) then Inr ()
      else Inl (''permission '' @ squote p @ '' not granted; add it to the script step'' @ [CHR 0x27] @ ''s '' @
         squote ''allow'' @ '' config''))"

text \<open>\<^verbatim>\<open>Path::with_extension\<close> for a path without an extension.\<close>

fun strip_rev :: "string \<Rightarrow> string" where
  "strip_rev (c # r) =
     (if c = CHR ''/'' then strip_rev r
      else if c = CHR ''.'' \<and> r \<noteq> [] \<and> hd r = CHR ''/'' then strip_rev (tl r) else c # r)"
| "strip_rev [] = []"

definition with_js :: "string \<Rightarrow> string" where
  "with_js p = (if path_file_name p = None then p else rev (strip_rev (rev p)) @ ''.js'')"

definition resolve_module :: "'w js_world \<Rightarrow> step_env \<Rightarrow> string \<Rightarrow> 'w \<Rightarrow> string + string" where
  "resolve_module W env path w =
     (let candidate =
        (if is_absolute path then path
         else case sv_script_dir env of Some dir \<Rightarrow> path_join dir path | None \<Rightarrow> path)
      in if jw_is_file W candidate w then Inr candidate
         else
           (let p = (if path_extension candidate = None then with_js candidate else candidate)
            in if jw_is_file W p w then Inr p else Inl (''require: module '' @ squote path @ '' not found'')))"

section \<open>Host functions\<close>

text \<open>An invocation has a buffer of emitted values and the world it acts on.\<close>

record 'w inv =
  inv_emit :: "json list"
  inv_world :: 'w

type_synonym 'w host_fn = "'w inv \<Rightarrow> (string + jsval) \<times> 'w inv"

definition on_world :: "('w \<Rightarrow> (string + jsval) \<times> 'w) \<Rightarrow> 'w host_fn" where
  "on_world f i = (let (r, w) = f (inv_world i) in (r, i\<lparr>inv_world := w\<rparr>))"

definition reading :: "('w \<Rightarrow> string + jsval) \<Rightarrow> 'w host_fn" where
  "reading f i = (f (inv_world i), i)"

definition labelled :: "string \<Rightarrow> string + unit \<Rightarrow> string + jsval" where
  "labelled what r = (case r of Inl e \<Rightarrow> Inl (what @ '': '' @ e) | Inr _ \<Rightarrow> Inr Js_Undefined)"

definition host_log :: "'w js_world \<Rightarrow> step_env \<Rightarrow> string \<Rightarrow> string \<Rightarrow> 'w host_fn" where
  "host_log W env lvl msg =
     on_world (\<lambda>w. (Inr Js_Undefined,
       jw_log W (if lvl = ''error'' \<or> lvl = ''warn'' \<or> lvl = ''debug'' then lvl else ''info'')
         (''['' @ sv_name env @ ''] '' @ msg) w))"

definition host_env :: "'w js_world \<Rightarrow> string \<Rightarrow> 'w host_fn" where
  "host_env W name =
     reading (\<lambda>w. Inr (case jw_env W name w of Some v \<Rightarrow> Js_String v | None \<Rightarrow> Js_Undefined))"

definition host_var :: "step_env \<Rightarrow> string \<Rightarrow> 'w host_fn" where
  "host_var env name =
     reading (\<lambda>_. Inr (case im_get (sv_vars env) name of Some v \<Rightarrow> value_to_js v | None \<Rightarrow> Js_Undefined))"

definition host_now :: "'w js_world \<Rightarrow> 'w host_fn" where
  "host_now W = on_world (\<lambda>w. let (t, w) = jw_now W w in (Inr (Js_String t), w))"

definition host_uuid :: "'w js_world \<Rightarrow> 'w host_fn" where
  "host_uuid W = on_world (\<lambda>w. let (u, w) = jw_uuid W w in (Inr (Js_String u), w))"

text \<open>\<^verbatim>\<open>ms.clamp(0.0, 60_000.0) as u64\<close>: NaN stays NaN and casts to 0.\<close>

definition f_clamp :: "f64 \<Rightarrow> f64 \<Rightarrow> f64 \<Rightarrow> f64" where
  "f_clamp lo hi x = (if f_cmp x lo = Some OLess then lo else if f_cmp x hi = Some OGreater then hi else x)"

definition host_sleep :: "'w js_world \<Rightarrow> f64 \<Rightarrow> 'w host_fn" where
  "host_sleep W ms =
     on_world (\<lambda>w. (Inr Js_Undefined, jw_sleep W (f_to_u64 (f_clamp (F_Fin 0) (F_Fin 60000) ms)) w))"

definition host_notify :: "'w js_world \<Rightarrow> step_env \<Rightarrow> string \<Rightarrow> jsval \<Rightarrow> 'w host_fn" where
  "host_notify W env topic v i =
     (case require_permission env perm_notify of
        Inl e \<Rightarrow> (Inl e, i)
      | Inr _ \<Rightarrow>
          (case sv_bus env of
             None \<Rightarrow> (Inl ''sohara.notify: no event bus in run mode (use serve)'', i)
           | Some bus \<Rightarrow>
               on_world (\<lambda>w. let (r, w) = jw_publish W bus topic (js_to_value (jw_order W) v) w
                  in (labelled (''sohara.notify('' @ topic @ '')'') r, w)) i))"

definition host_file_read :: "'w js_world \<Rightarrow> string \<Rightarrow> 'w host_fn" where
  "host_file_read W path =
     reading (\<lambda>w. case jw_read W path w of
         Inl e \<Rightarrow> Inl (''sohara.file.read('' @ path @ ''): '' @ e)
       | Inr text \<Rightarrow> Inr (Js_String text))"

definition host_file_write :: "'w js_world \<Rightarrow> step_env \<Rightarrow> string \<Rightarrow> string \<Rightarrow> 'w host_fn" where
  "host_file_write W env path content i =
     (case require_permission env perm_file_write of
        Inl e \<Rightarrow> (Inl e, i)
      | Inr _ \<Rightarrow>
          on_world (\<lambda>w. let (r, w) = jw_write W path content w
             in (labelled (''sohara.file.write('' @ path @ '')'') r, w)) i)"

subsection \<open>HTTP\<close>

definition get_member :: "json \<Rightarrow> string \<Rightarrow> json option" where
  "get_member v k = (case v of JObject m \<Rightarrow> im_get m k | _ \<Rightarrow> None)"

definition parse_http_headers :: "'w js_world \<Rightarrow> json \<Rightarrow> (string \<times> string) list" where
  "parse_http_headers W opts =
     (case Option.bind (get_member opts ''headers'') as_object of
        None \<Rightarrow> []
      | Some m \<Rightarrow> map (\<lambda>(k, v). (k, case as_str v of Some s \<Rightarrow> s | None \<Rightarrow> jw_print W v)) m)"

fun num_as_u64 :: "json \<Rightarrow> int option" where
  "num_as_u64 (JNumber (PosInt n)) = Some n"
| "num_as_u64 _ = None"

definition to_upper :: "char \<Rightarrow> char" where
  "to_upper c = (let n = of_char c :: nat in if 97 \<le> n \<and> n \<le> 122 then char_of (n - 32) else c)"

definition parse_http_opts :: "'w js_world \<Rightarrow> json \<Rightarrow> string + http_options" where
  "parse_http_opts W opts =
     (case Option.bind (get_member opts ''url'') as_str of
        None \<Rightarrow> Inl ''sohara.http.request: opts.url is required''
      | Some url \<Rightarrow>
          Inr \<lparr>ho_url = url,
            ho_method = map to_upper (case Option.bind (get_member opts ''method'') as_str of Some m \<Rightarrow> m | None \<Rightarrow> ''GET''),
            ho_headers = parse_http_headers W opts,
            ho_timeout = (case Option.bind (get_member opts ''timeout_ms'') num_as_u64 of Some n \<Rightarrow> n | None \<Rightarrow> 10000),
            ho_body = (case get_member opts ''body'' of Some v \<Rightarrow> if is_null v then None else Some v | None \<Rightarrow> None)\<rparr>)"

definition http_method :: "string \<Rightarrow> string + string" where
  "http_method m =
     (if m \<in> {''GET'', ''POST'', ''PUT'', ''DELETE'', ''PATCH'', ''HEAD''} then Inr m
      else Inl (''sohara.http.request: unsupported method '' @ squote m))"

definition response_to_js ::
    "'w js_world \<Rightarrow> nat \<Rightarrow> (string \<times> string option) list \<Rightarrow> string + string \<Rightarrow> string + jsval" where
  "response_to_js W status headers body =
     (let hs = fold (\<lambda>(k, v). bt_insert k (JString (case v of Some s \<Rightarrow> s | None \<Rightarrow> []))) headers [] in
      case body of
        Inl e \<Rightarrow> Inl (''sohara.http.request: read body: '' @ e)
      | Inr text \<Rightarrow>
          Inr (value_to_js (JObject [(''status'', value_of_int (int status)),
            (''ok'', JBool (200 \<le> status \<and> status < 300)), (''headers'', JObject hs), (''text'', JString text),
            (''json'', case jw_parse W text of Some v \<Rightarrow> v | None \<Rightarrow> JNull)])))"

definition http_blocking :: "'w js_world \<Rightarrow> http_options \<Rightarrow> 'w \<Rightarrow> (string + jsval) \<times> 'w" where
  "http_blocking W opts w =
     (case http_method (ho_method opts) of
        Inl e \<Rightarrow> (Inl e, w)
      | Inr m \<Rightarrow>
          (case jw_http W (opts\<lparr>ho_timeout := max 1000 (min 120000 (ho_timeout opts))\<rparr>) w of
             (Http_Panic, w) \<Rightarrow> (Inl ''sohara.http.request: worker panicked'', w)
           | (Http_Fails e, w) \<Rightarrow> (Inl (''sohara.http.request('' @ ho_url opts @ ''): '' @ e), w)
           | (Http_Reply status hs body, w) \<Rightarrow> (response_to_js W status hs body, w)))"

definition host_http_request :: "'w js_world \<Rightarrow> step_env \<Rightarrow> jsval \<Rightarrow> 'w host_fn" where
  "host_http_request W env v i =
     (case rbind (require_permission env perm_http) (\<lambda>_. parse_http_opts W (js_to_value (jw_order W) v)) of
        Inl e \<Rightarrow> (Inl e, i)
      | Inr opts \<Rightarrow> on_world (http_blocking W opts) i)"

subsection \<open>Database\<close>

fun sql_param :: "'w js_world \<Rightarrow> json \<Rightarrow> sqlval" where
  "sql_param W JNull = Sql_Null"
| "sql_param W (JBool b) = Sql_Integer (if b then 1 else 0)"
| "sql_param W (JNumber n) =
     (case num_as_i64 n of Some i \<Rightarrow> Sql_Integer i | None \<Rightarrow> Sql_Real (num_as_f64 n))"
| "sql_param W (JString s) = Sql_Text s"
| "sql_param W v = Sql_Text (jw_print W v)"

definition sql_params :: "'w js_world \<Rightarrow> json \<Rightarrow> sqlval list" where
  "sql_params W v = (case as_array v of None \<Rightarrow> [] | Some vs \<Rightarrow> map (sql_param W) vs)"

definition row_to_object :: "sql_row \<Rightarrow> json" where
  "row_to_object row = row_json row"

definition js_rows :: "(string + sql_row) list \<Rightarrow> string + jsval" where
  "js_rows rows =
     (case collect_res rows of
        Inl e \<Rightarrow> Inl (''sohara.db.query: row: '' @ e)
      | Inr rs \<Rightarrow> Inr (value_to_js (JArray (map row_to_object rs))))"

definition host_db_query :: "'w js_world \<Rightarrow> step_env \<Rightarrow> string \<Rightarrow> jsval \<Rightarrow> 'w host_fn" where
  "host_db_query W env sql v i =
     (case rbind (require_permission env perm_db)
          (\<lambda>_. case sv_db env of None \<Rightarrow> Inl (''sohara.db.query: no '' @ squote ''db'' @ '' path in the script step config'') | Some p \<Rightarrow> Inr p) of
        Inl e \<Rightarrow> (Inl e, i)
      | Inr path \<Rightarrow>
          on_world (\<lambda>w. case db_open (jw_db W) path w of
              (Inl e, w) \<Rightarrow> (Inl (''sohara.db.query: open '' @ squote path @ '': '' @ e), w)
            | (Inr _, w) \<Rightarrow>
                (case db_prepare (jw_db W) path sql w of
                   Inl e \<Rightarrow> (Inl (''sohara.db.query: prepare: '' @ e), w)
                 | Inr _ \<Rightarrow>
                     (case db_rows (jw_db W) path sql (sql_params W (js_to_value (jw_order W) v)) w of
                        (Inl e, w) \<Rightarrow> (Inl (''sohara.db.query: '' @ e), w)
                      | (Inr rows, w) \<Rightarrow> (js_rows rows, w)))) i)"

subsection \<open>Modules, records and state\<close>

definition host_require_source :: "'w js_world \<Rightarrow> step_env \<Rightarrow> string \<Rightarrow> 'w host_fn" where
  "host_require_source W env path =
     reading (\<lambda>w. rbind (resolve_module W env path w) (\<lambda>full.
       case jw_read W full w of
         Inl e \<Rightarrow> Inl (''sohara.require('' @ path @ ''): '' @ e)
       | Inr text \<Rightarrow> Inr (Js_String text)))"

definition host_emit :: "'w js_world \<Rightarrow> jsval \<Rightarrow> 'w host_fn" where
  "host_emit W v i = (Inr Js_Undefined, i\<lparr>inv_emit := inv_emit i @ [js_to_value (jw_order W) v]\<rparr>)"

definition host_state_sync :: "'w js_world \<Rightarrow> step_env \<Rightarrow> jsval \<Rightarrow> 'w host_fn" where
  "host_state_sync W env v =
     on_world (\<lambda>w. (Inr Js_Undefined, jw_set_state W (sm_id (sv_step env)) (js_to_value (jw_order W) v) w))"

definition host_checkpoint :: "'w js_world \<Rightarrow> 'w host_fn" where
  "host_checkpoint W =
     on_world (\<lambda>w. (Inr Js_Undefined,
       jw_log W ''debug'' ''script ctx.checkpoint() requested (no-op in the current runtime)'' w))"

end
