(* ===== verification/Js_Script.thy ===== *)
theory Js_Script
  imports Js_Host Flow_Graph
begin

text \<open>
  Scripts and the steps that run them: registration of the host functions
  (\<^verbatim>\<open>sohara-js/src/callbacks.rs\<close>), contexts and entry calls (\<^verbatim>\<open>bridge.rs\<close>), configuration
  (\<^verbatim>\<open>lib.rs\<close>) and the three script steps (\<^verbatim>\<open>step.rs\<close>).  To the host a script is the tree of
  the calls it makes, as the engine unfolds it: a finished script has a value or an exception, any other
  asks for one host function and goes on with its reply.  Scripts that never return are not modelled.
\<close>

section \<open>Engine and contexts\<close>

datatype 'c script =
    Finished "string + jsval" 'c
  | Asks string "jsval list" "string + jsval \<Rightarrow> 'c script"

text \<open>
  The engine: a new context, a function added to it, source text evaluated in it, a global function
  called in it; the number in a value, and the message for arguments a function does not accept.
\<close>

record 'c engine =
  en_new :: "string + 'c"
  en_add :: "string \<Rightarrow> 'c \<Rightarrow> string + 'c"
  en_eval :: "string \<Rightarrow> 'c \<Rightarrow> 'c script"
  en_call :: "string \<Rightarrow> jsval list \<Rightarrow> 'c \<Rightarrow> 'c script"
  en_number :: "jsval \<Rightarrow> f64 option"
  en_refuses :: "string \<Rightarrow> jsval list \<Rightarrow> string"
  en_preamble :: string

type_synonym 'w callback = "jsval list \<Rightarrow> 'w host_fn"

record ('c, 'w) js_context =
  cx_state :: 'c
  cx_callbacks :: "(string \<times> 'w callback) list"

definition js_error :: "string \<Rightarrow> string \<Rightarrow> error" where
  "js_error what e = Err_Transform (what @ '': '' @ e)"

definition refuse :: "'c engine \<Rightarrow> string \<Rightarrow> 'w callback" where
  "refuse en name args i = (Inl (en_refuses en name args), i)"

primrec run_tree :: "'c engine \<Rightarrow> (string \<times> 'w callback) list \<Rightarrow> 'c script \<Rightarrow> 'w inv \<Rightarrow> (string + jsval) \<times> 'c \<times> 'w inv" where
  "run_tree en cbs (Finished r c) i = (r, c, i)"
| "run_tree en cbs (Asks name args k) i =
     (case (case map_of cbs name of Some cb \<Rightarrow> cb | None \<Rightarrow> refuse en name) args i of
        (r, i1) \<Rightarrow> run_tree en cbs (k r) i1)"

section \<open>Callbacks\<close>

definition add_callback ::
    "'c engine \<Rightarrow> string \<Rightarrow> string \<Rightarrow> 'w callback \<Rightarrow> ('c, 'w) js_context \<Rightarrow> error + ('c, 'w) js_context" where
  "add_callback en label name cb cx =
     (case en_add en name (cx_state cx) of
        Inl e \<Rightarrow> Inl (js_error label e)
      | Inr c \<Rightarrow> Inr \<lparr>cx_state = c, cx_callbacks = (name, cb) # cx_callbacks cx\<rparr>)"

text \<open>Functions of no, one or two typed arguments.\<close>

definition fn_none :: "'c engine \<Rightarrow> string \<Rightarrow> 'w host_fn \<Rightarrow> 'w callback" where
  "fn_none en name f args = (if args = [] then f else refuse en name args)"

definition fn_string :: "'c engine \<Rightarrow> string \<Rightarrow> (string \<Rightarrow> 'w host_fn) \<Rightarrow> 'w callback" where
  "fn_string en name f args = (case args of [Js_String s] \<Rightarrow> f s | _ \<Rightarrow> refuse en name args)"

definition fn_strings :: "'c engine \<Rightarrow> string \<Rightarrow> (string \<Rightarrow> string \<Rightarrow> 'w host_fn) \<Rightarrow> 'w callback" where
  "fn_strings en name f args = (case args of [Js_String s, Js_String t] \<Rightarrow> f s t | _ \<Rightarrow> refuse en name args)"

definition fn_number :: "'c engine \<Rightarrow> string \<Rightarrow> (f64 \<Rightarrow> 'w host_fn) \<Rightarrow> 'w callback" where
  "fn_number en name f args =
     (case args of [v] \<Rightarrow> (case en_number en v of Some x \<Rightarrow> f x | None \<Rightarrow> refuse en name args) | _ \<Rightarrow> refuse en name args)"

definition arg_string :: "entry_order \<Rightarrow> jsval list \<Rightarrow> nat \<Rightarrow> string + string" where
  "arg_string ord args n =
     (case (if n < length args then as_str (js_to_value ord (args ! n)) else None) of
        Some s \<Rightarrow> Inr s
      | None \<Rightarrow> Inl (''expected string argument at position '' @ decimal n))"

definition arg_js :: "jsval list \<Rightarrow> nat \<Rightarrow> string + jsval" where
  "arg_js args n =
     (if n < length args then Inr (args ! n) else Inl (''missing argument at position '' @ decimal n))"

definition or_undefined :: "string + jsval \<Rightarrow> jsval" where
  "or_undefined r = (case r of Inl _ \<Rightarrow> Js_Undefined | Inr v \<Rightarrow> v)"

definition register_log_callback :: "'w js_world \<Rightarrow> 'c engine \<Rightarrow> step_env \<Rightarrow> ('c, 'w) js_context \<Rightarrow> error + ('c, 'w) js_context" where
  "register_log_callback W en env =
     add_callback en ''log callback'' ''__log'' (fn_strings en ''__log'' (host_log W env))"

definition register_meta_callbacks :: "'w js_world \<Rightarrow> 'c engine \<Rightarrow> step_env \<Rightarrow> ('c, 'w) js_context \<Rightarrow> error + ('c, 'w) js_context" where
  "register_meta_callbacks W en env cx =
     rbind (add_callback en ''env callback'' ''__env'' (fn_string en ''__env'' (host_env W)) cx)
       (add_callback en ''var callback'' ''__var'' (fn_string en ''__var'' (host_var env)))"

definition register_util_callbacks :: "'w js_world \<Rightarrow> 'c engine \<Rightarrow> ('c, 'w) js_context \<Rightarrow> error + ('c, 'w) js_context" where
  "register_util_callbacks W en cx =
     rbind (add_callback en ''now callback'' ''__now'' (fn_none en ''__now'' (host_now W)) cx) (\<lambda>cx.
     rbind (add_callback en ''uuid callback'' ''__uuid'' (fn_none en ''__uuid'' (host_uuid W)) cx)
       (add_callback en ''sleep callback'' ''__sleep'' (fn_number en ''__sleep'' (host_sleep W))))"

definition register_notify_callback :: "'w js_world \<Rightarrow> 'c engine \<Rightarrow> step_env \<Rightarrow> ('c, 'w) js_context \<Rightarrow> error + ('c, 'w) js_context" where
  "register_notify_callback W en env =
     add_callback en ''notify callback'' ''__notify'' (\<lambda>args i.
       case arg_string (jw_order W) args 0 of
         Inl e \<Rightarrow> (Inl e, i)
       | Inr topic \<Rightarrow> host_notify W env topic (or_undefined (arg_js args 1)) i)"

definition register_file_callbacks :: "'w js_world \<Rightarrow> 'c engine \<Rightarrow> step_env \<Rightarrow> ('c, 'w) js_context \<Rightarrow> error + ('c, 'w) js_context" where
  "register_file_callbacks W en env cx =
     rbind (add_callback en ''file.read callback'' ''__file_read'' (fn_string en ''__file_read'' (host_file_read W)) cx)
       (add_callback en ''file.write callback'' ''__file_write'' (fn_strings en ''__file_write'' (host_file_write W env)))"

definition register_http_callback :: "'w js_world \<Rightarrow> 'c engine \<Rightarrow> step_env \<Rightarrow> ('c, 'w) js_context \<Rightarrow> error + ('c, 'w) js_context" where
  "register_http_callback W en env =
     add_callback en ''http callback'' ''__http_request''
       (\<lambda>args. host_http_request W env (or_undefined (arg_js args 0)))"

definition register_db_callback :: "'w js_world \<Rightarrow> 'c engine \<Rightarrow> step_env \<Rightarrow> ('c, 'w) js_context \<Rightarrow> error + ('c, 'w) js_context" where
  "register_db_callback W en env =
     add_callback en ''db callback'' ''__db_query'' (\<lambda>args i.
       case arg_string (jw_order W) args 0 of
         Inl e \<Rightarrow> (Inl e, i)
       | Inr sql \<Rightarrow> host_db_query W env sql (or_undefined (arg_js args 1)) i)"

definition register_io_callbacks :: "'w js_world \<Rightarrow> 'c engine \<Rightarrow> step_env \<Rightarrow> ('c, 'w) js_context \<Rightarrow> error + ('c, 'w) js_context" where
  "register_io_callbacks W en env cx =
     rbind (register_notify_callback W en env cx) (\<lambda>cx.
     rbind (register_file_callbacks W en env cx) (\<lambda>cx.
     rbind (register_http_callback W en env cx) (register_db_callback W en env)))"

definition register_state_callbacks :: "'w js_world \<Rightarrow> 'c engine \<Rightarrow> step_env \<Rightarrow> ('c, 'w) js_context \<Rightarrow> error + ('c, 'w) js_context" where
  "register_state_callbacks W en env cx =
     rbind (add_callback en ''emit callback'' ''__emit'' (\<lambda>args. host_emit W (or_undefined (arg_js args 0))) cx)
       (add_callback en ''state callback'' ''__state_sync'' (\<lambda>args. host_state_sync W env (or_undefined (arg_js args 0))))"

definition register_script_callbacks :: "'w js_world \<Rightarrow> 'c engine \<Rightarrow> step_env \<Rightarrow> ('c, 'w) js_context \<Rightarrow> error + ('c, 'w) js_context" where
  "register_script_callbacks W en env cx =
     rbind (add_callback en ''require callback'' ''__require_source''
       (fn_string en ''__require_source'' (host_require_source W env)) cx) (\<lambda>cx.
     rbind (register_state_callbacks W en env cx)
       (add_callback en ''checkpoint callback'' ''__checkpoint'' (fn_none en ''__checkpoint'' (host_checkpoint W))))"

definition register_callbacks :: "'w js_world \<Rightarrow> 'c engine \<Rightarrow> step_env \<Rightarrow> ('c, 'w) js_context \<Rightarrow> error + ('c, 'w) js_context" where
  "register_callbacks W en env cx =
     rbind (register_log_callback W en env cx) (\<lambda>cx.
     rbind (register_meta_callbacks W en env cx) (\<lambda>cx.
     rbind (register_util_callbacks W en cx) (\<lambda>cx.
     rbind (register_io_callbacks W en env cx) (register_script_callbacks W en env))))"

section \<open>Invocations\<close>

definition eval_in ::
    "'c engine \<Rightarrow> string \<Rightarrow> string \<Rightarrow> ('c, 'w) js_context \<Rightarrow> 'w inv \<Rightarrow> (error + ('c, 'w) js_context) \<times> 'w inv" where
  "eval_in en label source cx i =
     (case run_tree en (cx_callbacks cx) (en_eval en source (cx_state cx)) i of
        (Inl e, _, i1) \<Rightarrow> (Inl (js_error label e), i1)
      | (Inr _, c, i1) \<Rightarrow> (Inr (cx\<lparr>cx_state := c\<rparr>), i1))"

definition setup_context :: "'w js_world \<Rightarrow> 'c engine \<Rightarrow> step_env \<Rightarrow> 'w inv \<Rightarrow> (error + ('c, 'w) js_context) \<times> 'w inv" where
  "setup_context W en env i =
     (case en_new en of
        Inl e \<Rightarrow> (Inl (js_error ''quickjs init'' e), i)
      | Inr c \<Rightarrow>
          (case register_callbacks W en env \<lparr>cx_state = c, cx_callbacks = []\<rparr> of
             Inl e \<Rightarrow> (Inl e, i)
           | Inr cx \<Rightarrow> eval_in en ''quickjs preamble'' (en_preamble en) cx i))"

definition run_script :: "'c engine \<Rightarrow> string \<Rightarrow> ('c, 'w) js_context \<Rightarrow> 'w inv \<Rightarrow> (error + ('c, 'w) js_context) \<times> 'w inv" where
  "run_script en source = eval_in en ''script eval'' source"

definition js_call :: "'c engine \<Rightarrow> string \<Rightarrow> jsval list \<Rightarrow> ('c, 'w) js_context \<Rightarrow> 'w inv \<Rightarrow> (error + jsval) \<times> 'w inv" where
  "js_call en wrapper args cx i =
     (case run_tree en (cx_callbacks cx) (en_call en wrapper args (cx_state cx)) i of
        (Inl e, _, i1) \<Rightarrow> (Inl (js_error (''script entry ('' @ wrapper @ '')'') e), i1)
      | (Inr v, _, i1) \<Rightarrow> (Inr v, i1))"

definition step_js :: "step_env \<Rightarrow> jsval" where
  "step_js env = value_to_js (JObject [(''id'', JString (sm_id (sv_step env))), (''name'', JString (sm_name (sv_step env))),
     (''kind'', JString (sm_kind (sv_step env))), (''type'', JString (sm_type (sv_step env)))])"

definition flow_js :: "step_env \<Rightarrow> jsval" where
  "flow_js env = value_to_js (JObject [(''name'', JString (sv_flow env)), (''version'', JString ''1'')])"

definition state_js :: "'w js_world \<Rightarrow> step_env \<Rightarrow> 'w \<Rightarrow> jsval" where
  "state_js W env w = value_to_js (jw_state W (sm_id (sv_step env)) w)"

definition correlation_js :: "step_env \<Rightarrow> jsval" where
  "correlation_js env = Js_String (sv_correlation env)"

definition call_transform ::
    "'w js_world \<Rightarrow> 'c engine \<Rightarrow> step_env \<Rightarrow> string \<Rightarrow> rec \<Rightarrow> ('c, 'w) js_context \<Rightarrow> 'w inv \<Rightarrow> (error + jsval) \<times> 'w inv" where
  "call_transform W en env entry r cx i =
     js_call en ''__call2''
       [Js_String entry, value_to_js (payload r), step_js env, flow_js env, state_js W env (inv_world i),
        correlation_js env,
        value_to_js (JObject [(''id'', JString (rid r)), (''timestamp'', JString (timestamp r)),
          (''metadata'', JObject (map (\<lambda>(k, v). (k, JString v)) (metadata r)))])] cx i"

definition call_consume ::
    "'w js_world \<Rightarrow> 'c engine \<Rightarrow> step_env \<Rightarrow> string \<Rightarrow> rec \<Rightarrow> ('c, 'w) js_context \<Rightarrow> 'w inv \<Rightarrow> (error + jsval) \<times> 'w inv" where
  "call_consume = call_transform"

definition call_source ::
    "'w js_world \<Rightarrow> 'c engine \<Rightarrow> step_env \<Rightarrow> string \<Rightarrow> ('c, 'w) js_context \<Rightarrow> 'w inv \<Rightarrow> (error + jsval) \<times> 'w inv" where
  "call_source W en env entry cx i =
     js_call en ''__call1''
       [Js_String entry, step_js env, flow_js env, state_js W env (inv_world i), correlation_js env] cx i"

definition invocation :: "'w js_world \<Rightarrow> step_env \<Rightarrow> 'w \<Rightarrow> step_env \<times> 'w inv" where
  "invocation W env w =
     (let (u, w1) = jw_uuid W w in (env\<lparr>sv_correlation := u\<rparr>, \<lparr>inv_emit = [], inv_world = w1\<rparr>))"

section \<open>Outcomes\<close>

definition fresh_record :: "'w js_world \<Rightarrow> json \<Rightarrow> 'w \<Rightarrow> rec \<times> 'w" where
  "fresh_record W v w = (let (u, w1) = jw_uuid W w; (t, w2) = jw_now W w1 in (record_new u t v, w2))"

fun fresh_records :: "'w js_world \<Rightarrow> json list \<Rightarrow> 'w \<Rightarrow> rec list \<times> 'w" where
  "fresh_records W [] w = ([], w)"
| "fresh_records W (v # vs) w =
     (let (r, w1) = fresh_record W v w; (rs, w2) = fresh_records W vs w1 in (r # rs, w2))"

definition outcome_from_js :: "'w js_world \<Rightarrow> jsval \<Rightarrow> 'w \<Rightarrow> outcome \<times> 'w" where
  "outcome_from_js W v w =
     (if v = Js_Undefined \<or> v = Js_Null then (Filtered, w)
      else case js_to_value (jw_order W) v of
        JArray items \<Rightarrow> (let (rs, w1) = fresh_records W items w in (Expand rs, w1))
      | x \<Rightarrow> (let (r, w1) = fresh_record W x w in (Pass r, w1)))"

definition merge_emitted :: "'w js_world \<Rightarrow> json list \<Rightarrow> outcome \<Rightarrow> 'w \<Rightarrow> outcome \<times> 'w" where
  "merge_emitted W emitted oc w =
     (if emitted = [] then (oc, w)
      else
        (let (rs, w1) = fresh_records W emitted w in
         (case oc of
            Expand items \<Rightarrow> Expand (items @ rs)
          | Pass r \<Rightarrow> Expand (r # rs)
          | Filtered \<Rightarrow> Expand rs
          | other \<Rightarrow> other, w1)))"

section \<open>Configuration\<close>

record script_config =
  jc_script :: "string option"
  jc_inline :: "string option"
  jc_entry :: "string option"
  jc_allow :: "string list"
  jc_db :: "string option"

definition script_spec :: struct_spec where
  "script_spec = [(''script'', False, chk_opt (chk is_string)), (''inline'', False, chk_opt (chk is_string)),
     (''entry'', False, chk_opt (chk is_string)), (''allow'', False, chk_list (chk is_string)),
     (''db'', False, chk_opt (chk is_string))]"

definition script_config_of :: "json imap \<Rightarrow> script_config" where
  "script_config_of m =
     \<lparr>jc_script = opt_field str_of m ''script'', jc_inline = opt_field str_of m ''inline'',
      jc_entry = opt_field str_of m ''entry'', jc_allow = req_field (list_of str_of) m ''allow'',
      jc_db = opt_field str_of m ''db''\<rparr>"

definition load_source :: "(string \<Rightarrow> string + string) \<Rightarrow> script_config \<Rightarrow> string \<Rightarrow> error + string" where
  "load_source read cfg what =
     (case (jc_script cfg, jc_inline cfg) of
        (Some path, None) \<Rightarrow>
          (case read path of
             Inl e \<Rightarrow> Inl (Err_Config (C_text (what @ '': cannot read script '' @ squote path @ '': '' @ e)))
           | Inr text \<Rightarrow> Inr text)
      | (None, Some code) \<Rightarrow> Inr code
      | (None, None) \<Rightarrow> Inl (Err_Config (C_text (what @ '': needs a '' @ squote ''script'' @ '' file or '' @ squote ''inline'' @ '' code'')))
      | (Some _, Some _) \<Rightarrow>
          Inl (Err_Config (C_text (what @ '': '' @ squote ''script'' @ '' and '' @ squote ''inline'' @ '' are mutually exclusive''))))"

definition script_dir :: "string \<Rightarrow> string option" where
  "script_dir p = (if strip_slashes p = [] then None else Some (path_parent p))"

definition step_env_of :: "script_config \<Rightarrow> build_context \<Rightarrow> step_env" where
  "step_env_of cfg ctx =
     (let step = (case b_step ctx of Some s \<Rightarrow> s | None \<Rightarrow> \<lparr>sm_id = [], sm_name = [], sm_kind = [], sm_type = []\<rparr>) in
      \<lparr>sv_name = (if sm_name step = [] then ''script'' else sm_name step),
       sv_script_dir = Option.bind (jc_script cfg) script_dir, sv_vars = b_vars ctx, sv_flow = b_flow ctx, sv_step = step,
       sv_bus = b_bus ctx, sv_permissions = jc_allow cfg, sv_db = jc_db cfg, sv_correlation = []\<rparr>)"

section \<open>Steps\<close>

record script_step =
  sc_source :: string
  sc_entry :: string
  sc_env :: step_env

text \<open>An invocation up to its result: a fresh context, the script evaluated in it, its entry called.\<close>

definition script_call ::
    "'w js_world \<Rightarrow> 'c engine \<Rightarrow> script_step \<Rightarrow>
     (step_env \<Rightarrow> ('c, 'w) js_context \<Rightarrow> 'w inv \<Rightarrow> (error + jsval) \<times> 'w inv) \<Rightarrow> 'w \<Rightarrow> (error + jsval) \<times> 'w inv" where
  "script_call W en st entry w =
     (let (env, i) = invocation W (sc_env st) w in
      case setup_context W en env i of
        (Inl e, i) \<Rightarrow> (Inl e, i)
      | (Inr cx, i) \<Rightarrow>
          (case run_script en (sc_source st) cx i of
             (Inl e, i) \<Rightarrow> (Inl e, i)
           | (Inr cx, i) \<Rightarrow> entry env cx i))"

definition script_outcome :: "'w js_world \<Rightarrow> (error + jsval) \<times> 'w inv \<Rightarrow> (error + outcome) \<times> 'w" where
  "script_outcome W ri =
     (case ri of
        (Inl e, i) \<Rightarrow> (Inl e, inv_world i)
      | (Inr v, i) \<Rightarrow>
          (let (oc, w1) = outcome_from_js W v (inv_world i); (oc, w2) = merge_emitted W (inv_emit i) oc w1
           in (Inr oc, w2)))"

definition script_transform :: "'w js_world \<Rightarrow> 'c engine \<Rightarrow> script_step \<Rightarrow> 'w transform" where
  "script_transform W en st r w =
     script_outcome W (script_call W en st (\<lambda>env. call_transform W en env (sc_entry st) r) w)"

definition records_from_outcome :: "outcome \<Rightarrow> error + rec list" where
  "records_from_outcome oc =
     (case oc of Pass r \<Rightarrow> Inr [r] | Expand rs \<Rightarrow> Inr rs | Filtered \<Rightarrow> Inr [] | Fail e \<Rightarrow> Inl e)"

definition script_source :: "'w js_world \<Rightarrow> 'c engine \<Rightarrow> script_step \<Rightarrow> 'w source" where
  "script_source W en st w =
     (case script_outcome W (script_call W en st (\<lambda>env. call_source W en env (sc_entry st)) w) of
        (Inl e, w1) \<Rightarrow> (Inl e, w1)
      | (Inr oc, w1) \<Rightarrow> (rbind (records_from_outcome oc) (\<lambda>rs. Inr (map Inr rs)), w1))"

definition script_sink :: "'w js_world \<Rightarrow> 'c engine \<Rightarrow> script_step \<Rightarrow> 'w sink" where
  "script_sink W en st =
     \<lparr>k_send = (\<lambda>r w.
        (case script_call W en st (\<lambda>env. call_consume W en env (sc_entry st) r) w of
           (res, i) \<Rightarrow> (rbind res (\<lambda>_. Inr ()), inv_world i))),
      k_flush = (\<lambda>w. (Inr (), w))\<rparr>"

definition script_step_of :: "(string \<Rightarrow> string + string) \<Rightarrow> string \<Rightarrow> string \<Rightarrow> json \<Rightarrow> build_context \<Rightarrow> error + script_step" where
  "script_step_of read what entry config ctx =
     rbind (parse_config what script_spec config) (\<lambda>m.
     let cfg = script_config_of m in
     rbind (load_source read cfg what) (\<lambda>source.
     Inr \<lparr>sc_source = source, sc_entry = (case jc_entry cfg of Some e \<Rightarrow> e | None \<Rightarrow> entry),
       sc_env = step_env_of cfg ctx\<rparr>))"

definition build_script_transform :: "(string \<Rightarrow> string + string) \<Rightarrow> 'w js_world \<Rightarrow> 'c engine \<Rightarrow> 'w factory" where
  "build_script_transform read W en config ctx =
     rbind (script_step_of read ''script step'' ''transform'' config ctx) (\<lambda>st. Inr (BTransform (script_transform W en st)))"

definition build_script_source :: "(string \<Rightarrow> string + string) \<Rightarrow> 'w js_world \<Rightarrow> 'c engine \<Rightarrow> 'w factory" where
  "build_script_source read W en config ctx =
     rbind (script_step_of read ''script source'' ''generate'' config ctx) (\<lambda>st. Inr (BSource (script_source W en st)))"

definition build_script_sink :: "(string \<Rightarrow> string + string) \<Rightarrow> 'w js_world \<Rightarrow> 'c engine \<Rightarrow> 'w factory" where
  "build_script_sink read W en config ctx =
     rbind (script_step_of read ''script sink'' ''consume'' config ctx) (\<lambda>st. Inr (BSink (script_sink W en st)))"

definition register_script_steps :: "(string \<Rightarrow> string + string) \<Rightarrow> 'w js_world \<Rightarrow> 'c engine \<Rightarrow> 'w registry \<Rightarrow> 'w registry" where
  "register_script_steps read W en reg =
     register KSink ''script'' (build_script_sink read W en)
       (register KSource ''script'' (build_script_source read W en)
         (register KTransform ''script'' (build_script_transform read W en) reg))"

end
