(* ===== verification/Js_Props.thy ===== *)
theory Js_Props
  imports Js_Script
begin

text \<open>
  What holds of every script, whatever it does: it cannot use an operation its step was not granted,
  and the records that leave its step are those it returned followed by those it emitted.
\<close>

section \<open>Permissions\<close>

definition granted :: "string list \<Rightarrow> string \<Rightarrow> bool" where
  "granted perms p \<longleftrightarrow> p \<in> set perms \<or> perm_all \<in> set perms"

lemma require_permission_iff: "require_permission env p = Inr () \<longleftrightarrow> granted (sv_permissions env) p"
  by (auto simp: require_permission_def granted_def list_ex_iff)

lemma not_granted: "\<not> granted (sv_permissions env) p \<Longrightarrow> \<exists>e. require_permission env p = Inl e"
  using require_permission_iff [of env p] by (cases "require_permission env p") auto

text \<open>Two worlds that differ at most in the operations that are not granted.\<close>

definition same_granted :: "string list \<Rightarrow> 'w js_world \<Rightarrow> 'w js_world \<Rightarrow> bool" where
  "same_granted perms W V \<longleftrightarrow>
     (\<exists>wr ht d pu. V = W\<lparr>jw_write := wr, jw_http := ht, jw_db := d, jw_publish := pu\<rparr>) \<and>
     (granted perms perm_file_write \<longrightarrow> jw_write V = jw_write W) \<and>
     (granted perms perm_http \<longrightarrow> jw_http V = jw_http W) \<and>
     (granted perms perm_db \<longrightarrow> jw_db V = jw_db W) \<and>
     (granted perms perm_notify \<longrightarrow> jw_publish V = jw_publish W)"

lemma same_granted_fields:
  assumes "same_granted perms W V"
  shows "jw_log V = jw_log W" "jw_env V = jw_env W" "jw_now V = jw_now W" "jw_uuid V = jw_uuid W"
    "jw_sleep V = jw_sleep W" "jw_is_file V = jw_is_file W" "jw_read V = jw_read W" "jw_state V = jw_state W"
    "jw_set_state V = jw_set_state W" "jw_print V = jw_print W" "jw_parse V = jw_parse W" "jw_order V = jw_order W"
  using assms by (auto simp: same_granted_def)

lemma same_host_reads:
  assumes "same_granted perms W V"
  shows "host_log V env = host_log W env" "host_env V = host_env W" "host_now V = host_now W"
    "host_uuid V = host_uuid W" "host_sleep V = host_sleep W" "host_file_read V = host_file_read W"
    "host_require_source V env = host_require_source W env" "host_emit V = host_emit W"
    "host_state_sync V env = host_state_sync W env" "host_checkpoint V = host_checkpoint W"
  unfolding fun_eq_iff host_log_def host_env_def host_now_def host_uuid_def host_sleep_def host_file_read_def
    host_require_source_def host_emit_def host_state_sync_def host_checkpoint_def resolve_module_def
    same_granted_fields [OF assms]
  by simp_all

lemma same_host_file_write:
  assumes "same_granted (sv_permissions env) W V"
  shows "host_file_write V env = host_file_write W env"
proof (cases "granted (sv_permissions env) perm_file_write")
  case True
  then have h: "jw_write V = jw_write W" using assms by (simp add: same_granted_def)
  show ?thesis unfolding fun_eq_iff host_file_write_def h by simp
qed (use not_granted [of env perm_file_write] in \<open>auto simp: fun_eq_iff host_file_write_def\<close>)

lemma same_host_notify:
  assumes "same_granted (sv_permissions env) W V"
  shows "host_notify V env = host_notify W env"
proof (cases "granted (sv_permissions env) perm_notify")
  case True
  then have h: "jw_publish V = jw_publish W" using assms by (simp add: same_granted_def)
  show ?thesis unfolding fun_eq_iff host_notify_def h same_granted_fields [OF assms] by simp
qed (use not_granted [of env perm_notify] in \<open>auto simp: fun_eq_iff host_notify_def\<close>)

lemma same_http_parts:
  assumes "same_granted perms W V"
  shows "parse_http_opts V = parse_http_opts W" "response_to_js V = response_to_js W"
  unfolding fun_eq_iff parse_http_opts_def parse_http_headers_def response_to_js_def same_granted_fields [OF assms]
  by simp_all

lemma same_host_http:
  assumes "same_granted (sv_permissions env) W V"
  shows "host_http_request V env = host_http_request W env"
proof (cases "granted (sv_permissions env) perm_http")
  case True
  then have h: "jw_http V = jw_http W" using assms by (simp add: same_granted_def)
  have b: "http_blocking V = http_blocking W"
    unfolding fun_eq_iff http_blocking_def same_http_parts [OF assms] h by simp
  show ?thesis
    unfolding fun_eq_iff host_http_request_def same_http_parts [OF assms] same_granted_fields [OF assms] b by simp
qed (use not_granted [of env perm_http] in \<open>auto simp: fun_eq_iff host_http_request_def rbind_def\<close>)

lemma same_sql_params:
  assumes "same_granted perms W V"
  shows "sql_params V = sql_params W"
proof -
  have h: "sql_param V = sql_param W"
  proof
    fix v show "sql_param V v = sql_param W v" by (cases v) (simp_all add: same_granted_fields [OF assms])
  qed
  show ?thesis unfolding fun_eq_iff sql_params_def h by simp
qed

lemma same_host_db:
  assumes "same_granted (sv_permissions env) W V"
  shows "host_db_query V env = host_db_query W env"
proof (cases "granted (sv_permissions env) perm_db")
  case True
  then have h: "jw_db V = jw_db W" using assms by (simp add: same_granted_def)
  show ?thesis
    unfolding fun_eq_iff host_db_query_def h same_granted_fields [OF assms] same_sql_params [OF assms] by simp
qed (use not_granted [of env perm_db] in \<open>auto simp: fun_eq_iff host_db_query_def rbind_def\<close>)

lemma same_callbacks:
  assumes "same_granted (sv_permissions env) W V"
  shows "register_callbacks V en env = register_callbacks W en env"
  unfolding fun_eq_iff register_callbacks_def register_log_callback_def register_meta_callbacks_def
    register_util_callbacks_def register_io_callbacks_def register_notify_callback_def register_file_callbacks_def
    register_http_callback_def register_db_callback_def register_script_callbacks_def register_state_callbacks_def
    same_host_reads [OF assms] same_host_file_write [OF assms] same_host_notify [OF assms] same_host_http [OF assms]
    same_host_db [OF assms] same_granted_fields [OF assms]
  by simp

lemma same_fresh:
  assumes "same_granted perms W V"
  shows "fresh_record V = fresh_record W" "fresh_records V = fresh_records W"
proof -
  show r: "fresh_record V = fresh_record W"
    unfolding fun_eq_iff fresh_record_def same_granted_fields [OF assms] by simp
  have "fresh_records V vs w = fresh_records W vs w" for vs w by (induction vs arbitrary: w) (simp_all add: r)
  then show "fresh_records V = fresh_records W" by blast
qed

lemma same_outcome:
  assumes "same_granted perms W V"
  shows "script_outcome V = script_outcome W"
  unfolding fun_eq_iff script_outcome_def outcome_from_js_def merge_emitted_def same_fresh [OF assms]
    same_granted_fields [OF assms]
  by simp

lemma same_setup:
  assumes "same_granted (sv_permissions env) W V"
  shows "setup_context V en env = setup_context W en env"
  unfolding fun_eq_iff setup_context_def same_callbacks [OF assms] by simp

lemma same_script_call:
  assumes "same_granted (sv_permissions (sc_env st)) W V"
  shows "script_call V en st entry w = script_call W en st entry w"
proof -
  obtain env i where i: "invocation W (sc_env st) w = (env, i)" by fastforce
  have "invocation V (sc_env st) w = (env, i)"
    using i unfolding invocation_def same_granted_fields [OF assms] .
  moreover have "sv_permissions env = sv_permissions (sc_env st)"
    using i by (auto simp: invocation_def split: prod.splits)
  ultimately show ?thesis using i same_setup [of env W V en] assms by (simp add: script_call_def)
qed

text \<open>
  C18. Scripts are confined to their permissions.  Replace the operations a script step is not granted
  (writing files, HTTP requests, database queries, publishing) by any others: the step behaves exactly as
  before, result, effects and all, as a transform, as a source and as a sink.
\<close>

theorem script_needs_permission:
  assumes "same_granted (sv_permissions (sc_env st)) W V"
  shows "script_transform V en st r w = script_transform W en st r w \<and>
    script_source V en st w = script_source W en st w \<and>
    k_send (script_sink V en st) r w = k_send (script_sink W en st) r w"
proof -
  have c: "call_transform V = call_transform W" "call_consume V = call_consume W" "call_source V = call_source W"
    unfolding fun_eq_iff call_consume_def call_transform_def call_source_def state_js_def same_granted_fields [OF assms]
    by simp_all
  show ?thesis
    unfolding script_transform_def script_source_def script_sink_def same_outcome [OF assms] c
      same_script_call [OF assms]
    by (simp add: same_script_call [OF assms])
qed

text \<open>
  One world and one engine.  The world counts the identifiers it has given out; the engine's contexts are
  the text evaluated last, and a script is called by writing its text to a file and emitting it.
\<close>

definition demo_world :: "nat js_world" where
  "demo_world =
     \<lparr>jw_log = (\<lambda>_ _ w. w), jw_env = (\<lambda>_ _. None), jw_now = (\<lambda>w. (''now'', w)),
      jw_uuid = (\<lambda>w. (decimal w, Suc w)), jw_sleep = (\<lambda>_ w. w), jw_publish = (\<lambda>_ _ _ w. (Inr (), w)),
      jw_is_file = (\<lambda>_ _. False), jw_read = (\<lambda>_ _. Inl ''no such file''), jw_write = (\<lambda>_ _ w. (Inr (), w)),
      jw_http = (\<lambda>_ w. (Http_Fails ''offline'', w)),
      jw_db = \<lparr>db_open = (\<lambda>_ w. (Inl ''no database'', w)), db_prepare = (\<lambda>_ _ _. Inr ()),
        db_rows = (\<lambda>_ _ _ w. (Inr [], w)), db_execute = (\<lambda>_ _ _ w. (Inr (), w))\<rparr>,
      jw_state = (\<lambda>_ _. JObject []), jw_set_state = (\<lambda>_ _ w. w), jw_print = (\<lambda>_. ''?''),
      jw_parse = (\<lambda>_. None), jw_order = id\<rparr>"

definition demo_engine :: "string engine" where
  "demo_engine =
     \<lparr>en_new = Inr [], en_add = (\<lambda>_ c. Inr c), en_eval = (\<lambda>source _. Finished (Inr Js_Undefined) source),
      en_call = (\<lambda>wrapper args c. Asks ''__emit'' [Js_String c] (\<lambda>_.
        Asks ''__file_write'' [Js_String ''out'', Js_String c] (\<lambda>reply. Finished
          (case reply of Inl e \<Rightarrow> Inr (Js_String e) | Inr _ \<Rightarrow> Inr (Js_Array [args ! 1])) c))),
      en_number = (\<lambda>_. None), en_refuses = (\<lambda>_ _. ''wrong arguments''), en_preamble = []\<rparr>"

definition demo_script :: "string list \<Rightarrow> script_step" where
  "demo_script allowed =
     \<lparr>sc_source = ''text'', sc_entry = ''transform'',
      sc_env = \<lparr>sv_name = ''s'', sv_script_dir = None, sv_vars = [], sv_flow = ''f'',
        sv_step = \<lparr>sm_id = ''s'', sm_name = ''s'', sm_kind = ''transform'', sm_type = ''script''\<rparr>,
        sv_bus = None, sv_permissions = allowed, sv_db = None, sv_correlation = []\<rparr>\<rparr>"

theorem script_needs_permission_witness:
  "\<forall>r w. script_transform (demo_world\<lparr>jw_write := (\<lambda>_ _ w. (Inr (), 1000))\<rparr>) demo_engine (demo_script [''db'']) r w =
   script_transform demo_world demo_engine (demo_script [''db'']) r w"
proof -
  have "same_granted (sv_permissions (sc_env (demo_script [''db'']))) demo_world
      (demo_world\<lparr>jw_write := (\<lambda>_ _ w. (Inr (), 1000))\<rparr>)"
    unfolding same_granted_def
  proof (intro conjI)
    show "\<exists>wr ht d pu. demo_world\<lparr>jw_write := (\<lambda>_ _ w. (Inr (), 1000))\<rparr> =
        demo_world\<lparr>jw_write := wr, jw_http := ht, jw_db := d, jw_publish := pu\<rparr>"
      by (rule exI [of _ "\<lambda>_ _ w. (Inr (), 1000)"], rule exI [of _ "jw_http demo_world"],
          rule exI [of _ "jw_db demo_world"], rule exI [of _ "jw_publish demo_world"]) simp
  qed (simp_all add: demo_script_def granted_def perm_file_write_def perm_all_def)
  from script_needs_permission [OF this] show ?thesis by blast
qed

section \<open>Results\<close>

definition script_values :: "entry_order \<Rightarrow> jsval \<Rightarrow> json list" where
  "script_values ord v =
     (if v = Js_Undefined \<or> v = Js_Null then [] else case js_to_value ord v of JArray vs \<Rightarrow> vs | x \<Rightarrow> [x])"

definition fresh_with :: "json list \<Rightarrow> rec list \<Rightarrow> bool" where
  "fresh_with vs rs \<longleftrightarrow> map payload rs = vs \<and> list_all (\<lambda>r. metadata r = []) rs"

lemma fresh_records_with: "fresh_records W vs w = (rs, w') \<Longrightarrow> fresh_with vs rs"
  by (induction vs arbitrary: w rs)
    (auto simp: fresh_with_def fresh_record_def record_new_def split_beta Let_def)

lemma fresh_record_with: "fresh_record W v w = (r, w') \<Longrightarrow> fresh_with [v] [r]"
  by (auto simp: fresh_with_def fresh_record_def record_new_def split_beta Let_def)

lemma fresh_with_append: "fresh_with vs rs \<Longrightarrow> fresh_with us qs \<Longrightarrow> fresh_with (vs @ us) (rs @ qs)"
  by (simp add: fresh_with_def)

lemma outcome_from_js_values:
  assumes "outcome_from_js W v w = (oc, w')"
  shows "\<exists>rs. records_from_outcome oc = Inr rs \<and> fresh_with (script_values (jw_order W) v) rs"
  using assms fresh_records_with fresh_record_with
  by (fastforce simp: outcome_from_js_def script_values_def records_from_outcome_def fresh_with_def Let_def
      split: if_splits json.splits prod.splits)

lemma merge_emitted_values:
  assumes "merge_emitted W emitted oc w = (oc', w')" "records_from_outcome oc = Inr rs" "fresh_with vs rs"
  shows "\<exists>rs'. records_from_outcome oc' = Inr rs' \<and> fresh_with (vs @ emitted) rs'"
proof (cases "emitted = []")
  case False
  obtain qs w1 where q: "fresh_records W emitted w = (qs, w1)" by fastforce
  have "records_from_outcome oc' = Inr (rs @ qs)"
    using assms(1,2) False q by (cases oc) (auto simp: merge_emitted_def records_from_outcome_def)
  then show ?thesis using fresh_with_append [OF assms(3) fresh_records_with [OF q]] by blast
qed (use assms in \<open>auto simp: merge_emitted_def\<close>)

text \<open>
  C24. What leaves a script step.  When the script fails, its error is the step's and nothing it emitted
  leaves the step; when it returns, the records that leave are, in this order, the value it returned (none
  for null and undefined, one for each element of an array, one otherwise) and the values it emitted,
  every one of them a new record without the metadata of the record that came in.
\<close>

theorem script_payloads:
  "case script_call W en st (\<lambda>env. call_transform W en env (sc_entry st) r) w of
     (Inl e, i) \<Rightarrow> script_transform W en st r w = (Inl e, inv_world i)
   | (Inr v, i) \<Rightarrow>
       (\<exists>oc w' rs. script_transform W en st r w = (Inr oc, w') \<and> records_from_outcome oc = Inr rs \<and>
          map payload rs = script_values (jw_order W) v @ inv_emit i \<and> list_all (\<lambda>x. metadata x = []) rs)"
proof (cases "script_call W en st (\<lambda>env. call_transform W en env (sc_entry st) r) w" rule: prod.exhaust)
  case (Pair res i)
  show ?thesis
  proof (cases res)
    case (Inr v)
    obtain oc w1 where o: "outcome_from_js W v (inv_world i) = (oc, w1)" by fastforce
    obtain oc' w2 where m: "merge_emitted W (inv_emit i) oc w1 = (oc', w2)" by fastforce
    from outcome_from_js_values [OF o] merge_emitted_values [OF m] obtain rs where
      "records_from_outcome oc' = Inr rs" "fresh_with (script_values (jw_order W) v @ inv_emit i) rs" by blast
    then show ?thesis using Pair Inr o m by (simp add: script_transform_def script_outcome_def fresh_with_def)
  qed (use Pair in \<open>simp add: script_transform_def script_outcome_def\<close>)
qed

theorem script_payloads_witness:
  "\<exists>oc w' rs. script_transform demo_world demo_engine (demo_script [''all'']) (record_new ''i'' ''t'' (JBool True)) 0 = (Inr oc, w') \<and>
     records_from_outcome oc = Inr rs \<and> map payload rs = [JBool True, JString ''text'']"
proof -
  have "script_call demo_world demo_engine (demo_script [''all''])
      (\<lambda>env. call_transform demo_world demo_engine env ''transform'' (record_new ''i'' ''t'' (JBool True))) 0
    = (Inr (Js_Array [Js_Bool True]), \<lparr>inv_emit = [JString ''text''], inv_world = 1\<rparr>)"
    by code_simp
  then show ?thesis
    using script_payloads [of demo_world demo_engine "demo_script [''all'']" "record_new ''i'' ''t'' (JBool True)" 0]
    by (auto simp: demo_script_def script_values_def demo_world_def)
qed

end
