(* ===== verification/Io_Db.thy ===== *)
theory Io_Db
  imports Sql_Values File_Steps
begin

text \<open>
  The database source and sink (\<^verbatim>\<open>sohara-io/src/db.rs\<close>).  The database is the parameter \<open>'w db\<close>, the
  JSON printer an argument; the sink's buffer belongs to its step, as in \<open>Builtins\<close>.
\<close>

section \<open>Source\<close>

definition db_error :: "string \<Rightarrow> string \<Rightarrow> error" where
  "db_error what e = Err_Config (C_text (''db '' @ what @ '': '' @ e))"

definition row_to_record :: "sql_row \<Rightarrow> json" where
  "row_to_record row = row_json row"

definition query_records :: "'w db \<Rightarrow> string \<Rightarrow> string \<Rightarrow> 'w \<Rightarrow> (error + json list) \<times> 'w" where
  "query_records db path query w =
     (case db_open db path w of
        (Inl e, w) \<Rightarrow> (Inl (db_error ''open failed'' e), w)
      | (Inr _, w) \<Rightarrow>
          (case db_prepare db path query w of
             Inl e \<Rightarrow> (Inl (db_error ''query failed'' e), w)
           | Inr _ \<Rightarrow>
               (case db_rows db path query [] w of
                  (Inl e, w) \<Rightarrow> (Inl (db_error ''query failed'' e), w)
                | (Inr rows, w) \<Rightarrow>
                    (case collect_res rows of
                       Inl e \<Rightarrow> (Inl (db_error ''row error'' e), w)
                     | Inr rs \<Rightarrow> (Inr (map row_to_record rs), w)))))"

definition db_source_spec :: struct_spec where
  "db_source_spec = [(''path'', True, chk is_string), (''query'', True, chk is_string)]"

definition db_source :: "'w db \<Rightarrow> 'w io \<Rightarrow> string \<Rightarrow> string \<Rightarrow> 'w source" where
  "db_source db io path query w =
     (case query_records db path query w of
        (Inl e, w) \<Rightarrow> (Inl e, w)
      | (Inr vs, w) \<Rightarrow> (let (rs, w) = io_records io vs w in vec_source rs w))"

definition build_db_source :: "'w db \<Rightarrow> 'w io \<Rightarrow> 'w factory" where
  "build_db_source db io config ctx =
     rbind (parse_config ''db source'' db_source_spec config) (\<lambda>cfg.
     Inr (BSource (db_source db io (req_field str_of cfg ''path'') (req_field str_of cfg ''query''))))"

section \<open>Sink\<close>

fun json_text :: "(json \<Rightarrow> string) \<Rightarrow> json \<Rightarrow> string" where
  "json_text print (JString s) = s"
| "json_text print JNull = []"
| "json_text print (JBool b) = (if b then ''true'' else ''false'')"
| "json_text print v = print v"

fun joined :: "string \<Rightarrow> string list \<Rightarrow> string" where
  "joined sep [] = []"
| "joined sep [s] = s"
| "joined sep (s # ss) = s @ sep @ joined sep ss"

definition first_object_keys :: "json \<Rightarrow> error + string list" where
  "first_object_keys v =
     (case v of JObject m \<Rightarrow> Inr (im_keys m) | _ \<Rightarrow> Inl (Err_Config (C_text ''db sink requires object records'')))"

definition create_sql :: "string \<Rightarrow> string list \<Rightarrow> string" where
  "create_sql table columns =
     ''CREATE TABLE IF NOT EXISTS '' @ table @ '' ('' @ joined '', '' (map (\<lambda>c. c @ '' TEXT'') columns) @ '')''"

definition create_table :: "'w db \<Rightarrow> string \<Rightarrow> string \<Rightarrow> string list \<Rightarrow> 'w \<Rightarrow> (error + unit) \<times> 'w" where
  "create_table db path table columns w =
     (case db_execute db path (create_sql table columns) [] w of
        (Inl e, w) \<Rightarrow> (Inl (db_error ''create table failed'' e), w)
      | (Inr _, w) \<Rightarrow> (Inr (), w))"

definition insert_sql :: "string \<Rightarrow> string list \<Rightarrow> string" where
  "insert_sql table columns =
     ''INSERT INTO '' @ table @ '' ('' @ joined '', '' columns @ '') VALUES ('' @ joined '', '' (map (\<lambda>_. ''?'') columns) @ '')''"

definition row_params :: "(json \<Rightarrow> string) \<Rightarrow> string list \<Rightarrow> json imap \<Rightarrow> string list" where
  "row_params print columns m =
     map (\<lambda>c. case im_get m c of Some v \<Rightarrow> json_text print v | None \<Rightarrow> []) columns"

definition insert_row ::
    "'w db \<Rightarrow> (json \<Rightarrow> string) \<Rightarrow> string \<Rightarrow> string \<Rightarrow> string list \<Rightarrow> json \<Rightarrow> 'w \<Rightarrow> (error + unit) \<times> 'w" where
  "insert_row db print path ins columns v w =
     (case v of
        JObject m \<Rightarrow>
          (case db_execute db path ins (row_params print columns m) w of
             (Inl e, w) \<Rightarrow> (Inl (db_error ''insert failed'' e), w)
           | (Inr _, w) \<Rightarrow> (Inr (), w))
      | _ \<Rightarrow> (Inr (), w))"

fun insert_rows ::
    "'w db \<Rightarrow> (json \<Rightarrow> string) \<Rightarrow> string \<Rightarrow> string \<Rightarrow> string list \<Rightarrow> json list \<Rightarrow> 'w \<Rightarrow> (error + unit) \<times> 'w" where
  "insert_rows db print path ins columns [] w = (Inr (), w)"
| "insert_rows db print path ins columns (v # vs) w =
     (case insert_row db print path ins columns v w of
        (Inl e, w) \<Rightarrow> (Inl e, w)
      | (Inr _, w) \<Rightarrow> insert_rows db print path ins columns vs w)"

text \<open>The records are never empty here: \<open>records[0]\<close> exists.\<close>

definition insert_records :: "'w db \<Rightarrow> (json \<Rightarrow> string) \<Rightarrow> string \<Rightarrow> string \<Rightarrow> rec list \<Rightarrow> 'w \<Rightarrow> (error + unit) \<times> 'w" where
  "insert_records db print path table rs w =
     (case db_open db path w of
        (Inl e, w) \<Rightarrow> (Inl (db_error ''open failed'' e), w)
      | (Inr _, w) \<Rightarrow>
          (case first_object_keys (payload (hd rs)) of
             Inl e \<Rightarrow> (Inl e, w)
           | Inr columns \<Rightarrow>
               (case create_table db path table columns w of
                  (Inl e, w) \<Rightarrow> (Inl e, w)
                | (Inr _, w) \<Rightarrow>
                    insert_rows db print path (insert_sql table columns) columns (map payload rs) w)))"

definition db_flush :: "'w db \<Rightarrow> 'w io \<Rightarrow> (json \<Rightarrow> string) \<Rightarrow> string \<Rightarrow> string \<Rightarrow> string \<Rightarrow> 'w \<Rightarrow> (error + unit) \<times> 'w" where
  "db_flush db io print i path table w =
     (let rs = io_buffer io i w; w = io_set_buffer io i [] w in
      if rs = [] then (Inr (), w) else insert_records db print path table rs w)"

definition db_sink_spec :: struct_spec where
  "db_sink_spec = [(''path'', True, chk is_string), (''table'', True, chk is_string)]"

definition db_sink :: "'w db \<Rightarrow> 'w io \<Rightarrow> (json \<Rightarrow> string) \<Rightarrow> string \<Rightarrow> string \<Rightarrow> string \<Rightarrow> 'w sink" where
  "db_sink db io print i path table =
     \<lparr>k_send = (\<lambda>r w. (Inr (), io_set_buffer io i (io_buffer io i w @ [r]) w)),
      k_flush = db_flush db io print i path table\<rparr>"

definition build_db_sink :: "'w db \<Rightarrow> 'w io \<Rightarrow> (json \<Rightarrow> string) \<Rightarrow> 'w factory" where
  "build_db_sink db io print config ctx =
     rbind (parse_config ''db sink'' db_sink_spec config) (\<lambda>cfg.
     Inr (BSink (db_sink db io print (step_name ctx) (req_field str_of cfg ''path'') (req_field str_of cfg ''table''))))"

section \<open>What a flush executes\<close>

text \<open>
  The statements of a flush: the table with the columns of the first record, then one insertion for each
  record that is an object, with a text for each of these columns.
\<close>

definition flush_statements :: "(json \<Rightarrow> string) \<Rightarrow> string \<Rightarrow> string list \<Rightarrow> json list \<Rightarrow> (string \<times> string list) list" where
  "flush_statements print table columns vs =
     (create_sql table columns, []) #
     map (\<lambda>m. (insert_sql table columns, row_params print columns m)) (List.map_filter as_object vs)"

text \<open>Execution up to the first statement that fails, with the number of statements that succeeded.\<close>

fun run_statements :: "'w db \<Rightarrow> string \<Rightarrow> (string \<times> string list) list \<Rightarrow> 'w \<Rightarrow> nat \<times> 'w" where
  "run_statements db path [] w = (0, w)"
| "run_statements db path ((sql, ps) # stmts) w =
     (case db_execute db path sql ps w of
        (Inl _, w) \<Rightarrow> (0, w)
      | (Inr _, w) \<Rightarrow> (let (n, w) = run_statements db path stmts w in (Suc n, w)))"

lemma run_statements_le: "fst (run_statements db path stmts w) \<le> length stmts"
  by (induction db path stmts w rule: run_statements.induct) (auto split: prod.splits sum.splits)

lemma insert_rows_statements:
  assumes "insert_rows db print path ins columns vs w = (res, w')"
  shows "\<exists>n. run_statements db path (map (\<lambda>m. (ins, row_params print columns m)) (List.map_filter as_object vs)) w = (n, w') \<and>
    (res = Inr () \<longleftrightarrow> n = length (List.map_filter as_object vs))"
  using assms
proof (induction vs arbitrary: w)
  case (Cons v vs)
  show ?case
  proof (cases "as_object v")
    case None
    then have "insert_row db print path ins columns v w = (Inr (), w)" by (cases v) (simp_all add: insert_row_def)
    then show ?thesis using Cons None by (simp add: map_filter_simps)
  next
    case (Some m)
    then have v: "v = JObject m" by (cases v) simp_all
    obtain r w1 where x: "db_execute db path ins (row_params print columns m) w = (r, w1)" by fastforce
    show ?thesis
    proof (cases r)
      case (Inl e)
      then show ?thesis using Cons.prems v x by (auto simp: insert_row_def map_filter_simps)
    next
      case (Inr u)
      then have "insert_rows db print path ins columns vs w1 = (res, w')"
        using Cons.prems v x by (simp add: insert_row_def)
      with Cons.IH [of w1] show ?thesis using v x Inr by (auto simp: map_filter_simps)
    qed
  qed
qed (simp add: map_filter_simps)

text \<open>
  C25. What a flush of the database sink does.  The buffer is emptied first, whatever happens; then exactly
  the statements above run in order up to the first that fails, with none of them rolled back, and the flush
  succeeds exactly when all of them did.  So a failure loses the whole buffer but keeps
  the rows inserted before it, records that are no objects are dropped in silence, and the columns are
  those of the first record alone.
\<close>

theorem db_flush_exact:
  assumes "io_buffer io i w = r # rs" "payload r = JObject m"
    "db_open db path (io_set_buffer io i [] w) = (Inr (), w1)"
    "db_flush db io print i path table w = (res, w')"
  shows "let stmts = flush_statements print table (im_keys m) (map payload (r # rs))
    in \<exists>n. run_statements db path stmts w1 = (n, w') \<and> (res = Inr () \<longleftrightarrow> n = length stmts)"
proof -
  let ?cols = "im_keys m" and ?vs = "map payload (r # rs)"
  obtain x w2 where x: "db_execute db path (create_sql table ?cols) [] w1 = (x, w2)" by fastforce
  show ?thesis
  proof (cases x)
    case (Inl e)
    then show ?thesis using assms x
      by (auto simp: db_flush_def insert_records_def first_object_keys_def create_table_def flush_statements_def Let_def)
  next
    case (Inr u)
    then have "insert_rows db print path (insert_sql table ?cols) ?cols ?vs w2 = (res, w')"
      using assms x by (simp add: db_flush_def insert_records_def first_object_keys_def create_table_def Let_def)
    from insert_rows_statements [OF this] show ?thesis using x Inr by (auto simp: flush_statements_def Let_def)
  qed
qed

text \<open>A database that logs its statements and refuses a row with an empty cell; the buffer beside it.\<close>

type_synonym db_world = "rec list \<times> (string \<times> string list) list"

definition demo_db :: "db_world db" where
  "demo_db =
     \<lparr>db_open = (\<lambda>_ w. (Inr (), w)), db_prepare = (\<lambda>_ _ _. Inr ()), db_rows = (\<lambda>_ _ _ w. (Inr [], w)),
      db_execute = (\<lambda>_ sql ps w. if list_ex (\<lambda>p. p = []) ps then (Inl ''NOT NULL constraint failed'', w)
        else (Inr (), fst w, snd w @ [(sql, ps)]))\<rparr>"

definition demo_db_io :: "db_world io" where
  "demo_db_io =
     \<lparr>io_host = idle_host, io_tick = (\<lambda>_. 0), io_set_tick = (\<lambda>_ w. w), io_built = (\<lambda>i _. (i, ''now'')),
      io_buffer = (\<lambda>_ w. fst w), io_set_buffer = (\<lambda>_ rs w. (rs, snd w)),
      io_read_file = (\<lambda>_ _. Inr []), io_write_file = (\<lambda>_ _ _ w. (Inr (), w)), io_publish = (\<lambda>_ _ _ w. (Inr (), w))\<rparr>"

definition demo_rows :: "rec list" where
  "demo_rows = map (record_new ''i'' ''now'')
     [JObject [(''a'', JString ''x'')], JNull, JObject [(''b'', JString ''y'')], JObject [(''a'', JString ''z'')]]"

theorem db_flush_exact_witness:
  "let stmts = flush_statements (\<lambda>_. []) ''t'' [''a''] (map payload demo_rows);
       res = db_flush demo_db demo_db_io (\<lambda>_. []) ''s'' ''p'' ''t'' (demo_rows, [])
   in (\<exists>n. run_statements demo_db ''p'' stmts ([], []) = (n, snd res) \<and> (fst res = Inr () \<longleftrightarrow> n = length stmts)) \<and>
      length stmts = 4 \<and> fst (snd res) = [] \<and> length (snd (snd res)) = 2"
proof -
  let ?res = "db_flush demo_db demo_db_io (\<lambda>_. []) ''s'' ''p'' ''t'' (demo_rows, [])"
  have "io_buffer demo_db_io ''s'' (demo_rows, []) = hd demo_rows # tl demo_rows"
    "payload (hd demo_rows) = JObject [(''a'', JString ''x'')]"
    "db_open demo_db ''p'' (io_set_buffer demo_db_io ''s'' [] (demo_rows, [])) = (Inr (), [], [])"
    by (simp_all add: demo_db_def demo_db_io_def demo_rows_def record_new_def)
  from db_flush_exact [OF this prod.collapse [of ?res, symmetric]] have
    "\<exists>n. run_statements demo_db ''p'' (flush_statements (\<lambda>_. []) ''t'' [''a''] (map payload demo_rows)) ([], []) = (n, snd ?res) \<and>
      (fst ?res = Inr () \<longleftrightarrow> n = length (flush_statements (\<lambda>_. []) ''t'' [''a''] (map payload demo_rows)))"
    by (simp add: im_keys_def Let_def demo_rows_def)
  moreover have "length (flush_statements (\<lambda>_. []) ''t'' [''a''] (map payload demo_rows)) = 4"
    "fst (snd ?res) = []" "length (snd (snd ?res)) = 2"
    by code_simp+
  ultimately show ?thesis by (simp add: Let_def)
qed

end
