(* ===== verification/Io_Http.thy ===== *)
theory Io_Http
  imports Sql_Values File_Steps Io_Db "HOL-Library.Stream"
begin

text \<open>
  The HTTP client source and sink (\<^verbatim>\<open>sohara-io/src/http.rs\<close>) and the registration of the connector
  steps (\<^verbatim>\<open>lib.rs\<close>).  The network is the parameter \<open>'w http_net\<close>: it connects, takes the text of
  a request and gives the bytes of the answer (a list of characters, one for each byte) until the
  connection closes.  The length of a text in UTF-8 counts its characters above 127 twice.
\<close>

section \<open>URLs\<close>

record url_parts =
  up_host :: string
  up_port :: nat
  up_path :: string

fun split_once :: "string \<Rightarrow> string \<Rightarrow> (string \<times> string) option" where
  "split_once sep s =
     (if take (length sep) s = sep then Some ([], drop (length sep) s)
      else case s of [] \<Rightarrow> None | c # cs \<Rightarrow> map_option (\<lambda>(a, b). (c # a, b)) (split_once sep cs))"

declare split_once.simps [simp del]

definition http_error :: "string \<Rightarrow> error" where
  "http_error msg = Err_Config (C_text msg)"

definition parse_url :: "string \<Rightarrow> error + url_parts" where
  "parse_url url =
     (if take 7 url \<noteq> ''http://'' then Inl (http_error ''only http:// urls are supported (S5)'')
      else
        (let rest = drop 7 url;
             (host_port, path) = (case split_once ''/'' rest of Some hp \<Rightarrow> hp | None \<Rightarrow> (rest, []))
         in case split_once '':'' host_port of
              Some (host, port) \<Rightarrow>
                (case parse_unsigned 65535 port of
                   None \<Rightarrow> Inl (http_error (''invalid port in url '' @ [CHR 0x27] @ url @ [CHR 0x27]))
                 | Some p \<Rightarrow> Inr \<lparr>up_host = host, up_port = p, up_path = CHR ''/'' # path\<rparr>)
            | None \<Rightarrow> Inr \<lparr>up_host = host_port, up_port = 80, up_path = CHR ''/'' # path\<rparr>))"

section \<open>Requests\<close>

record 'w http_net =
  hn_connect :: "string \<Rightarrow> nat \<Rightarrow> 'w \<Rightarrow> (string + unit) \<times> 'w"
  hn_write :: "string \<Rightarrow> 'w \<Rightarrow> (string + unit) \<times> 'w"
  hn_read :: "'w \<Rightarrow> (string + string) \<times> 'w"
  hn_lossy :: "string \<Rightarrow> string"
  hn_json :: "string \<Rightarrow> string + json"
  hn_print :: "json \<Rightarrow> string"
  hn_sleep :: "int \<Rightarrow> 'w \<Rightarrow> 'w"
  hn_polls :: nat

definition crlf :: string where
  "crlf = [CHR 0x0D, CHR 0x0A]"

definition utf8_length :: "string \<Rightarrow> nat" where
  "utf8_length s = sum_list (map (\<lambda>c. if of_char c < (128 :: nat) then 1 else 2) s)"

definition header_line :: "string \<times> string \<Rightarrow> string" where
  "header_line h = fst h @ '': '' @ snd h @ crlf"

definition request_text :: "url_parts \<Rightarrow> string \<Rightarrow> (string \<times> string) list \<Rightarrow> string option \<Rightarrow> string" where
  "request_text url meth headers body =
     (let body = (case body of None \<Rightarrow> [] | Some b \<Rightarrow> b) in
      meth @ '' '' @ up_path url @ '' HTTP/1.1'' @ crlf @ ''Host: '' @ up_host url @ crlf @ ''Connection: close'' @ crlf @
      concat (map header_line headers) @ ''Content-Length: '' @ decimal (utf8_length body) @ crlf @ crlf @ body)"

definition max_body :: nat where
  "max_body = 4 * 1024 * 1024"

definition response_body :: "string \<Rightarrow> error + string" where
  "response_body text =
     (case split_once (crlf @ crlf) text of
        None \<Rightarrow> Inl (http_error ''malformed http response'')
      | Some (head, body) \<Rightarrow>
          (case text_lines head of
             [] \<Rightarrow> Inl (http_error ''http response without status line'')
           | status # _ \<Rightarrow>
               if str_contains status '' 2'' then Inr body
               else Inl (http_error (''http request failed: '' @ status))))"

definition http_exchange ::
    "'w http_net \<Rightarrow> url_parts \<Rightarrow> string \<Rightarrow> (string \<times> string) list \<Rightarrow> string option \<Rightarrow> 'w \<Rightarrow> (error + string) \<times> 'w" where
  "http_exchange net url meth headers body w =
     (case hn_connect net (up_host url) (up_port url) w of
        (Inl e, w) \<Rightarrow> (Inl (Err_Io e), w)
      | (Inr _, w) \<Rightarrow>
          (case hn_write net (request_text url meth headers body) w of
             (Inl e, w) \<Rightarrow> (Inl (Err_Io e), w)
           | (Inr _, w) \<Rightarrow>
               (case hn_read net w of
                  (Inl e, w) \<Rightarrow> (Inl (Err_Io e), w)
                | (Inr bytes, w) \<Rightarrow> (response_body (hn_lossy net (take max_body bytes)), w))))"

definition http_fetch :: "'w http_net \<Rightarrow> url_parts \<Rightarrow> string \<Rightarrow> (string \<times> string) list \<Rightarrow> 'w \<Rightarrow> (error + json) \<times> 'w" where
  "http_fetch net url meth headers w =
     (case http_exchange net url meth headers None w of
        (Inl e, w) \<Rightarrow> (Inl e, w)
      | (Inr text, w) \<Rightarrow>
          (let body = trim text in
           (if take 1 body = ''{'' \<or> take 1 body = ''['' then
              (case hn_json net body of
                 Inl e \<Rightarrow> Inl (http_error (''invalid json response: '' @ e))
               | Inr v \<Rightarrow> Inr v)
            else Inr (JString body), w)))"

definition post_json ::
    "'w http_net \<Rightarrow> url_parts \<Rightarrow> string \<Rightarrow> (string \<times> string) list \<Rightarrow> json \<Rightarrow> 'w \<Rightarrow> (error + unit) \<times> 'w" where
  "post_json net url meth headers v w =
     (case http_exchange net url meth (bt_insert ''Content-Type'' ''application/json'' headers) (Some (hn_print net v)) w of
        (r, w) \<Rightarrow> (rbind r (\<lambda>_. Inr ()), w))"

section \<open>Steps\<close>

record http_step_config =
  hs_url :: url_parts
  hs_method :: string
  hs_headers :: "(string \<times> string) list"

definition http_source_spec :: struct_spec where
  "http_source_spec = [(''url'', True, chk is_string), (''method'', False, chk_opt (chk is_string)),
     (''headers'', False, chk_opt (chk_map (chk is_string))), (''poll_interval'', False, chk_opt (chk is_string))]"

definition http_sink_spec :: struct_spec where
  "http_sink_spec = [(''url'', True, chk is_string), (''method'', False, chk_opt (chk is_string)),
     (''headers'', False, chk_opt (chk_map (chk is_string)))]"

text \<open>
  A polling source never ends: its stream, \<open>http_unfold\<close>, is infinite.  The sources of the model return
  lists, so a run with a polling source is modelled as far as its first \<open>hn_polls\<close> items, for every
  value of it; \<open>http_poll_prefix\<close> says that these are the first items of the stream.
\<close>

definition http_next ::
    "'w http_net \<Rightarrow> 'w io \<Rightarrow> http_step_config \<Rightarrow> int \<Rightarrow> 'w \<Rightarrow> (error + rec) \<times> 'w" where
  "http_next net io cfg interval w =
     (case http_fetch net (hs_url cfg) (hs_method cfg) (hs_headers cfg) (hn_sleep net interval w) of
        (Inl e, w) \<Rightarrow> (Inl e, w)
      | (Inr v, w) \<Rightarrow> (let (r, w) = io_record io v w in (Inr r, w)))"

primcorec http_unfold ::
    "'w http_net \<Rightarrow> 'w io \<Rightarrow> http_step_config \<Rightarrow> int \<Rightarrow> 'w \<Rightarrow> (error + rec) stream" where
  "http_unfold net io cfg interval w =
     SCons (fst (http_next net io cfg interval w)) (http_unfold net io cfg interval (snd (http_next net io cfg interval w)))"

fun http_poll ::
    "'w http_net \<Rightarrow> 'w io \<Rightarrow> http_step_config \<Rightarrow> int \<Rightarrow> nat \<Rightarrow> 'w \<Rightarrow> (error + rec) list \<times> 'w" where
  "http_poll net io cfg interval 0 w = ([], w)"
| "http_poll net io cfg interval (Suc n) w =
     (let (r, w) = http_next net io cfg interval w; (rs, w) = http_poll net io cfg interval n w in (r # rs, w))"

lemma http_poll_prefix:
  "fst (http_poll net io cfg interval n w) = stake n (http_unfold net io cfg interval w)"
  by (induction n arbitrary: w) (simp_all add: split_beta Let_def)

definition http_source :: "'w http_net \<Rightarrow> 'w io \<Rightarrow> http_step_config \<Rightarrow> int option \<Rightarrow> 'w source" where
  "http_source net io cfg poll w =
     (case poll of
        Some interval \<Rightarrow> (let (rs, w) = http_poll net io cfg interval (hn_polls net) w in (Inr rs, w))
      | None \<Rightarrow>
          (case http_fetch net (hs_url cfg) (hs_method cfg) (hs_headers cfg) w of
             (Inl e, w) \<Rightarrow> (Inl e, w)
           | (Inr v, w) \<Rightarrow> (let (r, w) = io_record io v w in (Inr [Inr r], w))))"

definition http_step_of :: "string \<Rightarrow> json imap \<Rightarrow> error + http_step_config" where
  "http_step_of meth cfg =
     rbind (parse_url (req_field str_of cfg ''url'')) (\<lambda>url.
     Inr \<lparr>hs_url = url, hs_method = (case opt_field str_of cfg ''method'' of Some m \<Rightarrow> m | None \<Rightarrow> meth),
       hs_headers = (case opt_field (btree_of str_of) cfg ''headers'' of Some hs \<Rightarrow> hs | None \<Rightarrow> [])\<rparr>)"

definition build_http_source :: "'w http_net \<Rightarrow> 'w io \<Rightarrow> 'w factory" where
  "build_http_source net io config ctx =
     rbind (parse_config ''http source'' http_source_spec config) (\<lambda>cfg.
     rbind (case opt_field str_of cfg ''poll_interval'' of
         None \<Rightarrow> Inr None
       | Some t \<Rightarrow> (case parse_duration t of Inl e \<Rightarrow> Inl (Err_Config (C_http_poll e)) | Inr d \<Rightarrow> Inr (Some d))) (\<lambda>poll.
     rbind (http_step_of ''GET'' cfg) (\<lambda>st. Inr (BSource (http_source net io st poll)))))"

definition http_sink :: "'w http_net \<Rightarrow> http_step_config \<Rightarrow> 'w sink" where
  "http_sink net cfg =
     \<lparr>k_send = (\<lambda>r. post_json net (hs_url cfg) (hs_method cfg) (hs_headers cfg) (to_json r)),
      k_flush = (\<lambda>w. (Inr (), w))\<rparr>"

definition build_http_sink :: "'w http_net \<Rightarrow> 'w factory" where
  "build_http_sink net config ctx =
     rbind (parse_config ''http sink'' http_sink_spec config) (\<lambda>cfg.
     rbind (http_step_of ''POST'' cfg) (\<lambda>st. Inr (BSink (http_sink net st))))"

definition register_connectors :: "'w http_net \<Rightarrow> 'w db \<Rightarrow> 'w io \<Rightarrow> 'w registry \<Rightarrow> 'w registry" where
  "register_connectors net db io reg =
     fold (\<lambda>(kind, ty, f). register kind ty f)
       [(KSource, ''http'', build_http_source net io), (KSink, ''http'', build_http_sink net),
        (KSource, ''db'', build_db_source db io), (KSink, ''db'', build_db_sink db io (hn_print net))] reg"

section \<open>What a server reads\<close>

text \<open>A server's reading of a request: its first line, its header fields and its body.\<close>

fun split_lines :: "nat \<Rightarrow> string \<Rightarrow> string list" where
  "split_lines 0 s = [s]"
| "split_lines (Suc n) s = (case split_once crlf s of None \<Rightarrow> [s] | Some (l, r) \<Rightarrow> l # split_lines n r)"

definition read_request :: "string \<Rightarrow> ((string \<times> string) \<times> (string \<times> string) list \<times> string) option" where
  "read_request text =
     (case split_once (crlf @ crlf) text of
        None \<Rightarrow> None
      | Some (head, body) \<Rightarrow>
          (case split_lines (length head) head of
             [] \<Rightarrow> None
           | l # ls \<Rightarrow>
               (case split_once '' '' l of
                  None \<Rightarrow> None
                | Some (meth, r) \<Rightarrow>
                    (case split_once '' '' r of
                       None \<Rightarrow> None
                     | Some (path, _) \<Rightarrow>
                         Some ((meth, path), List.map_filter (split_once '': '') ls, body)))))"

lemma split_once_hit: "split_once sep (sep @ b) = Some ([], b)"
  by (subst split_once.simps) simp

lemma split_once_skip:
  "take (length sep) (c # s) \<noteq> sep \<Longrightarrow> split_once sep (c # s) = map_option (\<lambda>(a, b). (c # a, b)) (split_once sep s)"
  by (subst split_once.simps) simp

lemma split_once_first:
  assumes "sep \<noteq> []" "hd sep \<notin> set a"
  shows "split_once sep (a @ sep @ b) = Some (a, b)"
  using assms(2)
proof (induction a)
  case (Cons c a)
  have "take (length sep) (c # (a @ sep @ b)) \<noteq> sep" using assms(1) Cons.prems by (cases sep) auto
  then show ?case using Cons split_once_skip [of sep c "a @ sep @ b"] by simp
qed (simp add: split_once_hit)

lemma split_once_absent:
  assumes "sep \<noteq> []" "hd sep \<notin> set a"
  shows "split_once sep a = None"
  using assms(2)
proof (induction a)
  case Nil
  show ?case using assms(1) by (subst split_once.simps) simp
next
  case (Cons c a)
  have "take (length sep) (c # a) \<noteq> sep" using assms(1) Cons.prems by (cases sep) auto
  then show ?case using Cons split_once_skip [of sep c a] by simp
qed

text \<open>Lines of a head: not empty and without a carriage return.\<close>

definition head_line :: "string \<Rightarrow> bool" where
  "head_line l \<longleftrightarrow> l \<noteq> [] \<and> CHR 0x0D \<notin> set l"

lemma skip_line:
  assumes "CHR 0x0D \<notin> set l" "take 1 rest \<noteq> [CHR 0x0D]"
  shows "split_once (crlf @ crlf) (l @ crlf @ rest)
    = map_option (\<lambda>(a, b). (l @ crlf @ a, b)) (split_once (crlf @ crlf) rest)"
  using assms(1)
proof (induction l)
  case Nil
  have "take (length (crlf @ crlf)) (crlf @ rest) \<noteq> crlf @ crlf" using assms(2) by (cases rest) (auto simp: crlf_def)
  then have "split_once (crlf @ crlf) (crlf @ rest) =
      map_option (\<lambda>(a, b). (CHR 0x0D # a, b)) (split_once (crlf @ crlf) (CHR 0x0A # rest))"
    using split_once_skip [of "crlf @ crlf" "CHR 0x0D" "CHR 0x0A # rest"] by (simp add: crlf_def)
  moreover have "split_once (crlf @ crlf) (CHR 0x0A # rest) =
      map_option (\<lambda>(a, b). (CHR 0x0A # a, b)) (split_once (crlf @ crlf) rest)"
    using split_once_skip [of "crlf @ crlf" "CHR 0x0A" rest] by (simp add: crlf_def)
  ultimately show ?case by (simp add: option.map_comp comp_def split_beta crlf_def)
next
  case (Cons c l)
  have "take (length (crlf @ crlf)) (c # (l @ crlf @ rest)) \<noteq> crlf @ crlf" using Cons.prems by (auto simp: crlf_def)
  then have "split_once (crlf @ crlf) (c # (l @ crlf @ rest)) =
      map_option (\<lambda>(a, b). (c # a, b)) (split_once (crlf @ crlf) (l @ crlf @ rest))"
    by (rule split_once_skip)
  with Cons show ?case by (cases "split_once (crlf @ crlf) rest") auto
qed

lemma split_head:
  assumes "ls \<noteq> []" "list_all head_line ls"
  shows "split_once (crlf @ crlf) (concat (map (\<lambda>l. l @ crlf) ls) @ crlf @ body) = Some (joined crlf ls, body)"
  using assms
proof (induction ls)
  case (Cons l ls)
  show ?case
  proof (cases ls)
    case Nil
    then show ?thesis using Cons.prems split_once_first [of "crlf @ crlf" l body]
      by (simp add: crlf_def head_line_def)
  next
    case (Cons k ks)
    have "take 1 (concat (map (\<lambda>l. l @ crlf) ls) @ crlf @ body) \<noteq> [CHR 0x0D]"
      using Cons.prems Cons by (cases k) (auto simp: head_line_def)
    then have "split_once (crlf @ crlf) (l @ crlf @ concat (map (\<lambda>l. l @ crlf) ls) @ crlf @ body) =
        Some (l @ crlf @ joined crlf ls, body)"
      using Cons.prems Cons.IH Cons skip_line [of l "concat (map (\<lambda>l. l @ crlf) ls) @ crlf @ body"]
      by (simp add: head_line_def)
    then show ?thesis using Cons by simp
  qed
qed simp

lemma split_lines_joined:
  assumes "ls \<noteq> []" "list_all head_line ls" "length ls \<le> Suc n"
  shows "split_lines n (joined crlf ls) = ls"
  using assms
proof (induction n arbitrary: ls)
  case 0
  then obtain l where "ls = [l]" by (cases ls) auto
  then show ?case by simp
next
  case (Suc n)
  obtain l ks where ls: "ls = l # ks" using Suc.prems(1) by (cases ls) auto
  show ?case
  proof (cases ks)
    case Nil
    then show ?thesis using ls Suc.prems(2) split_once_absent [of crlf l] by (simp add: head_line_def crlf_def)
  next
    case (Cons k js)
    then have "split_once crlf (joined crlf ls) = Some (l, joined crlf ks)"
      using ls Suc.prems(2) split_once_first [of crlf l "joined crlf ks"] by (simp add: head_line_def crlf_def)
    then show ?thesis using ls Cons Suc.prems Suc.IH [of ks] by simp
  qed
qed

lemma length_joined: "list_all head_line ls \<Longrightarrow> length ls \<le> Suc (length (joined crlf ls))"
proof (induction ls)
  case (Cons l ls)
  then show ?case by (cases ls) (auto simp: crlf_def)
qed simp

text \<open>What the pieces of a request must be for the request to be read as it was meant.\<close>

definition token_text :: "string \<Rightarrow> bool" where
  "token_text s \<longleftrightarrow> CHR 0x0D \<notin> set s \<and> CHR '' '' \<notin> set s"

definition header_ok :: "string \<times> string \<Rightarrow> bool" where
  "header_ok h \<longleftrightarrow> CHR 0x0D \<notin> set (fst h) \<and> CHR '':'' \<notin> set (fst h) \<and> CHR 0x0D \<notin> set (snd h)"

definition request_lines :: "url_parts \<Rightarrow> string \<Rightarrow> (string \<times> string) list \<Rightarrow> string \<Rightarrow> string list" where
  "request_lines url meth headers body =
     (meth @ '' '' @ up_path url @ '' HTTP/1.1'') #
     map (\<lambda>h. fst h @ '': '' @ snd h)
       ((''Host'', up_host url) # (''Connection'', ''close'') # headers @ [(''Content-Length'', decimal (utf8_length body))])"

lemma request_text_lines:
  "request_text url meth headers (Some body) =
   concat (map (\<lambda>l. l @ crlf) (request_lines url meth headers body)) @ crlf @ body"
  by (simp add: request_text_def request_lines_def header_line_def [abs_def] comp_def)

lemma map_filter_headers:
  "list_all header_ok hs \<Longrightarrow> List.map_filter (split_once '': '') (map (\<lambda>h. fst h @ '': '' @ snd h) hs) = hs"
proof (induction hs)
  case (Cons h hs)
  then have "split_once '': '' (fst h @ '': '' @ snd h) = Some (fst h, snd h)"
    by (intro split_once_first) (auto simp: header_ok_def)
  with Cons show ?case by (simp add: map_filter_simps)
qed (simp add: map_filter_simps)

lemma header_ok_length: "header_ok (''Content-Length'', decimal n)"
  by (auto simp: header_ok_def is_digit_def intro!: decimal_no_sep)

lemma request_lines_ok:
  assumes "token_text meth" "token_text (up_path url)" "CHR 0x0D \<notin> set (up_host url)" "list_all header_ok headers"
  shows "list_all head_line (request_lines url meth headers body)"
  using assms header_ok_length [of "utf8_length body"]
  by (auto simp: request_lines_def head_line_def token_text_def header_ok_def list_all_iff)

lemma read_request_text:
  assumes "token_text meth" "token_text (up_path url)" "CHR 0x0D \<notin> set (up_host url)" "list_all header_ok headers"
  shows "read_request (request_text url meth headers (Some body)) =
    Some ((meth, up_path url),
      (''Host'', up_host url) # (''Connection'', ''close'') # headers @ [(''Content-Length'', decimal (utf8_length body))],
      body)"
proof -
  let ?ls = "request_lines url meth headers body"
  have ok: "list_all head_line ?ls" by (rule request_lines_ok [OF assms])
  have ne: "?ls \<noteq> []" by (simp add: request_lines_def)
  have s: "split_once (crlf @ crlf) (request_text url meth headers (Some body)) = Some (joined crlf ?ls, body)"
    unfolding request_text_lines by (rule split_head [OF ne ok])
  have l: "split_lines (length (joined crlf ?ls)) (joined crlf ?ls) = ?ls"
    by (rule split_lines_joined [OF ne ok length_joined [OF ok]])
  have h: "list_all header_ok ((''Host'', up_host url) # (''Connection'', ''close'') # headers @
      [(''Content-Length'', decimal (utf8_length body))])"
    using assms(3,4) header_ok_length by (simp add: header_ok_def)
  have m: "split_once '' '' (meth @ '' '' @ up_path url @ '' HTTP/1.1'') = Some (meth, up_path url @ '' HTTP/1.1'')"
    using assms(1) by (intro split_once_first) (simp_all add: token_text_def)
  have p: "split_once '' '' (up_path url @ '' HTTP/1.1'') = Some (up_path url, ''HTTP/1.1'')"
    using assms(2) split_once_first [of "'' ''" "up_path url" "''HTTP/1.1''"] by (simp add: token_text_def)
  show ?thesis
    unfolding read_request_def s option.case prod.case l
    unfolding request_lines_def list.case m p option.case prod.case map_filter_headers [OF h] ..
qed

text \<open>
  C39. For well-behaved values, requests say what the configuration means.  Let the host be free of
  colon, slash and carriage return, the method and the path free of blanks and carriage returns, and
  the headers' names free of colons and carriage returns and their values of carriage returns.  Then
  the URL of the host, a port and the path is parsed into them, and the text a step writes for this
  URL, read the way a server does, is the method, the path, the host, the configured headers and the
  body with its length.  The code checks none of the conditions, and a value that breaks them can say
  something else.
\<close>

theorem http_request_roundtrip:
  assumes "CHR '':'' \<notin> set host" "CHR ''/'' \<notin> set host" "port \<le> 65535" "CHR 0x0D \<notin> set host"
    "token_text meth" "token_text path" "list_all header_ok headers"
  shows "\<exists>url. parse_url (''http://'' @ host @ '':'' @ decimal port @ ''/'' @ path) = Inr url \<and>
    up_host url = host \<and> up_port url = port \<and>
    read_request (request_text url meth headers (Some body)) =
      Some ((meth, CHR ''/'' # path),
        (''Host'', host) # (''Connection'', ''close'') # headers @ [(''Content-Length'', decimal (utf8_length body))], body)"
proof -
  let ?url = "\<lparr>up_host = host, up_port = port, up_path = CHR ''/'' # path\<rparr>"
  have "CHR ''/'' \<notin> set (host @ '':'' @ decimal port)"
    using assms(2) decimal_no_sep [of "CHR ''/''" port] by (auto simp: is_digit_def)
  then have "split_once ''/'' ((host @ '':'' @ decimal port) @ ''/'' @ path) = Some (host @ '':'' @ decimal port, path)"
    by (intro split_once_first) auto
  moreover have "split_once '':'' (host @ '':'' @ decimal port) = Some (host, decimal port)"
    using assms(1) by (intro split_once_first) auto
  ultimately have "parse_url (''http://'' @ host @ '':'' @ decimal port @ ''/'' @ path) = Inr ?url"
    using parse_decimal_nat [OF assms(3)] by (simp add: parse_url_def)
  moreover have "token_text (up_path ?url)" using assms(6) by (simp add: token_text_def)
  ultimately show ?thesis using read_request_text [of meth ?url headers body] assms by simp
qed

theorem http_request_roundtrip_witness:
  "\<exists>url. parse_url (''http://'' @ ''localhost'' @ '':'' @ decimal 8080 @ ''/'' @ ''in'') = Inr url \<and>
    up_host url = ''localhost'' \<and> up_port url = 8080 \<and>
    read_request (request_text url ''POST'' [(''X-Key'', ''1'')] (Some ''[]'')) =
      Some ((''POST'', CHR ''/'' # ''in''),
        (''Host'', ''localhost'') # (''Connection'', ''close'') # [(''X-Key'', ''1'')] @ [(''Content-Length'', decimal (utf8_length ''[]''))], ''[]'')"
  by (rule http_request_roundtrip) (simp_all add: token_text_def header_ok_def)

text \<open>The status is not looked at: a \<^verbatim>\<open>404\<close> whose reason mentions a 2 is a success.\<close>

lemma http_error_accepted:
  "response_body (''HTTP/1.1 404 Only 2 of 3 found'' @ crlf @ crlf @ ''gone'') = Inr ''gone''"
  by code_simp

end
