(* ===== verification/Extension_Zeromq.thy ===== *)
theory Extension_Zeromq
  imports Extension_Server
begin

text \<open>
  The ZeroMQ extension program (\<^verbatim>\<open>sohara-builtin-extensions/src/bin/sohara-builtin-zeromq.rs\<close>): an
  event bus and a trigger over one publishing and one subscribing socket, opened when first needed.  The
  \<^verbatim>\<open>zeromq\<close> crate with the network is the parameter \<open>'d zmq\<close>; a socket is a handle.
\<close>

section \<open>Sockets\<close>

datatype zmq_event = Zmq_Message "string option" | Zmq_Fails string | Zmq_Timeout

record 'd zmq =
  zm_open :: "bool \<Rightarrow> bool \<Rightarrow> string \<Rightarrow> 'd \<Rightarrow> (string + nat) \<times> 'd"
  zm_subscribe :: "nat \<Rightarrow> string \<Rightarrow> 'd \<Rightarrow> (string + unit) \<times> 'd"
  zm_send :: "nat \<Rightarrow> string \<Rightarrow> 'd \<Rightarrow> (string + unit) \<times> 'd"
  zm_recv :: "nat \<Rightarrow> nat \<Rightarrow> 'd \<Rightarrow> zmq_event \<times> 'd"
  zm_close :: "nat \<Rightarrow> 'd \<Rightarrow> 'd"
  zm_sleep :: "nat \<Rightarrow> 'd \<Rightarrow> 'd"
  zm_utf8 :: "string \<Rightarrow> string + string"
  zm_print :: "json \<Rightarrow> string"
  zm_parse :: "string \<Rightarrow> json option"
  zm_uuid :: "'d \<Rightarrow> string \<times> 'd"
  zm_now :: "'d \<Rightarrow> string \<times> 'd"

record zmq_state =
  zs_pub :: "nat option"
  zs_sub :: "nat option"
  zs_pub_ready :: bool
  zs_sub_ready :: bool
  zs_stopped :: bool

definition zmq_start :: zmq_state where
  "zmq_start = \<lparr>zs_pub = None, zs_sub = None, zs_pub_ready = False, zs_sub_ready = False, zs_stopped = False\<rparr>"

definition zmq_endpoint :: "json \<Rightarrow> string + string" where
  "zmq_endpoint config = need ''config.endpoint is required'' (member_str config ''endpoint'')"

definition zmq_binds :: "json \<Rightarrow> bool" where
  "zmq_binds config = (or_default ''connect'' (member_str config ''mode'') = ''bind'')"

definition ensure_pub_socket :: "'d zmq \<Rightarrow> json \<Rightarrow> zmq_state \<times> 'd \<Rightarrow> (string + nat) \<times> zmq_state \<times> 'd" where
  "ensure_pub_socket zq config s =
     (let (zs, d) = s in
      case zs_pub zs of
        Some h \<Rightarrow> (Inr h, zs, d)
      | None \<Rightarrow>
          (case zmq_endpoint config of
             Inl e \<Rightarrow> (Inl e, zs, d)
           | Inr endpoint \<Rightarrow>
               (case zm_open zq True (zmq_binds config) endpoint d of
                  (Inl e, d) \<Rightarrow> (Inl e, zs, d)
                | (Inr h, d) \<Rightarrow> (Inr h, zs\<lparr>zs_pub := Some h, zs_pub_ready := False\<rparr>, d))))"

definition ensure_sub_socket :: "'d zmq \<Rightarrow> json \<Rightarrow> zmq_state \<times> 'd \<Rightarrow> (string + nat) \<times> zmq_state \<times> 'd" where
  "ensure_sub_socket zq config s =
     (let (zs, d) = s in
      case zs_sub zs of
        Some h \<Rightarrow> (Inr h, zs, d)
      | None \<Rightarrow>
          (case zmq_endpoint config of
             Inl e \<Rightarrow> (Inl e, zs, d)
           | Inr endpoint \<Rightarrow>
               (case zm_open zq False (zmq_binds config) endpoint d of
                  (Inl e, d) \<Rightarrow> (Inl e, zs, d)
                | (Inr h, d) \<Rightarrow> (Inr h, zs\<lparr>zs_sub := Some h, zs_sub_ready := False\<rparr>, d))))"

section \<open>Requests\<close>

definition zmq_message :: "'d zmq \<Rightarrow> string \<Rightarrow> json \<Rightarrow> string" where
  "zmq_message zq topic v = zm_print zq (JObject [(''topic'', JString topic), (''payload'', v)])"

definition zmq_publish :: "'d zmq \<Rightarrow> json \<Rightarrow> zmq_state \<times> 'd \<Rightarrow> (string + json) \<times> zmq_state \<times> 'd" where
  "zmq_publish zq params s =
     (case rbind (param_config params) (\<lambda>config. rbind (need ''missing payload'' (member params ''payload'')) (\<lambda>v. Inr (config, v))) of
        Inl e \<Rightarrow> (Inl e, s)
      | Inr (config, v) \<Rightarrow>
          (case ensure_pub_socket zq config s of
             (Inl e, s) \<Rightarrow> (Inl e, s)
           | (Inr h, zs, d) \<Rightarrow>
               (let (zs, d) = (if zs_pub_ready zs then (zs, d) else (zs\<lparr>zs_pub_ready := True\<rparr>, zm_sleep zq 300 d)) in
                case zm_send zq h (zmq_message zq (or_default [] (member_str params ''topic'')) v) d of
                  (Inl e, d) \<Rightarrow> (Inl e, zs, d)
                | (Inr _, d) \<Rightarrow> (Inr empty_json, zs, d))))"

definition zmq_trigger_start :: "'d zmq \<Rightarrow> json \<Rightarrow> zmq_state \<times> 'd \<Rightarrow> (string + json) \<times> zmq_state \<times> 'd" where
  "zmq_trigger_start zq params s =
     (case param_config params of
        Inl e \<Rightarrow> (Inl e, s)
      | Inr config \<Rightarrow>
          (case ensure_sub_socket zq config s of
             (Inl e, s) \<Rightarrow> (Inl e, s)
           | (Inr h, zs, d) \<Rightarrow>
               (case zm_subscribe zq h [] d of
                  (Inl e, d) \<Rightarrow> (Inl e, zs, d)
                | (Inr _, d) \<Rightarrow>
                    (let (zs, d) = (if zs_sub_ready zs then (zs, d) else (zs\<lparr>zs_sub_ready := True\<rparr>, zm_sleep zq 300 d))
                     in (Inr empty_json, zs\<lparr>zs_stopped := False\<rparr>, d)))))"

text \<open>What a received message is: a text that is no JSON becomes an object with its raw text.\<close>

definition zmq_payload :: "'d zmq \<Rightarrow> string \<Rightarrow> json" where
  "zmq_payload zq raw = (case zm_parse zq raw of Some v \<Rightarrow> v | None \<Rightarrow> JObject [(''raw'', JString raw)])"

definition zmq_passes :: "string \<Rightarrow> json \<Rightarrow> bool" where
  "zmq_passes topic v \<longleftrightarrow> topic = [] \<or> member_str v ''topic'' = Some topic"

definition zmq_record :: "string \<Rightarrow> string \<Rightarrow> json \<Rightarrow> json" where
  "zmq_record uuid now v =
     JObject [(''id'', JString (''zeromq-'' @ uuid)), (''timestamp'', JString now),
       (''payload'', (case member v ''payload'' of Some p \<Rightarrow> p | None \<Rightarrow> v)), (''metadata'', JObject [])]"

definition zmq_deliver :: "'d zmq \<Rightarrow> string \<Rightarrow> string \<Rightarrow> 'd \<Rightarrow> json \<times> 'd" where
  "zmq_deliver zq topic raw d =
     (let v = zmq_payload zq raw in
      if \<not> zmq_passes topic v then (pull_json [] False, d)
      else (let (u, d) = zm_uuid zq d; (t, d) = zm_now zq d in (pull_json [zmq_record u t v] False, d)))"

definition zmq_pull :: "'d zmq \<Rightarrow> json \<Rightarrow> zmq_state \<times> 'd \<Rightarrow> (string + json) \<times> zmq_state \<times> 'd" where
  "zmq_pull zq params s =
     (if zs_stopped (fst s) then (Inr (pull_json [] True), s)
      else
        (case param_config params of
           Inl e \<Rightarrow> (Inl e, s)
         | Inr config \<Rightarrow>
             (case ensure_sub_socket zq config s of
                (Inl e, s) \<Rightarrow> (Inl e, s)
              | (Inr h, zs, d) \<Rightarrow>
                  (case zm_recv zq h (or_default 100 (member_nat config ''timeout_ms'')) d of
                     (Zmq_Fails e, d) \<Rightarrow> (Inl e, zs, d)
                   | (Zmq_Timeout, d) \<Rightarrow> (Inr (pull_json [] False), zs, d)
                   | (Zmq_Message None, d) \<Rightarrow> (Inl ''zeromq message had no frames'', zs, d)
                   | (Zmq_Message (Some bytes), d) \<Rightarrow>
                       (case zm_utf8 zq bytes of
                          Inl e \<Rightarrow> (Inl e, zs, d)
                        | Inr raw \<Rightarrow>
                            (let (r, d) = zmq_deliver zq (or_default [] (member_str config ''topic'')) raw d in (Inr r, zs, d)))))))"

definition zmq_stop :: "'d zmq \<Rightarrow> zmq_state \<times> 'd \<Rightarrow> (string + json) \<times> zmq_state \<times> 'd" where
  "zmq_stop zq s =
     (let (zs, d) = s
      in (Inr empty_json, zs\<lparr>zs_stopped := True, zs_sub := None, zs_sub_ready := False\<rparr>,
          case zs_sub zs of Some h \<Rightarrow> zm_close zq h d | None \<Rightarrow> d))"

definition zmq_capabilities :: capabilities where
  "zmq_capabilities = no_capabilities\<lparr>cap_trigger := True, cap_event_bus := True\<rparr>"

definition zmq_handle :: "'d zmq \<Rightarrow> (zmq_state \<times> 'd) handler" where
  "zmq_handle zq meth params s =
     (if meth = ''initialize'' then (Inr (initialize_result zmq_capabilities), s)
      else if meth = ''bus.publish'' then zmq_publish zq params s
      else if meth = ''trigger.start'' then zmq_trigger_start zq params s
      else if meth = ''trigger.pull'' then zmq_pull zq params s
      else if meth = ''trigger.stop'' then zmq_stop zq s
      else (Inl (''unknown method: '' @ meth), s))"

section \<open>Sockets in use\<close>

text \<open>
  The program never has more than one socket of each kind, and a handle it holds is open: \<open>zmq_opened\<close>
  is what the network says is open.
\<close>

definition zmq_lawful :: "'d zmq \<Rightarrow> ('d \<Rightarrow> (nat \<times> bool) set) \<Rightarrow> bool" where
  "zmq_lawful zq opened \<longleftrightarrow>
     (\<forall>k b e d. case zm_open zq k b e d of
        (Inl _, d') \<Rightarrow> opened d' = opened d
      | (Inr h, d') \<Rightarrow> (\<forall>k'. (h, k') \<notin> opened d) \<and> opened d' = insert (h, k) (opened d)) \<and>
     (\<forall>h t d. opened (snd (zm_subscribe zq h t d)) = opened d) \<and>
     (\<forall>h m d. opened (snd (zm_send zq h m d)) = opened d) \<and>
     (\<forall>h n d. opened (snd (zm_recv zq h n d)) = opened d) \<and>
     (\<forall>h d. opened (zm_close zq h d) = {p \<in> opened d. fst p \<noteq> h}) \<and>
     (\<forall>n d. opened (zm_sleep zq n d) = opened d) \<and>
     (\<forall>d. opened (snd (zm_uuid zq d)) = opened d) \<and> (\<forall>d. opened (snd (zm_now zq d)) = opened d)"

definition sockets_of :: "zmq_state \<Rightarrow> (nat \<times> bool) set" where
  "sockets_of zs = (\<lambda>h. (h, True)) ` set_option (zs_pub zs) \<union> (\<lambda>h. (h, False)) ` set_option (zs_sub zs)"

definition zmq_owns :: "('d \<Rightarrow> (nat \<times> bool) set) \<Rightarrow> zmq_state \<times> 'd \<Rightarrow> bool" where
  "zmq_owns opened s \<longleftrightarrow> opened (snd s) = sockets_of (fst s) \<and>
     (case (zs_pub (fst s), zs_sub (fst s)) of (Some a, Some b) \<Rightarrow> a \<noteq> b | _ \<Rightarrow> True)"

lemma zmq_owns_frame:
  "zmq_owns opened (zs, d) \<Longrightarrow> opened d' = opened d \<Longrightarrow> zs_pub zs' = zs_pub zs \<Longrightarrow> zs_sub zs' = zs_sub zs \<Longrightarrow>
   zmq_owns opened (zs', d')"
  by (simp add: zmq_owns_def sockets_of_def)

lemma ensure_pub_owns:
  assumes "zmq_lawful zq opened" "zmq_owns opened s" "ensure_pub_socket zq config s = (r, s')"
  shows "zmq_owns opened s'"
proof -
  obtain zs d where s: "s = (zs, d)" by fastforce
  show ?thesis
  proof (cases "zs_pub zs")
    case None
    have o: "case zm_open zq True (zmq_binds config) e d of
        (Inl _, d') \<Rightarrow> opened d' = opened d
      | (Inr h, d') \<Rightarrow> (\<forall>k'. (h, k') \<notin> opened d) \<and> opened d' = insert (h, True) (opened d)" for e
      using assms(1) by (simp add: zmq_lawful_def)
    show ?thesis
    proof (cases "zmq_endpoint config")
      case (Inr e)
      show ?thesis using o [of e] assms(2,3) None s Inr
        by (cases "zs_sub zs") (fastforce simp: ensure_pub_socket_def zmq_owns_def sockets_of_def split: prod.splits sum.splits)+
    qed (use assms s None in \<open>auto simp: ensure_pub_socket_def\<close>)
  qed (use assms s in \<open>auto simp: ensure_pub_socket_def\<close>)
qed

lemma ensure_sub_owns:
  assumes "zmq_lawful zq opened" "zmq_owns opened s" "ensure_sub_socket zq config s = (r, s')"
  shows "zmq_owns opened s'"
proof -
  obtain zs d where s: "s = (zs, d)" by fastforce
  show ?thesis
  proof (cases "zs_sub zs")
    case None
    have o: "case zm_open zq False (zmq_binds config) e d of
        (Inl _, d') \<Rightarrow> opened d' = opened d
      | (Inr h, d') \<Rightarrow> (\<forall>k'. (h, k') \<notin> opened d) \<and> opened d' = insert (h, False) (opened d)" for e
      using assms(1) by (simp add: zmq_lawful_def)
    show ?thesis
    proof (cases "zmq_endpoint config")
      case (Inr e)
      show ?thesis using o [of e] assms(2,3) None s Inr
        by (cases "zs_pub zs") (fastforce simp: ensure_sub_socket_def zmq_owns_def sockets_of_def split: prod.splits sum.splits)+
    qed (use assms s None in \<open>auto simp: ensure_sub_socket_def\<close>)
  qed (use assms s in \<open>auto simp: ensure_sub_socket_def\<close>)
qed

lemma zmq_deliver_opened: "zmq_lawful zq opened \<Longrightarrow> opened (snd (zmq_deliver zq topic raw d)) = opened d"
  by (simp add: zmq_deliver_def zmq_lawful_def Let_def split_beta)

lemma zmq_publish_owns:
  assumes "zmq_lawful zq opened" "zmq_owns opened s"
  shows "zmq_owns opened (snd (zmq_publish zq params s))"
proof (cases "rbind (param_config params) (\<lambda>config. rbind (need ''missing payload'' (member params ''payload'')) (\<lambda>v. Inr (config, v)))")
  case (Inr cv)
  obtain config v where cv: "cv = (config, v)" by fastforce
  obtain r zs d where e: "ensure_pub_socket zq config s = (r, zs, d)" by (metis prod.exhaust)
  have o: "zmq_owns opened (zs, d)" using ensure_pub_owns [OF assms e] .
  have "opened (snd (zm_send zq h m d')) = opened d'" "opened (zm_sleep zq n d') = opened d'" for h m n d'
    using assms(1) by (simp_all add: zmq_lawful_def)
  then show ?thesis using Inr cv e o
    by (cases r) (auto simp: zmq_publish_def Let_def split_beta split: sum.splits elim!: zmq_owns_frame)
qed (use assms in \<open>simp add: zmq_publish_def\<close>)

lemma zmq_trigger_start_owns:
  assumes "zmq_lawful zq opened" "zmq_owns opened s"
  shows "zmq_owns opened (snd (zmq_trigger_start zq params s))"
proof (cases "param_config params")
  case (Inr config)
  obtain r zs d where e: "ensure_sub_socket zq config s = (r, zs, d)" by (metis prod.exhaust)
  have o: "zmq_owns opened (zs, d)" using ensure_sub_owns [OF assms e] .
  have "opened (snd (zm_subscribe zq h t d')) = opened d'" "opened (zm_sleep zq n d') = opened d'" for h t n d'
    using assms(1) by (simp_all add: zmq_lawful_def)
  then show ?thesis using Inr e o
    by (cases r) (auto simp: zmq_trigger_start_def Let_def split_beta split: sum.splits elim!: zmq_owns_frame)
qed (use assms in \<open>simp add: zmq_trigger_start_def\<close>)

lemma zmq_pull_owns:
  assumes "zmq_lawful zq opened" "zmq_owns opened s"
  shows "zmq_owns opened (snd (zmq_pull zq params s))"
proof (cases "zs_stopped (fst s) \<or> (\<exists>e. param_config params = Inl e)")
  case False
  then obtain config where c: "param_config params = Inr config" by (cases "param_config params") auto
  obtain r zs d where e: "ensure_sub_socket zq config s = (r, zs, d)" by (metis prod.exhaust)
  have o: "zmq_owns opened (zs, d)" using ensure_sub_owns [OF assms e] .
  have x: "opened (snd (zm_recv zq h n d')) = opened d'" for h n d' using assms(1) by (simp add: zmq_lawful_def)
  show ?thesis
  proof (cases r)
    case (Inr h)
    obtain ev d1 where ev: "zm_recv zq h (or_default 100 (member_nat config ''timeout_ms'')) d = (ev, d1)" by fastforce
    have "zmq_owns opened (zs, d1)" using zmq_owns_frame [OF o] x ev by (metis snd_conv)
    then show ?thesis using False c e Inr ev zmq_deliver_opened [OF assms(1)]
      by (auto simp: zmq_pull_def Let_def split_beta split: zmq_event.splits option.splits sum.splits
          elim!: zmq_owns_frame)
  qed (use False c e o in \<open>simp add: zmq_pull_def\<close>)
qed (use assms in \<open>auto simp: zmq_pull_def\<close>)

lemma zmq_stop_owns:
  assumes "zmq_lawful zq opened" "zmq_owns opened s"
  shows "zmq_owns opened (snd (zmq_stop zq s))"
proof -
  have "opened (zm_close zq h d) = {p \<in> opened d. fst p \<noteq> h}" for h d using assms(1) by (simp add: zmq_lawful_def)
  then show ?thesis using assms(2)
    by (auto simp: zmq_stop_def zmq_owns_def sockets_of_def split_beta split: option.splits)
qed

fun zmq_session :: "'d zmq \<Rightarrow> (string \<times> json) list \<Rightarrow> zmq_state \<times> 'd \<Rightarrow> (string + json) list \<times> zmq_state \<times> 'd" where
  "zmq_session zq [] s = ([], s)"
| "zmq_session zq ((meth, params) # rqs) s =
     (let (r, s) = zmq_handle zq meth params s; (rs, s) = zmq_session zq rqs s in (r # rs, s))"

lemma zmq_session_owns:
  assumes "zmq_lawful zq opened" "zmq_owns opened s"
  shows "zmq_owns opened (snd (zmq_session zq rqs s))"
  using assms(2)
proof (induction rqs arbitrary: s)
  case (Cons rq rqs)
  have "zmq_owns opened (snd (zmq_handle zq (fst rq) (snd rq) s))"
    using zmq_publish_owns [OF assms(1) Cons.prems] zmq_trigger_start_owns [OF assms(1) Cons.prems]
      zmq_pull_owns [OF assms(1) Cons.prems] zmq_stop_owns [OF assms(1) Cons.prems] Cons.prems
    by (simp add: zmq_handle_def)
  from Cons.IH [OF this] show ?case by (cases rq) (simp add: split_beta Let_def)
qed simp

text \<open>
  C40. The ZeroMQ program holds its sockets.  Whatever the requests, whatever the network refuses: the
  sockets open are exactly the ones the program holds, at most one that publishes and one that
  subscribes, and none that subscribes once the trigger is stopped.
\<close>

theorem zmq_sockets_exact:
  assumes "zmq_lawful zq opened" "opened d = {}" "zmq_session zq rqs (zmq_start, d) = (rs, zs, d')"
  shows "opened d' = sockets_of zs \<and> card (opened d') \<le> 2 \<and>
    (\<forall>h. (h, False) \<notin> opened (snd (snd (zmq_handle zq ''trigger.stop'' params (zs, d')))))"
proof -
  have "zmq_owns opened (zmq_start, d)" using assms(2) by (simp add: zmq_owns_def zmq_start_def sockets_of_def)
  then have o: "zmq_owns opened (zs, d')" using zmq_session_owns [OF assms(1)] assms(3) by (metis snd_conv)
  have c: "card (sockets_of zs) \<le> 2"
    by (cases "zs_pub zs"; cases "zs_sub zs") (simp_all add: sockets_of_def card_insert_if)
  have "zmq_handle zq ''trigger.stop'' params (zs, d') = zmq_stop zq (zs, d')" by (simp add: zmq_handle_def)
  moreover have "zs_sub (fst (snd (zmq_stop zq (zs, d')))) = None" by (simp add: zmq_stop_def)
  ultimately have "\<forall>h. (h, False) \<notin> opened (snd (snd (zmq_handle zq ''trigger.stop'' params (zs, d'))))"
    using zmq_stop_owns [OF assms(1) o] by (auto simp: zmq_owns_def sockets_of_def)
  then show ?thesis using o c by (simp add: zmq_owns_def)
qed

text \<open>A network of open sockets and nothing to receive.\<close>

definition demo_zmq :: "(nat \<times> bool) list zmq" where
  "demo_zmq =
     \<lparr>zm_open = (\<lambda>k _ _ d. (Inr (Suc (fold max (map fst d) 0)), (Suc (fold max (map fst d) 0), k) # d)),
      zm_subscribe = (\<lambda>_ _ d. (Inr (), d)), zm_send = (\<lambda>_ _ d. (Inr (), d)), zm_recv = (\<lambda>_ _ d. (Zmq_Timeout, d)),
      zm_close = (\<lambda>h. filter (\<lambda>p. fst p \<noteq> h)), zm_sleep = (\<lambda>_ d. d), zm_utf8 = Inr, zm_print = (\<lambda>_. []),
      zm_parse = (\<lambda>_. None), zm_uuid = (\<lambda>d. ([], d)), zm_now = (\<lambda>d. ([], d))\<rparr>"

lemma demo_zmq_lawful: "zmq_lawful demo_zmq set"
proof -
  have "(Suc (fold max (map fst d) 0), k) \<notin> set d" for d :: "(nat \<times> bool) list" and k
  proof
    have m: "x \<le> fold max xs n" if "x \<in> set xs \<or> x \<le> n" for x n :: nat and xs
      using that by (induction xs arbitrary: n) (fastforce simp: le_max_iff_disj)+
    assume "(Suc (fold max (map fst d) 0), k) \<in> set d"
    then have "Suc (fold max (map fst d) 0) \<in> set (map fst d)" by force
    then show False using m [of "Suc (fold max (map fst d) 0)" "map fst d" 0] by linarith
  qed
  then show ?thesis by (auto simp: zmq_lawful_def demo_zmq_def)
qed

theorem zmq_sockets_exact_witness:
  "let config = JObject [(''config'', JObject [(''endpoint'', JString ''tcp://h:1'')]), (''payload'', JNull)];
       r = zmq_session demo_zmq [(''trigger.start'', config), (''bus.publish'', config), (''trigger.pull'', config)] (zmq_start, [])
   in set (snd (snd r)) = sockets_of (fst (snd r)) \<and> card (set (snd (snd r))) \<le> 2 \<and> length (snd (snd r)) = 2"
proof -
  let ?config = "JObject [(''config'', JObject [(''endpoint'', JString ''tcp://h:1'')]), (''payload'', JNull)]"
  let ?r = "zmq_session demo_zmq [(''trigger.start'', ?config), (''bus.publish'', ?config), (''trigger.pull'', ?config)] (zmq_start, [])"
  have "?r = (fst ?r, fst (snd ?r), snd (snd ?r))" by simp
  from zmq_sockets_exact [OF demo_zmq_lawful _ this]
  have "set (snd (snd ?r)) = sockets_of (fst (snd ?r)) \<and> card (set (snd (snd ?r))) \<le> 2"
    by (metis empty_set)
  moreover have "length (snd (snd ?r)) = 2" by code_simp
  ultimately show ?thesis unfolding Let_def by blast
qed

section \<open>Delivery\<close>

text \<open>
  What one program publishes another delivers.  A trigger that receives the message of a publication
  answers its pull with exactly one record, whose payload is the published one, when it has no topic or the
  same one; otherwise it answers with none, and the message is gone.
\<close>

theorem zmq_delivers:
  assumes "zm_parse zq (zmq_message zq topic v) = Some (JObject [(''topic'', JString topic), (''payload'', v)])"
    "zm_utf8 zq (zmq_message zq topic v) = Inr (zmq_message zq topic v)"
    "param_config params = Inr config" "\<not> zs_stopped zs" "zs_sub zs = Some h"
    "zm_recv zq h (or_default 100 (member_nat config ''timeout_ms'')) d = (Zmq_Message (Some (zmq_message zq topic v)), d')"
    "wanted = or_default [] (member_str config ''topic'')"
  shows "\<exists>d''. zmq_handle zq ''trigger.pull'' params (zs, d) =
    (Inr (pull_json (if wanted = [] \<or> wanted = topic
        then [zmq_record (fst (zm_uuid zq d')) (fst (zm_now zq (snd (zm_uuid zq d')))) (JObject [(''payload'', v)])] else []) False),
     zs, d'')"
proof -
  have "zmq_passes wanted (JObject [(''topic'', JString topic), (''payload'', v)]) \<longleftrightarrow> wanted = [] \<or> wanted = topic"
    by (auto simp: zmq_passes_def member_str_def member_def)
  then show ?thesis using assms
    by (auto simp: zmq_handle_def zmq_pull_def ensure_sub_socket_def zmq_deliver_def zmq_payload_def zmq_record_def
        member_def split_beta Let_def)
qed

end
