(* ===== verification/Plane_Api.thy ===== *)
theory Plane_Api
  imports Control_Props
begin

text \<open>
  The HTTP interface of the control plane: the agents' calls (\<^verbatim>\<open>sohara-plane/src/agent_api.rs\<close>), the
  manager's (\<^verbatim>\<open>manager.rs\<close>), the relay's (\<^verbatim>\<open>relay_api.rs\<close>) and the gateway behind one router with its
  token check (\<^verbatim>\<open>lib.rs\<close>), and the command line of the server (\<^verbatim>\<open>main.rs\<close>).  The decoding of bodies
  (derived \<^verbatim>\<open>serde\<close> code), the encoding of answers and the request to an instance's own admin interface
  are the parameter \<open>plane_codec\<close>.  As \<^verbatim>\<open>axum\<close> documents, a path that matches no route answers 404,
  a route without the method 405, and a body that is too large, not declared as JSON, no JSON or not
  of the type asked for 413, 415, 400 and 422.
\<close>

section \<open>Requests and answers\<close>

record plane_request =
  pq_method :: string
  pq_path :: string
  pq_headers :: "string \<Rightarrow> string option"
  pq_body :: "string option"

datatype plane_body = PB_Json json | PB_Text string | PB_Empty

record plane_reply =
  pr_status :: nat
  pr_body :: plane_body

record plane_codec =
  pc_json :: "string \<Rightarrow> json option"
  pc_is_json :: "string \<Rightarrow> bool"
  pc_segment :: "string \<Rightarrow> string option"
  pc_instance :: "json \<Rightarrow> instance_decl option"
  pc_desired :: "json \<Rightarrow> desired option"
  pc_flow :: "json \<Rightarrow> flow_decl option"
  pc_route :: "json \<Rightarrow> route_decl option"
  pc_heartbeat :: "json \<Rightarrow> heartbeat_msg option"
  pc_ack :: "json \<Rightarrow> command_ack option"
  pc_publish :: "json \<Rightarrow> (string \<times> json) option"
  pc_pull :: "json \<Rightarrow> (string \<times> pull_subscription list) option"
  pc_nodes :: "node_view list \<Rightarrow> json"
  pc_instances :: "instance_view list \<Rightarrow> json"
  pc_flows :: "flow_decl list \<Rightarrow> json"
  pc_routes :: "route_decl list \<Rightarrow> json"
  pc_response :: "heartbeat_response \<Rightarrow> json"
  pc_messages :: "relay_message list \<Rightarrow> pull_subscription list \<Rightarrow> json"
  pc_status :: "string \<Rightarrow> string option \<Rightarrow> (nat \<times> string) option"
  pc_page :: string

definition status_reply :: "nat \<Rightarrow> plane_reply" where
  "status_reply n = \<lparr>pr_status = n, pr_body = PB_Empty\<rparr>"

definition text_reply :: "nat \<Rightarrow> string \<Rightarrow> plane_reply" where
  "text_reply n text = \<lparr>pr_status = n, pr_body = PB_Text text\<rparr>"

definition json_reply :: "json \<Rightarrow> plane_reply" where
  "json_reply v = \<lparr>pr_status = 200, pr_body = PB_Json v\<rparr>"

text \<open>The \<^verbatim>\<open>Json\<close> extractor: the body, or the status of its rejection.\<close>

definition json_body :: "plane_codec \<Rightarrow> (json \<Rightarrow> 'a option) \<Rightarrow> plane_request \<Rightarrow> nat + 'a" where
  "json_body pc decode rq =
     (if \<not> (case pq_headers rq ''content-type'' of None \<Rightarrow> False | Some t \<Rightarrow> pc_is_json pc t) then Inl 415
      else case pq_body rq of
        None \<Rightarrow> Inl 413
      | Some text \<Rightarrow>
          (case pc_json pc text of
             None \<Rightarrow> Inl 400
           | Some v \<Rightarrow> (case decode v of None \<Rightarrow> Inl 422 | Some x \<Rightarrow> Inr x)))"

type_synonym plane_handler = "registry_state \<Rightarrow> plane_reply \<times> registry_state"

definition with_body :: "plane_codec \<Rightarrow> (json \<Rightarrow> 'a option) \<Rightarrow> plane_request \<Rightarrow> ('a \<Rightarrow> plane_handler) \<Rightarrow> plane_handler" where
  "with_body pc decode rq f r = (case json_body pc decode rq of Inl n \<Rightarrow> (status_reply n, r) | Inr x \<Rightarrow> f x r)"

text \<open>The segment of a path parameter, percent-decoded.\<close>

definition with_segment :: "plane_codec \<Rightarrow> string \<Rightarrow> (string \<Rightarrow> plane_handler) \<Rightarrow> plane_handler" where
  "with_segment pc seg f r = (case pc_segment pc seg of None \<Rightarrow> (status_reply 400, r) | Some i \<Rightarrow> f i r)"

definition outcome_status :: "nat \<Rightarrow> (string + unit) \<times> registry_state \<Rightarrow> plane_reply \<times> registry_state" where
  "outcome_status n res = (status_reply (case fst res of Inr _ \<Rightarrow> n | Inl _ \<Rightarrow> 500), snd res)"

section \<open>Handlers of the agents\<close>

definition api_heartbeat :: "plane_env \<Rightarrow> plane_codec \<Rightarrow> plane_request \<Rightarrow> plane_handler" where
  "api_heartbeat env pc rq =
     with_body pc (pc_heartbeat pc) rq (\<lambda>hb r.
       (json_reply (pc_response pc (fst (heartbeat env hb (rg_inner r)))),
        upd_inner (\<lambda>s. snd (heartbeat env hb s)) r))"

definition api_ack :: "plane_codec \<Rightarrow> plane_request \<Rightarrow> plane_handler" where
  "api_ack pc rq = with_body pc (pc_ack pc) rq (\<lambda>a r. (status_reply 200, upd_inner (ack a) r))"

section \<open>Handlers of the manager\<close>

definition api_events :: plane_handler where
  "api_events r = (json_reply (JArray (list_events (rg_inner r))), r)"

definition instance_status :: "plane_codec \<Rightarrow> string \<Rightarrow> plane_handler" where
  "instance_status pc i r =
     ((case instance_decl_of (rg_inner r) i of
         None \<Rightarrow> text_reply 404 ''unknown instance''
       | Some decl \<Rightarrow>
           (case sp_admin (dc_spec decl) of
              None \<Rightarrow> text_reply 503 ''instance has no admin address''
            | Some admin \<Rightarrow>
                (case pc_status pc (''http://'' @ admin @ ''/admin/status'') (sp_admin_token (dc_spec decl)) of
                   None \<Rightarrow> text_reply 502 ''instance unreachable''
                 | Some (status, body) \<Rightarrow>
                     \<lparr>pr_status = status, pr_body = PB_Json (case pc_json pc body of Some v \<Rightarrow> v | None \<Rightarrow> JString body)\<rparr>))), r)"

definition api_ui :: "plane_codec \<Rightarrow> plane_handler" where
  "api_ui pc r = (text_reply 200 (pc_page pc), r)"

definition api_nodes :: "plane_env \<Rightarrow> plane_codec \<Rightarrow> plane_handler" where
  "api_nodes env pc r = (json_reply (pc_nodes pc (list_nodes env (rg_inner r))), r)"

definition api_instances :: "plane_env \<Rightarrow> plane_codec \<Rightarrow> plane_handler" where
  "api_instances env pc r = (json_reply (pc_instances pc (list_instances env (rg_inner r))), r)"

definition api_declare_instance :: "plane_env \<Rightarrow> plane_codec \<Rightarrow> plane_request \<Rightarrow> plane_handler" where
  "api_declare_instance env pc rq =
     with_body pc (pc_instance pc) rq (\<lambda>decl r. outcome_status 201 (declare_instance env decl r))"

definition api_set_desired :: "plane_env \<Rightarrow> plane_codec \<Rightarrow> plane_request \<Rightarrow> string \<Rightarrow> plane_handler" where
  "api_set_desired env pc rq i =
     with_body pc (pc_desired pc) rq (\<lambda>d r. outcome_status 200 (set_desired env i d r))"

definition api_remove_instance :: "plane_env \<Rightarrow> string \<Rightarrow> plane_handler" where
  "api_remove_instance env i r = outcome_status 200 (remove_instance env i r)"

definition api_flows :: "plane_env \<Rightarrow> plane_codec \<Rightarrow> plane_handler" where
  "api_flows env pc r = (json_reply (pc_flows pc (list_flows env (rg_inner r))), r)"

definition api_routes :: "plane_env \<Rightarrow> plane_codec \<Rightarrow> plane_handler" where
  "api_routes env pc r = (json_reply (pc_routes pc (list_routes env (rg_inner r))), r)"

definition api_declare_route :: "plane_env \<Rightarrow> plane_codec \<Rightarrow> plane_request \<Rightarrow> plane_handler" where
  "api_declare_route env pc rq =
     with_body pc (pc_route pc) rq (\<lambda>rt r. outcome_status 201 (declare_route env rt r))"

definition api_remove_route :: "plane_env \<Rightarrow> string \<Rightarrow> plane_handler" where
  "api_remove_route env i r = outcome_status 200 (remove_route env i r)"

definition api_put_flow :: "plane_env \<Rightarrow> plane_codec \<Rightarrow> plane_request \<Rightarrow> plane_handler" where
  "api_put_flow env pc rq = with_body pc (pc_flow pc) rq (\<lambda>f r. outcome_status 201 (put_flow env f r))"

section \<open>Handlers of the relay\<close>

definition api_relay_publish :: "plane_codec \<Rightarrow> plane_request \<Rightarrow> plane_handler" where
  "api_relay_publish pc rq =
     with_body pc (pc_publish pc) rq (\<lambda>(topic, v) r. (status_reply 202, upd_inner (relay_publish topic v) r))"

definition api_relay_pull :: "plane_codec \<Rightarrow> plane_request \<Rightarrow> plane_handler" where
  "api_relay_pull pc rq =
     with_body pc (pc_pull pc) rq (\<lambda>(subscriber, subs) r.
       let subs = map (\<lambda>s. (pb_topic s, pb_after s)) subs;
           (msgs, next, _) = relay_pull subscriber subs (rg_inner r)
       in (json_reply (pc_messages pc msgs next),
           upd_inner (\<lambda>s. snd (snd (relay_pull subscriber subs s))) r))"

section \<open>Routers\<close>

text \<open>A route is the list of its methods with their handlers; \<open>*\<close> stands for every method.\<close>

definition agent_router :: "plane_env \<Rightarrow> plane_codec \<Rightarrow> plane_request \<Rightarrow> string list \<Rightarrow> (string \<times> plane_handler) list option" where
  "agent_router env pc rq segs =
     (if segs = [''agent'', ''heartbeat''] then Some [(''POST'', api_heartbeat env pc rq)]
      else if segs = [''agent'', ''ack''] then Some [(''POST'', api_ack pc rq)]
      else None)"

definition instance_router :: "plane_env \<Rightarrow> plane_codec \<Rightarrow> plane_request \<Rightarrow> string list \<Rightarrow> (string \<times> plane_handler) list option" where
  "instance_router env pc rq segs =
     (case segs of
        [i] \<Rightarrow> if i = [] then None
          else Some [(''DELETE'', with_segment pc i (api_remove_instance env))]
      | [i, action] \<Rightarrow>
          if i = [] then None
          else if action = ''desired'' then Some [(''PUT'', with_segment pc i (api_set_desired env pc rq))]
          else if action = ''status'' then Some [(''GET'', with_segment pc i (instance_status pc))]
          else None
      | _ \<Rightarrow> None)"

definition manager_router :: "plane_env \<Rightarrow> plane_codec \<Rightarrow> plane_request \<Rightarrow> string list \<Rightarrow> (string \<times> plane_handler) list option" where
  "manager_router env pc rq segs =
     (if segs = [''api'', ''nodes''] then Some [(''GET'', api_nodes env pc)]
      else if segs = [''api'', ''instances''] then
        Some [(''GET'', api_instances env pc), (''POST'', api_declare_instance env pc rq)]
      else if take 2 segs = [''api'', ''instances''] then instance_router env pc rq (drop 2 segs)
      else if segs = [''api'', ''flows''] then Some [(''GET'', api_flows env pc), (''POST'', api_put_flow env pc rq)]
      else if segs = [''api'', ''routes''] then Some [(''GET'', api_routes env pc), (''POST'', api_declare_route env pc rq)]
      else if take 2 segs = [''api'', ''routes''] then
        (case drop 2 segs of
           [i] \<Rightarrow> if i = [] then None else Some [(''DELETE'', with_segment pc i (api_remove_route env))]
         | _ \<Rightarrow> None)
      else if segs = [''api'', ''events''] then Some [(''GET'', api_events)]
      else if segs = [''ui''] then Some [(''GET'', api_ui pc)]
      else None)"

definition relay_router :: "plane_codec \<Rightarrow> plane_request \<Rightarrow> string list \<Rightarrow> (string \<times> plane_handler) list option" where
  "relay_router pc rq segs =
     (if segs = [''relay'', ''publish''] then Some [(''POST'', api_relay_publish pc rq)]
      else if segs = [''relay'', ''pull''] then Some [(''POST'', api_relay_pull pc rq)]
      else None)"

text \<open>The gateway takes the rest of the path, its first slash dropped and percent-decoded.\<close>

record gateway_env =
  ge_hash :: "string \<Rightarrow> string \<Rightarrow> nat"
  ge_decode :: "string \<Rightarrow> json option"
  ge_forward :: "string \<Rightarrow> forward_request \<Rightarrow> gateway_reply option"

definition api_gateway :: "plane_env \<Rightarrow> gateway_env \<Rightarrow> plane_request \<Rightarrow> string \<Rightarrow> plane_handler" where
  "api_gateway env ge rq path r =
     (case pq_body rq of
        None \<Rightarrow> (status_reply 413, r)
      | Some body \<Rightarrow>
          (let fr = \<lparr>fr_path = path, fr_method = pq_method rq, fr_headers = pq_headers rq, fr_body = body\<rparr>;
               reply = fst (gateway env (ge_hash ge) (ge_decode ge) (ge_forward ge) fr (rg_inner r))
           in (text_reply (gr_status reply) (gr_body reply),
               upd_inner (\<lambda>s. snd (gateway env (ge_hash ge) (ge_decode ge) (ge_forward ge) fr s)) r)))"

definition gateway_router :: "plane_env \<Rightarrow> gateway_env \<Rightarrow> plane_codec \<Rightarrow> plane_request \<Rightarrow> (string \<times> plane_handler) list option" where
  "gateway_router env ge pc rq =
     (if starts_with (pq_path rq) ''/gw/'' \<and> pq_path rq \<noteq> ''/gw/''
      then Some [(''*'', with_segment pc (drop 4 (pq_path rq)) (api_gateway env ge rq))]
      else None)"

definition answer :: "plane_request \<Rightarrow> (string \<times> plane_handler) list \<Rightarrow> plane_handler" where
  "answer rq methods r =
     (case map_of methods ''*'' of
        Some f \<Rightarrow> f r
      | None \<Rightarrow>
          (case map_of methods (if pq_method rq = ''HEAD'' then ''GET'' else pq_method rq) of
             Some f \<Rightarrow> f r
           | None \<Rightarrow> (status_reply 405, r)))"

definition guarded_router :: "plane_env \<Rightarrow> plane_codec \<Rightarrow> plane_request \<Rightarrow> (string \<times> plane_handler) list option" where
  "guarded_router env pc rq =
     (let segs = (if take 1 (pq_path rq) = ''/'' then split_on (CHR ''/'') (drop 1 (pq_path rq)) else []) in
      case agent_router env pc rq segs of
        Some ms \<Rightarrow> Some ms
      | None \<Rightarrow> (case manager_router env pc rq segs of Some ms \<Rightarrow> Some ms | None \<Rightarrow> relay_router pc rq segs))"

definition plane_serve :: "plane_env \<Rightarrow> gateway_env \<Rightarrow> plane_codec \<Rightarrow> string option \<Rightarrow> plane_request \<Rightarrow> plane_handler" where
  "plane_serve env ge pc token rq r =
     (case guarded_router env pc rq of
        Some ms \<Rightarrow> if auth token (pq_headers rq) then answer rq ms r else (text_reply 401 ''unauthorized'', r)
      | None \<Rightarrow>
          (case gateway_router env ge pc rq of
             Some ms \<Rightarrow> answer rq ms r
           | None \<Rightarrow> (status_reply 404, r)))"

fun plane_session ::
    "plane_env \<Rightarrow> gateway_env \<Rightarrow> plane_codec \<Rightarrow> string option \<Rightarrow> plane_request list \<Rightarrow> registry_state \<Rightarrow>
     plane_reply list \<times> registry_state" where
  "plane_session env ge pc token [] r = ([], r)"
| "plane_session env ge pc token (rq # rqs) r =
     (let (p, r) = plane_serve env ge pc token rq r; (ps, r) = plane_session env ge pc token rqs r in (p # ps, r))"

section \<open>The server program\<close>

record plane_args =
  pa_addr :: string
  pa_state :: "string option"
  pa_token :: "string option"

datatype plane_usage = Usage_Ok plane_args | Usage_Panic string | Usage_Exit nat

fun parse_args :: "string list \<Rightarrow> plane_args \<Rightarrow> plane_usage" where
  "parse_args [] a = Usage_Ok a"
| "parse_args [arg] a =
     (if arg \<in> {''--addr'', ''--state'', ''--token''} then Usage_Panic (arg @ '' value'') else Usage_Exit 2)"
| "parse_args (arg # v # args) a =
     (if arg = ''--addr'' then parse_args args (a\<lparr>pa_addr := v\<rparr>)
      else if arg = ''--state'' then parse_args args (a\<lparr>pa_state := Some v\<rparr>)
      else if arg = ''--token'' then parse_args args (a\<lparr>pa_token := Some v\<rparr>)
      else Usage_Exit 2)"

definition default_args :: plane_args where
  "default_args = \<lparr>pa_addr = ''127.0.0.1:9600'', pa_state = None, pa_token = None\<rparr>"

text \<open>The registry is loaded before the address is bound; \<open>bind\<close> is the reason an address cannot be.\<close>

datatype plane_end = Plane_Usage plane_usage | Plane_Bind_Failed string | Plane_Served "plane_reply list" registry_state

definition plane_main ::
    "plane_env \<Rightarrow> gateway_env \<Rightarrow> plane_codec \<Rightarrow> (string \<Rightarrow> string option) \<Rightarrow> (string \<times> string) list \<Rightarrow> nat \<Rightarrow>
     string list \<Rightarrow> plane_request list \<Rightarrow> plane_end" where
  "plane_main env ge pc bind disk n args rqs =
     (case parse_args args default_args of
        Usage_Ok a \<Rightarrow>
          (let r = registry_load env (pa_state a) disk n in
           case bind (pa_addr a) of
             Some e \<Rightarrow> Plane_Bind_Failed e
           | None \<Rightarrow> (let (ps, r) = plane_session env ge pc (pa_token a) rqs r in Plane_Served ps r))
      | u \<Rightarrow> Plane_Usage u)"

section \<open>Requests are steps of the plane\<close>

definition handler_ok :: "plane_env \<Rightarrow> plane_handler \<Rightarrow> bool" where
  "handler_ok env h \<longleftrightarrow> (\<forall>r. snd (h r) = r \<or> plane_step env r (snd (h r)))"

definition reads_only :: "plane_handler \<Rightarrow> bool" where
  "reads_only h \<longleftrightarrow> (\<forall>r. snd (h r) = r)"

lemma handler_okI: "(\<And>r. plane_step env r (snd (h r))) \<Longrightarrow> handler_ok env h"
  by (simp add: handler_ok_def)

lemma reads_only_ok: "reads_only h \<Longrightarrow> handler_ok env h"
  by (simp add: handler_ok_def reads_only_def)

lemma with_body_ok: "(\<And>x. handler_ok env (f x)) \<Longrightarrow> handler_ok env (with_body pc decode rq f)"
  by (auto simp: handler_ok_def with_body_def split: sum.splits)

lemma with_segment_ok: "(\<And>i. handler_ok env (f i)) \<Longrightarrow> handler_ok env (with_segment pc seg f)"
  by (auto simp: handler_ok_def with_segment_def split: option.splits)

lemma with_segment_reads: "(\<And>i. reads_only (f i)) \<Longrightarrow> reads_only (with_segment pc seg f)"
  by (auto simp: reads_only_def with_segment_def split: option.splits)

lemma operator_ok: "(\<And>r. operator_step env r (snd (h r))) \<Longrightarrow> handler_ok env h"
  by (rule handler_okI) (rule Operator)

lemma agent_handlers_ok : "handler_ok env (api_heartbeat env pc rq)" "handler_ok env (api_ack pc rq)"
  unfolding api_heartbeat_def api_ack_def
  by (rule with_body_ok; rule handler_okI; simp add: plane_step.intros)+

lemma manager_reads :
  "reads_only api_events" "reads_only (instance_status pc i)" "reads_only (api_ui pc)" "reads_only (api_nodes env pc)"
  "reads_only (api_instances env pc)" "reads_only (api_flows env pc)" "reads_only (api_routes env pc)"
  by (simp_all add: reads_only_def api_events_def instance_status_def api_ui_def api_nodes_def api_instances_def
      api_flows_def api_routes_def)

lemma manager_writes :
  "handler_ok env (api_declare_instance env pc rq)" "handler_ok env (api_set_desired env pc rq i)"
  "handler_ok env (api_declare_route env pc rq)" "handler_ok env (api_put_flow env pc rq)"
  unfolding api_declare_instance_def api_set_desired_def api_declare_route_def api_put_flow_def
  by (rule with_body_ok; rule operator_ok; simp add: outcome_status_def operator_step.intros)+

lemma manager_removes :
  "handler_ok env (api_remove_instance env i)" "handler_ok env (api_remove_route env i)"
  by (rule operator_ok; simp add: api_remove_instance_def api_remove_route_def outcome_status_def operator_step.intros)+

lemma relay_handlers_ok : "handler_ok env (api_relay_publish pc rq)" "handler_ok env (api_relay_pull pc rq)"
  unfolding api_relay_publish_def api_relay_pull_def
  by (rule with_body_ok; rule operator_ok; simp add: split_beta Let_def operator_step.intros)+

lemma api_gateway_ok : "handler_ok env (api_gateway env ge rq path)"
  unfolding handler_ok_def api_gateway_def
  by (auto simp: Let_def split: option.splits intro!: Operator Gateway)

definition methods_ok :: "plane_env \<Rightarrow> (string \<times> plane_handler) list \<Rightarrow> bool" where
  "methods_ok env ms \<longleftrightarrow> (\<forall>m h. (m, h) \<in> set ms \<longrightarrow>
     handler_ok env h \<and> m \<noteq> ''*'' \<and> m \<noteq> ''HEAD'' \<and> (m = ''GET'' \<longrightarrow> reads_only h))"

lemma methods_ok_simps:
  "methods_ok env []"
  "methods_ok env ((m, h) # ms) \<longleftrightarrow>
     handler_ok env h \<and> m \<noteq> ''*'' \<and> m \<noteq> ''HEAD'' \<and> (m = ''GET'' \<longrightarrow> reads_only h) \<and> methods_ok env ms"
  by (auto simp: methods_ok_def)

lemmas handlers_ok = agent_handlers_ok manager_reads manager_reads [THEN reads_only_ok] manager_writes manager_removes
  relay_handlers_ok with_segment_ok with_segment_reads

lemma instance_router_ok: "instance_router env pc rq segs = Some ms \<Longrightarrow> methods_ok env ms"
  by (auto simp: instance_router_def methods_ok_simps handlers_ok split: list.splits if_splits)

lemma manager_router_ok: "manager_router env pc rq segs = Some ms \<Longrightarrow> methods_ok env ms"
  by (auto simp: manager_router_def methods_ok_simps handlers_ok split: list.splits if_splits dest: instance_router_ok)

lemma agent_router_ok: "agent_router env pc rq segs = Some ms \<Longrightarrow> methods_ok env ms"
  by (auto simp: agent_router_def methods_ok_simps handlers_ok split: if_splits)

lemma relay_router_ok: "relay_router pc rq segs = Some ms \<Longrightarrow> methods_ok env ms"
  by (auto simp: relay_router_def methods_ok_simps handlers_ok split: if_splits)

lemma guarded_router_ok: "guarded_router env pc rq = Some ms \<Longrightarrow> methods_ok env ms"
  unfolding guarded_router_def Let_def
  by (auto split: option.splits dest: agent_router_ok manager_router_ok relay_router_ok)

lemma answer_ok:
  assumes "methods_ok env ms"
  shows "snd (answer rq ms r) = r \<or> plane_step env r (snd (answer rq ms r))"
    "pq_method rq \<in> {''GET'', ''HEAD''} \<Longrightarrow> snd (answer rq ms r) = r"
proof -
  have star: "map_of ms ''*'' = None"
    using assms unfolding methods_ok_def by (metis map_of_SomeD option.exhaust)
  have h: "handler_ok env h \<and> (m = ''GET'' \<longrightarrow> reads_only h)" if "map_of ms m = Some h" for m h
    using assms map_of_SomeD [OF that] by (auto simp: methods_ok_def)
  show "snd (answer rq ms r) = r \<or> plane_step env r (snd (answer rq ms r))"
    using h star by (auto simp: answer_def handler_ok_def split: option.splits)
  show "snd (answer rq ms r) = r" if "pq_method rq \<in> {''GET'', ''HEAD''}"
    using h [of "''GET''"] star that by (auto simp: answer_def reads_only_def split: option.splits)
qed

lemma gateway_answer_ok:
  assumes "gateway_router env ge pc rq = Some ms"
  shows "snd (answer rq ms r) = r \<or> plane_step env r (snd (answer rq ms r))"
  using assms with_segment_ok [of env "api_gateway env ge rq" pc "drop 4 (pq_path rq)", OF api_gateway_ok]
  by (auto simp: gateway_router_def answer_def handler_ok_def split: if_splits)

lemma plane_serve_step:
  "snd (plane_serve env ge pc token rq r) = r \<or> plane_step env r (snd (plane_serve env ge pc token rq r))"
  using guarded_router_ok [of env pc rq] answer_ok(1) [of env] gateway_answer_ok [of env ge pc rq]
  by (auto simp: plane_serve_def split: option.splits)

lemma plane_session_steps: "(plane_step env)\<^sup>*\<^sup>* r (snd (plane_session env ge pc token rqs r))"
proof (induction rqs arbitrary: r)
  case (Cons rq rqs)
  have "(plane_step env)\<^sup>*\<^sup>* r (snd (plane_serve env ge pc token rq r))"
    using plane_serve_step [of env ge pc token rq r] by auto
  from rtranclp_trans [OF this Cons.IH] show ?case by (simp add: split_beta Let_def)
qed simp

text \<open>
  C23. The plane's interface outside the gateway is guarded.  For a request that is not the gateway's:
  when a token is set and the request is without it, it is answered 401 or 404 and changes nothing;
  with or without a token, reading (\<^verbatim>\<open>GET\<close> or \<^verbatim>\<open>HEAD\<close>) changes nothing.  Requests the gateway takes
  need no token, and even a \<^verbatim>\<open>GET\<close> there may change the plane: it publishes on a route to a bus, and on
  a route to instances it advances the round robin.
\<close>

theorem plane_api_guarded:
  assumes "gateway_router env ge pc rq = None"
  shows "(\<not> auth token (pq_headers rq) \<longrightarrow>
      pr_status (fst (plane_serve env ge pc token rq r)) \<in> {401, 404} \<and> snd (plane_serve env ge pc token rq r) = r) \<and>
    (pq_method rq = ''GET'' \<or> pq_method rq = ''HEAD'' \<longrightarrow> snd (plane_serve env ge pc token rq r) = r)"
  using assms guarded_router_ok [of env pc rq] answer_ok(2) [of env]
  by (auto simp: plane_serve_def text_reply_def status_reply_def split: option.splits)

text \<open>
  C38. The server keeps the plane well formed.  A server that was started with any arguments over any state
  file has, after any requests from agents, operators, relays and the public, only taken steps of the
  plane: its command queues are sorted and free of duplicates, every command is one the agent
  understands, and at most 200 events are kept.
\<close>

theorem plane_server_well_formed:
  assumes "plane_main env ge pc bind disk n args rqs = Plane_Served ps r"
  shows "\<exists>path. (plane_step env)\<^sup>*\<^sup>* (registry_load env path disk n) r \<and>
    (\<forall>node. let cs = pending_of (rg_inner r) node in
      sorted_wrt (<) (map cm_seq cs) \<and> distinct (map (\<lambda>c. (cm_instance c, cm_op c)) cs) \<and>
      list_all (\<lambda>c. parse_op (cm_op c) \<noteq> None) cs) \<and>
    length (list_events (rg_inner r)) \<le> 200"
proof -
  obtain a where "parse_args args default_args = Usage_Ok a"
    using assms by (cases "parse_args args default_args") (simp_all add: plane_main_def)
  then have "r = snd (plane_session env ge pc (pa_token a) rqs (registry_load env (pa_state a) disk n))"
    using assms by (simp add: plane_main_def split_beta Let_def split: option.splits)
  then have s: "(plane_step env)\<^sup>*\<^sup>* (registry_load env (pa_state a) disk n) r" using plane_session_steps by simp
  have "plane_ok (rg_inner r)" using plane_steps_ok [OF s registry_load_ok] .
  with s show ?thesis
    by (auto simp: plane_ok_def queue_ok_def list_events_def event_cap_def Let_def list_all_iff)
qed

text \<open>A codec that reads every body as one declaration.\<close>

definition demo_codec :: plane_codec where
  "demo_codec =
     \<lparr>pc_json = (\<lambda>s. Some (JString s)), pc_is_json = (\<lambda>t. t = ''application/json''), pc_segment = Some,
      pc_instance = (\<lambda>_. Some (demo_decl ''i'' D_Running)), pc_desired = (\<lambda>_. Some D_Stopped),
      pc_flow = (\<lambda>_. None), pc_route = (\<lambda>_. None), pc_heartbeat = (\<lambda>_. Some (demo_heartbeat Stopped)),
      pc_ack = (\<lambda>_. None), pc_publish = (\<lambda>_. None), pc_pull = (\<lambda>_. None), pc_nodes = (\<lambda>_. JNull),
      pc_instances = (\<lambda>_. JNull), pc_flows = (\<lambda>_. JNull), pc_routes = (\<lambda>_. JNull), pc_response = (\<lambda>_. JNull),
      pc_messages = (\<lambda>_ _. JNull), pc_status = (\<lambda>_ _. None), pc_page = []\<rparr>"

definition demo_gateway :: gateway_env where
  "demo_gateway = \<lparr>ge_hash = (\<lambda>_ _. 0), ge_decode = (\<lambda>_. None), ge_forward = (\<lambda>_ _. None)\<rparr>"

definition demo_request :: "string \<Rightarrow> string \<Rightarrow> string option \<Rightarrow> plane_request" where
  "demo_request meth path key =
     \<lparr>pq_method = meth, pq_path = path,
      pq_headers = (\<lambda>h. if h = ''content-type'' then Some ''application/json''
        else if h = ''authorization'' then key else None), pq_body = Some []\<rparr>"

theorem plane_api_guarded_witness:
  "snd (plane_serve plain_plane demo_gateway demo_codec (Some ''secret'')
      (demo_request ''POST'' ''/api/instances'' (Some ''Bearer guess'')) demo_registry) = demo_registry \<and>
   \<not> auth (Some ''secret'') (pq_headers (demo_request ''POST'' ''/api/instances'' (Some ''Bearer guess'')))"
proof -
  let ?rq = "demo_request ''POST'' ''/api/instances'' (Some ''Bearer guess'')"
  have "gateway_router plain_plane demo_gateway demo_codec ?rq = None"
    by (simp add: gateway_router_def demo_request_def starts_with_def)
  moreover have "\<not> auth (Some ''secret'') (pq_headers ?rq)"
    by (simp add: demo_request_def auth_def bearer_matches_def starts_with_def)
  ultimately show ?thesis using plane_api_guarded by blast
qed

definition demo_requests :: "plane_request list" where
  "demo_requests = [demo_request ''POST'' ''/api/instances'' (Some ''Bearer secret''),
     demo_request ''POST'' ''/agent/heartbeat'' (Some ''Bearer secret''), demo_request ''PUT'' ''/api/instances/i/desired'' None]"

lemma demo_serves:
  "case plane_main plain_plane demo_gateway demo_codec (\<lambda>_. None) [] 0 [''--token'', ''secret''] demo_requests of
     Plane_Served ps r \<Rightarrow> map pr_status ps = [201, 200, 401] \<and> map cm_op (pending_of (rg_inner r) ''n'') = [''start'']
   | _ \<Rightarrow> False"
  by code_simp

theorem plane_server_well_formed_witness:
  "\<exists>ps r. plane_main plain_plane demo_gateway demo_codec (\<lambda>_. None) [] 0 [''--token'', ''secret''] demo_requests = Plane_Served ps r \<and>
     map pr_status ps = [201, 200, 401] \<and> length (pending_of (rg_inner r) ''n'') = 1 \<and>
     list_all (\<lambda>c. parse_op (cm_op c) \<noteq> None) (pending_of (rg_inner r) ''n'')"
proof -
  obtain ps r where m: "plane_main plain_plane demo_gateway demo_codec (\<lambda>_. None) [] 0 [''--token'', ''secret''] demo_requests
      = Plane_Served ps r" "map pr_status ps = [201, 200, 401]" "map cm_op (pending_of (rg_inner r) ''n'') = [''start'']"
    using demo_serves by (auto split: plane_end.splits)
  moreover have "length (pending_of (rg_inner r) ''n'') = 1" using m(3) by (metis length_Cons length_map list.size(3) One_nat_def)
  ultimately show ?thesis using plane_server_well_formed [OF m(1)] by (auto simp: Let_def)
qed

end
