(* ===== verification/Agent_Http.thy ===== *)
theory Agent_Http
  imports Plane_Api
begin

text \<open>
  The transport of the agent (\<^verbatim>\<open>HttpTransport\<close> in \<^verbatim>\<open>sohara-agent/src/transport.rs\<close>): heartbeats and
  acknowledgements as HTTP requests, and what they come to when they reach the server of the plane; and the
  loop of the agent over it (\<^verbatim>\<open>Agent::run\<close>).  The HTTP client with the network is a function from requests to
  replies; \<open>agent_codec\<close> is serde.
\<close>

section \<open>Transport\<close>

datatype transport_error = T_Wire string | T_Status string nat | T_Decode string

record http_transport =
  tr_prefix :: string
  tr_token :: "string option"

record agent_codec =
  ac_heartbeat :: "heartbeat_msg \<Rightarrow> string"
  ac_ack :: "command_ack \<Rightarrow> string"
  ac_response :: "json \<Rightarrow> string + heartbeat_response"

type_synonym 'p wire = "plane_request \<Rightarrow> 'p \<Rightarrow> (string + plane_reply) \<times> 'p"

definition post_request :: "http_transport \<Rightarrow> string \<Rightarrow> string \<Rightarrow> plane_request" where
  "post_request tr path body =
     \<lparr>pq_method = ''POST'', pq_path = tr_prefix tr @ path,
      pq_headers = (\<lambda>h. if h = ''content-type'' then Some ''application/json''
        else if h = ''authorization'' then map_option (\<lambda>t. ''Bearer '' @ t) (tr_token tr) else None),
      pq_body = Some body\<rparr>"

definition post_checked :: "'p wire \<Rightarrow> http_transport \<Rightarrow> string \<Rightarrow> string \<Rightarrow> 'p \<Rightarrow> (transport_error + plane_reply) \<times> 'p" where
  "post_checked wire tr path body p =
     (case wire (post_request tr path body) p of
        (Inl e, p) \<Rightarrow> (Inl (T_Wire e), p)
      | (Inr reply, p) \<Rightarrow>
          (if 200 \<le> pr_status reply \<and> pr_status reply < 300 then Inr reply else Inl (T_Status path (pr_status reply)), p))"

definition transport_send ::
    "(json \<Rightarrow> string + 'a) \<Rightarrow> 'p wire \<Rightarrow> http_transport \<Rightarrow> string \<Rightarrow> string \<Rightarrow> 'p \<Rightarrow> (transport_error + 'a) \<times> 'p" where
  "transport_send decode wire tr path body p =
     (case post_checked wire tr path body p of
        (r, p) \<Rightarrow>
          (rbind r (\<lambda>reply.
             case pr_body reply of
               PB_Json v \<Rightarrow> (case decode v of Inl e \<Rightarrow> Inl (T_Decode e) | Inr x \<Rightarrow> Inr x)
             | _ \<Rightarrow> Inl (T_Decode ''expected value'')), p))"

definition post_status :: "'p wire \<Rightarrow> http_transport \<Rightarrow> string \<Rightarrow> string \<Rightarrow> 'p \<Rightarrow> (transport_error + unit) \<times> 'p" where
  "post_status wire tr path body p =
     (case post_checked wire tr path body p of (r, p) \<Rightarrow> (rbind r (\<lambda>_. Inr ()), p))"

definition transport_heartbeat ::
    "agent_codec \<Rightarrow> 'p wire \<Rightarrow> http_transport \<Rightarrow> heartbeat_msg \<Rightarrow> 'p \<Rightarrow> (transport_error + heartbeat_response) \<times> 'p" where
  "transport_heartbeat ac wire tr hb = transport_send (ac_response ac) wire tr ''/agent/heartbeat'' (ac_heartbeat ac hb)"

definition transport_ack ::
    "agent_codec \<Rightarrow> 'p wire \<Rightarrow> http_transport \<Rightarrow> command_ack \<Rightarrow> 'p \<Rightarrow> (transport_error + unit) \<times> 'p" where
  "transport_ack ac wire tr a = post_status wire tr ''/agent/ack'' (ac_ack ac a)"

section \<open>To the server of the plane\<close>

definition plane_wire :: "plane_env \<Rightarrow> gateway_env \<Rightarrow> plane_codec \<Rightarrow> string option \<Rightarrow> registry_state wire" where
  "plane_wire env ge pc token rq r = (case plane_serve env ge pc token rq r of (reply, r) \<Rightarrow> (Inr reply, r))"

definition admitted :: "string option \<Rightarrow> http_transport \<Rightarrow> bool" where
  "admitted token tr \<longleftrightarrow> token = None \<or> tr_token tr = token"

lemma auth_post [simp]: "auth token (pq_headers (post_request tr path body)) \<longleftrightarrow> admitted token tr"
  by (cases token; cases "tr_token tr")
    (auto simp: auth_def bearer_matches_def post_request_def admitted_def starts_with_def)

lemma agent_paths [simp]:
  "tr_prefix tr = [] \<Longrightarrow> guarded_router env pc (post_request tr ''/agent/heartbeat'' body)
     = Some [(''POST'', api_heartbeat env pc (post_request tr ''/agent/heartbeat'' body))]"
  "tr_prefix tr = [] \<Longrightarrow> guarded_router env pc (post_request tr ''/agent/ack'' body)
     = Some [(''POST'', api_ack pc (post_request tr ''/agent/ack'' body))]"
  by (simp_all add: guarded_router_def agent_router_def post_request_def)

lemma json_body_post:
  "pc_is_json pc ''application/json'' \<Longrightarrow> pc_json pc body = Some v \<Longrightarrow> decode v = Some x \<Longrightarrow>
   json_body pc decode (post_request tr path body) = Inr x"
  by (simp add: json_body_def post_request_def)

lemma answer_post: "answer (post_request tr path body) [(''POST'', f)] = f"
  by (simp add: answer_def post_request_def fun_eq_iff)

lemmas wire_defs = plane_wire_def plane_serve_def post_checked_def text_reply_def json_reply_def status_reply_def with_body_def

text \<open>
  A heartbeat and an acknowledgement sent to the server do what the operations of the registry do, and the
  agent gets the registry's answer; without the token of the plane it gets the status 401.
\<close>

lemma transport_heartbeat_exact:
  assumes "tr_prefix tr = []" "pc_is_json pc ''application/json''"
    "Option.bind (pc_json pc (ac_heartbeat ac hb)) (pc_heartbeat pc) = Some hb"
    "ac_response ac (pc_response pc (fst (heartbeat env hb (rg_inner r)))) = Inr (fst (heartbeat env hb (rg_inner r)))"
  shows "transport_heartbeat ac (plane_wire env ge pc token) tr hb r =
      (if admitted token tr
       then (Inr (fst (heartbeat env hb (rg_inner r))), upd_inner (\<lambda>s. snd (heartbeat env hb s)) r)
       else (Inl (T_Status ''/agent/heartbeat'' 401), r))"
proof -
  obtain v where v: "pc_json pc (ac_heartbeat ac hb) = Some v" "pc_heartbeat pc v = Some hb"
    using assms(3) by (cases "pc_json pc (ac_heartbeat ac hb)") auto
  have "json_body pc (pc_heartbeat pc) (post_request tr path (ac_heartbeat ac hb)) = Inr hb" for path
    using v assms(2) by (simp add: json_body_post)
  then show ?thesis
    by (simp add: transport_heartbeat_def transport_send_def api_heartbeat_def wire_defs answer_post assms(1,4))
qed

lemma transport_ack_exact:
  assumes "tr_prefix tr = []" "pc_is_json pc ''application/json''"
    "Option.bind (pc_json pc (ac_ack ac a)) (pc_ack pc) = Some a"
  shows "transport_ack ac (plane_wire env ge pc token) tr a r =
      (if admitted token tr then (Inr (), upd_inner (ack a) r) else (Inl (T_Status ''/agent/ack'' 401), r))"
proof -
  obtain v where v: "pc_json pc (ac_ack ac a) = Some v" "pc_ack pc v = Some a"
    using assms(3) by (cases "pc_json pc (ac_ack ac a)") auto
  have "json_body pc (pc_ack pc) (post_request tr path (ac_ack ac a)) = Inr a" for path
    using v assms(2) by (simp add: json_body_post)
  then show ?thesis
    by (simp add: transport_ack_def post_status_def api_ack_def wire_defs answer_post assms(1))
qed

section \<open>The loop of the agent\<close>

text \<open>
  The trait \<^verbatim>\<open>ControlTransport\<close>, and the loop of \<^verbatim>\<open>Agent::run\<close> over it: a failed heartbeat skips the turn, a
  failed acknowledgement is only logged.
\<close>

record 'p control_transport =
  ct_heartbeat :: "heartbeat_msg \<Rightarrow> 'p \<Rightarrow> (transport_error + heartbeat_response) \<times> 'p"
  ct_ack :: "command_ack \<Rightarrow> 'p \<Rightarrow> (transport_error + unit) \<times> 'p"

fun dispatch_over :: "'p control_transport \<Rightarrow> command list \<Rightarrow> nat \<Rightarrow> nat \<Rightarrow> agent \<Rightarrow> 'p \<Rightarrow> nat \<times> agent \<times> 'p" where
  "dispatch_over ct [] last_seq seq ag p = (seq, ag, p)"
| "dispatch_over ct (c # cs) last_seq seq ag p =
     (if cm_seq c \<le> last_seq then dispatch_over ct cs last_seq seq ag p
      else
        (let (a, ag) = execute c ag; p = snd (ct_ack ct a p)
         in dispatch_over ct cs last_seq (max seq (cm_seq c)) ag p))"

definition agent_tick ::
    "'p control_transport \<Rightarrow> node_env \<Rightarrow> string \<Rightarrow> nat \<times> agent \<times> 'p \<Rightarrow> nat \<times> agent \<times> 'p" where
  "agent_tick ct env now s =
     (let (last_seq, ag, p) = s in
      case ct_heartbeat ct (build_heartbeat now ag) p of
        (Inl _, p) \<Rightarrow> (last_seq, ag, p)
      | (Inr response, p) \<Rightarrow>
          (let (seq, ag, p) = dispatch_over ct (hr_commands response) last_seq last_seq ag p
           in (seq, reconcile env (hr_desired response) ag, p)))"

definition agent_run :: "'p control_transport \<Rightarrow> node_env \<Rightarrow> string list \<Rightarrow> agent \<times> 'p \<Rightarrow> agent \<times> 'p" where
  "agent_run ct env nows s =
     (let (_, ag, p) = fold (agent_tick ct env) nows (0, fst s, snd s) in (agent_shutdown env ag, p))"

text \<open>
  The program (\<^verbatim>\<open>sohara-agent/src/main.rs\<close>): the configuration file is the first argument.  \<open>decode\<close> is serde
  with its defaults, \<open>connect\<close> the HTTP client for a plane, \<open>nows\<close> the ticks before the signal to stop.
\<close>

record agent_config =
  gc_node :: string
  gc_url :: string
  gc_token :: "string option"
  gc_instances :: "instance_spec list"
  gc_heartbeat_ms :: nat

datatype 'p agent_end = Agent_Failed string | Agent_Stopped agent 'p

definition agent_main ::
    "(string \<Rightarrow> string + string) \<Rightarrow> (string \<Rightarrow> string + agent_config) \<Rightarrow> (string \<Rightarrow> string option \<Rightarrow> 'p control_transport) \<Rightarrow>
     node_env \<Rightarrow> string list \<Rightarrow> string list \<Rightarrow> 'p \<Rightarrow> 'p agent_end" where
  "agent_main read decode connect env nows args p =
     (case rbind (read (case args of _ # path # _ \<Rightarrow> path | _ \<Rightarrow> ''agent.yaml'')) decode of
        Inl e \<Rightarrow> Agent_Failed e
      | Inr cfg \<Rightarrow>
          (let (ag, p) = agent_run (connect (gc_url cfg) (gc_token cfg)) env nows
               (agent_new env (gc_node cfg) (gc_instances cfg), p)
           in Agent_Stopped ag p))"

lemma dispatch_over_loop:
  "dispatch_over ct cs last_seq seq ag p =
   (let (acks, seq', ag') = dispatch_loop cs last_seq seq ag
    in (seq', ag', fold (\<lambda>a p. snd (ct_ack ct a p)) acks p))"
  by (induction cs arbitrary: seq ag p) (auto split: prod.splits)

section \<open>A network that loses messages\<close>

datatype fate = Request_Gone | Answer_Gone | Answered

definition lossy :: "fate \<Rightarrow> 'p wire \<Rightarrow> 'p wire" where
  "lossy f wire rq p =
     (case f of
        Request_Gone \<Rightarrow> (Inl ''connection refused'', p)
      | Answer_Gone \<Rightarrow> (Inl ''timed out'', snd (wire rq p))
      | Answered \<Rightarrow> wire rq p)"

definition http_control ::
    "agent_codec \<Rightarrow> 'p wire \<Rightarrow> fate \<Rightarrow> (nat \<Rightarrow> fate) \<Rightarrow> http_transport \<Rightarrow> 'p control_transport" where
  "http_control ac wire hb_fate ack_fate tr =
     \<lparr>ct_heartbeat = transport_heartbeat ac (lossy hb_fate wire) tr,
      ct_ack = (\<lambda>a. transport_ack ac (lossy (ack_fate (ak_seq a)) wire) tr a)\<rparr>"

definition net_of :: "fate \<Rightarrow> (nat \<Rightarrow> fate) \<Rightarrow> net" where
  "net_of hb_fate ack_fate =
     (case hb_fate of
        Request_Gone \<Rightarrow> Request_Lost
      | Answer_Gone \<Rightarrow> Response_Lost
      | Answered \<Rightarrow> Delivered (\<lambda>seq. ack_fate seq \<noteq> Request_Gone))"

lemma lossy_heartbeat:
  "transport_heartbeat ac (lossy f wire) tr hb p =
   (case f of
      Request_Gone \<Rightarrow> (Inl (T_Wire ''connection refused''), p)
    | Answer_Gone \<Rightarrow> (Inl (T_Wire ''timed out''), snd (transport_heartbeat ac wire tr hb p))
    | Answered \<Rightarrow> transport_heartbeat ac wire tr hb p)"
  by (cases f)
    (auto simp: transport_heartbeat_def transport_send_def post_checked_def lossy_def split: prod.splits sum.splits)

lemma lossy_ack:
  "snd (transport_ack ac (lossy f wire) tr a p) = (if f = Request_Gone then p else snd (transport_ack ac wire tr a p))"
  by (cases f) (auto simp: transport_ack_def post_status_def post_checked_def lossy_def split: prod.splits sum.splits)

lemma upd_inner_upd_inner [simp]: "upd_inner g (upd_inner f r) = upd_inner (g \<circ> f) r"
  by (simp add: upd_inner_def)

lemma fold_acks:
  assumes "tr_prefix tr = []" "pc_is_json pc ''application/json''" "admitted token tr"
    "list_all (\<lambda>a. Option.bind (pc_json pc (ac_ack ac a)) (pc_ack pc) = Some a) acks"
  shows "fold (\<lambda>a r. snd (transport_ack ac (lossy (f (ak_seq a)) (plane_wire env ge pc token)) tr a r)) acks r =
    upd_inner (fold ack (filter (\<lambda>a. f (ak_seq a) \<noteq> Request_Gone) acks)) r"
  using assms(4)
  by (induction acks arbitrary: r) (simp_all add: lossy_ack transport_ack_exact [OF assms(1,2)] assms(3) comp_def upd_inner_def)

section \<open>Property\<close>

text \<open>Both sides encode alike what is said in one turn.\<close>

definition codecs_agree :: "plane_env \<Rightarrow> node_env \<Rightarrow> string \<Rightarrow> plane_codec \<Rightarrow> agent_codec \<Rightarrow> system \<Rightarrow> bool" where
  "codecs_agree env nenv now pc ac y \<longleftrightarrow>
     (let hb = build_heartbeat now (sy_agent y);
          resp = fst (heartbeat env hb (rg_inner (sy_plane y)));
          acks = fst (agent_turn nenv (Some resp) (sy_last y) (sy_agent y))
      in pc_is_json pc ''application/json'' \<and> Option.bind (pc_json pc (ac_heartbeat ac hb)) (pc_heartbeat pc) = Some hb \<and>
         ac_response ac (pc_response pc resp) = Inr resp \<and>
         list_all (\<lambda>a. Option.bind (pc_json pc (ac_ack ac a)) (pc_ack pc) = Some a) acks)"

text \<open>
  C21. The rounds of the control loop are what agent and server do over HTTP.  Let an agent that has the token
  of the plane talk to its server over a network that may lose a request or an answer, the heartbeat's and
  each acknowledgement's.  When both encode alike what they say, a turn of the agent's loop, with every
  request made, routed, checked, decoded and answered, leaves agent and registry exactly as the round
  of the control loop in which the network loses the same messages; so what holds of the rounds
  (commands are carried out at most once, instances converge) holds of the programs.
\<close>

theorem http_round_refines:
  assumes "tr_prefix tr = []" "admitted token tr" "codecs_agree env nenv now pc ac y"
  shows "agent_tick (http_control ac (plane_wire env ge pc token) hb_fate ack_fate tr) nenv now
      (sy_last y, sy_agent y, sy_plane y) =
    (let z = heartbeat_round env nenv now (net_of hb_fate ack_fate) y in (sy_last z, sy_agent z, sy_plane z))"
proof -
  let ?hb = "build_heartbeat now (sy_agent y)" and ?r = "sy_plane y"
  let ?resp = "fst (heartbeat env ?hb (rg_inner ?r))"
  obtain acks seq ag where t: "dispatch_loop (hr_commands ?resp) (sy_last y) (sy_last y) (sy_agent y) = (acks, seq, ag)"
    by (cases "dispatch_loop (hr_commands ?resp) (sy_last y) (sy_last y) (sy_agent y)")
  have json: "pc_is_json pc ''application/json''"
    and hb: "Option.bind (pc_json pc (ac_heartbeat ac ?hb)) (pc_heartbeat pc) = Some ?hb"
    and resp: "ac_response ac (pc_response pc ?resp) = Inr ?resp"
    and acks: "list_all (\<lambda>a. Option.bind (pc_json pc (ac_ack ac a)) (pc_ack pc) = Some a) acks"
    using assms(3) t by (simp_all add: codecs_agree_def Let_def agent_turn_def dispatch_def)
  note h = transport_heartbeat_exact [OF assms(1) json hb resp, of ge token]
  show ?thesis
    using fold_acks [OF assms(1) json assms(2) acks, of ack_fate env ge] t assms(2)
    by (cases hb_fate)
      (simp_all add: agent_tick_def http_control_def lossy_heartbeat h net_of_def heartbeat_round_def dispatch_over_loop
        agent_turn_def dispatch_def case_prod_unfold Let_def comp_def upd_inner_def)
qed

definition demo_link :: "plane_codec \<times> agent_codec" where
  "demo_link =
     (demo_codec\<lparr>pc_heartbeat := \<lambda>_. Some (build_heartbeat ''now'' demo_agent),
        pc_ack := \<lambda>_. Some \<lparr>ak_seq = 1, ak_ok = True, ak_error = None\<rparr>\<rparr>,
      \<lparr>ac_heartbeat = (\<lambda>_. ''h''), ac_ack = (\<lambda>_. ''a''),
       ac_response = (\<lambda>_. Inr (fst (heartbeat plain_plane (build_heartbeat ''now'' demo_agent) (rg_inner demo_registry))))\<rparr>)"

definition demo_tick :: "fate \<Rightarrow> nat \<times> agent \<times> registry_state" where
  "demo_tick f =
     agent_tick (http_control (snd demo_link) (plane_wire plain_plane demo_gateway (fst demo_link) (Some ''secret''))
         Answered (\<lambda>_. f) \<lparr>tr_prefix = [], tr_token = Some ''secret''\<rparr>)
       (\<lambda>_. calm_env) ''now'' (0, demo_agent, demo_registry)"

text \<open>A turn carries out a command; whether it stays pending depends on its acknowledgement.\<close>

theorem http_round_refines_witness:
  "fst (demo_tick Answered) = 1 \<and> pending_of (rg_inner (snd (snd (demo_tick Answered)))) ''n'' = [] \<and>
   fst (demo_tick Request_Gone) = 1 \<and> length (pending_of (rg_inner (snd (snd (demo_tick Request_Gone)))) ''n'') = 1"
proof -
  let ?y = "demo_system demo_registry 0" and ?r = "\<lambda>net. heartbeat_round plain_plane (\<lambda>_. calm_env) ''now'' net (demo_system demo_registry 0)"
  have acks: "fst (agent_turn (\<lambda>_. calm_env)
      (Some (fst (heartbeat plain_plane (build_heartbeat ''now'' demo_agent) (rg_inner demo_registry)))) 0 demo_agent)
    = [\<lparr>ak_seq = 1, ak_ok = True, ak_error = None\<rparr>]"
    by code_simp
  have "codecs_agree plain_plane (\<lambda>_. calm_env) ''now'' (fst demo_link) (snd demo_link) ?y"
    using acks by (simp add: codecs_agree_def demo_link_def demo_codec_def demo_system_def)
  then have t: "demo_tick f = (let z = ?r (net_of Answered (\<lambda>_. f)) in (sy_last z, sy_agent z, sy_plane z))" for f
    using http_round_refines [of "\<lparr>tr_prefix = [], tr_token = Some ''secret''\<rparr>" "Some ''secret''" plain_plane
        "\<lambda>_. calm_env" "''now''" "fst demo_link" "snd demo_link" ?y demo_gateway Answered "\<lambda>_. f"]
    by (simp add: demo_tick_def admitted_def demo_system_def)
  have "sy_last (?r (Delivered (\<lambda>_. True))) = 1" "pending_of (rg_inner (sy_plane (?r (Delivered (\<lambda>_. True))))) ''n'' = []"
    "sy_last (?r (Delivered (\<lambda>_. False))) = 1"
    "length (pending_of (rg_inner (sy_plane (?r (Delivered (\<lambda>_. False))))) ''n'') = 1"
    by code_simp+
  then show ?thesis by (simp add: t net_of_def Let_def)
qed

end
