(* ===== verification/Cli.thy ===== *)
theory Cli
  imports Serve File_Steps Io_Http Js_Script Extension_Host
begin

text \<open>
  The command line (\<^verbatim>\<open>sohara-cli/src\<close>: \<^verbatim>\<open>main.rs\<close>, \<^verbatim>\<open>report.rs\<close>, \<^verbatim>\<open>scaffold.rs\<close>): the commands over the flow
  loader, the registry with every kind of step, the extensions, the stores and the runtime, with what they
  print, the files of their own that they write and the exit code.  Everything a command needs of the
  outside is in the record \<open>cli_env\<close>.
\<close>

section \<open>Reports\<close>

definition print_stats :: "string \<Rightarrow> string \<Rightarrow> stats_snapshot \<Rightarrow> string" where
  "print_stats action name s =
     ''Flow '' @ squote name @ '' '' @ action @ '': processed='' @ decimal (st_processed s) @
     '', filtered='' @ decimal (st_filtered s) @ '', errors='' @ decimal (st_errors s) @
     '', waiting='' @ decimal (st_waiting s) @ '', duplicates='' @ decimal (st_duplicates s)"

text \<open>\<^verbatim>\<open>{:<n}\<close> and \<^verbatim>\<open>{:>n}\<close>: filled with blanks up to the width, never cut.\<close>

definition pad_right :: "nat \<Rightarrow> string \<Rightarrow> string" where
  "pad_right n s = s @ replicate (n - length s) (CHR '' '')"

definition pad_left :: "nat \<Rightarrow> string \<Rightarrow> string" where
  "pad_left n s = replicate (n - length s) (CHR '' '') @ s"

text \<open>\<^verbatim>\<open>{:.2}\<close> of the double nearest to the quotient, the decimals rounded to even on its exact value.\<close>

definition hundredths :: "nat \<Rightarrow> string" where
  "hundredths k = decimal (k div 100) @ ''.'' @ decimal (k mod 100 div 10) @ decimal (k mod 10)"

definition millis :: "nat \<Rightarrow> string" where
  "millis nanos =
     (case f_div (f_of_int (int nanos)) (f_of_int 1000000) of
        F_Fin q \<Rightarrow> hundredths (nat (round_even (q * 100)))
      | F_NegZero \<Rightarrow> ''-0.00'' | F_NaN \<Rightarrow> ''NaN'' | F_Inf neg \<Rightarrow> if neg then ''-inf'' else ''inf'')"

definition step_header :: string where
  "step_header =
     pad_right 16 ''step'' @ '' '' @ pad_left 10 ''processed'' @ '' '' @ pad_left 10 ''filtered'' @ '' '' @
     pad_left 8 ''errors'' @ '' '' @ pad_left 12 ''ms''"

definition step_line :: "string \<times> step_stat \<Rightarrow> string" where
  "step_line r =
     pad_right 16 (fst r) @ '' '' @ pad_left 10 (decimal (ss_processed (snd r))) @ '' '' @
     pad_left 10 (decimal (ss_filtered (snd r))) @ '' '' @ pad_left 8 (decimal (ss_errors (snd r))) @ '' '' @
     pad_left 12 (millis (ss_nanos (snd r)))"

definition print_steps :: "run_report \<Rightarrow> string list" where
  "print_steps rep = step_header # map step_line (rr_steps rep)"

text \<open>
  The rows of the history: the counters are JSON values, whose printer takes no notice of the width.
\<close>

definition history_header :: string where
  "history_header =
     pad_right 8 ''status'' @ '' '' @ pad_right 14 ''flow'' @ '' '' @ pad_right 30 ''run_id'' @ '' '' @
     pad_right 10 ''finished'' @ '' '' @ pad_right 6 ''proc'' @ '' '' @ pad_right 8 ''errors''"

definition history_line :: "history_io \<Rightarrow> string list \<times> json list \<Rightarrow> string" where
  "history_line io r =
     concat (map (\<lambda>(n, s). pad_right n s @ '' '') (zip [8, 14, 30, 10] (fst r))) @
     joined '' '' (map (hi_print io) (snd r))"

section \<open>The environment of a command\<close>

datatype store_handle = Store_File string | Store_Extension blocking_spec json

record ('c, 'w, 's) cli_env =
  ce_flow :: "string \<Rightarrow> config_error + flow_config"
  ce_fragment :: "string \<Rightarrow> config_error + (string \<times> step_config) list"
  ce_parent :: "string \<Rightarrow> string option"
  ce_codec :: codec
  ce_io :: "'w io"
  ce_net :: "'w http_net"
  ce_db :: "'w db"
  ce_read :: "string \<Rightarrow> string + string"
  ce_js :: "'w js_world"
  ce_engine :: "'c engine"
  ce_extension :: "async_spec \<Rightarrow> 'w factory"
  ce_manifests :: manifest_env
  ce_builtin_root :: string
  ce_exists :: "string \<Rightarrow> bool"
  ce_store :: "store_handle \<Rightarrow> 's \<Rightarrow> 's store_ops \<times> 's"
  ce_bus :: "blocking_spec \<times> json \<Rightarrow> nat"
  ce_run :: "('w, 's) run_config"
  ce_serve :: "'w serve_env"
  ce_signal :: bool
  ce_history :: "string \<Rightarrow> history_io"
  ce_uuid :: string
  ce_started :: string
  ce_mkdir :: "string \<Rightarrow> string option"
  ce_write :: "string \<Rightarrow> string \<Rightarrow> history_file \<Rightarrow> (string + unit) \<times> history_file"

datatype cli_error = X_Config config_error | X_Core error | X_Io string | X_Text string

datatype cli_line = Out string | Err_line string

record ('w, 's) cli_state =
  cs_files :: "string \<Rightarrow> history_file"
  cs_lines :: "cli_line list"
  cs_world :: 'w
  cs_store :: 's

datatype cli_end = Cli_Ok | Cli_Exit nat | Cli_Err cli_error | Cli_Panic

text \<open>\<^verbatim>\<open>main\<close> returns its result: an error is printed and the code is 1, a panic ends with 101.\<close>

fun exit_code :: "cli_end \<Rightarrow> nat" where
  "exit_code Cli_Ok = 0"
| "exit_code (Cli_Exit k) = k"
| "exit_code (Cli_Err e) = 1"
| "exit_code Cli_Panic = 101"

definition say :: "cli_line list \<Rightarrow> ('w, 's) cli_state \<Rightarrow> ('w, 's) cli_state" where
  "say ls st = st\<lparr>cs_lines := cs_lines st @ ls\<rparr>"

definition set_file :: "string \<Rightarrow> history_file \<Rightarrow> ('w, 's) cli_state \<Rightarrow> ('w, 's) cli_state" where
  "set_file p f st = st\<lparr>cs_files := (cs_files st)(p := f)\<rparr>"

definition default_history_path :: string where
  "default_history_path = ''.sohara/history.jsonl''"

definition history_path :: "string option \<Rightarrow> string" where
  "history_path h = (case h of Some p \<Rightarrow> p | None \<Rightarrow> default_history_path)"

section \<open>Registry, extensions, store and bus\<close>

definition builtin_extension_paths :: "('c, 'w, 's) cli_env \<Rightarrow> string list" where
  "builtin_extension_paths env =
     (let root = ce_builtin_root env @ ''/../extensions/builtin'' in if ce_exists env root then [root] else [])"

definition all_steps :: "('c, 'w, 's) cli_env \<Rightarrow> 'w registry" where
  "all_steps env =
     register_script_steps (ce_read env) (ce_js env) (ce_engine env)
       (register_connectors (ce_net env) (ce_db env) (ce_io env) (register_all (ce_codec env) (ce_io env) []))"

definition registry_and_extensions ::
    "('c, 'w, 's) cli_env \<Rightarrow> string list \<Rightarrow> error + 'w registry \<times> ext_host" where
  "registry_and_extensions env exts =
     (case load_stdio_extensions (ce_extension env) (ce_manifests env) (builtin_extension_paths env) exts (all_steps env) of
        (Inl e, _) \<Rightarrow> Inl e
      | (Inr host, reg) \<Rightarrow> Inr (reg, host))"

definition store_for :: "flow_config \<Rightarrow> ext_host \<Rightarrow> cli_error + store_handle option" where
  "store_for flow host =
     (case Option.bind (f_checkpoint flow) cp_store of
        None \<Rightarrow> Inr None
      | Some (SPath p) \<Rightarrow> Inr (Some (Store_File p))
      | Some (SComponent c) \<Rightarrow>
          (case build_state_store host (SComponent c) of
             Inl e \<Rightarrow> Inl (X_Core e)
           | Inr None \<Rightarrow> Inl (X_Text (''unknown external state store type '' @ squote (component_type c)))
           | Inr (Some (spec, config)) \<Rightarrow> Inr (Some (Store_Extension spec config))))"

definition shared_bus_for :: "flow_config \<Rightarrow> ext_host \<Rightarrow> cli_error + (blocking_spec \<times> json) option" where
  "shared_bus_for flow host =
     (case f_event_bus flow of
        None \<Rightarrow> Inr None
      | Some c \<Rightarrow>
          (case build_event_bus host c of
             Inl e \<Rightarrow> Inl (X_Core e)
           | Inr None \<Rightarrow> Inl (X_Text (''unknown external event_bus type '' @ squote (component_type c)))
           | Inr (Some b) \<Rightarrow> Inr (Some b)))"

text \<open>What every command on a flow starts with; loading panics where the loader does.\<close>

definition load_all ::
    "('c, 'w, 's) cli_env \<Rightarrow> string \<Rightarrow> string list \<Rightarrow> cli_end + flow_config \<times> 'w registry \<times> ext_host" where
  "load_all env path exts =
     (case load_flow (ce_flow env) (ce_fragment env) (ce_parent env) (rc_order (ce_run env)) path of
        None \<Rightarrow> Inl Cli_Panic
      | Some (Inl e) \<Rightarrow> Inl (Cli_Err (X_Config e))
      | Some (Inr flow) \<Rightarrow>
          (case registry_and_extensions env exts of
             Inl e \<Rightarrow> Inl (Cli_Err (X_Core e))
           | Inr (reg, host) \<Rightarrow> Inr (flow, reg, host)))"

definition opened_store ::
    "('c, 'w, 's) cli_env \<Rightarrow> store_handle option \<Rightarrow> bool \<Rightarrow> 's \<Rightarrow> ('w, 's) run_config \<times> 's" where
  "opened_store env h resume s =
     (case h of
        None \<Rightarrow> ((ce_run env)\<lparr>rc_store := None, rc_resume := resume\<rparr>, s)
      | Some h \<Rightarrow> (let (ops, s) = ce_store env h s in ((ce_run env)\<lparr>rc_store := Some ops, rc_resume := resume\<rparr>, s)))"

definition leave :: "('w, 's) xstate option \<Rightarrow> ('w, 's) cli_state \<Rightarrow> ('w, 's) cli_state" where
  "leave fin st = (case fin of None \<Rightarrow> st | Some x \<Rightarrow> st\<lparr>cs_world := x_world x, cs_store := x_store x\<rparr>)"

section \<open>Commands\<close>

text \<open>\<^verbatim>\<open>sohara run\<close>: the statistics, the history entry, then the exit code.\<close>

definition finish_run ::
    "('c, 'w, 's) cli_env \<Rightarrow> string \<Rightarrow> bool \<Rightarrow> string \<Rightarrow> error + run_report \<Rightarrow> ('w, 's) cli_state \<Rightarrow> cli_end \<times> ('w, 's) cli_state" where
  "finish_run env name verbose path res st =
     (let io = ce_history env path in
      case res of
        Inr rep \<Rightarrow>
          (let st = say (map Out (print_stats ''finished'' name (rr_stats rep) # (if verbose then print_steps rep else []))) st;
               (r, f) = append_history io rep None (cs_files st path);
               st = set_file path f st
           in case r of
                Inl e \<Rightarrow> (Cli_Err (X_Core e), st)
              | Inr _ \<Rightarrow> (if st_errors (rr_stats rep) > 0 then Cli_Exit 1 else Cli_Ok, st))
      | Inl e \<Rightarrow>
          (let text = sv_show (ce_serve env) e;
               (r, f) = append_history io (failed_report (ce_uuid env) name (ce_started env)) (Some text) (cs_files st path);
               st = set_file path f st
           in case r of
                Inl e \<Rightarrow> (Cli_Err (X_Core e), st)
              | Inr _ \<Rightarrow> (Cli_Exit 1, say [Err_line (''Flow '' @ squote name @ '' failed: '' @ text)] st)))"

definition run_setup ::
    "('c, 'w, 's) cli_env \<Rightarrow> string \<Rightarrow> string list \<Rightarrow> bool \<Rightarrow> 's \<Rightarrow>
     cli_end + flow_config \<times> 'w registry \<times> ('w, 's) run_config \<times> 's" where
  "run_setup env flow exts resume s =
     rbind (load_all env flow exts) (\<lambda>(cfg, reg, host).
       case store_for cfg host of
         Inl e \<Rightarrow> Inl (Cli_Err e)
       | Inr h \<Rightarrow> (let (rc, s) = opened_store env h resume s in Inr (cfg, reg, rc, s)))"

definition cli_run ::
    "('c, 'w, 's) cli_env \<Rightarrow> nat \<Rightarrow> string \<Rightarrow> string list \<Rightarrow> bool \<Rightarrow> bool \<Rightarrow> string option \<Rightarrow>
     ('w, 's) cli_state \<Rightarrow> (cli_end \<times> ('w, 's) cli_state) option" where
  "cli_run env n flow exts resume verbose hist st =
     (case run_setup env flow exts resume (cs_store st) of
        Inl e \<Rightarrow> Some (e, st)
      | Inr (cfg, reg, rc, s) \<Rightarrow>
          map_option (\<lambda>(res, fin).
              finish_run env (f_name cfg) verbose (history_path hist) res (leave fin (st\<lparr>cs_store := s\<rparr>)))
            (run_flow_with_store_report cfg reg rc s (cs_world st) n))"

text \<open>\<^verbatim>\<open>sohara serve\<close>: \<open>ce_signal\<close> says whether the signal to stop comes before the run ends.\<close>

record serve_flags =
  fl_admin :: "string option"
  fl_history :: "string option"
  fl_resume :: bool
  fl_relay :: "string option"
  fl_extensions :: "string list"

definition queue_with_bus :: "flow_config \<Rightarrow> bool" where
  "queue_with_bus flow \<longleftrightarrow> f_event_bus flow \<noteq> None \<and> (\<exists>t \<in> set (f_triggers flow). t_type t = ''queue'')"

definition serve_setup ::
    "('c, 'w, 's) cli_env \<Rightarrow> string \<Rightarrow> serve_flags \<Rightarrow>
     cli_end + (flow_config \<times> 'w registry \<times> ext_host) \<times> store_handle option \<times> (blocking_spec \<times> json) option" where
  "serve_setup env flow fl =
     rbind (load_all env flow (fl_extensions fl)) (\<lambda>(cfg, reg, host).
       if queue_with_bus cfg then
         Inl (Cli_Err (X_Text (''queue triggers require the built-in in-process bus; '' @
           ''external event_bus is not supported with trigger.type=queue'')))
       else
         (case store_for cfg host of
            Inl e \<Rightarrow> Inl (Cli_Err e)
          | Inr h \<Rightarrow> (case shared_bus_for cfg host of Inl e \<Rightarrow> Inl (Cli_Err e) | Inr b \<Rightarrow> Inr ((cfg, reg, host), h, b))))"

definition finish_serve ::
    "string \<Rightarrow> bool \<Rightarrow> string \<Rightarrow> ('w, 's) serve_result \<Rightarrow> ('w, 's) cli_state \<Rightarrow> cli_end \<times> ('w, 's) cli_state" where
  "finish_serve name verbose path r st =
     (let st = set_file path (case sr_history r of Some f \<Rightarrow> f | None \<Rightarrow> cs_files st path) (leave (sr_final r) st) in
      case sr_outcome r of
        Inl e \<Rightarrow> (Cli_Err (X_Core e), st)
      | Inr stats \<Rightarrow>
          (Cli_Ok, say (map Out (print_stats ''stopped'' name stats #
             (if verbose then [''(step statistics are available on /admin/metrics)''] else []))) st))"

definition cli_serve ::
    "('c, 'w, 's) cli_env \<Rightarrow> nat \<Rightarrow> string \<Rightarrow> serve_flags \<Rightarrow> bool \<Rightarrow> ('w, 's) cli_state \<Rightarrow>
     (cli_end \<times> ('w, 's) cli_state) option" where
  "cli_serve env n flow fl verbose st =
     (case serve_setup env flow fl of
        Inl e \<Rightarrow> Some (e, st)
      | Inr ((cfg, reg, host), h, b) \<Rightarrow>
          (let path = history_path (fl_history fl);
               (rc, s) = opened_store env h (fl_resume fl) (cs_store st);
               opts = \<lparr>so_admin = fl_admin fl, so_history = Some (cs_files st path), so_relay = fl_relay fl,
                 so_shared_bus = map_option (ce_bus env) b, so_extension_host = Some host\<rparr>
           in map_option (\<lambda>r. finish_serve (f_name cfg) verbose path r (st\<lparr>cs_store := s\<rparr>))
                (serve_with_shutdown_opts ((ce_serve env)\<lparr>sv_io := ce_history env path\<rparr>) cfg reg (bus_new 128)
                   (ce_signal env) opts rc s (cs_world st) n)))"

text \<open>\<^verbatim>\<open>sohara approve\<close>: needs a store; the flow is built without its triggers.\<close>

definition cli_approve ::
    "('c, 'w, 's) cli_env \<Rightarrow> nat \<Rightarrow> string \<Rightarrow> string list \<Rightarrow> string option \<Rightarrow> ('w, 's) cli_state \<Rightarrow>
     (cli_end \<times> ('w, 's) cli_state) option" where
  "cli_approve env n flow exts step st =
     (case load_all env flow exts of
        Inl e \<Rightarrow> Some (e, st)
      | Inr (cfg, reg, host) \<Rightarrow>
          (case store_for cfg host of
             Inl e \<Rightarrow> Some (Cli_Err e, st)
           | Inr None \<Rightarrow>
               Some (Cli_Err (X_Text ''flow has no checkpoint store; declare checkpoint.store to use approve''), st)
           | Inr (Some h) \<Rightarrow>
               (let (rc, s) = opened_store env (Some h) True (cs_store st); ctx = flow_context cfg None in
                case graph_build (rc_order rc) cfg reg ctx of
                  None \<Rightarrow> None
                | Some (Inl e) \<Rightarrow> Some (Cli_Err (X_Core e), st\<lparr>cs_store := s\<rparr>)
                | Some (Inr g) \<Rightarrow>
                    (case approve_pending g (b_vars ctx) rc s (cs_world st) n step of
                       None \<Rightarrow> None
                     | Some (Inl e, x) \<Rightarrow> Some (Cli_Err (X_Core e), leave (Some x) st)
                     | Some (Inr k, x) \<Rightarrow>
                         Some (Cli_Ok, say [Out (''Approved '' @ decimal k @ '' pending record(s) of flow '' @ squote (f_name cfg))]
                           (leave (Some x) st))))))"

definition cli_history :: "('c, 'w, 's) cli_env \<Rightarrow> string option \<Rightarrow> nat \<Rightarrow> ('w, 's) cli_state \<Rightarrow> cli_end \<times> ('w, 's) cli_state" where
  "cli_history env hist limit st =
     (let path = history_path hist; io = ce_history env path in
      case show_history io (cs_files st path) limit of
        None \<Rightarrow> (Cli_Ok, say [Out (''No history yet at '' @ path)] st)
      | Some (rows, fine) \<Rightarrow>
          (if fine then Cli_Ok else Cli_Err (X_Text ''a line of the history is not JSON''),
           say (map Out (history_header # map (history_line io) rows)) st))"

text \<open>\<^verbatim>\<open>sohara init\<close>: both files are written whatever is there.\<close>

definition dquote :: "string \<Rightarrow> string" where
  "dquote s = CHR 0x22 # s @ [CHR 0x22]"

definition flow_yaml :: "string list" where
  "flow_yaml =
     [''name: basic'', ''version: '' @ dquote ''1'', ''steps:'',
      ''  - id: in'', ''    kind: source'', ''    type: file'', ''    config: { path: data/input.csv, format: csv }'',
      ''  - id: adult'', ''    kind: transform'', ''    type: filter'',
      ''    config: { where: '' @ dquote ''age >= 18'' @ '' }'',
      ''  - id: enrich'', ''    kind: transform'', ''    type: map'',
      ''    config: { expr: { processed_at: '' @ dquote ''now()'' @ '' } }'',
      ''  - id: out'', ''    kind: sink'', ''    type: file'', ''    config: { path: output/result.jsonl, format: jsonl }'']"

definition input_csv :: "string list" where
  "input_csv = [''name,age'', ''Alice,30'', ''Bob,15'', ''Carol,40'']"

definition lines_text :: "string list \<Rightarrow> string" where
  "lines_text ls = concat (map (\<lambda>l. l @ [newline]) ls)"

definition put_file :: "('c, 'w, 's) cli_env \<Rightarrow> string \<Rightarrow> string \<Rightarrow> ('w, 's) cli_state \<Rightarrow> (string + unit) \<times> ('w, 's) cli_state" where
  "put_file env path text st = (let (r, f) = ce_write env path text (cs_files st path) in (r, set_file path f st))"

definition init_project :: "('c, 'w, 's) cli_env \<Rightarrow> string \<Rightarrow> ('w, 's) cli_state \<Rightarrow> cli_end \<times> ('w, 's) cli_state" where
  "init_project env dir st =
     (case ce_mkdir env (path_join dir ''data'') of
        Some e \<Rightarrow> (Cli_Err (X_Io e), st)
      | None \<Rightarrow>
          (case put_file env (path_join dir ''flow.yaml'') (lines_text flow_yaml) st of
             (Inl e, st) \<Rightarrow> (Cli_Err (X_Io e), st)
           | (Inr _, st) \<Rightarrow>
               (case put_file env (path_join (path_join dir ''data'') ''input.csv'') (lines_text input_csv) st of
                  (Inl e, st) \<Rightarrow> (Cli_Err (X_Io e), st)
                | (Inr _, st) \<Rightarrow> (Cli_Ok, say [Out (''Created '' @ dir @ ''/flow.yaml and data/input.csv'')] st))))"

datatype cli_command =
    Cmd_Run string "string list" bool bool "string option"
  | Cmd_Serve string serve_flags bool
  | Cmd_Approve string "string list" "string option"
  | Cmd_History "string option" nat
  | Cmd_Init string

fun cli_dispatch :: "('c, 'w, 's) cli_env \<Rightarrow> nat \<Rightarrow> cli_command \<Rightarrow> ('w, 's) cli_state \<Rightarrow> (cli_end \<times> ('w, 's) cli_state) option" where
  "cli_dispatch env n (Cmd_Run flow exts resume verbose hist) st = cli_run env n flow exts resume verbose hist st"
| "cli_dispatch env n (Cmd_Serve flow fl verbose) st = cli_serve env n flow fl verbose st"
| "cli_dispatch env n (Cmd_Approve flow exts step) st = cli_approve env n flow exts step st"
| "cli_dispatch env n (Cmd_History hist limit) st = Some (cli_history env hist limit st)"
| "cli_dispatch env n (Cmd_Init dir) st = Some (init_project env dir st)"

section \<open>Properties\<close>

text \<open>What a run hands over to the end of the command.\<close>

definition run_entry :: "('c, 'w, 's) cli_env \<Rightarrow> string \<Rightarrow> error + run_report \<Rightarrow> run_report \<times> string option" where
  "run_entry env name res =
     (case res of
        Inr rep \<Rightarrow> (rep, None)
      | Inl e \<Rightarrow> (failed_report (ce_uuid env) name (ce_started env), Some (sv_show (ce_serve env) e)))"

definition clean_run :: "error + run_report \<Rightarrow> bool" where
  "clean_run res \<longleftrightarrow> (case res of Inl _ \<Rightarrow> False | Inr rep \<Rightarrow> st_errors (rr_stats rep) = 0)"

lemma cs_files_say [simp]: "cs_files (say ls st) = cs_files st"
  by (simp add: say_def)

lemma cs_files_set_file [simp]: "cs_files (set_file p f st) = (cs_files st)(p := f)"
  by (simp add: set_file_def)

lemma cs_files_leave [simp]: "cs_files (leave fin st) = cs_files st"
  by (cases fin) (simp_all add: leave_def)

lemma finish_run_exit:
  fixes env :: "('c, 'w, 's) cli_env"
  defines "entry \<equiv> \<lambda>name path res f. append_history (ce_history env path) (fst (run_entry env name res)) (snd (run_entry env name res)) f"
  assumes "finish_run env name verbose path res st = (out, st')"
  shows "exit_code out = 0 \<longleftrightarrow> clean_run res \<and> fst (entry name path res (cs_files st path)) = Inr ()"
    and "cs_files st' = (cs_files st)(path := snd (entry name path res (cs_files st path)))"
  using assms(2)
  by (auto simp: finish_run_def entry_def run_entry_def clean_run_def Let_def split: sum.splits prod.splits if_splits)

lemma run_setup_code: "run_setup env flow exts resume s = Inl e \<Longrightarrow> exit_code e \<noteq> 0"
  by (auto simp: run_setup_def load_all_def rbind_def Let_def split: option.splits sum.splits prod.splits)

lemma run_setup_order:
  "run_setup env flow exts resume s = Inr (cfg, reg, rc, s') \<Longrightarrow> rc_order rc = rc_order (ce_run env)"
  by (auto simp: run_setup_def opened_store_def rbind_def Let_def split: option.splits sum.splits prod.splits)

lemma load_flow_typed: "hash_order ord \<Longrightarrow> load_flow rf ri parent ord path = Some (Inr flow) \<Longrightarrow> typed_flow flow"
  by (auto simp: load_flow_def validated_typed split: sum.splits option.splits)

lemma run_setup_typed:
  assumes "hash_order (rc_order (ce_run env))" "run_setup env flow exts resume s = Inr (cfg, reg, rc, s')"
  shows "typed_flow cfg"
proof -
  obtain c r h where l: "load_all env flow exts = Inr (c, r, h)"
    using assms(2) by (cases "load_all env flow exts") (auto simp: run_setup_def)
  then have "c = cfg" using assms(2) by (auto simp: run_setup_def Let_def split: sum.splits prod.splits)
  with l show ?thesis
    using load_flow_typed [OF assms(1)] by (auto simp: load_all_def split: option.splits sum.splits)
qed

text \<open>The steps whose stream never ends: HTTP sources that poll.\<close>

definition polls_forever :: "flow_config \<Rightarrow> bool" where
  "polls_forever flow \<longleftrightarrow> list_ex (\<lambda>s. s_kind s = Some KSource \<and> s_type s = Some ''http'' \<and>
     (case step_type_config s of Inl _ \<Rightarrow> False | Inr c \<Rightarrow> opt_field str_of c ''poll_interval'' \<noteq> None)) (f_steps flow)"


text \<open>An installation without extensions, whose only flow has two steps.\<close>

definition no_world :: "disk js_world" where
  "no_world =
     \<lparr>jw_log = (\<lambda>_ _ w. w), jw_env = (\<lambda>_ _. None), jw_now = (\<lambda>w. (''now'', w)), jw_uuid = (\<lambda>w. (''id'', w)),
      jw_sleep = (\<lambda>_ w. w), jw_publish = (\<lambda>_ _ _ w. (Inr (), w)), jw_is_file = (\<lambda>p w. dk_files w p \<noteq> None),
      jw_read = (\<lambda>p w. case dk_files w p of None \<Rightarrow> Inl ''not found'' | Some t \<Rightarrow> Inr t),
      jw_write = (\<lambda>p t w. (Inr (), w\<lparr>dk_files := (dk_files w)(p \<mapsto> t)\<rparr>)),
      jw_http = (\<lambda>_ w. (Http_Fails ''offline'', w)),
      jw_db = \<lparr>db_open = (\<lambda>_ w. (Inl ''no database'', w)), db_prepare = (\<lambda>_ _ _. Inr ()),
        db_rows = (\<lambda>_ _ _ w. (Inr [], w)), db_execute = (\<lambda>_ _ _ w. (Inr (), w))\<rparr>,
      jw_state = (\<lambda>_ _. JObject []), jw_set_state = (\<lambda>_ _ w. w), jw_print = (\<lambda>_. ''?''),
      jw_parse = (\<lambda>_. None), jw_order = id\<rparr>"

definition no_network :: "disk http_net" where
  "no_network =
     \<lparr>hn_connect = (\<lambda>_ _ w. (Inl ''offline'', w)), hn_write = (\<lambda>_ w. (Inr (), w)), hn_read = (\<lambda>w. (Inr [], w)),
      hn_lossy = id, hn_json = (\<lambda>_. Inl ''not JSON''), hn_print = (\<lambda>_. ''?''), hn_sleep = (\<lambda>_ w. w), hn_polls = 0\<rparr>"

definition small_flow :: flow_config where
  "small_flow = demo_flow [demo_step ''in'' KSource ''file'', demo_step ''out'' KSink ''noop''] []"

definition demo_cli :: "(string, disk, entries) cli_env" where
  "demo_cli =
     \<lparr>ce_flow = (\<lambda>p. if p = ''flow.yaml'' then Inr small_flow else Inl (CE_Read p ''not found'')),
      ce_fragment = (\<lambda>p. Inl (CE_Read p ''not found'')), ce_parent = (\<lambda>_. None),
      ce_codec = bare_codec, ce_io = disk_io, ce_net = no_network, ce_db = jw_db no_world,
      ce_read = (\<lambda>_. Inl ''not found''), ce_js = no_world,
      ce_engine = \<lparr>en_new = Inr [], en_add = (\<lambda>_ c. Inr c), en_eval = (\<lambda>_ c. Finished (Inr Js_Undefined) c),
        en_call = (\<lambda>_ _ c. Finished (Inr Js_Undefined) c), en_number = (\<lambda>_. None),
        en_refuses = (\<lambda>_ _. ''wrong arguments''), en_preamble = []\<rparr>,
      ce_extension = (\<lambda>_ _ _. Inl Err_Timeout),
      ce_manifests = \<lparr>mv_is_dir = (\<lambda>_. False), mv_is_file = (\<lambda>_. False), mv_list = (\<lambda>_. Inl ''not found''),
        mv_read = (\<lambda>_. Inl ''not found''), mv_json = (\<lambda>_. Inl ''not JSON''), mv_yaml = (\<lambda>_. Inl ''not YAML'')\<rparr>,
      ce_builtin_root = ''cli'', ce_exists = (\<lambda>_. False), ce_store = (\<lambda>_ s. (memory_store, s)),
      ce_bus = (\<lambda>_. 2), 
      ce_run = \<lparr>rc_store = None, rc_resume = False, rc_every = None, rc_host = idle_host, rc_clock = (\<lambda>n. n),
        rc_hash = (\<lambda>_. ''0''), rc_order = rev\<rparr>,
      ce_serve = \<lparr>sv_triggers = \<lparr>te_method = Some, te_cron = (\<lambda>_. Inl [])\<rparr>, sv_start = (\<lambda>_ w. (Inr (), w)),
        sv_stop = (\<lambda>_ w. (Inr (), w)), sv_source = (\<lambda>_ w. (Inr [], w)), sv_bind = None, sv_io = demo_io,
        sv_show = (\<lambda>_. ''failed'')\<rparr>,
       ce_signal = False, ce_history = (\<lambda>_. demo_io),
      ce_uuid = ''u'', ce_started = ''t0'', ce_mkdir = (\<lambda>_. None), ce_write = (\<lambda>_ text _. (Inr (), Some text))\<rparr>"

definition fresh_state :: "(disk, entries) cli_state" where
  "fresh_state = \<lparr>cs_files = (\<lambda>_. None), cs_lines = [], cs_world = blank_disk, cs_store = []\<rparr>"

lemma small_setup:
  "run_setup demo_cli ''flow.yaml'' [] False [] = Inr (small_flow, all_steps demo_cli, ce_run demo_cli, [])"
proof -
  have "validate rev small_flow = Some (Inr ())" by code_simp
  then have "load_flow (ce_flow demo_cli) (ce_fragment demo_cli) (ce_parent demo_cli) (rc_order (ce_run demo_cli)) ''flow.yaml''
      = Some (Inr small_flow)"
    by (simp add: load_flow_def demo_cli_def rbind_def)
  moreover have "load_paths mk mv b [] x = (Inr (), x)" for mk :: "async_spec \<Rightarrow> disk factory" and mv b x
    by (simp add: load_paths_def manifest_paths_def rbind_def sort_paths_def)
  then have "registry_and_extensions demo_cli [] = Inr (all_steps demo_cli, empty_host)"
    by (simp add: registry_and_extensions_def load_stdio_extensions_def builtin_extension_paths_def)
      (simp add: demo_cli_def)
  moreover have "store_for small_flow empty_host = Inr None"
    by (simp add: store_for_def small_flow_def demo_flow_def)
  ultimately show ?thesis
    by (simp add: run_setup_def load_all_def opened_store_def rbind_def) (simp add: demo_cli_def)
qed

lemma demo_append: "append_history (ce_history demo_cli p) rep err None = (Inr (), Some (''e'' @ [newline]))"
  by (simp add: append_history_def append_line_def demo_cli_def demo_io_def file_text_def)


end
